(* ===== verification/Prelude.thy ===== *)
theory Prelude
  imports Main
begin

text \<open>
  Shared vocabulary of the development: the exceptions the services throw, the effect monad
  in which every asynchronous method of the program is written, and the collection
  \<open>exec\<close> of its execution rules.

  An \<open>async\<close> method of the program reads and writes some state, then returns a value or
  throws. It is a function from the state to a result and the state afterwards; the state
  survives an exception, as it does in the program. \<open>await\<close> between two calls is
  \<open>bindM\<close>, \<open>throw\<close> is \<open>throwM\<close>, \<open>try/catch\<close> is \<open>catchM\<close> and
  \<open>try/finally\<close> is \<open>finallyM\<close>.
\<close>

section \<open>Exceptions\<close>

text \<open>
  A Nest \<open>HttpException\<close> carries a status, the \<open>code\<close> of its structured response
  (the empty string when the exception was built from a plain message) and a message; any
  other thrown value is a plain \<open>Error\<close> with its message.
\<close>

datatype exn =
    Http (exn_status: nat) (exn_code: string) (exn_message: string)
  | JsError (exn_message: string)

definition badRequest :: "string \<Rightarrow> exn" where
  "badRequest m = Http 400 [] m"

definition unauthorized :: "string \<Rightarrow> exn" where
  "unauthorized m = Http 401 [] m"

definition forbidden :: "string \<Rightarrow> exn" where
  "forbidden m = Http 403 [] m"

definition notFound :: "string \<Rightarrow> exn" where
  "notFound m = Http 404 [] m"

definition conflict :: "string \<Rightarrow> exn" where
  "conflict m = Http 409 [] m"

definition gone :: "string \<Rightarrow> exn" where
  "gone m = Http 410 [] m"

definition payloadTooLarge :: "string \<Rightarrow> exn" where
  "payloadTooLarge m = Http 413 [] m"

definition unprocessable :: "string \<Rightarrow> exn" where
  "unprocessable m = Http 422 [] m"

definition internalError :: "string \<Rightarrow> exn" where
  "internalError m = Http 500 [] m"

lemmas exn_defs = badRequest_def unauthorized_def forbidden_def notFound_def conflict_def
  gone_def payloadTooLarge_def unprocessable_def internalError_def

text \<open>\<open>err?.status\<close>: undefined unless the error is an \<open>HttpException\<close>.\<close>

fun err_status :: "exn \<Rightarrow> nat option" where
  "err_status (Http st c m) = Some st"
| "err_status (JsError m) = None"

text \<open>\<open>err?.response?.code\<close> as a truth value.\<close>

fun err_has_code :: "exn \<Rightarrow> bool" where
  "err_has_code (Http st c m) \<longleftrightarrow> c \<noteq> []"
| "err_has_code (JsError m) \<longleftrightarrow> False"

text \<open>\<open>x ?? d\<close>.\<close>

definition orElse :: "'a option \<Rightarrow> 'a \<Rightarrow> 'a" where
  "orElse v d = (case v of None \<Rightarrow> d | Some x \<Rightarrow> x)"

lemma orElse_simps [simp]: "orElse None d = d" "orElse (Some x) d = x"
  by (simp_all add: orElse_def)

section \<open>The effect monad\<close>

type_synonym ('s, 'a) eff = "'s \<Rightarrow> (exn + 'a) \<times> 's"

named_theorems exec "execution rules of the effect monad and of the primitive operations"

definition retM :: "'a \<Rightarrow> ('s, 'a) eff" where
  "retM x s = (Inr x, s)"

definition throwM :: "exn \<Rightarrow> ('s, 'a) eff" where
  "throwM e s = (Inl e, s)"

definition bindM :: "('s, 'a) eff \<Rightarrow> ('a \<Rightarrow> ('s, 'b) eff) \<Rightarrow> ('s, 'b) eff" where
  "bindM m f s = (case m s of (Inl e, s') \<Rightarrow> (Inl e, s') | (Inr x, s') \<Rightarrow> f x s')"

definition thenM :: "('s, 'a) eff \<Rightarrow> ('s, 'b) eff \<Rightarrow> ('s, 'b) eff" where
  "thenM m n = bindM m (\<lambda>_. n)"

definition catchM :: "('s, 'a) eff \<Rightarrow> (exn \<Rightarrow> ('s, 'a) eff) \<Rightarrow> ('s, 'a) eff" where
  "catchM m h s = (case m s of (Inl e, s') \<Rightarrow> h e s' | (Inr x, s') \<Rightarrow> (Inr x, s'))"

definition finallyM :: "('s, 'a) eff \<Rightarrow> ('s, unit) eff \<Rightarrow> ('s, 'a) eff" where
  "finallyM m f s =
     (case m s of (r, s') \<Rightarrow>
        (case f s' of (Inl e, s'') \<Rightarrow> (Inl e, s'') | (Inr _, s'') \<Rightarrow> (r, s'')))"

definition getsM :: "('s \<Rightarrow> 'a) \<Rightarrow> ('s, 'a) eff" where
  "getsM f s = (Inr (f s), s)"

definition modifyM :: "('s \<Rightarrow> 's) \<Rightarrow> ('s, unit) eff" where
  "modifyM f s = (Inr (), f s)"

text \<open>\<open>if (c) throw e;\<close>\<close>

definition throwIfM :: "bool \<Rightarrow> exn \<Rightarrow> ('s, unit) eff" where
  "throwIfM c e = (if c then throwM e else retM ())"

text \<open>\<open>.catch(() => undefined)\<close> on a promise whose value is not used.\<close>

definition bestEffortM :: "('s, 'a) eff \<Rightarrow> ('s, unit) eff" where
  "bestEffortM m = catchM (bindM m (\<lambda>_. retM ())) (\<lambda>_. retM ())"

text \<open>A \<open>for .. of\<close> loop of effectful steps.\<close>

fun eachM :: "('a \<Rightarrow> ('s, unit) eff) \<Rightarrow> 'a list \<Rightarrow> ('s, unit) eff" where
  "eachM f [] = retM ()"
| "eachM f (x # xs) = bindM (f x) (\<lambda>_. eachM f xs)"

text \<open>The results of a batch of commands, in order (\<open>pipeline.exec()\<close>).\<close>

fun mapM :: "('a \<Rightarrow> ('s, 'b) eff) \<Rightarrow> 'a list \<Rightarrow> ('s, 'b list) eff" where
  "mapM f [] = retM []"
| "mapM f (x # xs) = bindM (f x) (\<lambda>y. bindM (mapM f xs) (\<lambda>ys. retM (y # ys)))"

text \<open>
  The state after an operation. The laws of an external service are stated as
  \<open>op s = (Inr v, post op s)\<close> together with what is observable of \<open>post op s\<close>, so that
  the simplifier runs a handler call by call.
\<close>

definition post :: "('s, 'a) eff \<Rightarrow> 's \<Rightarrow> 's" where
  "post m s = snd (m s)"

definition result :: "('s, 'a) eff \<Rightarrow> 's \<Rightarrow> exn + 'a" where
  "result m s = fst (m s)"

lemma eff_split: "m s = (result m s, post m s)"
  by (simp add: result_def post_def)

lemmas eff_basic [exec] = retM_def throwM_def bindM_def thenM_def catchM_def finallyM_def getsM_def
  modifyM_def throwIfM_def bestEffortM_def

lemma bindM_retM [simp]: "bindM (retM x) f = f x"
  by (rule ext) (simp add: exec)

lemma bindM_assoc: "bindM (bindM m f) g = bindM m (\<lambda>x. bindM (f x) g)"
  by (rule ext) (simp add: bindM_def split: prod.split sum.split)

lemma bindM_ret_right [simp]: "bindM m retM = m"
  by (rule ext) (simp add: bindM_def retM_def split: prod.split sum.split)

lemma bindM_throwM [simp]: "bindM (throwM e) f = throwM e"
  by (rule ext) (simp add: exec)

lemma bindM_ok: "m s = (Inr x, s') \<Longrightarrow> bindM m f s = f x s'"
  by (simp add: bindM_def)

lemma bindM_err: "m s = (Inl e, s') \<Longrightarrow> bindM m f s = (Inl e, s')"
  by (simp add: bindM_def)

lemma bindM_InrE:
  assumes "bindM m f s = (Inr y, s'')"
  obtains x s' where "m s = (Inr x, s')" and "f x s' = (Inr y, s'')"
  using assms by (auto simp: bindM_def split: prod.splits sum.splits)

lemma bindM_InlE:
  assumes "bindM m f s = (Inl e, s'')"
  obtains (first) "m s = (Inl e, s'')"
  | (second) x s' where "m s = (Inr x, s')" and "f x s' = (Inl e, s'')"
  using assms by (auto simp: bindM_def split: prod.splits sum.splits)

section \<open>Invariants of effectful operations\<close>

text \<open>
  \<open>keeps I m\<close>: whatever \<open>m\<close> returns or throws, it maps states satisfying \<open>I\<close> to
  states satisfying \<open>I\<close>. The rules follow the structure of a handler.
\<close>

definition keeps :: "('s \<Rightarrow> bool) \<Rightarrow> ('s, 'a) eff \<Rightarrow> bool" where
  "keeps I m \<longleftrightarrow> (\<forall>s. I s \<longrightarrow> I (snd (m s)))"

named_theorems keeps_intro "compositional invariant rules"

lemma keepsI: "(\<And>s r s'. I s \<Longrightarrow> m s = (r, s') \<Longrightarrow> I s') \<Longrightarrow> keeps I m"
  by (simp add: keeps_def) (metis prod.collapse)

lemma keepsD: "keeps I m \<Longrightarrow> I s \<Longrightarrow> m s = (r, s') \<Longrightarrow> I s'"
  by (metis keeps_def snd_conv)

lemma keeps_retM [keeps_intro]: "keeps I (retM x)"
  by (simp add: keeps_def retM_def)

lemma keeps_throwM [keeps_intro]: "keeps I (throwM e)"
  by (simp add: keeps_def throwM_def)

lemma keeps_getsM [keeps_intro]: "keeps I (getsM f)"
  by (simp add: keeps_def getsM_def)

lemma keeps_bindM [keeps_intro]: "keeps I m \<Longrightarrow> (\<And>x. keeps I (f x)) \<Longrightarrow> keeps I (bindM m f)"
  unfolding keeps_def bindM_def by (fastforce split: prod.splits sum.splits)

lemma keeps_thenM [keeps_intro]: "keeps I m \<Longrightarrow> keeps I n \<Longrightarrow> keeps I (thenM m n)"
  by (simp add: thenM_def keeps_bindM)

lemma keeps_catchM [keeps_intro]:
  "keeps I m \<Longrightarrow> (\<And>e. keeps I (h e)) \<Longrightarrow> keeps I (catchM m h)"
  unfolding keeps_def catchM_def by (fastforce split: prod.splits sum.splits)

lemma keeps_finallyM [keeps_intro]: "keeps I m \<Longrightarrow> keeps I f \<Longrightarrow> keeps I (finallyM m f)"
  unfolding keeps_def finallyM_def by (fastforce split: prod.splits sum.splits)

lemma keeps_throwIfM [keeps_intro]: "keeps I (throwIfM c e)"
  by (simp add: throwIfM_def keeps_intro)

lemma keeps_bestEffortM [keeps_intro]: "keeps I m \<Longrightarrow> keeps I (bestEffortM m)"
  by (simp add: bestEffortM_def keeps_intro)

lemma keeps_if [keeps_intro]: "keeps I m \<Longrightarrow> keeps I n \<Longrightarrow> keeps I (if c then m else n)"
  by simp

lemma keeps_eachM [keeps_intro]: "(\<And>x. x \<in> set xs \<Longrightarrow> keeps I (f x)) \<Longrightarrow> keeps I (eachM f xs)"
  by (induction xs) (auto intro: keeps_intro)

lemma keeps_mapM [keeps_intro]: "(\<And>x. x \<in> set xs \<Longrightarrow> keeps I (f x)) \<Longrightarrow> keeps I (mapM f xs)"
  by (induction xs) (auto intro!: keeps_intro)

section \<open>Lists without duplicates\<close>

text \<open>\<open>Array.from(new Set(xs))\<close>: the first occurrence of each element, in order.\<close>

fun js_unique :: "'a list \<Rightarrow> 'a list" where
  "js_unique [] = []"
| "js_unique (x # xs) = x # filter (\<lambda>y. y \<noteq> x) (js_unique xs)"

lemma set_js_unique [simp]: "set (js_unique xs) = set xs"
  by (induction xs) auto

lemma distinct_js_unique [simp]: "distinct (js_unique xs)"
  by (induction xs) auto

lemma js_unique_distinct: "distinct xs \<Longrightarrow> js_unique xs = xs"
  by (induction xs) (auto intro: filter_True)

end
