(* ===== verification/RedisApi.thy ===== *)
theory RedisApi
  imports JsText
begin

text \<open>
  The Redis client the services are given (\<open>@Inject('REDIS')\<close>). The server is not part of
  the repository, so its commands are a parameter: a record \<open>redis_ops\<close> of the commands the
  code calls, over an abstract server state \<open>'r\<close>. Each command takes the current time in
  milliseconds, may fail (a rejected promise) and may change the state.

  What the code relies on is the locale \<open>redis_api\<close>: an observation \<open>view\<close> of the
  server state (live strings with their expiry time, sets, sorted sets) and one documented law
  per command. The theory \<open>FakeRedis\<close> discharges the laws for the in-memory client of the
  repository's tests. Strings, sets and sorted sets are observed separately; the theory
  \<open>Session\<close> shows that no key of the session store is used with two types.
\<close>

section \<open>Commands\<close>

record 'r redis_ops =
  r_get :: "int \<Rightarrow> string \<Rightarrow> ('r, string option) eff"
  r_set_ex :: "int \<Rightarrow> string \<Rightarrow> string \<Rightarrow> int \<Rightarrow> ('r, unit) eff"
  r_getdel :: "(int \<Rightarrow> string \<Rightarrow> ('r, string option) eff) option"
  r_del :: "int \<Rightarrow> string \<Rightarrow> ('r, unit) eff"
  r_incr :: "int \<Rightarrow> string \<Rightarrow> ('r, int) eff"
  r_expire :: "int \<Rightarrow> string \<Rightarrow> int \<Rightarrow> ('r, int) eff"
  r_ttl :: "int \<Rightarrow> string \<Rightarrow> ('r, int) eff"
  r_sadd :: "int \<Rightarrow> string \<Rightarrow> string \<Rightarrow> ('r, unit) eff"
  r_srem :: "int \<Rightarrow> string \<Rightarrow> string \<Rightarrow> ('r, unit) eff"
  r_smembers :: "int \<Rightarrow> string \<Rightarrow> ('r, string list) eff"
  r_zadd :: "int \<Rightarrow> string \<Rightarrow> int \<Rightarrow> string \<Rightarrow> ('r, unit) eff"
  r_zrem :: "int \<Rightarrow> string \<Rightarrow> string \<Rightarrow> ('r, unit) eff"
  r_zrevrange :: "int \<Rightarrow> string \<Rightarrow> int \<Rightarrow> int \<Rightarrow> ('r, string list) eff"

section \<open>What can be observed of a server\<close>

record rview =
  strs :: "string \<Rightarrow> (string \<times> int option) option"
  rsets :: "string \<Rightarrow> string set"
  zscores :: "string \<Rightarrow> (string \<Rightarrow> int option)"

definition sget :: "rview \<Rightarrow> string \<Rightarrow> string option" where
  "sget v k = map_option fst (strs v k)"

definition v_set :: "string \<Rightarrow> string \<Rightarrow> int option \<Rightarrow> rview \<Rightarrow> rview" where
  "v_set k x e v = v\<lparr>strs := (strs v)(k := Some (x, e))\<rparr>"

definition v_del :: "string \<Rightarrow> rview \<Rightarrow> rview" where
  "v_del k v = \<lparr>strs = (strs v)(k := None), rsets = (rsets v)(k := {}), zscores = (zscores v)(k := Map.empty)\<rparr>"

definition v_sadd :: "string \<Rightarrow> string \<Rightarrow> rview \<Rightarrow> rview" where
  "v_sadd k m v = v\<lparr>rsets := (rsets v)(k := insert m (rsets v k))\<rparr>"

definition v_srem :: "string \<Rightarrow> string \<Rightarrow> rview \<Rightarrow> rview" where
  "v_srem k m v = v\<lparr>rsets := (rsets v)(k := rsets v k - {m})\<rparr>"

definition v_zadd :: "string \<Rightarrow> int \<Rightarrow> string \<Rightarrow> rview \<Rightarrow> rview" where
  "v_zadd k s m v = v\<lparr>zscores := (zscores v)(k := (zscores v k)(m := Some s))\<rparr>"

definition v_zrem :: "string \<Rightarrow> string \<Rightarrow> rview \<Rightarrow> rview" where
  "v_zrem k m v = v\<lparr>zscores := (zscores v)(k := (zscores v k)(m := None))\<rparr>"

text \<open>The number a counter key stands for; an absent key counts 0.\<close>

definition counter :: "rview \<Rightarrow> string \<Rightarrow> int option" where
  "counter v k = (case strs v k of None \<Rightarrow> Some 0 | Some (s, e) \<Rightarrow> int_of_str s)"

definition expiry :: "rview \<Rightarrow> string \<Rightarrow> int option" where
  "expiry v k = (case strs v k of None \<Rightarrow> None | Some (s, e) \<Rightarrow> e)"

text \<open>\<open>TTL\<close>: -2 for no key, -1 for no expiry, otherwise the seconds left, rounded up.\<close>

definition ttl_of :: "int \<Rightarrow> rview \<Rightarrow> string \<Rightarrow> int" where
  "ttl_of now v k =
     (case strs v k of
        None \<Rightarrow> -2
      | Some (s, None) \<Rightarrow> -1
      | Some (s, Some e) \<Rightarrow> - ((now - e) div 1000))"

definition slice :: "int \<Rightarrow> int \<Rightarrow> 'a list \<Rightarrow> 'a list" where
  "slice a b xs = take (nat (b + 1 - a)) (drop (nat a) xs)"

lemma set_slice: "set (slice a b xs) \<subseteq> set xs"
  unfolding slice_def by (meson order_trans set_drop_subset set_take_subset)

named_theorems rview_simps "what the observations see of an updated view"

lemma strs_updates [rview_simps]:
  "strs (v_set k x e v) k' = (if k' = k then Some (x, e) else strs v k')"
  "strs (v_del k v) k' = (if k' = k then None else strs v k')"
  "strs (v_sadd k m v) = strs v" "strs (v_srem k m v) = strs v"
  "strs (v_zadd k s m v) = strs v" "strs (v_zrem k m v) = strs v"
  by (simp_all add: v_set_def v_del_def v_sadd_def v_srem_def v_zadd_def v_zrem_def)

lemma rsets_updates [rview_simps]:
  "rsets (v_set k x e v) = rsets v"
  "rsets (v_del k v) k' = (if k' = k then {} else rsets v k')"
  "rsets (v_sadd k m v) k' = (if k' = k then insert m (rsets v k') else rsets v k')"
  "rsets (v_srem k m v) k' = (if k' = k then rsets v k' - {m} else rsets v k')"
  "rsets (v_zadd k s m v) = rsets v" "rsets (v_zrem k m v) = rsets v"
  by (simp_all add: v_set_def v_del_def v_sadd_def v_srem_def v_zadd_def v_zrem_def)

lemma zscores_updates [rview_simps]:
  "zscores (v_set k x e v) = zscores v"
  "zscores (v_del k v) k' = (if k' = k then Map.empty else zscores v k')"
  "zscores (v_sadd k m v) = zscores v" "zscores (v_srem k m v) = zscores v"
  "zscores (v_zadd k s m v) k' = (if k' = k then (zscores v k')(m := Some s) else zscores v k')"
  "zscores (v_zrem k m v) k' = (if k' = k then (zscores v k')(m := None) else zscores v k')"
  by (simp_all add: v_set_def v_del_def v_sadd_def v_srem_def v_zadd_def v_zrem_def)

lemma sget_updates [rview_simps]:
  "sget (v_set k x e v) k' = (if k' = k then Some x else sget v k')"
  "sget (v_del k v) k' = (if k' = k then None else sget v k')"
  "sget (v_sadd k m v) k' = sget v k'" "sget (v_srem k m v) k' = sget v k'"
  "sget (v_zadd k s m v) k' = sget v k'" "sget (v_zrem k m v) k' = sget v k'"
  by (simp_all add: sget_def rview_simps)

section \<open>The documented laws\<close>

locale redis_api =
  fixes R :: "'r redis_ops"
    and ok :: "int \<Rightarrow> 'r \<Rightarrow> bool"
    and view :: "int \<Rightarrow> 'r \<Rightarrow> rview"
    and slist :: "'r \<Rightarrow> string \<Rightarrow> string list"
    and zlist :: "'r \<Rightarrow> string \<Rightarrow> string list"
  assumes get_run: "ok now r \<Longrightarrow> r_get R now k r = (Inr (sget (view now r) k), post (r_get R now k) r)"
    and get_ok: "ok now r \<Longrightarrow> ok now (post (r_get R now k) r)"
    and get_view: "ok now r \<Longrightarrow> view now (post (r_get R now k) r) = view now r"
    and set_run: "ok now r \<Longrightarrow> 0 < t \<Longrightarrow> r_set_ex R now k x t r = (Inr (), post (r_set_ex R now k x t) r)"
    and set_ok: "ok now r \<Longrightarrow> 0 < t \<Longrightarrow> ok now (post (r_set_ex R now k x t) r)"
    and set_view: "ok now r \<Longrightarrow> 0 < t \<Longrightarrow>
      view now (post (r_set_ex R now k x t) r) = v_set k x (Some (now + 1000 * t)) (view now r)"
    and getdel_run: "ok now r \<Longrightarrow> r_getdel R = Some gd \<Longrightarrow>
      gd now k r = (Inr (sget (view now r) k), post (gd now k) r)"
    and getdel_ok: "ok now r \<Longrightarrow> r_getdel R = Some gd \<Longrightarrow> ok now (post (gd now k) r)"
    and getdel_view: "ok now r \<Longrightarrow> r_getdel R = Some gd \<Longrightarrow>
      view now (post (gd now k) r) = v_del k (view now r)"
    and del_run: "ok now r \<Longrightarrow> r_del R now k r = (Inr (), post (r_del R now k) r)"
    and del_ok: "ok now r \<Longrightarrow> ok now (post (r_del R now k) r)"
    and del_view: "ok now r \<Longrightarrow> view now (post (r_del R now k) r) = v_del k (view now r)"
    and incr_run: "ok now r \<Longrightarrow> counter (view now r) k = Some n \<Longrightarrow>
      r_incr R now k r = (Inr (n + 1), post (r_incr R now k) r)"
    and incr_ok: "ok now r \<Longrightarrow> counter (view now r) k = Some n \<Longrightarrow> ok now (post (r_incr R now k) r)"
    and incr_view: "ok now r \<Longrightarrow> counter (view now r) k = Some n \<Longrightarrow>
      view now (post (r_incr R now k) r) = v_set k (int_str (n + 1)) (expiry (view now r) k) (view now r)"
    and expire_run: "ok now r \<Longrightarrow> 0 < t \<Longrightarrow> strs (view now r) k = Some (x, e) \<Longrightarrow>
      r_expire R now k t r = (Inr 1, post (r_expire R now k t) r)"
    and expire_ok: "ok now r \<Longrightarrow> 0 < t \<Longrightarrow> strs (view now r) k = Some (x, e) \<Longrightarrow>
      ok now (post (r_expire R now k t) r)"
    and expire_view: "ok now r \<Longrightarrow> 0 < t \<Longrightarrow> strs (view now r) k = Some (x, e) \<Longrightarrow>
      view now (post (r_expire R now k t) r) = v_set k x (Some (now + 1000 * t)) (view now r)"
    and ttl_run: "ok now r \<Longrightarrow> r_ttl R now k r = (Inr (ttl_of now (view now r) k), post (r_ttl R now k) r)"
    and ttl_ok: "ok now r \<Longrightarrow> ok now (post (r_ttl R now k) r)"
    and ttl_view: "ok now r \<Longrightarrow> view now (post (r_ttl R now k) r) = view now r"
    and sadd_run: "ok now r \<Longrightarrow> r_sadd R now k m r = (Inr (), post (r_sadd R now k m) r)"
    and sadd_ok: "ok now r \<Longrightarrow> ok now (post (r_sadd R now k m) r)"
    and sadd_view: "ok now r \<Longrightarrow> view now (post (r_sadd R now k m) r) = v_sadd k m (view now r)"
    and srem_run: "ok now r \<Longrightarrow> r_srem R now k m r = (Inr (), post (r_srem R now k m) r)"
    and srem_ok: "ok now r \<Longrightarrow> ok now (post (r_srem R now k m) r)"
    and srem_view: "ok now r \<Longrightarrow> view now (post (r_srem R now k m) r) = v_srem k m (view now r)"
    and smembers_run: "ok now r \<Longrightarrow> r_smembers R now k r = (Inr (slist r k), post (r_smembers R now k) r)"
    and smembers_ok: "ok now r \<Longrightarrow> ok now (post (r_smembers R now k) r)"
    and smembers_view: "ok now r \<Longrightarrow> view now (post (r_smembers R now k) r) = view now r"
    and slist_set: "ok now r \<Longrightarrow> set (slist r k) = rsets (view now r) k"
    and slist_distinct: "ok now r \<Longrightarrow> distinct (slist r k)"
    and zadd_run: "ok now r \<Longrightarrow> r_zadd R now k s m r = (Inr (), post (r_zadd R now k s m) r)"
    and zadd_ok: "ok now r \<Longrightarrow> ok now (post (r_zadd R now k s m) r)"
    and zadd_view: "ok now r \<Longrightarrow> view now (post (r_zadd R now k s m) r) = v_zadd k s m (view now r)"
    and zrem_run: "ok now r \<Longrightarrow> r_zrem R now k m r = (Inr (), post (r_zrem R now k m) r)"
    and zrem_ok: "ok now r \<Longrightarrow> ok now (post (r_zrem R now k m) r)"
    and zrem_view: "ok now r \<Longrightarrow> view now (post (r_zrem R now k m) r) = v_zrem k m (view now r)"
    and zrevrange_run: "ok now r \<Longrightarrow> 0 \<le> a \<Longrightarrow> 0 \<le> b \<Longrightarrow>
      r_zrevrange R now k a b r = (Inr (slice a b (zlist r k)), post (r_zrevrange R now k a b) r)"
    and zrevrange_ok: "ok now r \<Longrightarrow> ok now (post (r_zrevrange R now k a b) r)"
    and zrevrange_view: "ok now r \<Longrightarrow> view now (post (r_zrevrange R now k a b) r) = view now r"
    and zlist_set: "ok now r \<Longrightarrow> set (zlist r k) = dom (zscores (view now r) k)"
    and zlist_distinct: "ok now r \<Longrightarrow> distinct (zlist r k)"
    and zlist_sorted: "ok now r \<Longrightarrow>
      sorted_wrt (\<lambda>m m'. the (zscores (view now r) k m') \<le> the (zscores (view now r) k m)) (zlist r k)"
begin

lemmas redis_run = get_run set_run getdel_run del_run incr_run expire_run ttl_run sadd_run srem_run
  smembers_run zadd_run zrem_run zrevrange_run

lemmas redis_ok = get_ok set_ok getdel_ok del_ok incr_ok expire_ok ttl_ok sadd_ok srem_ok
  smembers_ok zadd_ok zrem_ok zrevrange_ok

lemmas redis_view = get_view set_view getdel_view del_view incr_view expire_view ttl_view sadd_view
  srem_view smembers_view zadd_view zrem_view zrevrange_view

text \<open>Everything the simplifier needs to run a handler command by command.\<close>

lemmas redis_laws = redis_run redis_ok redis_view

end

end
