(* ===== verification/AuthWorld.thy ===== *)
theory AuthWorld
  imports RedisApi
begin

text \<open>
  The state the authentication services act on: the Redis server, the database (an abstract
  state owned by Prisma, not by this repository), the clock and the supply of random UUIDs.
  The clock does not move while one request is handled; between requests the environment moves
  it. The theory also lifts the laws of \<open>redis_api\<close> to this state and proves, once, how a
  batch of write commands acts on what can be observed of the server.
\<close>

record ('r, 'd) auth_world =
  w_redis :: 'r
  w_db :: 'd
  w_now :: int
  w_ctr :: nat

text \<open>One Redis command, issued at the current time.\<close>

definition redisM :: "(int \<Rightarrow> ('r, 'a) eff) \<Rightarrow> (('r, 'd) auth_world, 'a) eff" where
  "redisM c w = (case c (w_now w) (w_redis w) of (x, r') \<Rightarrow> (x, w\<lparr>w_redis := r'\<rparr>))"

text \<open>\<open>Date.now()\<close> and \<open>randomUUID()\<close>.\<close>

definition dateNow :: "(('r, 'd) auth_world, int) eff" where
  "dateNow = getsM w_now"

definition randomUUID :: "(nat \<Rightarrow> string) \<Rightarrow> (('r, 'd) auth_world, string) eff" where
  "randomUUID uuid w = (Inr (uuid (w_ctr w)), w\<lparr>w_ctr := Suc (w_ctr w)\<rparr>)"

text \<open>An operation on the part of the world outside the cache: the database, and the messages sent.\<close>

definition dbM :: "('d, 'a) eff \<Rightarrow> (('r, 'd) auth_world, 'a) eff" where
  "dbM m w = (case m (w_db w) of (x, d') \<Rightarrow> (x, w\<lparr>w_db := d'\<rparr>))"

text \<open>\<open>crypto.randomInt(0, b)\<close>, drawn from the same supply as the identifiers.\<close>

definition randomInt :: "(nat \<Rightarrow> nat \<Rightarrow> nat) \<Rightarrow> nat \<Rightarrow> (('r, 'd) auth_world, nat) eff" where
  "randomInt rnd b w = (Inr (rnd b (w_ctr w)), w\<lparr>w_ctr := Suc (w_ctr w)\<rparr>)"

text \<open>
  \<open>pipeline().exec()\<close> and \<open>multi().exec()\<close>: the commands run in order, a failing command
  is recorded in its slot and does not stop the batch.
\<close>

definition attemptM :: "('s, 'a) eff \<Rightarrow> ('s, exn + 'a) eff" where
  "attemptM m s = (case m s of (x, s') \<Rightarrow> (Inr x, s'))"

definition pipeline_exec :: "('s, 'a) eff list \<Rightarrow> ('s, (exn + 'a) list) eff" where
  "pipeline_exec cs = mapM attemptM cs"

text \<open>A batch whose results are not read.\<close>

definition batchM :: "('s, unit) eff list \<Rightarrow> ('s, unit) eff" where
  "batchM cs = bindM (pipeline_exec cs) (\<lambda>_. retM ())"

section \<open>Observing the world\<close>

definition wview :: "(int \<Rightarrow> 'r \<Rightarrow> rview) \<Rightarrow> ('r, 'd) auth_world \<Rightarrow> rview" where
  "wview view w = view (w_now w) (w_redis w)"

definition wok :: "(int \<Rightarrow> 'r \<Rightarrow> bool) \<Rightarrow> ('r, 'd) auth_world \<Rightarrow> bool" where
  "wok ok w \<longleftrightarrow> ok (w_now w) (w_redis w)"

text \<open>
  A write command succeeds and changes nothing but the observed server, by \<open>g\<close> (which may
  use the current time).
\<close>

definition acts ::
  "(int \<Rightarrow> 'r \<Rightarrow> bool) \<Rightarrow> (int \<Rightarrow> 'r \<Rightarrow> rview) \<Rightarrow> (('r, 'd) auth_world, unit) eff
    \<Rightarrow> (int \<Rightarrow> rview \<Rightarrow> rview) \<Rightarrow> bool"
where
  "acts ok view c g \<longleftrightarrow> (\<forall>w. wok ok w \<longrightarrow>
     (\<exists>r'. c w = (Inr (), w\<lparr>w_redis := r'\<rparr>) \<and> ok (w_now w) r' \<and>
           view (w_now w) r' = g (w_now w) (wview view w)))"

lemma actsE:
  assumes "acts ok view c g" and "wok ok w"
  obtains w' where "c w = (Inr (), w')" and "wok ok w'" and "wview view w' = g (w_now w) (wview view w)"
    and "w_now w' = w_now w" and "w_db w' = w_db w" and "w_ctr w' = w_ctr w"
proof -
  from assms obtain r' where "c w = (Inr (), w\<lparr>w_redis := r'\<rparr>)" "ok (w_now w) r'"
    "view (w_now w) r' = g (w_now w) (wview view w)" unfolding acts_def by blast
  then show ?thesis using that [of "w\<lparr>w_redis := r'\<rparr>"] by (simp add: wok_def wview_def)
qed

lemma actsI:
  assumes "\<And>w. wok ok w \<Longrightarrow> c w = (Inr (), w\<lparr>w_redis := f w\<rparr>) \<and> ok (w_now w) (f w) \<and>
     view (w_now w) (f w) = g (w_now w) (wview view w)"
  shows "acts ok view c g"
  using assms unfolding acts_def by blast

lemma acts_thenM:
  fixes c d :: "(('r, 'd) auth_world, unit) eff"
  assumes c: "acts ok view c g" and d: "acts ok view d h"
  shows "acts ok view (thenM c d) (\<lambda>n v. h n (g n v))"
  unfolding acts_def
proof (intro allI impI)
  fix w :: "('r, 'd) auth_world"
  assume "wok ok w"
  with c obtain r1 where 1: "c w = (Inr (), w\<lparr>w_redis := r1\<rparr>)" "ok (w_now w) r1"
    "view (w_now w) r1 = g (w_now w) (wview view w)" unfolding acts_def by blast
  then have "wok ok (w\<lparr>w_redis := r1\<rparr>)" by (simp add: wok_def)
  with d obtain r2 where "d (w\<lparr>w_redis := r1\<rparr>) = (Inr (), w\<lparr>w_redis := r2\<rparr>)" "ok (w_now w) r2"
    "view (w_now w) r2 = h (w_now w) (view (w_now w) r1)"
    unfolding acts_def wview_def by fastforce
  with 1 show "\<exists>r'. thenM c d w = (Inr (), w\<lparr>w_redis := r'\<rparr>) \<and> ok (w_now w) r' \<and>
      view (w_now w) r' = h (w_now w) (g (w_now w) (wview view w))"
    by (auto simp: exec)
qed

lemma acts_ret: "acts ok view (retM ()) (\<lambda>n v. v)"
  by (rule actsI [where f = w_redis]) (simp add: retM_def wok_def wview_def)

lemma batchM_Nil: "batchM [] = retM ()"
  by (rule ext) (simp add: batchM_def pipeline_exec_def)

lemma batchM_Cons: "batchM (c # cs) = bindM (attemptM c) (\<lambda>_. batchM cs)"
  by (rule ext) (simp add: batchM_def pipeline_exec_def bindM_assoc)

lemma acts_attempt: "acts ok view c g \<Longrightarrow> acts ok view (bindM (attemptM c) (\<lambda>_. retM ())) g"
  unfolding acts_def by (fastforce simp: attemptM_def exec)

text \<open>The effect of a batch: the effects of its commands, in order.\<close>

definition effects :: "(int \<Rightarrow> rview \<Rightarrow> rview) list \<Rightarrow> int \<Rightarrow> rview \<Rightarrow> rview" where
  "effects gs n v = fold (\<lambda>g. g n) gs v"

lemma effects_simps [simp]:
  "effects [] n v = v" "effects (g # gs) n v = effects gs n (g n v)"
  "effects (gs @ hs) n v = effects hs n (effects gs n v)"
  by (simp_all add: effects_def)

lemma acts_batch:
  assumes "list_all2 (acts ok view) cs gs"
  shows "acts ok view (batchM cs) (effects gs)"
  using assms
proof (induction cs gs rule: list_all2_induct)
  case Nil
  then show ?case by (simp add: batchM_Nil effects_def acts_ret)
next
  case (Cons c cs g gs)
  have "acts ok view (thenM (bindM (attemptM c) (\<lambda>_. retM ())) (batchM cs)) (\<lambda>n v. effects gs n (g n v))"
    using Cons by (intro acts_thenM acts_attempt)
  moreover have "thenM (bindM (attemptM c) (\<lambda>_. retM ())) (batchM cs) = batchM (c # cs)"
    by (rule ext) (simp add: thenM_def batchM_Cons bindM_assoc)
  moreover have "effects (g # gs) = (\<lambda>n v. effects gs n (g n v))"
    by (intro ext) simp
  ultimately show ?case by simp
qed

section \<open>The commands of the interface, in the world\<close>

text \<open>The state after a command that only reads.\<close>

definition rstep :: "(int \<Rightarrow> ('r, 'a) eff) \<Rightarrow> ('r, 'd) auth_world \<Rightarrow> ('r, 'd) auth_world" where
  "rstep c w = w\<lparr>w_redis := post (c (w_now w)) (w_redis w)\<rparr>"

lemma rstep_rest [simp]:
  "w_now (rstep c w) = w_now w" "w_db (rstep c w) = w_db w" "w_ctr (rstep c w) = w_ctr w"
  by (simp_all add: rstep_def)

context redis_api
begin

lemma acts_set:
  "0 < t \<Longrightarrow> acts ok view (redisM (\<lambda>n. r_set_ex R n k x t)) (\<lambda>n. v_set k x (Some (n + 1000 * t)))"
  by (rule actsI [where f = "\<lambda>w. post (r_set_ex R (w_now w) k x t) (w_redis w)"])
     (simp add: redisM_def wok_def wview_def redis_laws)

lemma acts_del: "acts ok view (redisM (\<lambda>n. r_del R n k)) (\<lambda>n. v_del k)"
  by (rule actsI [where f = "\<lambda>w. post (r_del R (w_now w) k) (w_redis w)"])
     (simp add: redisM_def wok_def wview_def redis_laws)

lemma acts_sadd: "acts ok view (redisM (\<lambda>n. r_sadd R n k m)) (\<lambda>n. v_sadd k m)"
  by (rule actsI [where f = "\<lambda>w. post (r_sadd R (w_now w) k m) (w_redis w)"])
     (simp add: redisM_def wok_def wview_def redis_laws)

lemma acts_srem: "acts ok view (redisM (\<lambda>n. r_srem R n k m)) (\<lambda>n. v_srem k m)"
  by (rule actsI [where f = "\<lambda>w. post (r_srem R (w_now w) k m) (w_redis w)"])
     (simp add: redisM_def wok_def wview_def redis_laws)

lemma acts_zadd: "acts ok view (redisM (\<lambda>n. r_zadd R n k s m)) (\<lambda>n. v_zadd k s m)"
  by (rule actsI [where f = "\<lambda>w. post (r_zadd R (w_now w) k s m) (w_redis w)"])
     (simp add: redisM_def wok_def wview_def redis_laws)

lemma acts_zrem: "acts ok view (redisM (\<lambda>n. r_zrem R n k m)) (\<lambda>n. v_zrem k m)"
  by (rule actsI [where f = "\<lambda>w. post (r_zrem R (w_now w) k m) (w_redis w)"])
     (simp add: redisM_def wok_def wview_def redis_laws)

lemmas acts_commands = acts_set acts_del acts_sadd acts_srem acts_zadd acts_zrem

lemma get_world:
  assumes "wok ok w"
  shows "redisM (\<lambda>n. r_get R n k) w = (Inr (sget (wview view w) k), rstep (\<lambda>n. r_get R n k) w)"
    and "wok ok (rstep (\<lambda>n. r_get R n k) w)" and "wview view (rstep (\<lambda>n. r_get R n k) w) = wview view w"
  using assms by (simp_all add: redisM_def rstep_def wok_def wview_def redis_laws)

lemma smembers_world:
  assumes "wok ok w"
  shows "redisM (\<lambda>n. r_smembers R n k) w = (Inr (slist (w_redis w) k), rstep (\<lambda>n. r_smembers R n k) w)"
    and "wok ok (rstep (\<lambda>n. r_smembers R n k) w)"
    and "wview view (rstep (\<lambda>n. r_smembers R n k) w) = wview view w"
    and "set (slist (w_redis w) k) = rsets (wview view w) k" and "distinct (slist (w_redis w) k)"
  using assms slist_set [of "w_now w" "w_redis w" k] slist_distinct [of "w_now w" "w_redis w" k]
  by (simp_all add: redisM_def rstep_def wok_def wview_def redis_laws)

lemma zrevrange_world:
  assumes "wok ok w" and "0 \<le> a" and "0 \<le> b"
  shows "redisM (\<lambda>n. r_zrevrange R n k a b) w = (Inr (slice a b (zlist (w_redis w) k)), rstep (\<lambda>n. r_zrevrange R n k a b) w)"
    and "wok ok (rstep (\<lambda>n. r_zrevrange R n k a b) w)"
    and "wview view (rstep (\<lambda>n. r_zrevrange R n k a b) w) = wview view w"
  using assms by (simp_all add: redisM_def rstep_def wok_def wview_def redis_laws)

lemma ttl_world:
  assumes "wok ok w"
  shows "redisM (\<lambda>n. r_ttl R n k) w = (Inr (ttl_of (w_now w) (wview view w) k), rstep (\<lambda>n. r_ttl R n k) w)"
    and "wok ok (rstep (\<lambda>n. r_ttl R n k) w)" and "wview view (rstep (\<lambda>n. r_ttl R n k) w) = wview view w"
  using assms by (simp_all add: redisM_def rstep_def wok_def wview_def redis_laws)

lemma incr_world:
  assumes "wok ok w" and "counter (wview view w) k = Some c"
  shows "redisM (\<lambda>n. r_incr R n k) w = (Inr (c + 1), rstep (\<lambda>n. r_incr R n k) w)"
    and "wok ok (rstep (\<lambda>n. r_incr R n k) w)"
    and "wview view (rstep (\<lambda>n. r_incr R n k) w) = v_set k (int_str (c + 1)) (expiry (wview view w) k) (wview view w)"
  using assms incr_run incr_ok incr_view by (simp_all add: redisM_def rstep_def wok_def wview_def)

lemma expire_world:
  assumes "wok ok w" and "0 < t" and "strs (wview view w) k = Some (x, e)"
  shows "redisM (\<lambda>n. r_expire R n k t) w = (Inr 1, rstep (\<lambda>n. r_expire R n k t) w)"
    and "wok ok (rstep (\<lambda>n. r_expire R n k t) w)"
    and "wview view (rstep (\<lambda>n. r_expire R n k t) w) = v_set k x (Some (w_now w + 1000 * t)) (wview view w)"
  using assms expire_run expire_ok expire_view by (simp_all add: redisM_def rstep_def wok_def wview_def)

lemmas reads_world = get_world smembers_world zrevrange_world ttl_world

text \<open>A batch of reads returns what is observed at each key and changes nothing observable.\<close>

lemma get_batch:
  assumes "wok ok w"
  shows "\<exists>w'. pipeline_exec (map (\<lambda>k. redisM (\<lambda>n. r_get R n k)) ks) w =
      (Inr (map (\<lambda>k. Inr (sget (wview view w) k)) ks), w') \<and>
    wok ok w' \<and> wview view w' = wview view w \<and> w_now w' = w_now w \<and> w_db w' = w_db w \<and> w_ctr w' = w_ctr w"
  using assms
proof (induction ks arbitrary: w)
  case Nil
  then show ?case by (simp add: pipeline_exec_def exec)
next
  case (Cons k ks)
  note g = get_world [OF Cons.prems, of k]
  from Cons.IH [OF g(2)] obtain w' where
    "pipeline_exec (map (\<lambda>k. redisM (\<lambda>n. r_get R n k)) ks) (rstep (\<lambda>n. r_get R n k) w) =
      (Inr (map (\<lambda>k. Inr (sget (wview view w) k)) ks), w')" and
    "wok ok w' \<and> wview view w' = wview view w \<and> w_now w' = w_now w \<and> w_db w' = w_db w \<and> w_ctr w' = w_ctr w"
    using g(3) by auto
  then show ?case using g(1) by (simp add: pipeline_exec_def attemptM_def exec)
qed

lemma smembers_batch:
  assumes "wok ok w"
  shows "\<exists>w' xss. pipeline_exec (map (\<lambda>k. redisM (\<lambda>n. r_smembers R n k)) ks) w = (Inr (map Inr xss), w') \<and>
    list_all2 (\<lambda>k xs. set xs = rsets (wview view w) k) ks xss \<and>
    wok ok w' \<and> wview view w' = wview view w \<and> w_now w' = w_now w \<and> w_db w' = w_db w \<and> w_ctr w' = w_ctr w"
  using assms
proof (induction ks arbitrary: w)
  case Nil
  then show ?case by (simp add: pipeline_exec_def exec)
next
  case (Cons k ks)
  note g = smembers_world [OF Cons.prems, of k]
  from Cons.IH [OF g(2)] obtain w' xss where
    "pipeline_exec (map (\<lambda>k. redisM (\<lambda>n. r_smembers R n k)) ks) (rstep (\<lambda>n. r_smembers R n k) w) =
      (Inr (map Inr xss), w')" and "list_all2 (\<lambda>k xs. set xs = rsets (wview view w) k) ks xss" and
    "wok ok w' \<and> wview view w' = wview view w \<and> w_now w' = w_now w \<and> w_db w' = w_db w \<and> w_ctr w' = w_ctr w"
    using g(3) by auto
  then show ?case using g(1, 4)
    by (intro exI [of _ w'] exI [of _ "slist (w_redis w) k # xss"])
       (simp add: pipeline_exec_def attemptM_def exec)
qed

end

end
