(* ===== verification/Json.thy ===== *)
theory Json
  imports JsText
begin

text \<open>
  \<open>JSON.stringify\<close> and \<open>JSON.parse\<close>, the two functions of the language's library through
  which every record the services keep in Redis passes. The number type holds integers (the
  program stores counters and millisecond timestamps); a literal with a fraction or an exponent
  is accepted by the parser and kept as its text, \<open>JDec\<close>. A \<open>\\u\<close> escape above
  \<open>00ff\<close> is outside the model's character range and is refused.

  The main result is the round trip: parsing what was printed gives the value back.
\<close>

datatype json =
    JNull
  | JBool bool
  | JNum int
  | JDec string
  | JStr string
  | JArr "json list"
  | JObj "(string \<times> json) list"

section \<open>Printing\<close>

definition hex_char :: "nat \<Rightarrow> char" where
  "hex_char n = (if n < 10 then char_of (48 + n) else char_of (87 + n))"

definition esc_char :: "char \<Rightarrow> string" where
  "esc_char c =
     (let n = (of_char c :: nat) in
      if n = 34 then [CHR 0x5C, CHR 0x22]
      else if n = 92 then [CHR 0x5C, CHR 0x5C]
      else if n = 8 then [CHR 0x5C, CHR ''b'']
      else if n = 9 then [CHR 0x5C, CHR ''t'']
      else if n = 10 then [CHR 0x5C, CHR ''n'']
      else if n = 12 then [CHR 0x5C, CHR ''f'']
      else if n = 13 then [CHR 0x5C, CHR ''r'']
      else if n < 32 then [CHR 0x5C, CHR ''u'', CHR ''0'', CHR ''0'', hex_char (n div 16), hex_char (n mod 16)]
      else [c])"

definition str_print :: "string \<Rightarrow> string" where
  "str_print s = CHR 0x22 # concat (map esc_char s) @ [CHR 0x22]"

fun json_print :: "json \<Rightarrow> string" where
  "json_print JNull = ''null''"
| "json_print (JBool b) = (if b then ''true'' else ''false'')"
| "json_print (JNum i) = int_str i"
| "json_print (JDec s) = s"
| "json_print (JStr s) = str_print s"
| "json_print (JArr xs) = CHR ''['' # join_with '','' (map json_print xs) @ '']''"
| "json_print (JObj kvs) =
     CHR ''{'' # join_with '','' (map (\<lambda>(k, v). str_print k @ CHR '':'' # json_print v) kvs) @ ''}''"

section \<open>Parsing\<close>

definition is_ws :: "char \<Rightarrow> bool" where
  "is_ws c \<longleftrightarrow> (of_char c :: nat) \<in> {32, 9, 10, 13}"

definition skip_ws :: "string \<Rightarrow> string" where
  "skip_ws s = dropWhile is_ws s"

definition hex_val :: "char \<Rightarrow> nat option" where
  "hex_val c =
     (let n = (of_char c :: nat) in
      if 48 \<le> n \<and> n \<le> 57 then Some (n - 48)
      else if 97 \<le> n \<and> n \<le> 102 then Some (n - 87)
      else if 65 \<le> n \<and> n \<le> 70 then Some (n - 55)
      else None)"

definition unesc :: "char \<Rightarrow> char option" where
  "unesc e =
     (if e = CHR 0x22 then Some (CHR 0x22)
      else if e = CHR 0x5C then Some (CHR 0x5C)
      else if e = CHR ''/'' then Some (CHR ''/'')
      else if e = CHR ''b'' then Some (char_of (8 :: nat))
      else if e = CHR ''t'' then Some (char_of (9 :: nat))
      else if e = CHR ''n'' then Some (char_of (10 :: nat))
      else if e = CHR ''f'' then Some (char_of (12 :: nat))
      else if e = CHR ''r'' then Some (char_of (13 :: nat))
      else None)"

definition unesc_hex :: "char \<Rightarrow> char \<Rightarrow> char \<Rightarrow> char \<Rightarrow> char option" where
  "unesc_hex a b c d =
     (case (hex_val a, hex_val b, hex_val c, hex_val d) of
        (Some 0, Some 0, Some x, Some y) \<Rightarrow> Some (char_of (16 * x + y))
      | _ \<Rightarrow> None)"

definition cons_char :: "char \<Rightarrow> (string \<times> string) option \<Rightarrow> (string \<times> string) option" where
  "cons_char c r = map_option (\<lambda>(s, rest). (c # s, rest)) r"

text \<open>The characters of a string literal after its opening quote.\<close>

fun parse_chars :: "string \<Rightarrow> (string \<times> string) option" where
  "parse_chars [] = None"
| "parse_chars (c # cs) =
     (if c = CHR 0x22 then Some ([], cs)
      else if c = CHR 0x5C then
        (case cs of
           [] \<Rightarrow> None
         | e # es \<Rightarrow>
             if e = CHR ''u'' then
               (case es of
                  h1 # h2 # h3 # h4 # rest \<Rightarrow>
                    (case unesc_hex h1 h2 h3 h4 of
                       None \<Rightarrow> None
                     | Some d \<Rightarrow> cons_char d (parse_chars rest))
                | _ \<Rightarrow> None)
             else (case unesc e of None \<Rightarrow> None | Some d \<Rightarrow> cons_char d (parse_chars es)))
      else if (of_char c :: nat) < 32 then None
      else cons_char c (parse_chars cs))"

text \<open>A number literal: sign, integer part without leading zeros, fraction, exponent.\<close>

definition parse_frac :: "string \<Rightarrow> (string \<times> string) option" where
  "parse_frac s =
     (case s of
        c # cs \<Rightarrow>
          if c = CHR ''.'' then
            (let ds = takeWhile is_digit cs in if ds = [] then None else Some (c # ds, dropWhile is_digit cs))
          else Some ([], s)
      | [] \<Rightarrow> Some ([], s))"

definition parse_exp :: "string \<Rightarrow> (string \<times> string) option" where
  "parse_exp s =
     (case s of
        c # cs \<Rightarrow>
          if c = CHR ''e'' \<or> c = CHR ''E'' then
            (let sg = takeWhile (\<lambda>x. x = CHR ''+'' \<or> x = CHR ''-'') (take 1 cs);
                 r = drop (length sg) cs; ds = takeWhile is_digit r
             in if ds = [] then None else Some (c # sg @ ds, dropWhile is_digit r))
          else Some ([], s)
      | [] \<Rightarrow> Some ([], s))"

definition parse_num :: "string \<Rightarrow> (json \<times> string) option" where
  "parse_num s =
     (let sg = takeWhile (\<lambda>x. x = CHR ''-'') (take 1 s);
          r = drop (length sg) s;
          ds = takeWhile is_digit r;
          r1 = dropWhile is_digit r
      in if ds = [] \<or> (hd ds = CHR ''0'' \<and> length ds > 1) then None
         else (case parse_frac r1 of
                 None \<Rightarrow> None
               | Some (fr, r2) \<Rightarrow>
                   (case parse_exp r2 of
                      None \<Rightarrow> None
                    | Some (ex, r3) \<Rightarrow>
                        if fr = [] \<and> ex = []
                        then Some (JNum (if sg = [] then int (digits_val ds) else - int (digits_val ds)), r3)
                        else Some (JDec (sg @ ds @ fr @ ex), r3))))"

fun parse_val :: "nat \<Rightarrow> string \<Rightarrow> (json \<times> string) option"
  and parse_elems :: "nat \<Rightarrow> string \<Rightarrow> (json list \<times> string) option"
  and parse_members :: "nat \<Rightarrow> string \<Rightarrow> ((string \<times> json) list \<times> string) option" where
  "parse_val 0 s = None"
| "parse_val (Suc n) s =
     (case s of
        [] \<Rightarrow> None
      | c # cs \<Rightarrow>
          if c = CHR 0x22 then map_option (\<lambda>(t, rest). (JStr t, rest)) (parse_chars cs)
          else if c = CHR ''['' then
            (case skip_ws cs of
               [] \<Rightarrow> None
             | d # ds \<Rightarrow>
                 if d = CHR '']'' then Some (JArr [], ds)
                 else map_option (\<lambda>(xs, rest). (JArr xs, rest)) (parse_elems n (d # ds)))
          else if c = CHR ''{'' then
            (case skip_ws cs of
               [] \<Rightarrow> None
             | d # ds \<Rightarrow>
                 if d = CHR ''}'' then Some (JObj [], ds)
                 else map_option (\<lambda>(xs, rest). (JObj xs, rest)) (parse_members n (d # ds)))
          else if starts_with s ''null'' then Some (JNull, drop 4 s)
          else if starts_with s ''true'' then Some (JBool True, drop 4 s)
          else if starts_with s ''false'' then Some (JBool False, drop 5 s)
          else parse_num s)"
| "parse_elems 0 s = None"
| "parse_elems (Suc n) s =
     (case parse_val n s of
        None \<Rightarrow> None
      | Some (v, r) \<Rightarrow>
          (case skip_ws r of
             [] \<Rightarrow> None
           | d # ds \<Rightarrow>
               if d = CHR '']'' then Some ([v], ds)
               else if d = CHR '','' then
                 map_option (\<lambda>(xs, rest). (v # xs, rest)) (parse_elems n (skip_ws ds))
               else None))"
| "parse_members 0 s = None"
| "parse_members (Suc n) s =
     (case s of
        [] \<Rightarrow> None
      | q # qs \<Rightarrow>
          if q \<noteq> CHR 0x22 then None
          else (case parse_chars qs of
                  None \<Rightarrow> None
                | Some (k, r) \<Rightarrow>
                    (case skip_ws r of
                       [] \<Rightarrow> None
                     | d # ds \<Rightarrow>
                         if d \<noteq> CHR '':'' then None
                         else (case parse_val n (skip_ws ds) of
                                 None \<Rightarrow> None
                               | Some (v, r2) \<Rightarrow>
                                   (case skip_ws r2 of
                                      [] \<Rightarrow> None
                                    | e # es \<Rightarrow>
                                        if e = CHR ''}'' then Some ([(k, v)], es)
                                        else if e = CHR '','' then
                                          map_option (\<lambda>(xs, rest). ((k, v) # xs, rest))
                                            (parse_members n (skip_ws es))
                                        else None)))))"

text \<open>
  \<open>JSON.parse\<close>: \<open>None\<close> when it throws a \<open>SyntaxError\<close>. Every nested call of the parser
  consumes a character, so the length of the text is enough fuel.
\<close>

definition json_parse :: "string \<Rightarrow> json option" where
  "json_parse s =
     (case parse_val (Suc (length s)) (skip_ws s) of
        None \<Rightarrow> None
      | Some (v, rest) \<Rightarrow> if skip_ws rest = [] then Some v else None)"

text \<open>Property access \<open>obj.k\<close>: the last binding wins; \<open>undefined\<close> is \<open>None\<close>.\<close>

fun jfield :: "string \<Rightarrow> json \<Rightarrow> json option" where
  "jfield k (JObj kvs) = map_of (rev kvs) k"
| "jfield k _ = None"

fun jstr :: "json option \<Rightarrow> string option" where
  "jstr (Some (JStr s)) = Some s"
| "jstr _ = None"

fun jnum :: "json option \<Rightarrow> int option" where
  "jnum (Some (JNum i)) = Some i"
| "jnum _ = None"

text \<open>A member that \<open>JSON.stringify\<close> leaves out when its value is \<open>undefined\<close>.\<close>

definition opt_member :: "string \<Rightarrow> string option \<Rightarrow> (string \<times> json) list" where
  "opt_member k v = (case v of None \<Rightarrow> [] | Some s \<Rightarrow> [(k, JStr s)])"

section \<open>The round trip\<close>

lemma hex_val_char [simp]: "n < 16 \<Longrightarrow> hex_val (hex_char n) = Some n"
  by (auto simp: hex_val_def hex_char_def Let_def)

lemma esc_char_low: "n < 32 \<Longrightarrow> (of_char c :: nat) = n \<Longrightarrow> n \<notin> {8, 9, 10, 12, 13} \<Longrightarrow>
  parse_chars (esc_char c @ t) = cons_char c (parse_chars t)"
proof -
  assume a: "n < 32" "(of_char c :: nat) = n" "n \<notin> {8, 9, 10, 12, 13}"
  have z: "hex_val (CHR ''0'') = Some 0" by (simp add: hex_val_def)
  have dm: "n div 16 < 16" "n mod 16 < 16" using a(1) by auto
  have "unesc_hex (CHR ''0'') (CHR ''0'') (hex_char (n div 16)) (hex_char (n mod 16)) = Some (char_of (16 * (n div 16) + n mod 16))"
    using dm by (simp add: unesc_hex_def z)
  also have "\<dots> = Some c" using a(2) by (simp flip: a(2))
  finally show ?thesis using a by (simp add: esc_char_def Let_def)
qed

lemma char_of_of_charD: "(of_char c :: nat) = n \<Longrightarrow> c = char_of n"
  by auto

lemma parse_esc_char: "parse_chars (esc_char c @ t) = cons_char c (parse_chars t)"
proof -
  let ?n = "of_char c :: nat"
  have u: "unesc (CHR ''b'') = Some (char_of (8 :: nat))" "unesc (CHR ''t'') = Some (char_of (9 :: nat))"
     "unesc (CHR ''n'') = Some (char_of (10 :: nat))" "unesc (CHR ''f'') = Some (char_of (12 :: nat))"
     "unesc (CHR ''r'') = Some (char_of (13 :: nat))" "unesc (CHR 0x22) = Some (CHR 0x22)" "unesc (CHR 0x5C) = Some (CHR 0x5C)"
    by (simp_all add: unesc_def)
  have q: "char_of (34 :: nat) = CHR 0x22" "char_of (92 :: nat) = CHR 0x5C"
    by (simp_all add: char_of_eq_iff)
  consider "?n = 34" | "?n = 92" | "?n \<in> {8, 9, 10, 12, 13}" | "?n < 32" "?n \<notin> {8, 9, 10, 12, 13}"
    | "?n \<ge> 32" "?n \<noteq> 34" "?n \<noteq> 92" by fastforce
  then show ?thesis
  proof cases
    case 1
    then show ?thesis using char_of_of_charD [OF 1] u q by (simp add: esc_char_def)
  next
    case 2
    then show ?thesis using char_of_of_charD [OF 2] u q by (simp add: esc_char_def)
  next
    case 3
    then show ?thesis using u by (auto simp: esc_char_def Let_def dest: char_of_of_charD)
  next
    case 4
    then show ?thesis using esc_char_low by blast
  next
    case 5
    then have "c \<noteq> CHR 0x22" "c \<noteq> CHR 0x5C" by auto
    with 5 show ?thesis by (simp add: esc_char_def Let_def)
  qed
qed

lemma parse_chars_print: "parse_chars (concat (map esc_char s) @ CHR 0x22 # rest) = Some (s, rest)"
  by (induction s) (simp_all add: parse_esc_char cons_char_def)

lemma nat_str_hd_nonzero: "n > 0 \<Longrightarrow> hd (nat_str n) \<noteq> CHR ''0''"
proof (induction n rule: nat_str.induct)
  case (1 n)
  show ?case
  proof (cases "n < 10")
    case True
    have "digit_char n \<noteq> CHR ''0''" using True 1(2)
      by (auto simp: digit_char_def char_of_eq_iff take_bit_eq_mod)
    with True show ?thesis by (simp add: nat_str.simps [of n])
  next
    case False
    then have "hd (nat_str (n div 10)) \<noteq> CHR ''0''" using 1 by simp
    with False show ?thesis by (simp add: nat_str.simps [of n])
  qed
qed

lemma nat_str_no_leading_zero: "length (nat_str n) > 1 \<Longrightarrow> hd (nat_str n) \<noteq> CHR ''0''"
proof -
  assume "length (nat_str n) > 1"
  then have "n > 0" by (cases n) (auto simp: nat_str.simps [of 0])
  then show ?thesis by (rule nat_str_hd_nonzero)
qed

definition num_stop :: "string \<Rightarrow> bool" where
  "num_stop s = (case s of [] \<Rightarrow> True | c # _ \<Rightarrow> \<not> is_digit c \<and> c \<noteq> CHR ''.'' \<and> c \<noteq> CHR ''e'' \<and> c \<noteq> CHR ''E'')"

lemma num_stop_nil [simp]: "num_stop []"
  by (simp add: num_stop_def)

lemma num_stop_frac: "num_stop s \<Longrightarrow> parse_frac s = Some ([], s)"
  by (auto simp: num_stop_def parse_frac_def split: list.splits)

lemma num_stop_exp: "num_stop s \<Longrightarrow> parse_exp s = Some ([], s)"
  by (auto simp: num_stop_def parse_exp_def split: list.splits)

lemma digits_span:
  assumes "list_all is_digit ds" and "num_stop rest"
  shows "takeWhile is_digit (ds @ rest) = ds" and "dropWhile is_digit (ds @ rest) = rest"
  using assms by (induction ds) (auto simp: num_stop_def split: list.splits)

lemma parse_num_print:
  assumes "num_stop rest"
  shows "parse_num (int_str i @ rest) = Some (JNum i, rest)"
proof (cases "i < 0")
  case True
  let ?ds = "nat_str (nat (- i))"
  have "parse_num (int_str i @ rest) = Some (JNum (- int (digits_val ?ds)), rest)"
    using True assms nat_str_no_leading_zero [of "nat (- i)"]
    by (auto simp: parse_num_def int_str_def Let_def digits_span nat_str_digits num_stop_frac num_stop_exp)
  with True show ?thesis by simp
next
  case False
  let ?ds = "nat_str (nat i)"
  obtain c cs where cc: "?ds = c # cs"
    using nat_str_nonempty [of "nat i"] by (cases ?ds) auto
  then have "is_digit c" using nat_str_digits [of "nat i"] by simp
  then have "c \<noteq> CHR ''-''" by auto
  then have sg: "takeWhile (\<lambda>x. x = CHR ''-'') (take (Suc 0) (?ds @ rest)) = []" by (simp add: cc)
  have "parse_num (int_str i @ rest) = Some (JNum (int (digits_val ?ds)), rest)"
    using False assms nat_str_no_leading_zero [of "nat i"]
    by (auto simp: parse_num_def int_str_def Let_def sg digits_span nat_str_digits num_stop_frac num_stop_exp simp del: take_append)
  with False show ?thesis by simp
qed

text \<open>Values whose printed form the parser reads back: everything but a raw decimal text.\<close>

fun json_plain :: "json \<Rightarrow> bool" where
  "json_plain (JDec s) \<longleftrightarrow> False"
| "json_plain (JArr xs) \<longleftrightarrow> (\<forall>x\<in>set xs. json_plain x)"
| "json_plain (JObj kvs) \<longleftrightarrow> (\<forall>kv\<in>set kvs. json_plain (snd kv))"
| "json_plain _ \<longleftrightarrow> True"

text \<open>The first character of a printed value decides how the parser reads it.\<close>

lemma int_str_hd:
  obtains c cs where "int_str i = c # cs" and "c = CHR ''-'' \<or> is_digit c"
proof (cases "i < 0")
  case True
  then show ?thesis using that by (simp add: int_str_def)
next
  case False
  obtain c cs where cc: "nat_str (nat i) = c # cs"
    using nat_str_nonempty [of "nat i"] by (cases "nat_str (nat i)") auto
  moreover have "is_digit c" using nat_str_digits [of "nat i"] cc by simp
  ultimately show ?thesis using that False by (simp add: int_str_def)
qed

lemma digit_ws: "c = CHR ''-'' \<or> is_digit c \<Longrightarrow> \<not> is_ws c"
  by (auto simp: is_digit_def is_ws_def)

lemma print_head:
  assumes "json_plain j"
  obtains c cs where "json_print j = c # cs" and "\<not> is_ws c" and "c \<noteq> CHR '']''" and "c \<noteq> CHR ''}''"
proof (cases j)
  case (JNum i)
  obtain c cs where c: "int_str i = c # cs" "c = CHR ''-'' \<or> is_digit c" by (rule int_str_hd)
  moreover have "\<not> is_ws c" using c(2) by (rule digit_ws)
  moreover have "c \<noteq> CHR '']''" "c \<noteq> CHR ''}''" using c(2) by (auto simp: is_digit_def)
  ultimately show ?thesis using that JNum by simp
next
  case (JBool b)
  then show ?thesis using that by (cases b) (auto simp: is_ws_def)
qed (use assms that in \<open>auto simp: is_ws_def str_print_def\<close>)

lemma skip_ws_head: "\<not> is_ws c \<Longrightarrow> skip_ws (c # cs) = c # cs"
  by (simp add: skip_ws_def)

lemma parse_val_num:
  assumes "num_stop rest"
  shows "parse_val (Suc n) (int_str i @ rest) = Some (JNum i, rest)"
proof -
  obtain c cs where c: "int_str i = c # cs" "c = CHR ''-'' \<or> is_digit c" by (rule int_str_hd)
  have "c \<noteq> CHR 0x22 \<and> c \<noteq> CHR ''['' \<and> c \<noteq> CHR ''{'' \<and> c \<noteq> CHR ''n'' \<and> c \<noteq> CHR ''t'' \<and> c \<noteq> CHR ''f''"
    using c(2) by (auto simp: is_digit_def)
  moreover have "parse_num ((c # cs) @ rest) = Some (JNum i, rest)"
    using parse_num_print [OF assms, of i] c(1) by simp
  ultimately show ?thesis by (simp add: c(1))
qed

lemma num_stop_sep [simp]: "num_stop (CHR '','' # s)" "num_stop (CHR '']'' # s)" "num_stop (CHR ''}'' # s)"
  by (simp_all add: num_stop_def is_digit_def)

lemma ws_sep [simp]: "skip_ws (CHR '','' # s) = CHR '','' # s" "skip_ws (CHR '']'' # s) = CHR '']'' # s"
  "skip_ws (CHR ''}'' # s) = CHR ''}'' # s" "skip_ws (CHR '':'' # s) = CHR '':'' # s"
  "skip_ws (CHR 0x22 # s) = CHR 0x22 # s"
  by (simp_all add: skip_ws_def is_ws_def)

lemma skip_ws_print: "json_plain j \<Longrightarrow> skip_ws (json_print j @ s) = json_print j @ s"
  by (rule print_head [of j]) (auto simp: skip_ws_head)

definition reads_back :: "json \<Rightarrow> bool" where
  "reads_back j \<longleftrightarrow> (\<forall>n rest. length (json_print j) < n \<longrightarrow> num_stop rest \<longrightarrow>
     parse_val n (json_print j @ rest) = Some (j, rest))"


lemma json_print_length: "json_plain j \<Longrightarrow> 0 < length (json_print j)"
  by (rule print_head [of j]) auto

lemma join_cons2: "xs \<noteq> [] \<Longrightarrow> join_with sep (x # xs) = x @ sep @ join_with sep xs"
  by (cases xs) auto

lemma skip_ws_join:
  assumes "xs \<noteq> []" and "\<forall>x\<in>set xs. json_plain x"
  shows "skip_ws (join_with '','' (map json_print xs) @ s) = join_with '','' (map json_print xs) @ s"
  using assms
proof (cases xs)
  case (Cons x ys)
  with assms show ?thesis
    using skip_ws_print [of x] by (cases ys) auto
qed simp

lemma parse_elems_print:
  assumes "xs \<noteq> []" and "\<forall>x\<in>set xs. json_plain x \<and> reads_back x"
    and "length (join_with '','' (map json_print xs)) + 1 < n"
  shows "parse_elems n (join_with '','' (map json_print xs) @ CHR '']'' # rest) = Some (xs, rest)"
  using assms
proof (induction xs arbitrary: n)
  case (Cons x xs)
  then obtain m where n: "n = Suc m" by (cases n) auto
  show ?case
  proof (cases "xs = []")
    case True
    have "parse_val m (json_print x @ CHR '']'' # rest) = Some (x, CHR '']'' # rest)"
      using Cons.prems True n by (auto simp: reads_back_def)
    with True n show ?thesis by simp
  next
    case False
    let ?J = "join_with '','' (map json_print xs)"
    have J: "join_with '','' (map json_print (x # xs)) = json_print x @ '','' @ ?J"
      using False by (simp add: join_cons2)
    have "0 < length (json_print x)" using Cons.prems(2) by (simp add: json_print_length del: length_greater_0_conv)
    then have len: "length (json_print x) < m" "length ?J + 1 < m"
      using Cons.prems(3) J n by auto
    have "parse_elems m (?J @ CHR '']'' # rest) = Some (xs, rest)"
      using Cons.IH [OF False] Cons.prems(2) len by simp
    moreover have "parse_val m (json_print x @ CHR '','' # ?J @ CHR '']'' # rest) = Some (x, CHR '','' # ?J @ CHR '']'' # rest)"
      using Cons.prems(2) len by (auto simp: reads_back_def)
    ultimately show ?thesis
      using J n skip_ws_join [OF False] Cons.prems(2) by simp
  qed
qed simp

definition member_print :: "string \<times> json \<Rightarrow> string" where
  "member_print kv = str_print (fst kv) @ CHR '':'' # json_print (snd kv)"

lemma json_print_obj: "json_print (JObj kvs) = CHR ''{'' # join_with '','' (map member_print kvs) @ ''}''"
  by (simp add: member_print_def case_prod_beta' cong: map_cong)

lemma skip_ws_members:
  "xs \<noteq> [] \<Longrightarrow> skip_ws (join_with '','' (map member_print xs) @ s) = join_with '','' (map member_print xs) @ s"
  by (cases xs; cases "tl xs") (auto simp: member_print_def str_print_def)

lemma members_head:
  "xs \<noteq> [] \<Longrightarrow> \<exists>cs. join_with '','' (map member_print xs) @ s = CHR 0x22 # cs"
  by (cases xs; cases "tl xs") (auto simp: member_print_def str_print_def)

lemma parse_member_step:
  assumes "json_plain v" and "reads_back v" and "length (json_print v) < m" and "num_stop r"
    and "skip_ws r = e # es"
  shows "parse_members (Suc m) (member_print (k, v) @ r) =
    (if e = CHR ''}'' then Some ([(k, v)], es)
     else if e = CHR '','' then map_option (\<lambda>(xs, rest). ((k, v) # xs, rest)) (parse_members m (skip_ws es))
     else None)"
proof -
  have 1: "parse_chars (concat (map esc_char k) @ CHR 0x22 # CHR '':'' # json_print v @ r) = Some (k, CHR '':'' # json_print v @ r)"
    by (rule parse_chars_print)
  have 2: "parse_val m (json_print v @ r) = Some (v, r)"
    using assms by (simp add: reads_back_def)
  show ?thesis using 1 2 assms(1, 5)
    by (simp add: member_print_def str_print_def skip_ws_print)
qed

lemma parse_members_print:
  assumes "xs \<noteq> []" and "\<forall>kv\<in>set xs. json_plain (snd kv) \<and> reads_back (snd kv)"
    and "length (join_with '','' (map member_print xs)) + 1 < n"
  shows "parse_members n (join_with '','' (map member_print xs) @ CHR ''}'' # rest) = Some (xs, rest)"
  using assms
proof (induction xs arbitrary: n)
  case (Cons x xs)
  obtain k v where x: "x = (k, v)" by (cases x)
  from Cons obtain m where n: "n = Suc m" by (cases n) auto
  show ?case
  proof (cases "xs = []")
    case True
    then have "length (json_print v) < m"
      using Cons.prems(3) n x by (simp add: member_print_def)
    then show ?thesis using Cons.prems(2) True n x by (simp add: parse_member_step del: parse_members.simps)
  next
    case False
    let ?J = "join_with '','' (map member_print xs)"
    have J: "join_with '','' (map member_print (x # xs)) = member_print x @ '','' @ ?J"
      using False by (simp add: join_cons2)
    have len: "length (json_print v) < m" "length ?J + 1 < m"
      using Cons.prems(3) n unfolding J by (simp_all add: x member_print_def str_print_def)
    have "parse_members m (?J @ CHR ''}'' # rest) = Some (xs, rest)"
      using Cons.IH [OF False] Cons.prems(2) len by simp
    then show ?thesis
      using Cons.prems(2) len skip_ws_members [OF False]
      unfolding J by (simp add: x n parse_member_step del: parse_members.simps)
  qed
qed simp

lemma json_reads_back: "json_plain j \<Longrightarrow> reads_back j"
proof (induction j)
  case (JArr xs)
  show ?case
  proof (cases "xs = []")
    case True
    then show ?thesis by (auto simp: reads_back_def gr0_conv_Suc less_Suc_eq_0_disj neq0_conv [symmetric] Suc_less_eq2)
  next
    case False
    have "json_plain (hd xs)" using JArr.prems False by simp
    then obtain c cs where c: "json_print (hd xs) = c # cs" "\<not> is_ws c" "c \<noteq> CHR '']''"
      by (rule print_head)
    obtain ds where d: "join_with '','' (map json_print xs) = c # ds"
      using c(1) False by (cases xs; cases "tl xs") auto
    show ?thesis
      unfolding reads_back_def
    proof (intro allI impI)
      fix n rest
      assume l: "length (json_print (JArr xs)) < n" and "num_stop rest"
      then obtain m where n: "n = Suc m" by (cases n) auto
      have "parse_elems m (join_with '','' (map json_print xs) @ CHR '']'' # rest) = Some (xs, rest)"
        using JArr l n False by (intro parse_elems_print) auto
      then show "parse_val n (json_print (JArr xs) @ rest) = Some (JArr xs, rest)"
        using c(2, 3) by (simp add: n d skip_ws_head)
    qed
  qed
next
  case (JObj kvs)
  show ?case
  proof (cases "kvs = []")
    case True
    then show ?thesis by (auto simp: reads_back_def Suc_less_eq2)
  next
    case False
    show ?thesis
      unfolding reads_back_def
    proof (intro allI impI)
      fix n rest
      assume l: "length (json_print (JObj kvs)) < n" and "num_stop rest"
      then obtain m where n: "n = Suc m" by (cases n) auto
      have *: "\<forall>kv\<in>set kvs. json_plain (snd kv) \<and> reads_back (snd kv)"
        using JObj by (auto simp: prod_set_defs)
      have "parse_members m (join_with '','' (map member_print kvs) @ CHR ''}'' # rest) = Some (kvs, rest)"
        using * l n False unfolding json_print_obj by (intro parse_members_print) auto
      moreover obtain cs where "join_with '','' (map member_print kvs) @ CHR ''}'' # rest = CHR 0x22 # cs"
        using members_head [OF False] by blast
      ultimately show "parse_val n (json_print (JObj kvs) @ rest) = Some (JObj kvs, rest)"
        unfolding json_print_obj n by simp
    qed
  qed
next
  case (JNum i)
  show ?case unfolding reads_back_def
  proof (intro allI impI)
    fix n rest assume "length (json_print (JNum i)) < n" and s: "num_stop rest"
    then obtain m where n: "n = Suc m" by (cases n) auto
    show "parse_val n (json_print (JNum i) @ rest) = Some (JNum i, rest)"
      using parse_val_num [OF s] by (simp add: n)
  qed
next
  case (JStr s)
  then show ?case
    by (auto simp: reads_back_def str_print_def Suc_less_eq2 parse_chars_print)
qed (auto simp: reads_back_def Suc_less_eq2)

theorem json_roundtrip:
  assumes "json_plain j"
  shows "json_parse (json_print j) = Some j"
proof -
  have "parse_val (Suc (length (json_print j))) (json_print j @ []) = Some (j, [])"
    using json_reads_back [OF assms] unfolding reads_back_def by (meson lessI num_stop_nil)
  then show ?thesis
    using skip_ws_print [OF assms, of "[]"] by (simp add: json_parse_def skip_ws_def)
qed

end
