(* ===== verification/Session.thy ===== *)
theory Session
  imports AuthWorld Json
begin

text \<open>
  The session store, \<open>core/auth/session/session.service.ts\<close>: one JSON record per session with
  a time to live, a set and a sorted set that index the sessions of a user, and per session a
  set of the refresh-token identifiers (jti) issued for it with a reverse index from jti to
  session. Every method of \<open>SessionService\<close> is a definition; records read back from Redis are
  JSON values, as \<open>JSON.parse(..) as SessionRecord\<close> does not check their shape.
\<close>

section \<open>Data\<close>

record SessionRecord =
  s_id :: string
  s_userId :: string
  s_ip :: "string option"
  s_userAgent :: "string option"
  s_device :: "string option"
  s_createdAt :: int
  s_lastUsedAt :: int
  s_revokedAt :: "int option"

record CreateSessionInput =
  ci_userId :: string
  ci_ip :: "string option"
  ci_userAgent :: "string option"
  ci_device :: "string option"

record ListPageOptions =
  lp_offset :: "int option"
  lp_limit :: "int option"

text \<open>\<open>JSON.stringify(rec)\<close>: members that are \<open>undefined\<close> are left out.\<close>

definition session_json :: "SessionRecord \<Rightarrow> json" where
  "session_json r = JObj
     ([(''id'', JStr (s_id r)), (''userId'', JStr (s_userId r))]
      @ opt_member ''ip'' (s_ip r) @ opt_member ''userAgent'' (s_userAgent r)
      @ opt_member ''device'' (s_device r)
      @ [(''createdAt'', JNum (s_createdAt r)), (''lastUsedAt'', JNum (s_lastUsedAt r))]
      @ (case s_revokedAt r of None \<Rightarrow> [] | Some t \<Rightarrow> [(''revokedAt'', JNum t)]))"

text \<open>What the service is constructed with.\<close>

record 'r session_env =
  e_redis :: "'r redis_ops"
  e_uuid :: "nat \<Rightarrow> string"
  e_sessionTtlSec :: int

section \<open>Keys\<close>

definition refreshAllowKey :: "string \<Rightarrow> string" where
  "refreshAllowKey jti = ''auth:refresh:allow:'' @ jti"

definition keySession :: "string \<Rightarrow> string \<Rightarrow> string" where
  "keySession userId sessionId = ''auth:session:'' @ userId @ '':'' @ sessionId"

definition keyIndex :: "string \<Rightarrow> string" where
  "keyIndex userId = ''auth:session:index:'' @ userId"

definition keyIndexZ :: "string \<Rightarrow> string" where
  "keyIndexZ userId = ''auth:session:index:z:'' @ userId"

definition keySessionJtis :: "string \<Rightarrow> string \<Rightarrow> string" where
  "keySessionJtis userId sessionId = ''auth:session:jtis:'' @ userId @ '':'' @ sessionId"

definition keyJtiIndex :: "string \<Rightarrow> string" where
  "keyJtiIndex jti = ''auth:session:jti:index:'' @ jti"

section \<open>Operations\<close>

definition session_create ::
  "('r, 'm) session_env_scheme \<Rightarrow> CreateSessionInput \<Rightarrow> (('r, 'd) auth_world, SessionRecord) eff" where
  "session_create E input =
     bindM dateNow (\<lambda>now.
     bindM (randomUUID (e_uuid E)) (\<lambda>sid.
     let rec = \<lparr>s_id = sid, s_userId = ci_userId input, s_ip = ci_ip input,
                s_userAgent = ci_userAgent input, s_device = ci_device input,
                s_createdAt = now, s_lastUsedAt = now, s_revokedAt = None\<rparr>
     in bindM (batchM
          [redisM (\<lambda>n. r_set_ex (e_redis E) n (keySession (ci_userId input) sid)
             (json_print (session_json rec)) (e_sessionTtlSec E)),
           redisM (\<lambda>n. r_sadd (e_redis E) n (keyIndex (ci_userId input)) sid),
           redisM (\<lambda>n. r_zadd (e_redis E) n (keyIndexZ (ci_userId input)) (s_lastUsedAt rec) sid)]) (\<lambda>_.
        retM rec)))"

text \<open>\<open>JSON.parse(data)\<close>, which throws a \<open>SyntaxError\<close> on malformed text.\<close>

definition parseM :: "string \<Rightarrow> ('s, json) eff" where
  "parseM data = (case json_parse data of None \<Rightarrow> throwM (JsError ''SyntaxError'') | Some j \<Rightarrow> retM j)"

text \<open>A string value as a condition: \<open>null\<close> and the empty string are false.\<close>

definition truthy :: "string option \<Rightarrow> bool" where
  "truthy v \<longleftrightarrow> v \<noteq> None \<and> v \<noteq> Some []"

definition session_get ::
  "('r, 'm) session_env_scheme \<Rightarrow> string \<Rightarrow> string \<Rightarrow> (('r, 'd) auth_world, json option) eff" where
  "session_get E userId sessionId =
     bindM (redisM (\<lambda>n. r_get (e_redis E) n (keySession userId sessionId))) (\<lambda>data.
     if truthy data then bindM (parseM (the data)) (\<lambda>j. retM (Some j)) else retM None)"

text \<open>The loop over the replies of a batch of reads: the records found, and the stale ids.\<close>

fun sift :: "(string \<times> (exn + string option)) list \<Rightarrow> json list \<times> string list" where
  "sift [] = ([], [])"
| "sift ((sid, val) # rest) =
     (case sift rest of (items, stale) \<Rightarrow>
        (case val of
           Inr (Some text) \<Rightarrow>
             if text = [] then (items, sid # stale)
             else (case json_parse text of
                     Some j \<Rightarrow> (j # items, stale)
                   | None \<Rightarrow> (items, sid # stale))
         | _ \<Rightarrow> (items, sid # stale)))"

definition removeStale ::
  "('r, 'm) session_env_scheme \<Rightarrow> string \<Rightarrow> string list \<Rightarrow> (('r, 'd) auth_world, unit) eff" where
  "removeStale E userId stale =
     (if stale \<noteq> []
      then batchM (concat (map (\<lambda>sid.
             [redisM (\<lambda>n. r_srem (e_redis E) n (keyIndex userId) sid),
              redisM (\<lambda>n. r_zrem (e_redis E) n (keyIndexZ userId) sid)]) stale))
      else retM ())"

definition readSessions ::
  "('r, 'm) session_env_scheme \<Rightarrow> string \<Rightarrow> string list
    \<Rightarrow> (('r, 'd) auth_world, (string \<times> (exn + string option)) list) eff" where
  "readSessions E userId sids =
     bindM (pipeline_exec (map (\<lambda>k. redisM (\<lambda>n. r_get (e_redis E) n k)) (map (keySession userId) sids))) (\<lambda>vals.
     retM (zip sids vals))"

text \<open>\<open>lastUsedAt ?? 0\<close> of a stored record.\<close>

definition lastUsed :: "json \<Rightarrow> int" where
  "lastUsed j = (case jnum (jfield ''lastUsedAt'' j) of None \<Rightarrow> 0 | Some n \<Rightarrow> n)"

definition session_list ::
  "('r, 'm) session_env_scheme \<Rightarrow> string \<Rightarrow> (('r, 'd) auth_world, json list) eff" where
  "session_list E userId =
     bindM (redisM (\<lambda>n. r_smembers (e_redis E) n (keyIndex userId))) (\<lambda>sids.
     if sids = [] then retM []
     else bindM (readSessions E userId sids) (\<lambda>res.
          case sift res of (items, stale) \<Rightarrow>
            bindM (removeStale E userId stale) (\<lambda>_.
            retM (sort_key (\<lambda>j. - lastUsed j) items))))"

definition session_listPage ::
  "('r, 'm) session_env_scheme \<Rightarrow> string \<Rightarrow> ListPageOptions \<Rightarrow> (('r, 'd) auth_world, json list) eff" where
  "session_listPage E userId opts =
     (let offset = max 0 (case lp_offset opts of None \<Rightarrow> 0 | Some x \<Rightarrow> x);
          limit = max 1 (case lp_limit opts of None \<Rightarrow> 20 | Some x \<Rightarrow> x);
          start = offset;
          stop = offset + limit - 1
      in bindM (redisM (\<lambda>n. r_zrevrange (e_redis E) n (keyIndexZ userId) start stop)) (\<lambda>sids.
         if sids = [] then retM []
         else bindM (readSessions E userId sids) (\<lambda>res.
              case sift res of (items, stale) \<Rightarrow>
                bindM (removeStale E userId stale) (\<lambda>_. retM items))))"

text \<open>
  \<open>rec.p = v\<close> on a parsed value, in strict mode: an object gets the property, an array gets
  one that \<open>JSON.stringify\<close> does not print, on any other value it is a \<open>TypeError\<close>.
\<close>

definition jput :: "string \<Rightarrow> json \<Rightarrow> (string \<times> json) list \<Rightarrow> (string \<times> json) list" where
  "jput k v kvs =
     (if k \<in> fst ` set kvs then map (\<lambda>(k', x). if k' = k then (k', v) else (k', x)) kvs else kvs @ [(k, v)])"

fun jset :: "string \<Rightarrow> json \<Rightarrow> json \<Rightarrow> ('s, json) eff" where
  "jset k v (JObj kvs) = retM (JObj (jput k v kvs))"
| "jset k v (JArr xs) = retM (JArr xs)"
| "jset k v j = throwM (JsError ''TypeError'')"

definition session_touch ::
  "('r, 'm) session_env_scheme \<Rightarrow> string \<Rightarrow> string \<Rightarrow> (('r, 'd) auth_world, json) eff" where
  "session_touch E userId sessionId =
     (let key = keySession userId sessionId
      in bindM (redisM (\<lambda>n. r_get (e_redis E) n key)) (\<lambda>data.
         if \<not> truthy data then throwM (notFound ''Session not found.'')
         else bindM (parseM (the data)) (\<lambda>rec0.
              bindM dateNow (\<lambda>now.
              bindM (jset ''lastUsedAt'' (JNum now) rec0) (\<lambda>rec.
              bindM (batchM
                   [redisM (\<lambda>n. r_set_ex (e_redis E) n key (json_print rec) (e_sessionTtlSec E)),
                    redisM (\<lambda>n. r_zadd (e_redis E) n (keyIndexZ userId) now sessionId)]) (\<lambda>_.
              retM rec))))))"

definition linkRefreshJti ::
  "('r, 'm) session_env_scheme \<Rightarrow> string \<Rightarrow> string \<Rightarrow> string \<Rightarrow> (('r, 'd) auth_world, unit) eff" where
  "linkRefreshJti E userId sessionId jti =
     batchM
       [redisM (\<lambda>n. r_sadd (e_redis E) n (keySessionJtis userId sessionId) jti),
        redisM (\<lambda>n. r_set_ex (e_redis E) n (keyJtiIndex jti) (userId @ '':'' @ sessionId) (e_sessionTtlSec E))]"

definition unlinkRefreshJti ::
  "('r, 'm) session_env_scheme \<Rightarrow> string \<Rightarrow> string \<Rightarrow> string \<Rightarrow> (('r, 'd) auth_world, unit) eff" where
  "unlinkRefreshJti E userId sessionId jti =
     batchM
       [redisM (\<lambda>n. r_srem (e_redis E) n (keySessionJtis userId sessionId) jti),
        redisM (\<lambda>n. r_del (e_redis E) n (keyJtiIndex jti))]"

text \<open>The destructuring \<open>const [userId, sessionId] = v.split(':')\<close>; a missing part is \<open>None\<close>.\<close>

definition findSessionByJti ::
  "('r, 'm) session_env_scheme \<Rightarrow> string \<Rightarrow> (('r, 'd) auth_world, (string \<times> string option) option) eff" where
  "findSessionByJti E jti =
     bindM (redisM (\<lambda>n. r_get (e_redis E) n (keyJtiIndex jti))) (\<lambda>v.
     if \<not> truthy v then retM None
     else (case split_on (CHR '':'') (the v) of
             [] \<Rightarrow> retM None
           | [u] \<Rightarrow> retM (Some (u, None))
           | u # s # _ \<Rightarrow> retM (Some (u, Some s))))"

definition revoke_commands ::
  "('r, 'm) session_env_scheme \<Rightarrow> string \<Rightarrow> string \<Rightarrow> string list \<Rightarrow> (('r, 'd) auth_world, unit) eff list" where
  "revoke_commands E userId sessionId jtis =
     concat (map (\<lambda>jti.
       [redisM (\<lambda>n. r_del (e_redis E) n (keyJtiIndex jti)),
        redisM (\<lambda>n. r_del (e_redis E) n (refreshAllowKey jti))]) jtis)
     @ [redisM (\<lambda>n. r_del (e_redis E) n (keySessionJtis userId sessionId)),
        redisM (\<lambda>n. r_del (e_redis E) n (keySession userId sessionId)),
        redisM (\<lambda>n. r_srem (e_redis E) n (keyIndex userId) sessionId),
        redisM (\<lambda>n. r_zrem (e_redis E) n (keyIndexZ userId) sessionId)]"

definition session_revoke ::
  "('r, 'm) session_env_scheme \<Rightarrow> string \<Rightarrow> string \<Rightarrow> (('r, 'd) auth_world, unit) eff" where
  "session_revoke E userId sessionId =
     bindM (redisM (\<lambda>n. r_smembers (e_redis E) n (keySessionJtis userId sessionId))) (\<lambda>jtis.
     batchM (revoke_commands E userId sessionId jtis))"

text \<open>A reply that is no array counts as an empty list.\<close>

definition reply_list :: "exn + string list \<Rightarrow> string list" where
  "reply_list x = (case x of Inl e \<Rightarrow> [] | Inr xs \<Rightarrow> xs)"

definition session_revokeAll ::
  "('r, 'm) session_env_scheme \<Rightarrow> string \<Rightarrow> (('r, 'd) auth_world, unit) eff" where
  "session_revokeAll E userId =
     bindM (redisM (\<lambda>n. r_smembers (e_redis E) n (keyIndex userId))) (\<lambda>sids.
     if sids = [] then retM ()
     else bindM (pipeline_exec (map (\<lambda>k. redisM (\<lambda>n. r_smembers (e_redis E) n k)) (map (keySessionJtis userId) sids))) (\<lambda>res.
          batchM (concat (map (\<lambda>(sid, x). revoke_commands E userId sid (reply_list x)) (zip sids res)))))"

end
