(* ===== verification/JwtLib.thy ===== *)
theory JwtLib
  imports Json
begin

text \<open>
  Values of unknown shape and the \<open>jsonwebtoken\<close> package. What \<open>JSON.parse\<close> or \<open>verify\<close>
  returns is a value whose shape the code does not check, so the model keeps it a \<open>json\<close> and
  reads it with JavaScript's rules: \<open>js_truthy\<close> for conditions, \<open>tmpl\<close> for template
  strings.

  \<open>jsonwebtoken\<close> is not part of the repository. Its three functions are a parameter
  \<open>jwt_lib\<close>; what the code relies on is the predicate \<open>jwt_lib_ok\<close>, which states the
  documented behaviour of \<open>sign\<close> and \<open>verify\<close> for HS256.
\<close>

section \<open>JavaScript's view of a parsed value\<close>

fun js_truthy :: "json option \<Rightarrow> bool" where
  "js_truthy None \<longleftrightarrow> False"
| "js_truthy (Some JNull) \<longleftrightarrow> False"
| "js_truthy (Some (JBool b)) \<longleftrightarrow> b"
| "js_truthy (Some (JNum n)) \<longleftrightarrow> n \<noteq> 0"
| "js_truthy (Some (JDec s)) \<longleftrightarrow> (\<exists>c \<in> set (takeWhile (\<lambda>c. c \<noteq> CHR ''e'' \<and> c \<noteq> CHR ''E'') s). is_digit c \<and> c \<noteq> CHR ''0'')"
| "js_truthy (Some (JStr s)) \<longleftrightarrow> s \<noteq> []"
| "js_truthy (Some (JArr xs)) \<longleftrightarrow> True"
| "js_truthy (Some (JObj kvs)) \<longleftrightarrow> True"

text \<open>\<open>String(v)\<close>, and \<open>`${v}`\<close>.\<close>

fun tmpl :: "json \<Rightarrow> string" where
  "tmpl JNull = ''null''"
| "tmpl (JBool b) = (if b then ''true'' else ''false'')"
| "tmpl (JNum n) = int_str n"
| "tmpl (JDec s) = s"
| "tmpl (JStr s) = s"
| "tmpl (JArr xs) = join_with '','' (map (\<lambda>x. if x = JNull then [] else tmpl x) xs)"
| "tmpl (JObj kvs) = ''[object Object]''"

definition tmpl_opt :: "json option \<Rightarrow> string" where
  "tmpl_opt v = (case v of None \<Rightarrow> ''undefined'' | Some j \<Rightarrow> tmpl j)"

definition js_array :: "json option \<Rightarrow> json list option" where
  "js_array v = (case v of Some (JArr xs) \<Rightarrow> Some xs | _ \<Rightarrow> None)"

definition is_jstr :: "json \<Rightarrow> bool" where
  "is_jstr v = (case v of JStr s \<Rightarrow> True | _ \<Rightarrow> False)"

section \<open>The package\<close>

record sign_opts =
  so_algorithm :: string
  so_expiresIn :: int
  so_issuer :: "string option"
  so_audience :: "string option"
  so_jwtid :: "string option"
  so_subject :: "string option"

record verify_opts =
  vo_algorithms :: "string list option"
  vo_clockTolerance :: int
  vo_ignoreExpiration :: bool
  vo_issuer :: "string option"
  vo_audience :: "string option"

text \<open>\<open>verify(token, secret)\<close> without options.\<close>

definition default_verify :: verify_opts where
  "default_verify = \<lparr>vo_algorithms = None, vo_clockTolerance = 0, vo_ignoreExpiration = False,
     vo_issuer = None, vo_audience = None\<rparr>"

text \<open>The first argument of \<open>sign\<close> and \<open>verify\<close> is the time in milliseconds.\<close>

record jwt_lib =
  j_sign :: "int \<Rightarrow> json \<Rightarrow> string \<Rightarrow> sign_opts \<Rightarrow> string"
  j_verify :: "int \<Rightarrow> string \<Rightarrow> string \<Rightarrow> verify_opts \<Rightarrow> exn + json"
  j_decode :: "string \<Rightarrow> json option"

text \<open>The claims \<open>sign\<close> adds to an object payload: \<open>iat\<close>, \<open>exp\<close> and those of the options.\<close>

definition signed_claims :: "int \<Rightarrow> sign_opts \<Rightarrow> (string \<times> json) list" where
  "signed_claims now so =
     [(''iat'', JNum (now div 1000)), (''exp'', JNum (now div 1000 + so_expiresIn so))]
     @ opt_member ''aud'' (so_audience so) @ opt_member ''iss'' (so_issuer so)
     @ opt_member ''sub'' (so_subject so) @ opt_member ''jti'' (so_jwtid so)"

text \<open>\<open>verify\<close> accepts a token signed with \<open>so\<close> at \<open>now\<close> when asked with \<open>vo\<close> at \<open>now'\<close>.\<close>

definition accepts :: "int \<Rightarrow> sign_opts \<Rightarrow> int \<Rightarrow> verify_opts \<Rightarrow> bool" where
  "accepts now so now' vo \<longleftrightarrow>
     (case vo_algorithms vo of None \<Rightarrow> True | Some as \<Rightarrow> so_algorithm so \<in> set as) \<and>
     (vo_ignoreExpiration vo \<or> now' div 1000 < now div 1000 + so_expiresIn so + vo_clockTolerance vo) \<and>
     (vo_issuer vo = None \<or> vo_issuer vo = so_issuer so) \<and>
     (vo_audience vo = None \<or> vo_audience vo = so_audience so)"

definition plain_payload :: "(string \<times> json) list \<Rightarrow> bool" where
  "plain_payload kvs \<longleftrightarrow> json_plain (JObj kvs) \<and> fst ` set kvs \<inter> {''iat'', ''exp'', ''aud'', ''iss'', ''jti'', ''nbf''} = {}"

text \<open>\<open>sign\<close> refuses an option that sets a claim the payload already has.\<close>

definition signable :: "(string \<times> json) list \<Rightarrow> sign_opts \<Rightarrow> bool" where
  "signable kvs so \<longleftrightarrow> plain_payload kvs \<and> (so_subject so = None \<or> ''sub'' \<notin> fst ` set kvs)"

text \<open>
  The documented behaviour: a signed token is verified with the secret it was signed with and
  gives back the payload with the added claims, and fails otherwise (expired, other issuer or
  audience, other algorithm, other secret).
\<close>

definition jwt_lib_ok :: "jwt_lib \<Rightarrow> bool" where
  "jwt_lib_ok J \<longleftrightarrow>
     (\<forall>now kvs sec so now' sec' vo. signable kvs so \<longrightarrow>
        (sec' = sec \<and> accepts now so now' vo \<longrightarrow>
           j_verify J now' (j_sign J now (JObj kvs) sec so) sec' vo = Inr (JObj (kvs @ signed_claims now so))) \<and>
        (\<not> (sec' = sec \<and> accepts now so now' vo) \<longrightarrow>
           (\<exists>e. j_verify J now' (j_sign J now (JObj kvs) sec so) sec' vo = Inl e)) \<and>
        j_sign J now (JObj kvs) sec so \<noteq> [])"

lemma jwt_signable:
  assumes "jwt_lib_ok J" and "signable kvs so"
  shows "accepts now so now' vo \<Longrightarrow> j_verify J now' (j_sign J now (JObj kvs) sec so) sec vo = Inr (JObj (kvs @ signed_claims now so))"
    and "\<not> (sec' = sec \<and> accepts now so now' vo) \<Longrightarrow> \<exists>e. j_verify J now' (j_sign J now (JObj kvs) sec so) sec' vo = Inl e"
    and "j_sign J now (JObj kvs) sec so \<noteq> []"
  using assms unfolding jwt_lib_ok_def by blast+

lemma jwt_verify_own:
  "jwt_lib_ok J \<Longrightarrow> plain_payload kvs \<Longrightarrow> accepts now so now' vo \<Longrightarrow> so_subject so = None \<Longrightarrow>
   j_verify J now' (j_sign J now (JObj kvs) sec so) sec vo = Inr (JObj (kvs @ signed_claims now so))"
  by (rule jwt_signable) (simp_all add: signable_def)

lemma jwt_verify_foreign:
  "jwt_lib_ok J \<Longrightarrow> plain_payload kvs \<Longrightarrow> so_subject so = None \<Longrightarrow> \<not> (sec' = sec \<and> accepts now so now' vo) \<Longrightarrow>
   \<exists>e. j_verify J now' (j_sign J now (JObj kvs) sec so) sec' vo = Inl e"
  by (rule jwt_signable) (simp_all add: signable_def)

lemma jwt_token_nonempty:
  "jwt_lib_ok J \<Longrightarrow> plain_payload kvs \<Longrightarrow> so_subject so = None \<Longrightarrow> j_sign J now (JObj kvs) sec so \<noteq> []"
  by (rule jwt_signable) (simp_all add: signable_def)

section \<open>A transparent instance, for the witnesses\<close>

text \<open>A token that carries its secret and its options in clear: it shows that the documented
  behaviour can be had.\<close>

definition opt_json :: "string option \<Rightarrow> json" where
  "opt_json v = (case v of None \<Rightarrow> JNull | Some s \<Rightarrow> JStr s)"

definition clear_sign :: "int \<Rightarrow> json \<Rightarrow> string \<Rightarrow> sign_opts \<Rightarrow> string" where
  "clear_sign now p sec so = json_print (JArr
     [(case p of JObj kvs \<Rightarrow> JObj (kvs @ signed_claims now so) | _ \<Rightarrow> p), JStr sec, JStr (so_algorithm so),
      JNum (now div 1000 + so_expiresIn so), opt_json (so_issuer so), opt_json (so_audience so)])"

definition clear_verify :: "int \<Rightarrow> string \<Rightarrow> string \<Rightarrow> verify_opts \<Rightarrow> exn + json" where
  "clear_verify now tok sec vo =
     (case json_parse tok of
        Some (JArr [p, JStr sec', JStr alg, JNum ex, iss, aud]) \<Rightarrow>
          if sec' = sec
             \<and> (case vo_algorithms vo of None \<Rightarrow> True | Some as \<Rightarrow> alg \<in> set as)
             \<and> (vo_ignoreExpiration vo \<or> now div 1000 < ex + vo_clockTolerance vo)
             \<and> (vo_issuer vo = None \<or> opt_json (vo_issuer vo) = iss)
             \<and> (vo_audience vo = None \<or> opt_json (vo_audience vo) = aud)
          then Inr p else Inl (JsError ''JsonWebTokenError'')
      | _ \<Rightarrow> Inl (JsError ''JsonWebTokenError''))"

definition clear_jwt :: jwt_lib where
  "clear_jwt = \<lparr>j_sign = clear_sign, j_verify = clear_verify,
     j_decode = (\<lambda>tok. case json_parse tok of Some (JArr (p # r)) \<Rightarrow> Some p | _ \<Rightarrow> None)\<rparr>"

lemma opt_json_inj: "opt_json a = opt_json b \<longleftrightarrow> a = b"
  by (auto simp: opt_json_def split: option.splits)

lemma opt_member_plain: "kv \<in> set (opt_member k v) \<Longrightarrow> json_plain (snd kv)"
  by (auto simp: opt_member_def split: option.splits)

lemma clear_jwt_ok: "jwt_lib_ok clear_jwt"
proof -
  have p: "json_parse (clear_sign now (JObj kvs) sec so) = Some (JArr
     [JObj (kvs @ signed_claims now so), JStr sec, JStr (so_algorithm so),
      JNum (now div 1000 + so_expiresIn so), opt_json (so_issuer so), opt_json (so_audience so)])"
    if "plain_payload kvs" for now kvs sec so
    unfolding clear_sign_def
    by (subst json_roundtrip)
       (use that in \<open>auto simp: plain_payload_def signed_claims_def opt_json_def split: option.splits dest: opt_member_plain\<close>)
  have ne: "clear_sign now p sec so \<noteq> []" for now p sec so
    by (simp add: clear_sign_def)
  show ?thesis
    unfolding jwt_lib_ok_def clear_jwt_def jwt_lib.simps
  proof (intro allI impI)
    fix now kvs sec so now' sec' vo
    assume "signable kvs so"
    then have "plain_payload kvs" by (simp add: signable_def)
    from p [OF this] ne show "(sec' = sec \<and> accepts now so now' vo \<longrightarrow>
        clear_verify now' (clear_sign now (JObj kvs) sec so) sec' vo = Inr (JObj (kvs @ signed_claims now so))) \<and>
      (\<not> (sec' = sec \<and> accepts now so now' vo) \<longrightarrow>
        (\<exists>e. clear_verify now' (clear_sign now (JObj kvs) sec so) sec' vo = Inl e)) \<and>
      clear_sign now (JObj kvs) sec so \<noteq> []"
      by (simp add: clear_verify_def accepts_def opt_json_inj)
  qed
qed

end
