(* ===== verification/Duration.thy ===== *)
theory Duration
  imports Complex_Main JsText
begin

text \<open>
  Reading numbers from configuration text: JavaScript's \<open>Number(string)\<close> and
  \<open>parseDurationToSeconds\<close> of \<open>shared/utils/parse-duration.util.ts\<close>. A number is an exact
  rational; \<open>None\<close> stands for a value that is not finite (\<open>NaN\<close> or an infinity). Doubles
  agree with it for integers below 2 to the 53rd.
\<close>

section \<open>\<open>Number(string)\<close>\<close>

definition js_exponent :: "string \<Rightarrow> rat option" where
  "js_exponent s =
     (case s of
        [] \<Rightarrow> Some 1
      | e # r \<Rightarrow>
          if e \<noteq> CHR ''e'' \<and> e \<noteq> CHR ''E'' then None
          else (let (neg, ds) = (case r of
                    [] \<Rightarrow> (False, [])
                  | c # r' \<Rightarrow> if c = CHR ''-'' then (True, r') else if c = CHR ''+'' then (False, r') else (False, r))
                in if ds = [] \<or> \<not> list_all is_digit ds then None
                   else if neg then Some (1 / 10 ^ digits_val ds) else Some (10 ^ digits_val ds)))"

definition js_decimal :: "string \<Rightarrow> rat option" where
  "js_decimal s =
     (let ip = takeWhile is_digit s;
          r = dropWhile is_digit s;
          dot = r \<noteq> [] \<and> hd r = CHR ''.'';
          fp = (if dot then takeWhile is_digit (tl r) else []);
          r' = (if dot then dropWhile is_digit (tl r) else r)
      in if ip = [] \<and> fp = [] then None
         else map_option (\<lambda>x. (of_nat (digits_val (ip @ fp)) / 10 ^ length fp) * x) (js_exponent r'))"

text \<open>Digits of a literal with a radix prefix; \<open>None\<close> for a character that is no digit.\<close>

definition radix_digit :: "nat \<Rightarrow> char \<Rightarrow> nat option" where
  "radix_digit b c =
     (let n = (of_char (lower_char c) :: nat);
          v = (if is_digit c then n - 48 else if 97 \<le> n \<and> n \<le> 102 then n - 87 else b)
      in if v < b then Some v else None)"

definition js_radix :: "nat \<Rightarrow> string \<Rightarrow> rat option" where
  "js_radix b ds =
     (if ds = [] \<or> (\<exists>c \<in> set ds. radix_digit b c = None) then None
      else Some (of_nat (foldl (\<lambda>a c. b * a + the (radix_digit b c)) 0 ds)))"

definition js_number :: "string \<Rightarrow> rat option" where
  "js_number s0 =
     (let s = js_trim s0 in
      if s = [] then Some 0
      else if starts_with s ''0x'' \<or> starts_with s ''0X'' then js_radix 16 (drop 2 s)
      else if starts_with s ''0o'' \<or> starts_with s ''0O'' then js_radix 8 (drop 2 s)
      else if starts_with s ''0b'' \<or> starts_with s ''0B'' then js_radix 2 (drop 2 s)
      else if hd s = CHR ''-'' then map_option uminus (js_decimal (tl s))
      else if hd s = CHR ''+'' then js_decimal (tl s)
      else js_decimal s)"

section \<open>\<open>parseDurationToSeconds\<close>\<close>

definition UNIT_IN_SECONDS :: "char \<Rightarrow> nat option" where
  "UNIT_IN_SECONDS c =
     (if c = CHR ''s'' then Some 1 else if c = CHR ''m'' then Some 60
      else if c = CHR ''h'' then Some 3600 else if c = CHR ''d'' then Some 86400 else None)"

text \<open>The match of \<open>/^(\d+)([smhd])?$/\<close>: the digits and the unit.\<close>

definition match_duration :: "string \<Rightarrow> (string \<times> char option) option" where
  "match_duration t =
     (let ds = takeWhile is_digit t; r = dropWhile is_digit t
      in if ds = [] then None
         else if r = [] then Some (ds, None)
         else if tl r = [] \<and> UNIT_IN_SECONDS (hd r) \<noteq> None then Some (ds, Some (hd r))
         else None)"

definition parseDurationToSeconds :: "string option \<Rightarrow> rat \<Rightarrow> rat" where
  "parseDurationToSeconds input defaultSeconds =
     (case input of
        None \<Rightarrow> defaultSeconds
      | Some text \<Rightarrow>
          if text = [] then defaultSeconds
          else (let trimmed = js_lower (js_trim text) in
                case match_duration trimmed of
                  None \<Rightarrow> (case js_number trimmed of None \<Rightarrow> defaultSeconds | Some n \<Rightarrow> n)
                | Some (ds, unit) \<Rightarrow>
                    of_nat (digits_val ds)
                    * of_nat (case unit of None \<Rightarrow> 1
                              | Some u \<Rightarrow> (case UNIT_IN_SECONDS u of None \<Rightarrow> 1 | Some k \<Rightarrow> k))))"

section \<open>What it computes\<close>

lemma span_digits:
  assumes "list_all is_digit ds" and "r = [] \<or> \<not> is_digit (hd r)"
  shows "takeWhile is_digit (ds @ r) = ds" and "dropWhile is_digit (ds @ r) = r"
proof -
  have "takeWhile is_digit r = [] \<and> dropWhile is_digit r = r" using assms(2) by (cases r) auto
  then show "takeWhile is_digit (ds @ r) = ds" "dropWhile is_digit (ds @ r) = r"
    using assms(1) by (induction ds) auto
qed

lemma js_lower_digits: "list_all is_digit ds \<Longrightarrow> js_lower ds = ds"
  by (induction ds) (auto simp: js_lower_def lower_char_def is_digit_def)

lemma js_lower_append: "js_lower (s @ t) = js_lower s @ js_lower t"
  by (simp add: js_lower_def)

lemma digit_not_space: "is_digit c \<Longrightarrow> \<not> is_space c"
  by (auto simp: is_digit_def is_space_def)

lemma drop_pad: "list_all P a \<Longrightarrow> s \<noteq> [] \<Longrightarrow> \<not> P (hd s) \<Longrightarrow> dropWhile P (a @ s) = s"
  by (induction a) (auto simp: neq_Nil_conv)

lemma js_trim_pad:
  assumes "list_all is_space a" and "list_all is_space b" and "s \<noteq> []"
    and "\<not> is_space (hd s)" and "\<not> is_space (last s)"
  shows "js_trim (a @ s @ b) = s"
proof -
  have "dropWhile is_space (a @ s @ b) = s @ b"
    using drop_pad [of is_space a "s @ b"] assms(1, 3, 4) by simp
  moreover have "dropWhile is_space (rev b @ rev s) = rev s"
    using drop_pad [of is_space "rev b" "rev s"] assms(2, 3, 5) by (simp add: hd_rev)
  ultimately show ?thesis by (simp add: js_trim_def)
qed

text \<open>The unit letters in either case.\<close>

definition unit_letter :: "char \<Rightarrow> nat \<Rightarrow> bool" where
  "unit_letter c k \<longleftrightarrow> UNIT_IN_SECONDS (lower_char c) = Some k"

lemma unit_letter_not_digit: "unit_letter c k \<Longrightarrow> \<not> is_digit (lower_char c) \<and> \<not> is_space c \<and> 0 < k"
  by (auto simp: unit_letter_def UNIT_IN_SECONDS_def lower_char_def is_digit_def is_space_def Let_def split: if_splits)

lemma match_duration_unit:
  "unit_letter c k \<Longrightarrow> match_duration (nat_str n @ [lower_char c]) = Some (nat_str n, Some (lower_char c))"
  using span_digits [OF nat_str_digits [of n], of "[lower_char c]"] unit_letter_not_digit [of c k]
  by (simp add: match_duration_def unit_letter_def)

lemma match_duration_plain: "match_duration (nat_str n) = Some (nat_str n, None)"
  using span_digits [OF nat_str_digits [of n], of "[]", simplified append_Nil2, OF disjI1, OF refl]
  by (simp only: match_duration_def Let_def nat_str_nonempty if_False if_True simp_thms)

lemma nat_str_ends: "\<not> is_space (hd (nat_str n))" "\<not> is_space (last (nat_str n))"
  using nat_str_digits [of n] nat_str_nonempty [of n]
  by (auto simp: list_all_iff intro!: digit_not_space)

text \<open>
  a duration is read exactly: any number with a unit in either case, or with none, and any
  white space around it, is that many seconds, and the default is not consulted; a missing or
  empty text is the default.
\<close>

theorem parse_duration_units:
  "parseDurationToSeconds None d = d \<and> parseDurationToSeconds (Some []) d = d \<and>
   (\<forall>a b n. list_all is_space a \<and> list_all is_space b \<longrightarrow>
      parseDurationToSeconds (Some (a @ nat_str n @ b)) d = of_nat n \<and>
      (\<forall>c k. unit_letter c k \<longrightarrow> parseDurationToSeconds (Some (a @ (nat_str n @ [c]) @ b)) d = of_nat (n * k)))"
proof (intro conjI allI impI)
  fix a b n
  assume ab: "list_all is_space a \<and> list_all is_space b"
  then have "js_trim (a @ nat_str n @ b) = nat_str n"
    by (intro js_trim_pad) (auto simp: nat_str_ends)
  then show "parseDurationToSeconds (Some (a @ nat_str n @ b)) d = of_nat n"
    by (simp add: parseDurationToSeconds_def js_lower_digits nat_str_digits match_duration_plain)
  fix c k
  assume u: "unit_letter c k"
  from ab u have "js_trim (a @ (nat_str n @ [c]) @ b) = nat_str n @ [c]"
    by (intro js_trim_pad) (auto simp: nat_str_ends dest: unit_letter_not_digit)
  moreover have "js_lower (nat_str n @ [c]) = nat_str n @ [lower_char c]"
    using nat_str_digits [of n] by (simp add: js_lower_append js_lower_digits) (simp add: js_lower_def)
  ultimately show "parseDurationToSeconds (Some (a @ (nat_str n @ [c]) @ b)) d = of_nat (n * k)"
    using u match_duration_unit [OF u, of n] by (simp add: parseDurationToSeconds_def unit_letter_def)
qed (simp_all add: parseDurationToSeconds_def)

theorem parse_duration_units_witness:
  "parseDurationToSeconds (Some ('' '' @ (nat_str 45 @ ''D'') @ [])) 600 = of_nat (45 * 86400)"
proof -
  have "list_all is_space '' '' \<and> list_all is_space []" by (simp add: is_space_def)
  moreover have "unit_letter (CHR ''D'') 86400"
    by (simp add: unit_letter_def UNIT_IN_SECONDS_def lower_char_def char_of_def bit_iff_odd)
  ultimately show ?thesis using parse_duration_units [of 600] by blast
qed

end
