(* ===== verification/Token.thy ===== *)
theory Token
  imports Session JwtLib Duration
begin

text \<open>
  The token service, \<open>core/auth/token/token.service.ts\<close>: signing and verifying access and
  refresh tokens, the blacklist of refresh tokens and the one-time tokens. A verified payload is
  a \<open>json\<close> value; \<open>jsonwebtoken\<close> never returns \<open>null\<close> from \<open>verify\<close> (it reads
  members of the payload first). Logging is left out; it cannot throw.
\<close>

section \<open>Construction\<close>

datatype AuthConfigLike =
    FlatAuth (ac_accessSecret: string) (ac_refreshSecret: string)
      (ac_accessExpires: "string option") (ac_refreshExpires: "string option")
  | JwtAuth (ac_issuer: "string option") (ac_audience: "string option")
      (ac_accessSecret: string) (ac_refreshSecret: string)
      (ac_accessExpires: "string option") (ac_refreshExpires: "string option")

record token_fields =
  tf_issuer :: "string option"
  tf_audience :: "string option"
  tf_accessSecret :: string
  tf_refreshSecret :: string
  tf_accessTtlSec :: rat
  tf_refreshTtlSec :: rat

definition nullish :: "'a option \<Rightarrow> 'a \<Rightarrow> 'a" where
  "nullish v d = (case v of None \<Rightarrow> d | Some s \<Rightarrow> s)"

definition token_init :: "AuthConfigLike option \<Rightarrow> exn + token_fields" where
  "token_init auth =
     (case auth of
        None \<Rightarrow> Inl (JsError ''Auth config missing'')
      | Some a \<Rightarrow>
          let (iss, aud) = (case a of FlatAuth _ _ _ _ \<Rightarrow> (None, None) | JwtAuth i u _ _ _ _ \<Rightarrow> (i, u))
          in if ac_accessSecret a = [] \<or> ac_refreshSecret a = []
             then Inl (JsError ''Missing JWT secrets (accessSecret/refreshSecret)'')
             else Inr \<lparr>tf_issuer = iss, tf_audience = aud,
               tf_accessSecret = ac_accessSecret a, tf_refreshSecret = ac_refreshSecret a,
               tf_accessTtlSec = parseDurationToSeconds (Some (nullish (ac_accessExpires a) ''10m'')) 600,
               tf_refreshTtlSec = parseDurationToSeconds (Some (nullish (ac_refreshExpires a) ''30d'')) (30 * 24 * 3600)\<rparr>)"

text \<open>The service's fields; the times to live are whole seconds.\<close>

record 'r token_env = "'r session_env" +
  t_jwt :: jwt_lib
  t_issuer :: "string option"
  t_audience :: "string option"
  t_accessSecret :: string
  t_refreshSecret :: string
  t_accessTtlSec :: int
  t_refreshTtlSec :: int

section \<open>Signing\<close>

definition truthy_opt :: "string option \<Rightarrow> string option" where
  "truthy_opt v = (if truthy v then v else None)"

definition access_payload :: "string \<Rightarrow> string list \<Rightarrow> (string \<times> json) list" where
  "access_payload userId roles =
     [(''sub'', JStr userId), (''roles'', JArr (map JStr roles)), (''typ'', JStr ''access'')]"

definition access_opts :: "('r, 'm) token_env_scheme \<Rightarrow> sign_opts" where
  "access_opts E = \<lparr>so_algorithm = ''HS256'', so_expiresIn = t_accessTtlSec E,
     so_issuer = truthy_opt (t_issuer E), so_audience = truthy_opt (t_audience E), so_jwtid = None, so_subject = None\<rparr>"

definition signAccess ::
  "('r, 'm) token_env_scheme \<Rightarrow> string \<Rightarrow> string list \<Rightarrow> (('r, 'd) auth_world, string) eff" where
  "signAccess E userId roles =
     bindM dateNow (\<lambda>now.
     retM (j_sign (t_jwt E) now (JObj (access_payload userId roles)) (t_accessSecret E) (access_opts E)))"

definition refresh_payload :: "string \<Rightarrow> string \<Rightarrow> (string \<times> json) list" where
  "refresh_payload userId sessionId =
     [(''sub'', JStr userId), (''sid'', JStr sessionId), (''typ'', JStr ''refresh'')]"

definition refresh_opts :: "('r, 'm) token_env_scheme \<Rightarrow> string \<Rightarrow> sign_opts" where
  "refresh_opts E jti = \<lparr>so_algorithm = ''HS256'', so_expiresIn = t_refreshTtlSec E,
     so_issuer = truthy_opt (t_issuer E), so_audience = truthy_opt (t_audience E), so_jwtid = Some jti, so_subject = None\<rparr>"

definition signRefresh ::
  "('r, 'm) token_env_scheme \<Rightarrow> string \<Rightarrow> string \<Rightarrow> string \<Rightarrow> (('r, 'd) auth_world, string) eff" where
  "signRefresh E userId sessionId jti =
     bindM dateNow (\<lambda>now.
     retM (j_sign (t_jwt E) now (JObj (refresh_payload userId sessionId)) (t_refreshSecret E) (refresh_opts E jti)))"

lemma token_opts_subject [simp]: "so_subject (access_opts E) = None" "so_subject (refresh_opts E jti) = None"
  by (simp_all add: access_opts_def refresh_opts_def)

section \<open>Verifying\<close>

definition verify_options :: "('r, 'm) token_env_scheme \<Rightarrow> bool \<Rightarrow> verify_opts" where
  "verify_options E ignoreExpiration =
     \<lparr>vo_algorithms = Some [''HS256''], vo_clockTolerance = 5, vo_ignoreExpiration = ignoreExpiration,
      vo_issuer = truthy_opt (t_issuer E), vo_audience = truthy_opt (t_audience E)\<rparr>"

definition liftE :: "exn + 'a \<Rightarrow> ('s, 'a) eff" where
  "liftE x = (case x of Inl e \<Rightarrow> throwM e | Inr v \<Rightarrow> retM v)"

definition safeVerify ::
  "('r, 'm) token_env_scheme \<Rightarrow> string \<Rightarrow> string \<Rightarrow> bool \<Rightarrow> string option \<Rightarrow> (('r, 'd) auth_world, json) eff" where
  "safeVerify E token secret ignoreExpiration expectedTyp =
     catchM
       (bindM dateNow (\<lambda>now.
        bindM (liftE (j_verify (t_jwt E) now token secret (verify_options E ignoreExpiration))) (\<lambda>decoded.
        thenM (throwIfM (truthy expectedTyp \<and> js_truthy (jfield ''typ'' decoded)
                 \<and> jfield ''typ'' decoded \<noteq> Some (JStr (the expectedTyp)))
                 (unauthorized ''Wrong token type''))
        (retM decoded))))
       (\<lambda>err. throwM (unauthorized ''Invalid token.''))"

definition verifyAccess :: "('r, 'm) token_env_scheme \<Rightarrow> string \<Rightarrow> (('r, 'd) auth_world, json) eff" where
  "verifyAccess E token =
     bindM (safeVerify E token (t_accessSecret E) False (Some ''access'')) (\<lambda>decoded.
     thenM (throwIfM (jfield ''typ'' decoded \<noteq> Some (JStr ''access'')) (unauthorized ''Invalid token type.''))
     (thenM (throwIfM (\<not> js_truthy (jfield ''sub'' decoded)
               \<or> js_array (jfield ''roles'' decoded) = None
               \<or> (\<exists>r \<in> set (the (js_array (jfield ''roles'' decoded))). \<not> is_jstr r))
               (unauthorized ''Malformed access token.''))
     (retM decoded)))"

definition keyRefreshBlacklist :: "string \<Rightarrow> string" where
  "keyRefreshBlacklist jti = ''auth:rbl:'' @ jti"

definition keyOneTime :: "string \<Rightarrow> string" where
  "keyOneTime jti = ''auth:once:'' @ jti"

definition isRefreshBlacklisted :: "('r, 'm) token_env_scheme \<Rightarrow> string \<Rightarrow> (('r, 'd) auth_world, bool) eff" where
  "isRefreshBlacklisted E jti =
     bindM (redisM (\<lambda>n. r_get (e_redis E) n (keyRefreshBlacklist jti))) (\<lambda>val. retM (val = Some ''1''))"

definition refresh_claims_missing :: "json \<Rightarrow> bool" where
  "refresh_claims_missing decoded \<longleftrightarrow>
     jfield ''typ'' decoded \<noteq> Some (JStr ''refresh'')
     \<or> \<not> js_truthy (jfield ''jti'' decoded) \<or> \<not> js_truthy (jfield ''sid'' decoded)"

definition verifyRefresh ::
  "('r, 'm) token_env_scheme \<Rightarrow> string \<Rightarrow> bool \<Rightarrow> bool \<Rightarrow> (('r, 'd) auth_world, json) eff" where
  "verifyRefresh E token ignoreExpiration skipBlacklist =
     bindM (safeVerify E token (t_refreshSecret E) ignoreExpiration (Some ''refresh'')) (\<lambda>decoded.
     thenM (throwIfM (refresh_claims_missing decoded) (unauthorized ''Malformed refresh token.''))
     (thenM (if \<not> skipBlacklist
             then bindM (isRefreshBlacklisted E (tmpl_opt (jfield ''jti'' decoded))) (\<lambda>b.
                  throwIfM b (unauthorized ''Refresh token is revoked.''))
             else retM ())
     (retM decoded)))"

text \<open>\<open>decodeUnsafe\<close> and the fallback of \<open>peekRefresh\<close>: only an object or an array passes.\<close>

definition decodeUnsafe :: "('r, 'm) token_env_scheme \<Rightarrow> string \<Rightarrow> json option" where
  "decodeUnsafe E token = j_decode (t_jwt E) token"

definition is_object :: "json \<Rightarrow> bool" where
  "is_object j = (case j of JObj _ \<Rightarrow> True | JArr _ \<Rightarrow> True | _ \<Rightarrow> False)"

definition peekRefresh ::
  "('r, 'm) token_env_scheme \<Rightarrow> string \<Rightarrow> bool \<Rightarrow> bool \<Rightarrow> (('r, 'd) auth_world, json option) eff" where
  "peekRefresh E token ignoreExpiration allowBlacklisted =
     catchM
       (bindM (safeVerify E token (t_refreshSecret E) ignoreExpiration (Some ''refresh'')) (\<lambda>decoded.
        if refresh_claims_missing decoded then retM None
        else if \<not> allowBlacklisted
        then bindM (isRefreshBlacklisted E (tmpl_opt (jfield ''jti'' decoded))) (\<lambda>b.
             retM (if b then None else Some decoded))
        else retM (Some decoded)))
       (\<lambda>_. retM (case decodeUnsafe E token of
                    Some raw \<Rightarrow> if is_object raw then Some raw else None
                  | None \<Rightarrow> None))"

section \<open>Blacklist and one-time tokens\<close>

definition blacklistRefreshJti ::
  "('r, 'm) token_env_scheme \<Rightarrow> string \<Rightarrow> int option \<Rightarrow> (('r, 'd) auth_world, unit) eff" where
  "blacklistRefreshJti E jti ttlSec =
     (let ttl = (case ttlSec of Some t \<Rightarrow> if t \<noteq> 0 then t else t_refreshTtlSec E | None \<Rightarrow> t_refreshTtlSec E)
      in redisM (\<lambda>n. r_set_ex (e_redis E) n (keyRefreshBlacklist jti) ''1'' ttl))"

definition allowOneTime :: "('r, 'm) token_env_scheme \<Rightarrow> string \<Rightarrow> int \<Rightarrow> (('r, 'd) auth_world, unit) eff" where
  "allowOneTime E jti ttlSec = redisM (\<lambda>n. r_set_ex (e_redis E) n (keyOneTime jti) ''1'' ttlSec)"

definition consumeOneTime :: "('r, 'm) token_env_scheme \<Rightarrow> string \<Rightarrow> (('r, 'd) auth_world, bool) eff" where
  "consumeOneTime E jti =
     bindM (redisM (\<lambda>n. r_get (e_redis E) n (keyOneTime jti))) (\<lambda>exists.
     if \<not> truthy exists then retM False
     else thenM (redisM (\<lambda>n. r_del (e_redis E) n (keyOneTime jti))) (retM True))"

section \<open>Reading the header\<close>

text \<open>\<open>s.split(/\s+/)\<close>\<close>

function split_ws :: "string \<Rightarrow> string list" where
  "split_ws s =
     (let w = takeWhile (\<lambda>c. \<not> is_space c) s; r = dropWhile (\<lambda>c. \<not> is_space c) s
      in if r = [] then [w] else w # split_ws (dropWhile is_space r))"
  by pat_completeness auto

termination
proof (relation "measure length")
  fix s w r :: string
  assume r: "r = dropWhile (\<lambda>c. \<not> is_space c) s" and ne: "r \<noteq> []"
  then have "is_space (hd r)" using hd_dropWhile [of "\<lambda>c. \<not> is_space c" s] by simp
  with ne have "length (dropWhile is_space r) < length r"
    by (cases r) (auto simp: less_Suc_eq_le length_dropWhile_le)
  also have "length r \<le> length s" using r by (simp add: length_dropWhile_le)
  finally show "(dropWhile is_space r, s) \<in> measure length" by simp
qed simp

declare split_ws.simps [simp del]

definition extractBearer :: "string option \<Rightarrow> string option" where
  "extractBearer authHeader =
     (if \<not> truthy authHeader then None
      else case split_ws (js_trim (the authHeader)) of
             [] \<Rightarrow> None
           | type # rest \<Rightarrow>
               (let token = join_with '' '' rest
                in if js_lower type = ''bearer'' \<and> token \<noteq> [] then Some token else None))"

end
