(* ===== verification/Users.thy ===== *)
theory Users
  imports AuthWorld
begin

text \<open>
  Users, \<open>core/users/users.service.ts\<close>. The table is behind Prisma, which is not part of the
  repository: its queries are the parameter \<open>users_db\<close>, over an abstract database state. The
  definitions are the services' own: which query they build and what they do with the answer.
\<close>

section \<open>Rows, queries and answers\<close>

text \<open>A row with its roles; \<open>rel.role?.name\<close> of each user role.\<close>

record UserWithRelations =
  u_id :: string
  u_username :: string
  u_email :: "string option"
  u_phone :: "string option"
  u_name :: "string option"
  u_bio :: "string option"
  u_city :: "string option"
  u_avatarUrl :: "string option"
  u_passwordHash :: "string option"
  u_userRoles :: "string option list"

record FindUsersQueryDto =
  fq_limit :: "int option"
  fq_search :: "string option"
  fq_cursor :: "string option"

text \<open>Conditions on a text column, and the arguments of \<open>findMany\<close>.\<close>

datatype user_cond =
    ContainsInsensitive string string
  | Equals string string

record find_many_args =
  fm_where_or :: "user_cond list"
  fm_order_desc :: string
  fm_cursor :: "string option"
  fm_skip :: nat
  fm_take :: int

record CreateUserDto =
  cu_username :: string
  cu_password :: "string option"
  cu_email :: "string option"
  cu_phone :: "string option"
  cu_name :: "string option"
  cu_bio :: "string option"
  cu_city :: "string option"
  cu_avatarUrl :: "string option"

text \<open>
  A partial update. A member that may be \<open>undefined\<close>, \<open>null\<close> or a string is
  \<open>None\<close>, \<open>Some None\<close> or \<open>Some (Some s)\<close>.
\<close>

record UpdateUserDto =
  uu_username :: "string option"
  uu_password :: "string option"
  uu_email :: "string option option"
  uu_phone :: "string option option"
  uu_name :: "string option option"
  uu_bio :: "string option option"
  uu_city :: "string option option"
  uu_avatarUrl :: "string option option"

record UserData =
  du_username :: "string option"
  du_email :: "string option option"
  du_phone :: "string option option"
  du_name :: "string option option"
  du_bio :: "string option option"
  du_city :: "string option option"
  du_avatarUrl :: "string option option"
  du_passwordHash :: "string option option"

record 'd users_db =
  ud_findUnique :: "string \<Rightarrow> ('d, UserWithRelations option) eff"
  ud_findMany :: "find_many_args \<Rightarrow> ('d, UserWithRelations list) eff"
  ud_create :: "UserData \<Rightarrow> ('d, UserWithRelations) eff"
  ud_update :: "string \<Rightarrow> UserData \<Rightarrow> ('d, UserWithRelations) eff"

section \<open>Operations\<close>

definition users_findAll :: "'d users_db \<Rightarrow> FindUsersQueryDto \<Rightarrow> (('r, 'd) auth_world, UserWithRelations list) eff" where
  "users_findAll D query =
     (let take = (case fq_limit query of None \<Rightarrow> 25 | Some l \<Rightarrow> l);
          search = (case fq_search query of Some s \<Rightarrow> if s \<noteq> [] then Some s else None | None \<Rightarrow> None);
          cursor = (case fq_cursor query of Some c \<Rightarrow> if c \<noteq> [] then Some c else None | None \<Rightarrow> None)
      in dbM (ud_findMany D
           \<lparr>fm_where_or = (case search of None \<Rightarrow> []
              | Some s \<Rightarrow> [ContainsInsensitive ''username'' s, ContainsInsensitive ''email'' s]),
            fm_order_desc = ''id'', fm_cursor = cursor,
            fm_skip = (if cursor = None then 0 else 1), fm_take = take\<rparr>))"

definition users_findById :: "'d users_db \<Rightarrow> string \<Rightarrow> (('r, 'd) auth_world, UserWithRelations option) eff" where
  "users_findById D uid = dbM (ud_findUnique D uid)"

definition ensureActiveWithRoles :: "'d users_db \<Rightarrow> string \<Rightarrow> (('r, 'd) auth_world, UserWithRelations) eff" where
  "ensureActiveWithRoles D uid =
     bindM (dbM (ud_findUnique D uid)) (\<lambda>user.
     case user of None \<Rightarrow> throwM (unauthorized ''User not found.'') | Some u \<Rightarrow> retM u)"

definition nonempty :: "string option \<Rightarrow> bool" where
  "nonempty v \<longleftrightarrow> v \<noteq> None \<and> v \<noteq> Some []"

text \<open>\<open>sha256\<close> is the hexadecimal digest of \<open>node:crypto\<close>.\<close>

definition users_create ::
  "(string \<Rightarrow> string) \<Rightarrow> 'd users_db \<Rightarrow> CreateUserDto \<Rightarrow> (('r, 'd) auth_world, UserWithRelations) eff" where
  "users_create sha256 D dto =
     (let passwordHash = (if nonempty (cu_password dto) then Some (sha256 (the (cu_password dto))) else None)
      in dbM (ud_create D
           \<lparr>du_username = Some (cu_username dto), du_email = Some (cu_email dto), du_phone = Some (cu_phone dto),
            du_name = Some (cu_name dto), du_bio = Some (cu_bio dto), du_city = Some (cu_city dto),
            du_avatarUrl = Some (cu_avatarUrl dto), du_passwordHash = Some passwordHash\<rparr>))"

definition users_update ::
  "(string \<Rightarrow> string) \<Rightarrow> 'd users_db \<Rightarrow> string \<Rightarrow> UpdateUserDto \<Rightarrow> (('r, 'd) auth_world, UserWithRelations) eff" where
  "users_update sha256 D uid dto =
     bindM (dbM (ud_findUnique D uid)) (\<lambda>existing.
     if existing = None then throwM (notFound (''User '' @ uid @ '' was not found.''))
     else dbM (ud_update D uid
       \<lparr>du_username = uu_username dto, du_email = uu_email dto, du_phone = uu_phone dto,
        du_name = uu_name dto, du_bio = uu_bio dto, du_city = uu_city dto, du_avatarUrl = uu_avatarUrl dto,
        du_passwordHash = (if nonempty (uu_password dto) then Some (Some (sha256 (the (uu_password dto)))) else None)\<rparr>))"

section \<open>What the callers rely on\<close>

text \<open>\<open>findUnique\<close> reads: it changes no row and finds the row with the given id, if any.\<close>

definition users_db_ok :: "'d users_db \<Rightarrow> ('d \<Rightarrow> string \<Rightarrow> UserWithRelations option) \<Rightarrow> bool" where
  "users_db_ok D rows \<longleftrightarrow>
     (\<forall>d i. ud_findUnique D i d = (Inr (rows d i), d)) \<and>
     (\<forall>d i u. rows d i = Some u \<longrightarrow> u_id u = i)"

lemma dbM_findUnique:
  "users_db_ok D rows \<Longrightarrow> dbM (ud_findUnique D i) w = (Inr (rows (w_db w) i), w)"
  by (simp add: users_db_ok_def dbM_def)

lemma ensureActive_run:
  "users_db_ok D rows \<Longrightarrow> ensureActiveWithRoles D i w =
     (case rows (w_db w) i of None \<Rightarrow> (Inl (unauthorized ''User not found.''), w) | Some u \<Rightarrow> (Inr u, w))"
  by (simp add: ensureActiveWithRoles_def dbM_findUnique exec split: option.split)

text \<open>A table held as a function from ids to rows, for the witnesses.\<close>

definition table_db :: "(string \<Rightarrow> UserWithRelations option) users_db" where
  "table_db = \<lparr>ud_findUnique = (\<lambda>i t. (Inr (case t i of Some u \<Rightarrow> if u_id u = i then Some u else None | None \<Rightarrow> None), t)),
     ud_findMany = (\<lambda>a t. (Inr [], t)), ud_create = (\<lambda>x t. (Inl (JsError ''unsupported''), t)),
     ud_update = (\<lambda>i x t. (Inl (JsError ''unsupported''), t))\<rparr>"

definition table_rows :: "(string \<Rightarrow> UserWithRelations option) \<Rightarrow> string \<Rightarrow> UserWithRelations option" where
  "table_rows t i = (case t i of Some u \<Rightarrow> if u_id u = i then Some u else None | None \<Rightarrow> None)"

lemma table_db_ok: "users_db_ok table_db table_rows"
  by (auto simp: users_db_ok_def table_db_def table_rows_def split: option.splits if_splits)

end
