(* ===== verification/Refresh.thy ===== *)
theory Refresh
  imports Token Users
begin

text \<open>
  Refresh-token rotation, \<open>core/auth/refresh.service.ts\<close>, and the rate limiter of the refresh
  endpoint, \<open>core/auth/refresh-rate-limit.service.ts\<close>. A refresh token is usable while its
  allow-list entry exists; using it consumes the entry, blacklists the token and issues a new
  pair. Log messages and their trace ids are left out.
\<close>

record TokenPair =
  accessToken :: string
  refreshToken :: string

text \<open>What \<open>RefreshService\<close> is constructed with, besides the token and session services.\<close>

record ('r, 'd) refresh_env = "'r token_env" +
  f_users :: "'d users_db"
  f_refreshTtlSeconds :: int

text \<open>\<open>RefreshAllowRecord\<close> as the service writes it; what it reads back is a \<open>json\<close>.\<close>

definition allow_record :: "string \<Rightarrow> string option \<Rightarrow> json" where
  "allow_record userId sessionId =
     JObj [(''userId'', JStr userId), (''sessionId'', case sessionId of None \<Rightarrow> JNull | Some s \<Rightarrow> JStr s)]"

definition refreshKey :: "string option \<Rightarrow> string" where
  "refreshKey jti = refreshAllowKey (nullish jti ''unknown'')"

section \<open>Helpers\<close>

definition safeTtl :: "('r, 'd, 'm) refresh_env_scheme \<Rightarrow> string \<Rightarrow> (('r, 'd) auth_world, int) eff" where
  "safeTtl E key = catchM (redisM (\<lambda>n. r_ttl (e_redis E) n key)) (\<lambda>_. retM (-2))"

definition safeBlacklist :: "('r, 'd, 'm) refresh_env_scheme \<Rightarrow> string option \<Rightarrow> (('r, 'd) auth_world, unit) eff" where
  "safeBlacklist E jti =
     (if \<not> truthy jti then retM ()
      else catchM (blacklistRefreshJti E (the jti) (Some (f_refreshTtlSeconds E))) (\<lambda>_. retM ()))"

text \<open>\<open>GETDEL\<close> when the client has it, otherwise a transaction of \<open>GET\<close> and \<open>DEL\<close>.\<close>

definition atomicGetDel :: "('r, 'd, 'm) refresh_env_scheme \<Rightarrow> string \<Rightarrow> (('r, 'd) auth_world, string option) eff" where
  "atomicGetDel E key =
     (case r_getdel (e_redis E) of
        Some gd \<Rightarrow> redisM (\<lambda>n. gd n key)
      | None \<Rightarrow>
          bindM (attemptM (redisM (\<lambda>n. r_get (e_redis E) n key))) (\<lambda>getRes.
          bindM (attemptM (redisM (\<lambda>n. r_del (e_redis E) n key))) (\<lambda>_.
          retM (case getRes of Inl _ \<Rightarrow> None | Inr v \<Rightarrow> v))))"

text \<open>
  The record of an allow-list entry if it is of the expected user: \<open>rec?.userId\<close> is absent for
  \<open>null\<close> and for any value that is no object. Only text that is no JSON reaches the legacy
  branch.
\<close>

definition parseAllowRecord :: "string \<Rightarrow> string \<Rightarrow> string option \<Rightarrow> json option" where
  "parseAllowRecord stored expectedUserId payloadSid =
     (case json_parse stored of
        Some rec \<Rightarrow>
          if \<not> js_truthy (jfield ''userId'' rec) then None
          else if jfield ''userId'' rec \<noteq> Some (JStr expectedUserId) then None
          else Some rec
      | None \<Rightarrow>
          if stored = ''1'' then Some (allow_record expectedUserId payloadSid) else None)"

text \<open>A string-valued claim; \<open>null\<close> and \<open>undefined\<close> are both absent.\<close>

definition claim :: "string \<Rightarrow> json \<Rightarrow> string option" where
  "claim k payload = (case jfield k payload of None \<Rightarrow> None | Some JNull \<Rightarrow> None | Some v \<Rightarrow> Some (tmpl v))"

definition roleNames :: "UserWithRelations \<Rightarrow> string list" where
  "roleNames user = js_unique (map the (filter truthy (u_userRoles user)))"

definition buildPair ::
  "('r, 'd, 'm) refresh_env_scheme \<Rightarrow> UserWithRelations \<Rightarrow> string option \<Rightarrow> (('r, 'd) auth_world, TokenPair) eff" where
  "buildPair E user sessionId =
     bindM (randomUUID (e_uuid E)) (\<lambda>jti.
     bindM (signAccess E (u_id user) (roleNames user)) (\<lambda>access.
     bindM (signRefresh E (u_id user) (nullish sessionId jti) jti) (\<lambda>refresh.
     let ttl = max (f_refreshTtlSeconds E) 60 in
     thenM (catchM (redisM (\<lambda>n. r_set_ex (e_redis E) n (refreshKey (Some jti))
              (json_print (allow_record (u_id user) sessionId)) ttl)) (\<lambda>_. retM ()))
     (thenM (if truthy sessionId
             then bestEffortM (linkRefreshJti E (u_id user) (the sessionId) jti) else retM ())
     (retM \<lparr>accessToken = access, refreshToken = refresh\<rparr>)))))"

definition verifyRefreshToken ::
  "('r, 'd, 'm) refresh_env_scheme \<Rightarrow> string \<Rightarrow> bool \<Rightarrow> bool \<Rightarrow> (('r, 'd) auth_world, json) eff" where
  "verifyRefreshToken E token ignoreExpiration skipBlacklist =
     (if token = [] then throwM (unauthorized ''Refresh token must be provided.'')
      else catchM (verifyRefresh E token ignoreExpiration skipBlacklist)
             (\<lambda>_. throwM (unauthorized ''Refresh token verification failed.'')))"

section \<open>Public operations\<close>

definition issueTokensForUserId ::
  "('r, 'd, 'm) refresh_env_scheme \<Rightarrow> string \<Rightarrow> string option \<Rightarrow> (('r, 'd) auth_world, TokenPair) eff" where
  "issueTokensForUserId E userId sessionId =
     bindM (ensureActiveWithRoles (f_users E) userId) (\<lambda>hydrated. buildPair E hydrated sessionId)"

text \<open>\<open>record.sessionId && record.sessionId !== payload.sid\<close>\<close>

definition session_mismatch :: "json \<Rightarrow> json \<Rightarrow> bool" where
  "session_mismatch rec payload \<longleftrightarrow>
     js_truthy (jfield ''sessionId'' rec) \<and> jfield ''sessionId'' rec \<noteq> jfield ''sid'' payload"

definition refresh_refresh ::
  "('r, 'd, 'm) refresh_env_scheme \<Rightarrow> string \<Rightarrow> (('r, 'd) auth_world, TokenPair) eff" where
  "refresh_refresh E token =
     bindM (verifyRefreshToken E token False False) (\<lambda>payload.
     thenM (throwIfM (\<not> js_truthy (jfield ''sub'' payload) \<or> \<not> js_truthy (jfield ''jti'' payload))
              (unauthorized ''Malformed refresh token.''))
     (let sub = tmpl_opt (jfield ''sub'' payload);
          jti = tmpl_opt (jfield ''jti'' payload);
          key = refreshKey (Some jti)
      in bindM (safeTtl E key) (\<lambda>ttl.
         bindM (atomicGetDel E key) (\<lambda>stored.
         if \<not> truthy stored
         then throwM (unauthorized ''Refresh token is no longer valid. Please sign in again.'')
         else case parseAllowRecord (the stored) sub (claim ''sid'' payload) of
            None \<Rightarrow> throwM (unauthorized ''Refresh state mismatch.'')
          | Some rec \<Rightarrow>
              thenM (throwIfM (session_mismatch rec payload) (unauthorized ''Refresh token session mismatch.''))
              (thenM (safeBlacklist E (Some jti))
              (thenM (if js_truthy (jfield ''sessionId'' rec)
                      then bestEffortM (unlinkRefreshJti E sub (tmpl_opt (jfield ''sessionId'' rec)) jti) else retM ())
              (bindM (ensureActiveWithRoles (f_users E) sub) (\<lambda>user.
               buildPair E user
                 (case claim ''sessionId'' rec of Some s \<Rightarrow> Some s | None \<Rightarrow> claim ''sid'' payload)))))))))"

definition refresh_revoke :: "('r, 'd, 'm) refresh_env_scheme \<Rightarrow> string \<Rightarrow> (('r, 'd) auth_world, unit) eff" where
  "refresh_revoke E token =
     bindM (verifyRefreshToken E token True True) (\<lambda>payload.
     if \<not> js_truthy (jfield ''sub'' payload) \<or> \<not> js_truthy (jfield ''jti'' payload) then retM ()
     else (let sub = tmpl_opt (jfield ''sub'' payload);
               jti = tmpl_opt (jfield ''jti'' payload)
           in thenM (bestEffortM (redisM (\<lambda>n. r_del (e_redis E) n (refreshKey (Some jti)))))
              (thenM (safeBlacklist E (Some jti))
              (if js_truthy (jfield ''sid'' payload)
               then bestEffortM (unlinkRefreshJti E sub (tmpl_opt (jfield ''sid'' payload)) jti)
               else retM ()))))"

definition peekPayload ::
  "('r, 'd, 'm) refresh_env_scheme \<Rightarrow> string \<Rightarrow> bool \<Rightarrow> (('r, 'd) auth_world, json option) eff" where
  "peekPayload E token ignoreExpiration = peekRefresh E token ignoreExpiration True"

section \<open>The rate limiter\<close>

record limit_env =
  l_windowSec :: int
  l_maxHits :: int
  l_sha256 :: "string \<Rightarrow> string"

text \<open>The constructor; \<open>None\<close> is an unset variable, a number is rounded down to whole units.\<close>

definition limit_init :: "(string \<Rightarrow> string) \<Rightarrow> string option \<Rightarrow> string option \<Rightarrow> limit_env" where
  "limit_init sha windowVar maxVar =
     (let windowRaw = (case windowVar of None \<Rightarrow> Some 10 | Some s \<Rightarrow> js_number s);
          maxRaw = (case maxVar of None \<Rightarrow> Some 5 | Some s \<Rightarrow> js_number s)
      in \<lparr>l_windowSec = (case windowRaw of None \<Rightarrow> 10 | Some x \<Rightarrow> \<lfloor>max 1 x\<rfloor>),
          l_maxHits = (case maxRaw of None \<Rightarrow> 5 | Some x \<Rightarrow> \<lfloor>max 1 x\<rfloor>), l_sha256 = sha\<rparr>)"

definition limit_key :: "limit_env \<Rightarrow> string \<Rightarrow> string" where
  "limit_key L identifier = ''auth:refresh:rl:'' @ take 32 (l_sha256 L identifier)"

definition tooManyRequests :: "string \<Rightarrow> string \<Rightarrow> exn" where
  "tooManyRequests code msg = Http 429 code msg"

definition limit_consume :: "'r redis_ops \<Rightarrow> limit_env \<Rightarrow> string \<Rightarrow> (('r, 'd) auth_world, unit) eff" where
  "limit_consume R L identifier =
     (let subject = (if identifier = [] then ''anonymous'' else identifier);
          key = limit_key L subject
      in bindM (redisM (\<lambda>n. r_incr R n key)) (\<lambda>hits.
         thenM (if hits = 1 then thenM (bindM (redisM (\<lambda>n. r_expire R n key (l_windowSec L))) (\<lambda>_. retM ())) (retM ())
                else retM ())
         (throwIfM (hits > l_maxHits L)
            (tooManyRequests ''TooManyRefreshRequests'' ''Too many refresh attempts. Please try again later.''))))"

end
