(* ===== verification/FakeRedis.thy ===== *)
theory FakeRedis
  imports RedisApi "HOL-Library.AList"
begin

text \<open>
  The in-memory Redis client of the repository's end-to-end tests
  (\<open>apps/api/test/utils/fake-redis.ts\<close>), command by command, and the interpretation of the
  interface \<open>redis_api\<close> on it. A JavaScript \<open>Map\<close> from keys is a partial function, a
  \<open>Set\<close> is a list in insertion order, the \<open>Map\<close> of a sorted set is an association list in
  insertion order. \<open>setTimeout\<close> callbacks are recorded in \<open>timers\<close> and run by
  \<open>fake_fire\<close>.
\<close>

record fake_redis =
  fvalues :: "string \<Rightarrow> string option"
  fsets :: "string \<Rightarrow> string list option"
  fzsets :: "string \<Rightarrow> (string \<times> int) list option"
  expirations :: "string \<Rightarrow> int option"
  timers :: "(string \<times> int) list"

definition fake_new :: fake_redis where
  "fake_new = \<lparr>fvalues = Map.empty, fsets = Map.empty, fzsets = Map.empty,
     expirations = Map.empty, timers = []\<rparr>"

section \<open>Expiry\<close>

definition fake_forget :: "string \<Rightarrow> fake_redis \<Rightarrow> fake_redis" where
  "fake_forget k r = r\<lparr>fvalues := (fvalues r)(k := None), expirations := (expirations r)(k := None)\<rparr>"

definition scheduleExpiration :: "int \<Rightarrow> string \<Rightarrow> int \<Rightarrow> fake_redis \<Rightarrow> fake_redis" where
  "scheduleExpiration now k ttlMs r =
     r\<lparr>expirations := (expirations r)(k := Some (now + ttlMs)),
       timers := timers r @ [(k, now + min (max ttlMs 0) 2147483647)]\<rparr>"

text \<open>The pending \<open>setTimeout\<close> callbacks that are due at \<open>now\<close>, in order.\<close>

definition fake_fire :: "int \<Rightarrow> fake_redis \<Rightarrow> fake_redis" where
  "fake_fire now r =
     (let due = filter (\<lambda>(k, t). t \<le> now) (timers r)
      in fold (\<lambda>(k, t). fake_forget k) due (r\<lparr>timers := filter (\<lambda>(k, t). now < t) (timers r)\<rparr>))"

definition isExpired :: "int \<Rightarrow> string \<Rightarrow> fake_redis \<Rightarrow> bool \<times> fake_redis" where
  "isExpired now k r =
     (case expirations r k of
        None \<Rightarrow> (False, r)
      | Some e \<Rightarrow>
          if e = 0 then (False, r)
          else if e \<le> now then (True, fake_forget k r)
          else (False, r))"

section \<open>String commands\<close>

definition fake_set_ex :: "int \<Rightarrow> string \<Rightarrow> string \<Rightarrow> int \<Rightarrow> (fake_redis, unit) eff" where
  "fake_set_ex now k x ttl r =
     (Inr (), scheduleExpiration now k (ttl * 1000) (r\<lparr>fvalues := (fvalues r)(k := Some x)\<rparr>))"

definition fake_get :: "int \<Rightarrow> string \<Rightarrow> (fake_redis, string option) eff" where
  "fake_get now k r =
     (case isExpired now k r of
        (True, r') \<Rightarrow> (Inr None, r')
      | (False, r') \<Rightarrow> (Inr (fvalues r' k), r'))"

definition fake_del :: "int \<Rightarrow> string \<Rightarrow> (fake_redis, unit) eff" where
  "fake_del now k r =
     (Inr (), r\<lparr>fvalues := (fvalues r)(k := None), expirations := (expirations r)(k := None),
       fsets := (fsets r)(k := None), fzsets := (fzsets r)(k := None)\<rparr>)"

definition fake_getdel :: "int \<Rightarrow> string \<Rightarrow> (fake_redis, string option) eff" where
  "fake_getdel now k = bindM (fake_get now k) (\<lambda>x. bindM (fake_del now k) (\<lambda>_. retM x))"

text \<open>\<open>Number(..)\<close> of a counter; a text that is no integer gives \<open>NaN\<close>, whose text is stored.\<close>

definition fake_incr :: "int \<Rightarrow> string \<Rightarrow> (fake_redis, int) eff" where
  "fake_incr now k r0 =
     (let r = snd (isExpired now k r0);
          current = int_of_str (case fvalues r k of None \<Rightarrow> ''0'' | Some s \<Rightarrow> s)
      in case current of
           Some n \<Rightarrow> (Inr (n + 1), r\<lparr>fvalues := (fvalues r)(k := Some (int_str (n + 1)))\<rparr>)
         | None \<Rightarrow> (Inl (JsError ''NaN''), r\<lparr>fvalues := (fvalues r)(k := Some ''NaN'')\<rparr>))"

definition fake_expire :: "int \<Rightarrow> string \<Rightarrow> int \<Rightarrow> (fake_redis, int) eff" where
  "fake_expire now k ttl r =
     (if fvalues r k = None then (Inr 0, r)
      else if ttl \<le> 0 then (Inr 1, snd (fake_del now k r))
      else (Inr 1, scheduleExpiration now k (ttl * 1000) r))"

definition fake_ttl :: "int \<Rightarrow> string \<Rightarrow> (fake_redis, int) eff" where
  "fake_ttl now k r =
     (if fvalues r k = None then (Inr (-2), r)
      else (case expirations r k of
              None \<Rightarrow> (Inr (-1), r)
            | Some e \<Rightarrow>
                if e = 0 then (Inr (-1), r)
                else if e - now \<le> 0 then (Inr (-2), fake_forget k r)
                else (Inr (- ((now - e) div 1000)), r)))"

section \<open>Set and sorted-set commands\<close>

definition fake_sadd :: "int \<Rightarrow> string \<Rightarrow> string \<Rightarrow> (fake_redis, unit) eff" where
  "fake_sadd now k m r =
     (let xs = (case fsets r k of None \<Rightarrow> [] | Some xs \<Rightarrow> xs)
      in (Inr (), r\<lparr>fsets := (fsets r)(k := Some (if m \<in> set xs then xs else xs @ [m]))\<rparr>))"

definition fake_srem :: "int \<Rightarrow> string \<Rightarrow> string \<Rightarrow> (fake_redis, unit) eff" where
  "fake_srem now k m r =
     (case fsets r k of
        None \<Rightarrow> (Inr (), r)
      | Some xs \<Rightarrow> (Inr (), r\<lparr>fsets := (fsets r)(k := Some (filter (\<lambda>x. x \<noteq> m) xs))\<rparr>))"

definition fake_slist :: "fake_redis \<Rightarrow> string \<Rightarrow> string list" where
  "fake_slist r k = (case fsets r k of None \<Rightarrow> [] | Some xs \<Rightarrow> xs)"

definition fake_smembers :: "int \<Rightarrow> string \<Rightarrow> (fake_redis, string list) eff" where
  "fake_smembers now k r = (Inr (fake_slist r k), r)"

definition fake_zadd :: "int \<Rightarrow> string \<Rightarrow> int \<Rightarrow> string \<Rightarrow> (fake_redis, unit) eff" where
  "fake_zadd now k s m r =
     (let zs = (case fzsets r k of None \<Rightarrow> [] | Some zs \<Rightarrow> zs)
      in (Inr (), r\<lparr>fzsets := (fzsets r)(k := Some (AList.update m s zs))\<rparr>))"

definition fake_zrem :: "int \<Rightarrow> string \<Rightarrow> string \<Rightarrow> (fake_redis, unit) eff" where
  "fake_zrem now k m r =
     (case fzsets r k of
        None \<Rightarrow> (Inr (), r)
      | Some zs \<Rightarrow> (Inr (), r\<lparr>fzsets := (fzsets r)(k := Some (AList.delete m zs))\<rparr>))"

text \<open>The members by descending score; JavaScript's sort is stable.\<close>

definition fake_zlist :: "fake_redis \<Rightarrow> string \<Rightarrow> string list" where
  "fake_zlist r k = (case fzsets r k of None \<Rightarrow> [] | Some zs \<Rightarrow> map fst (sort_key (\<lambda>e. - snd e) zs))"

definition js_slice :: "int \<Rightarrow> int \<Rightarrow> 'a list \<Rightarrow> 'a list" where
  "js_slice a b xs =
     (let n = int (length xs);
          from = (if a < 0 then max 0 (n + a) else min a n);
          upto = (if b < 0 then max 0 (n + b) else min b n)
      in take (nat (upto - from)) (drop (nat from) xs))"

definition fake_zrevrange :: "int \<Rightarrow> string \<Rightarrow> int \<Rightarrow> int \<Rightarrow> (fake_redis, string list) eff" where
  "fake_zrevrange now k start stop r =
     (if fzsets r k = None then (Inr [], r)
      else let sorted = fake_zlist r k;
               normalizedStop = (if stop \<ge> 0 then stop else int (length sorted) + stop)
           in (Inr (js_slice start (normalizedStop + 1) sorted), r))"

definition fake_ops :: "fake_redis redis_ops" where
  "fake_ops = \<lparr>r_get = fake_get, r_set_ex = fake_set_ex, r_getdel = Some fake_getdel,
     r_del = fake_del, r_incr = fake_incr, r_expire = fake_expire, r_ttl = fake_ttl,
     r_sadd = fake_sadd, r_srem = fake_srem, r_smembers = fake_smembers,
     r_zadd = fake_zadd, r_zrem = fake_zrem, r_zrevrange = fake_zrevrange\<rparr>"

section \<open>The interface laws\<close>

text \<open>
  The client is well formed at time \<open>now\<close> when every recorded expiry belongs to a value and
  lies in the future (the timers that were due have fired) and its containers hold no member
  twice.
\<close>

definition fake_ok :: "int \<Rightarrow> fake_redis \<Rightarrow> bool" where
  "fake_ok now r \<longleftrightarrow> 0 \<le> now \<and>
     (\<forall>k e. expirations r k = Some e \<longrightarrow> now < e \<and> fvalues r k \<noteq> None) \<and>
     (\<forall>k xs. fsets r k = Some xs \<longrightarrow> distinct xs) \<and>
     (\<forall>k zs. fzsets r k = Some zs \<longrightarrow> distinct (map fst zs))"

definition fake_view :: "int \<Rightarrow> fake_redis \<Rightarrow> rview" where
  "fake_view now r =
     \<lparr>strs = (\<lambda>k. map_option (\<lambda>x. (x, expirations r k)) (fvalues r k)),
      rsets = (\<lambda>k. set (fake_slist r k)),
      zscores = (\<lambda>k. case fzsets r k of None \<Rightarrow> Map.empty | Some zs \<Rightarrow> map_of zs)\<rparr>"

lemma fake_ok_new [simp]: "0 \<le> now \<Longrightarrow> fake_ok now fake_new"
  by (simp add: fake_ok_def fake_new_def)

lemma isExpired_ok: "fake_ok now r \<Longrightarrow> isExpired now k r = (False, r)"
  by (force simp: fake_ok_def isExpired_def split: option.split)

lemma sort_key_sorted_wrt: "sorted_wrt (\<lambda>x y. f x \<le> f y) (sort_key f xs)"
  using sorted_sort_key [of f xs] by (simp add: sorted_map)

lemma zlist_sorted_scores:
  assumes "distinct (map fst zs)"
  shows "sorted_wrt (\<lambda>m m'. the (map_of zs m') \<le> (the (map_of zs m) :: int)) (map fst (sort_key (\<lambda>e. - snd e) zs))"
proof -
  let ?s = "sort_key (\<lambda>e. - snd e) zs"
  have "sorted_wrt (\<lambda>x y. - snd x \<le> - snd y) ?s" by (rule sort_key_sorted_wrt)
  moreover have "the (map_of zs (fst x)) = snd x" if "x \<in> set ?s" for x
    using that assms by (metis map_of_is_SomeI option.sel prod.collapse set_sort)
  ultimately have "sorted_wrt (\<lambda>x y. the (map_of zs (fst y)) \<le> the (map_of zs (fst x))) ?s"
    by (auto intro: sorted_wrt_mono_rel [rotated])
  then show ?thesis by (simp add: sorted_wrt_map)
qed

lemma js_slice_slice: "0 \<le> a \<Longrightarrow> 0 \<le> b \<Longrightarrow> js_slice a (b + 1) xs = slice a b xs"
  by (auto simp: js_slice_def slice_def Let_def min_def nat_le_iff)


lemmas fake_cmd_defs = fake_ops_def fake_get_def fake_set_ex_def fake_getdel_def fake_del_def
  fake_incr_def fake_expire_def fake_ttl_def fake_sadd_def fake_srem_def fake_smembers_def
  fake_zadd_def fake_zrem_def fake_zrevrange_def

lemma fake_schedule_ok:
  assumes "fake_ok now r" and "0 < t" and "fvalues r k \<noteq> None"
  shows "fake_ok now (scheduleExpiration now k t r)"
  using assms by (auto simp: fake_ok_def scheduleExpiration_def)

lemma fake_schedule_view:
  "fvalues r k = Some x \<Longrightarrow>
   fake_view now (scheduleExpiration now k t r) = v_set k x (Some (now + t)) (fake_view now r)"
  by (auto simp: fake_view_def scheduleExpiration_def v_set_def fake_slist_def)

lemma fake_put_ok: "fake_ok now r \<Longrightarrow> fake_ok now (r\<lparr>fvalues := (fvalues r)(k := Some x)\<rparr>)"
  by (auto simp: fake_ok_def)

lemma fake_put_view:
  "fake_view now (r\<lparr>fvalues := (fvalues r)(k := Some x)\<rparr>) = v_set k x (expirations r k) (fake_view now r)"
  by (auto simp: fake_view_def v_set_def fake_slist_def)

lemma v_set_v_set [simp]: "v_set k x e (v_set k y d v) = v_set k x e v"
  by (simp add: v_set_def)

lemma fake_del_ok: "fake_ok now r \<Longrightarrow> fake_ok now (snd (fake_del now k r))"
  by (auto simp: fake_ok_def fake_del_def)

lemma fake_del_view: "fake_view now (snd (fake_del now k r)) = v_del k (fake_view now r)"
  by (auto simp: fake_view_def v_del_def fake_del_def fake_slist_def fun_eq_iff)

lemma fake_counter: "counter (fake_view now r) k = int_of_str (case fvalues r k of None \<Rightarrow> ''0'' | Some s \<Rightarrow> s)"
proof -
  have "int_of_str ''0'' = Some 0" by (simp add: int_of_str_def is_digit_def digits_val_def digit_val_def)
  then show ?thesis by (auto simp: counter_def fake_view_def split: option.splits)
qed

lemma fake_expiry_future: "fake_ok now r \<Longrightarrow> expirations r k = Some e \<Longrightarrow> now < e"
  by (simp add: fake_ok_def)

lemma fake_expiry: "fake_ok now r \<Longrightarrow> expiry (fake_view now r) k = expirations r k"
  by (cases "expirations r k"; cases "fvalues r k") (force simp: expiry_def fake_view_def fake_ok_def)+

interpretation fr: redis_api fake_ops fake_ok fake_view fake_slist fake_zlist
proof (unfold_locales, goal_cases)
  case (1 now r k)
  then show ?case by (simp add: fake_cmd_defs isExpired_ok post_def sget_def fake_view_def option.map_comp comp_def option.map_ident)
next
  case (2 now r k)
  then show ?case by (simp add: fake_cmd_defs isExpired_ok post_def)
next
  case (3 now r k)
  then show ?case by (simp add: fake_cmd_defs isExpired_ok post_def)
next
  case (4 now r t k x)
  then show ?case by (simp add: fake_cmd_defs post_def)
next
  case (5 now r t k x)
  then show ?case by (simp add: fake_cmd_defs post_def fake_schedule_ok fake_put_ok)
next
  case (6 now r t k x)
  then show ?case by (simp add: fake_cmd_defs post_def fake_schedule_view fake_put_view mult.commute)
next
  case (7 now r gd k)
  then show ?case
    by (auto simp: fake_cmd_defs isExpired_ok post_def exec sget_def fake_view_def option.map_comp comp_def option.map_ident)
next
  case (8 now r gd k)
  then show ?case
    using fake_del_ok [of now r k] by (auto simp: fake_ops_def fake_getdel_def fake_get_def isExpired_ok post_def exec fake_del_def)
next
  case (9 now r gd k)
  then show ?case
    using fake_del_view [of now k r] by (auto simp: fake_ops_def fake_getdel_def fake_get_def isExpired_ok post_def exec fake_del_def)
next
  case (10 now r k)
  then show ?case by (simp add: fake_cmd_defs post_def)
next
  case (11 now r k)
  then show ?case by (simp add: fake_ops_def post_def fake_del_ok)
next
  case (12 now r k)
  then show ?case by (simp add: fake_ops_def post_def fake_del_view)
next
  case (13 now r k n)
  then show ?case by (simp add: fake_cmd_defs post_def isExpired_ok fake_counter)
next
  case (14 now r k n)
  then show ?case by (simp add: fake_cmd_defs post_def isExpired_ok fake_counter fake_put_ok)
next
  case (15 now r k n)
  then show ?case by (simp add: fake_cmd_defs post_def isExpired_ok fake_counter fake_put_view fake_expiry)
next
  case (16 now r t k x e)
  then show ?case by (auto simp: fake_cmd_defs post_def fake_view_def)
next
  case (17 now r t k x e)
  then show ?case by (auto simp: fake_cmd_defs post_def fake_view_def fake_schedule_ok)
next
  case (18 now r t k x e)
  then have "fvalues r k = Some x" by (auto simp: fake_view_def)
  with 18 show ?case by (simp add: fake_cmd_defs post_def fake_schedule_view mult.commute)
next
  case (19 now r k)
  then show ?case
    by (fastforce simp: fake_cmd_defs post_def fake_view_def fake_ok_def ttl_of_def split: option.splits)
next
  case (20 now r k)
  then show ?case
    by (auto simp: fake_cmd_defs post_def split: option.splits dest: fake_expiry_future)
next
  case (21 now r k)
  then show ?case
    by (auto simp: fake_cmd_defs post_def split: option.splits dest: fake_expiry_future)
next
  case (22 now r k m)
  then show ?case by (simp add: fake_cmd_defs post_def Let_def)
next
  case (23 now r k m)
  then show ?case by (auto simp: fake_cmd_defs post_def Let_def fake_ok_def split: option.splits)
next
  case (24 now r k m)
  then show ?case
    by (auto simp: fake_cmd_defs post_def Let_def fake_view_def v_sadd_def fake_slist_def fun_eq_iff split: option.splits)
next
  case (25 now r k m)
  then show ?case by (simp add: fake_cmd_defs post_def split: option.split)
next
  case (26 now r k m)
  then show ?case by (auto simp: fake_cmd_defs post_def fake_ok_def split: option.splits)
next
  case (27 now r k m)
  then show ?case
    by (auto simp: fake_cmd_defs post_def fake_view_def v_srem_def fake_slist_def fun_eq_iff split: option.splits)
next
  case (28 now r k)
  then show ?case by (simp add: fake_cmd_defs post_def)
next
  case (29 now r k)
  then show ?case by (simp add: fake_cmd_defs post_def)
next
  case (30 now r k)
  then show ?case by (simp add: fake_cmd_defs post_def)
next
  case (31 now r k)
  then show ?case by (simp add: fake_view_def)
next
  case (32 now r k)
  then show ?case by (auto simp: fake_slist_def fake_ok_def split: option.split)
next
  case (33 now r k s m)
  then show ?case by (simp add: fake_cmd_defs post_def Let_def)
next
  case (34 now r k s m)
  then show ?case by (auto simp: fake_cmd_defs post_def Let_def fake_ok_def distinct_update split: option.splits)
next
  case (35 now r k s m)
  then show ?case
    by (auto simp: fake_cmd_defs post_def Let_def fake_view_def v_zadd_def fake_slist_def fun_eq_iff update_conv split: option.splits)
next
  case (36 now r k m)
  then show ?case by (simp add: fake_cmd_defs post_def split: option.split)
next
  case (37 now r k m)
  then show ?case by (auto simp: fake_cmd_defs post_def fake_ok_def distinct_delete split: option.splits)
next
  case (38 now r k m)
  then show ?case
    by (auto simp: fake_cmd_defs post_def fake_view_def v_zrem_def fake_slist_def fun_eq_iff delete_conv split: option.splits)
next
  case (39 now r a b k)
  then show ?case
    by (cases "fzsets r k") (simp_all add: fake_cmd_defs post_def Let_def js_slice_slice, simp add: slice_def fake_zlist_def)
next
  case (40 now r k a b)
  then show ?case by (simp add: fake_cmd_defs post_def Let_def)
next
  case (41 now r k a b)
  then show ?case by (simp add: fake_cmd_defs post_def Let_def)
next
  case (42 now r k)
  then show ?case
    by (cases "fzsets r k") (simp_all add: fake_zlist_def fake_view_def dom_map_of_conv_image_fst)
next
  case (43 now r k)
  then show ?case
    by (auto simp: fake_zlist_def fake_ok_def distinct_map split: option.split)
next
  case (44 now r k)
  then show ?case
    by (auto simp: fake_zlist_def fake_view_def fake_ok_def zlist_sorted_scores split: option.split)
qed

end
