(* ===== verification/SessionFacts.thy ===== *)
theory SessionFacts
  imports Session FakeRedis
begin

text \<open>
  What the session store promises: its key schema, and the effect of each operation on what can
  be observed of the server, for any Redis that satisfies \<open>redis_api\<close>. The effect lemmas of
  the locale block are equations between views; the properties of the store follow from them.
\<close>

section \<open>The key schema\<close>

lemmas key_defs = keySession_def keyIndex_def keyIndexZ_def keySessionJtis_def keyJtiIndex_def refreshAllowKey_def

lemma append_eq_colon:
  assumes "a @ CHR '':'' # b = c @ CHR '':'' # d" and "CHR '':'' \<notin> set a" and "CHR '':'' \<notin> set c"
  shows "a = c \<and> b = d"
proof -
  have "split_on (CHR '':'') (a @ CHR '':'' # b) = a # split_on (CHR '':'') b"
    "split_on (CHR '':'') (c @ CHR '':'' # d) = c # split_on (CHR '':'') d"
    using assms(2, 3) by (simp_all add: split_on_append)
  with assms(1) have "a = c" by simp
  with assms(1) show ?thesis by simp
qed

text \<open>Identifiers the service is called with: UUIDs hold no colon and are no reserved word.\<close>

definition plain_id :: "string \<Rightarrow> bool" where
  "plain_id s \<longleftrightarrow> CHR '':'' \<notin> set s \<and> s \<notin> {''index'', ''jtis'', ''jti'', ''z''}"

lemma keySession_inj:
  "plain_id u \<Longrightarrow> plain_id u' \<Longrightarrow> keySession u s = keySession u' s' \<longleftrightarrow> u = u' \<and> s = s'"
  by (auto simp: keySession_def plain_id_def dest: append_eq_colon)

lemma keySessionJtis_inj:
  "plain_id u \<Longrightarrow> plain_id u' \<Longrightarrow> keySessionJtis u s = keySessionJtis u' s' \<longleftrightarrow> u = u' \<and> s = s'"
  by (auto simp: keySessionJtis_def plain_id_def dest: append_eq_colon)

lemma key_inj [simp]:
  "keyIndex u = keyIndex u' \<longleftrightarrow> u = u'" "keyIndexZ u = keyIndexZ u' \<longleftrightarrow> u = u'"
  "keyJtiIndex j = keyJtiIndex j' \<longleftrightarrow> j = j'" "refreshAllowKey j = refreshAllowKey j' \<longleftrightarrow> j = j'"
  by (simp_all add: key_defs)

lemma key_disjoint [simp]:
  "refreshAllowKey j \<noteq> keySession u s" "refreshAllowKey j \<noteq> keyIndex u" "refreshAllowKey j \<noteq> keyIndexZ u"
  "refreshAllowKey j \<noteq> keySessionJtis u s" "refreshAllowKey j \<noteq> keyJtiIndex i"
  "keyJtiIndex j \<noteq> keyIndex u" "keyJtiIndex j \<noteq> keyIndexZ u" "keyJtiIndex j \<noteq> keySessionJtis u s"
  "keySessionJtis u s \<noteq> keyIndex v" "keySessionJtis u s \<noteq> keyIndexZ v"
  by (simp_all add: key_defs)

lemmas key_disjoint_sym [simp] = key_disjoint [symmetric]

lemma plain_id_colon: "plain_id u \<Longrightarrow> x \<in> {''index'', ''jtis'', ''jti''} \<Longrightarrow>
  u @ CHR '':'' # s \<noteq> x @ CHR '':'' # t"
  by (auto simp: plain_id_def dest!: append_eq_colon)

lemma keySession_disjoint:
  assumes "plain_id u"
  shows "keySession u s \<noteq> keyIndex v" "keySession u s \<noteq> keyIndexZ v"
    "keySession u s \<noteq> keySessionJtis v t" "keySession u s \<noteq> keyJtiIndex j"
  using plain_id_colon [OF assms, of "''index''" s v] plain_id_colon [OF assms, of "''index''" s "''z:'' @ v"]
    plain_id_colon [OF assms, of "''jtis''" s "v @ '':'' @ t"] plain_id_colon [OF assms, of "''jti''" s "''index:'' @ j"]
  by (simp_all add: key_defs)

lemma keyIndex_Z: "plain_id u \<Longrightarrow> keyIndex u \<noteq> keyIndexZ v"
  by (auto simp: key_defs plain_id_def)

text \<open>
  The keys of the store by the Redis type they are used with. The interface observes strings,
  sets and sorted sets separately; that is exact because no key has two types.
\<close>

definition string_keys :: "string set" where
  "string_keys = {keySession u s |u s. plain_id u} \<union> range keyJtiIndex \<union> range refreshAllowKey"

definition set_keys :: "string set" where
  "set_keys = keyIndex ` Collect plain_id \<union> {keySessionJtis u s |u s. plain_id u}"

definition zset_keys :: "string set" where
  "zset_keys = keyIndexZ ` Collect plain_id"

section \<open>The effect of each operation\<close>

definition revoked_keys :: "string \<Rightarrow> string \<Rightarrow> string set \<Rightarrow> string set" where
  "revoked_keys u s J = keyJtiIndex ` J \<union> refreshAllowKey ` J \<union> {keySessionJtis u s, keySession u s}"

definition v_revoke :: "string \<Rightarrow> string \<Rightarrow> string set \<Rightarrow> rview \<Rightarrow> rview" where
  "v_revoke u s J v =
     \<lparr>strs = (\<lambda>k. if k \<in> revoked_keys u s J then None else strs v k),
      rsets = (\<lambda>k. if k \<in> revoked_keys u s J then {}
                   else if k = keyIndex u then rsets v k - {s} else rsets v k),
      zscores = (\<lambda>k. if k \<in> revoked_keys u s J then Map.empty
                   else if k = keyIndexZ u then (zscores v k)(s := None) else zscores v k)\<rparr>"

definition jti_effects :: "string list \<Rightarrow> (int \<Rightarrow> rview \<Rightarrow> rview) list" where
  "jti_effects js = concat (map (\<lambda>j. [\<lambda>n. v_del (keyJtiIndex j), \<lambda>n. v_del (refreshAllowKey j)]) js)"

definition revoke_effects :: "string \<Rightarrow> string \<Rightarrow> string list \<Rightarrow> (int \<Rightarrow> rview \<Rightarrow> rview) list" where
  "revoke_effects u s js = jti_effects js @
     [\<lambda>n. v_del (keySessionJtis u s), \<lambda>n. v_del (keySession u s),
      \<lambda>n. v_srem (keyIndex u) s, \<lambda>n. v_zrem (keyIndexZ u) s]"

lemma jti_effects_view:
  "effects (jti_effects js) n v =
     \<lparr>strs = (\<lambda>k. if k \<in> keyJtiIndex ` set js \<union> refreshAllowKey ` set js then None else strs v k),
      rsets = (\<lambda>k. if k \<in> keyJtiIndex ` set js \<union> refreshAllowKey ` set js then {} else rsets v k),
      zscores = (\<lambda>k. if k \<in> keyJtiIndex ` set js \<union> refreshAllowKey ` set js then Map.empty else zscores v k)\<rparr>"
proof (induction js arbitrary: v)
  case Nil
  then show ?case by (simp add: jti_effects_def)
next
  case (Cons j js)
  have "effects (jti_effects (j # js)) n v
      = effects (jti_effects js) n (v_del (refreshAllowKey j) (v_del (keyJtiIndex j) v))"
    by (simp add: jti_effects_def)
  then show ?case unfolding Cons.IH by (auto simp: rview_simps fun_eq_iff)
qed

lemma revoke_effects_view: "effects (revoke_effects u s js) n v = v_revoke u s (set js) v"
  unfolding revoke_effects_def effects_simps jti_effects_view v_revoke_def revoked_keys_def
  by (auto simp: v_del_def v_srem_def v_zrem_def fun_eq_iff)

text \<open>What the store holds for a session: the parsed record, if there is one.\<close>

definition live_record :: "rview \<Rightarrow> string \<Rightarrow> string \<Rightarrow> json option" where
  "live_record v u s =
     (case sget v (keySession u s) of None \<Rightarrow> None | Some t \<Rightarrow> if t = [] then None else json_parse t)"

definition v_heal :: "string \<Rightarrow> string set \<Rightarrow> rview \<Rightarrow> rview" where
  "v_heal u S v = v\<lparr>rsets := (rsets v)(keyIndex u := rsets v (keyIndex u) - S),
     zscores := (zscores v)(keyIndexZ u := (zscores v (keyIndexZ u)) |` (- S))\<rparr>"

lemma v_heal_empty [simp]: "v_heal u {} v = v"
  by (simp add: v_heal_def restrict_map_def)

definition heal_effects :: "string \<Rightarrow> string list \<Rightarrow> (int \<Rightarrow> rview \<Rightarrow> rview) list" where
  "heal_effects u ss = concat (map (\<lambda>s. [\<lambda>n. v_srem (keyIndex u) s, \<lambda>n. v_zrem (keyIndexZ u) s]) ss)"

lemma heal_effects_view: "effects (heal_effects u ss) n v = v_heal u (set ss) v"
proof (induction ss arbitrary: v)
  case Nil
  then show ?case by (simp add: heal_effects_def)
next
  case (Cons s ss)
  have "effects (heal_effects u (s # ss)) n v
      = effects (heal_effects u ss) n (v_zrem (keyIndexZ u) s (v_srem (keyIndex u) s v))"
    by (simp add: heal_effects_def)
  also have "\<dots> = v_heal u (set (s # ss)) v"
    unfolding Cons.IH by (intro rview.equality ext) (auto simp: v_heal_def v_srem_def v_zrem_def restrict_map_def)
  finally show ?case .
qed

lemma sift_reads:
  "sift (zip ss (map (\<lambda>k. Inr (sget v k)) (map (keySession u) ss))) =
     (List.map_filter (live_record v u) ss, filter (\<lambda>s. live_record v u s = None) ss)"
proof (induction ss)
  case Nil
  then show ?case by (simp add: map_filter_simps)
next
  case (Cons s ss)
  then show ?case
    by (auto simp: live_record_def map_filter_simps split: option.splits)
qed

definition v_revokeAll :: "string \<Rightarrow> (string \<times> string list) list \<Rightarrow> rview \<Rightarrow> rview" where
  "v_revokeAll u ps v = fold (\<lambda>(s, js). v_revoke u s (set js)) ps v"

lemma revokeAll_effects_view:
  "effects (concat (map (\<lambda>(s, js). revoke_effects u s js) ps)) n v = v_revokeAll u ps v"
  by (induction ps arbitrary: v) (auto simp: v_revokeAll_def revoke_effects_view)

lemma strs_v_revokeAll:
  "strs (v_revokeAll u ps v) k =
     (if \<exists>(s, js)\<in>set ps. k \<in> revoked_keys u s (set js) then None else strs v k)"
  by (induction ps arbitrary: v) (auto simp: v_revokeAll_def v_revoke_def)

lemma plain_index_not_revoked:
  "plain_id u \<Longrightarrow> keyIndex w \<notin> revoked_keys u s J" "plain_id u \<Longrightarrow> keyIndexZ w \<notin> revoked_keys u s J"
  using keySession_disjoint(1) [of u s w] keySession_disjoint(2) [of u s w] by (auto simp: revoked_keys_def)

lemma rsets_v_revokeAll:
  "plain_id u \<Longrightarrow> rsets (v_revokeAll u ps v) (keyIndex w) =
     (if w = u then rsets v (keyIndex u) - fst ` set ps else rsets v (keyIndex w))"
  by (induction ps arbitrary: v) (auto simp: v_revokeAll_def v_revoke_def plain_index_not_revoked)

context redis_api
begin

lemma acts_revoke_commands:
  assumes "e_redis E = R"
  shows "list_all2 (acts ok view) (revoke_commands E u s js) (revoke_effects u s js)"
proof -
  have "list_all2 (acts ok view)
      (concat (map (\<lambda>jti. [redisM (\<lambda>n. r_del R n (keyJtiIndex jti)), redisM (\<lambda>n. r_del R n (refreshAllowKey jti))]) js))
      (jti_effects js)"
    by (induction js) (auto simp: jti_effects_def intro: acts_commands)
  then show ?thesis
    unfolding revoke_commands_def revoke_effects_def assms
    by (intro list_all2_appendI) (auto intro: acts_commands)
qed

text \<open>\<open>create\<close>\<close>

lemma create_effect:
  assumes "e_redis E = R" and "wok ok w" and "0 < e_sessionTtlSec E"
  shows "\<exists>w'. session_create E ci w =
      (Inr \<lparr>s_id = e_uuid E (w_ctr w), s_userId = ci_userId ci, s_ip = ci_ip ci, s_userAgent = ci_userAgent ci,
            s_device = ci_device ci, s_createdAt = w_now w, s_lastUsedAt = w_now w, s_revokedAt = None\<rparr>, w') \<and>
    wok ok w' \<and> w_now w' = w_now w \<and> w_db w' = w_db w \<and> w_ctr w' = Suc (w_ctr w) \<and>
    wview view w' =
      v_zadd (keyIndexZ (ci_userId ci)) (w_now w) (e_uuid E (w_ctr w))
       (v_sadd (keyIndex (ci_userId ci)) (e_uuid E (w_ctr w))
        (v_set (keySession (ci_userId ci) (e_uuid E (w_ctr w)))
          (json_print (session_json \<lparr>s_id = e_uuid E (w_ctr w), s_userId = ci_userId ci, s_ip = ci_ip ci,
            s_userAgent = ci_userAgent ci, s_device = ci_device ci, s_createdAt = w_now w,
            s_lastUsedAt = w_now w, s_revokedAt = None\<rparr>))
          (Some (w_now w + 1000 * e_sessionTtlSec E)) (wview view w)))"
proof -
  let ?sid = "e_uuid E (w_ctr w)"
  let ?u = "ci_userId ci"
  let ?rec = "\<lparr>s_id = ?sid, s_userId = ?u, s_ip = ci_ip ci, s_userAgent = ci_userAgent ci,
     s_device = ci_device ci, s_createdAt = w_now w, s_lastUsedAt = w_now w, s_revokedAt = None\<rparr>"
  let ?w1 = "w\<lparr>w_ctr := Suc (w_ctr w)\<rparr>"
  let ?cs = "[redisM (\<lambda>n. r_set_ex R n (keySession ?u ?sid) (json_print (session_json ?rec)) (e_sessionTtlSec E)),
     redisM (\<lambda>n. r_sadd R n (keyIndex ?u) ?sid), redisM (\<lambda>n. r_zadd R n (keyIndexZ ?u) (w_now w) ?sid)]"
  let ?gs = "[\<lambda>n. v_set (keySession ?u ?sid) (json_print (session_json ?rec)) (Some (n + 1000 * e_sessionTtlSec E)),
     \<lambda>n. v_sadd (keyIndex ?u) ?sid, \<lambda>n. v_zadd (keyIndexZ ?u) (w_now w) ?sid]"
  have "acts ok view (batchM ?cs) (effects ?gs)"
    using assms(3) by (intro acts_batch) (auto intro: acts_commands)
  moreover have "wok ok ?w1" using assms(2) by (simp add: wok_def)
  ultimately obtain w' where "batchM ?cs ?w1 = (Inr (), w')" "wok ok w'"
    "wview view w' = effects ?gs (w_now ?w1) (wview view ?w1)"
    "w_now w' = w_now ?w1" "w_db w' = w_db ?w1" "w_ctr w' = w_ctr ?w1"
    by (rule actsE)
  then show ?thesis
    by (intro exI [of _ w'])
       (simp add: session_create_def assms(1) dateNow_def randomUUID_def exec Let_def wview_def)
qed

text \<open>\<open>get\<close>\<close>

lemma session_get_run:
  assumes "e_redis E = R" and "wok ok w"
  shows "session_get E u s w =
    ((case sget (wview view w) (keySession u s) of
        None \<Rightarrow> Inr None
      | Some t \<Rightarrow> if t = [] then Inr None
                  else (case json_parse t of None \<Rightarrow> Inl (JsError ''SyntaxError'') | Some j \<Rightarrow> Inr (Some j))),
     rstep (\<lambda>n. r_get R n (keySession u s)) w)"
  using get_world(1) [OF assms(2), of "keySession u s"]
  by (auto simp: session_get_def assms(1) exec truthy_def parseM_def split: option.split)

text \<open>\<open>revoke\<close>\<close>

lemma revoke_effect:
  assumes "e_redis E = R" and "wok ok w"
  obtains w' where "session_revoke E u s w = (Inr (), w')" and "wok ok w'"
    and "wview view w' = v_revoke u s (rsets (wview view w) (keySessionJtis u s)) (wview view w)"
    and "w_now w' = w_now w" and "w_db w' = w_db w" and "w_ctr w' = w_ctr w"
proof -
  note sm = smembers_world [OF assms(2), of "keySessionJtis u s"]
  let ?js = "slist (w_redis w) (keySessionJtis u s)"
  have "acts ok view (batchM (revoke_commands E u s ?js)) (effects (revoke_effects u s ?js))"
    using acts_batch [OF acts_revoke_commands [OF assms(1)]] .
  from this sm(2) obtain w' where
    "batchM (revoke_commands E u s ?js) (rstep (\<lambda>n. r_smembers R n (keySessionJtis u s)) w) = (Inr (), w')"
    "wok ok w'" "wview view w' = v_revoke u s (set ?js) (wview view w)"
    "w_now w' = w_now w" "w_db w' = w_db w" "w_ctr w' = w_ctr w"
    by (rule actsE) (simp add: revoke_effects_view sm(3))
  then show ?thesis using that sm(1, 4) by (simp add: session_revoke_def assms(1) exec)
qed

text \<open>The batch of reads behind \<open>list\<close> and \<open>listPage\<close>, and the repair of the indexes.\<close>

lemma readSessions_run:
  assumes "e_redis E = R" and "wok ok w"
  obtains w' where "readSessions E u ss w =
      (Inr (zip ss (map (\<lambda>k. Inr (sget (wview view w) k)) (map (keySession u) ss))), w')"
    and "wok ok w'" and "wview view w' = wview view w"
    and "w_now w' = w_now w" and "w_db w' = w_db w" and "w_ctr w' = w_ctr w"
  using get_batch [OF assms(2), of "map (keySession u) ss"] that
  by (auto simp: readSessions_def assms(1) exec)

lemma acts_removeStale:
  assumes "e_redis E = R"
  shows "acts ok view (removeStale E u ss) (\<lambda>n. v_heal u (set ss))"
proof (cases "ss = []")
  case True
  have "(\<lambda>n::int. v_heal u {}) = (\<lambda>n v. v)" by (intro ext) simp
  with True show ?thesis by (simp add: removeStale_def acts_ret)
next
  case False
  have "list_all2 (acts ok view)
      (concat (map (\<lambda>s. [redisM (\<lambda>n. r_srem R n (keyIndex u) s), redisM (\<lambda>n. r_zrem R n (keyIndexZ u) s)]) ss))
      (heal_effects u ss)"
    by (induction ss) (auto simp: heal_effects_def intro: acts_commands)
  from acts_batch [OF this] show ?thesis
    using False by (simp add: removeStale_def assms heal_effects_view [abs_def])
qed

lemma list_effect:
  assumes "e_redis E = R" and "wok ok w"
  obtains w' where "session_list E u w =
      (Inr (sort_key (\<lambda>j. - lastUsed j) (List.map_filter (live_record (wview view w) u) (slist (w_redis w) (keyIndex u)))), w')"
    and "wok ok w'"
    and "wview view w' = v_heal u {s \<in> rsets (wview view w) (keyIndex u). live_record (wview view w) u s = None} (wview view w)"
    and "w_now w' = w_now w" and "w_db w' = w_db w" and "w_ctr w' = w_ctr w"
proof -
  note sm = smembers_world [OF assms(2), of "keyIndex u"]
  let ?ss = "slist (w_redis w) (keyIndex u)"
  let ?v = "wview view w"
  let ?stale = "filter (\<lambda>s. live_record ?v u s = None) ?ss"
  let ?w1 = "rstep (\<lambda>n. r_smembers R n (keyIndex u)) w"
  show ?thesis
  proof (cases "?ss = []")
    case True
    with sm(4) have "rsets ?v (keyIndex u) = {}" by simp
    with True sm show ?thesis
      by (intro that [of ?w1]) (simp_all add: session_list_def assms(1) exec map_filter_simps)
  next
    case False
    obtain w2 where r: "readSessions E u ?ss ?w1 =
        (Inr (zip ?ss (map (\<lambda>k. Inr (sget (wview view ?w1) k)) (map (keySession u) ?ss))), w2)"
      "wok ok w2" "wview view w2 = wview view ?w1" "w_now w2 = w_now ?w1" "w_db w2 = w_db ?w1" "w_ctr w2 = w_ctr ?w1"
      by (rule readSessions_run [OF assms(1) sm(2)])
    obtain w3 where h: "removeStale E u ?stale w2 = (Inr (), w3)" "wok ok w3"
      "wview view w3 = v_heal u (set ?stale) (wview view w2)"
      "w_now w3 = w_now w2" "w_db w3 = w_db w2" "w_ctr w3 = w_ctr w2"
      by (rule actsE [OF acts_removeStale [OF assms(1)] r(2)])
    have sf: "sift (zip ?ss (map (\<lambda>k. Inr (sget (wview view ?w1) k)) (map (keySession u) ?ss))) =
        (List.map_filter (live_record ?v u) ?ss, ?stale)"
      unfolding sm(3) by (rule sift_reads)
    show ?thesis
    proof (rule that)
      show "session_list E u w = (Inr (sort_key (\<lambda>j. - lastUsed j) (List.map_filter (live_record ?v u) ?ss)), w3)"
        by (simp only: session_list_def assms(1) bindM_def sm(1) prod.case sum.case False if_False r(1) sf h(1) retM_def)
      show "wview view w3 = v_heal u {s \<in> rsets ?v (keyIndex u). live_record ?v u s = None} ?v"
        using h(3) r(3) sm(3) by (simp add: sm(4) [symmetric])
    qed (use h r in simp_all)
  qed
qed

lemma listPage_effect:
  assumes "e_redis E = R" and "wok ok w"
    and lo: "a = max 0 (case lp_offset opts of None \<Rightarrow> 0 | Some x \<Rightarrow> x)"
    and li: "l = max 1 (case lp_limit opts of None \<Rightarrow> 20 | Some x \<Rightarrow> x)"
  obtains w' where "session_listPage E u opts w =
      (Inr (List.map_filter (live_record (wview view w) u) (slice a (a + l - 1) (zlist (w_redis w) (keyIndexZ u)))), w')"
    and "wok ok w'"
    and "wview view w' = v_heal u
      {s \<in> set (slice a (a + l - 1) (zlist (w_redis w) (keyIndexZ u))). live_record (wview view w) u s = None} (wview view w)"
    and "w_now w' = w_now w" and "w_db w' = w_db w" and "w_ctr w' = w_ctr w"
proof -
  have "0 \<le> a" "0 \<le> a + l - 1" using lo li by simp_all
  note zr = zrevrange_world [OF assms(2) this, of "keyIndexZ u"]
  let ?ss = "slice a (a + l - 1) (zlist (w_redis w) (keyIndexZ u))"
  let ?v = "wview view w"
  let ?stale = "filter (\<lambda>s. live_record ?v u s = None) ?ss"
  let ?w1 = "rstep (\<lambda>n. r_zrevrange R n (keyIndexZ u) a (a + l - 1)) w"
  have def: "session_listPage E u opts = bindM (redisM (\<lambda>n. r_zrevrange R n (keyIndexZ u) a (a + l - 1))) (\<lambda>sids.
     if sids = [] then retM []
     else bindM (readSessions E u sids) (\<lambda>res. case sift res of (items, stale) \<Rightarrow>
            bindM (removeStale E u stale) (\<lambda>_. retM items)))"
    unfolding session_listPage_def Let_def assms(1) lo li ..
  show ?thesis
  proof (cases "?ss = []")
    case True
    with zr show ?thesis
      by (intro that [of ?w1]) (simp_all add: def exec map_filter_simps)
  next
    case False
    obtain w2 where r: "readSessions E u ?ss ?w1 =
        (Inr (zip ?ss (map (\<lambda>k. Inr (sget (wview view ?w1) k)) (map (keySession u) ?ss))), w2)"
      "wok ok w2" "wview view w2 = wview view ?w1" "w_now w2 = w_now ?w1" "w_db w2 = w_db ?w1" "w_ctr w2 = w_ctr ?w1"
      by (rule readSessions_run [OF assms(1) zr(2)])
    obtain w3 where h: "removeStale E u ?stale w2 = (Inr (), w3)" "wok ok w3"
      "wview view w3 = v_heal u (set ?stale) (wview view w2)"
      "w_now w3 = w_now w2" "w_db w3 = w_db w2" "w_ctr w3 = w_ctr w2"
      by (rule actsE [OF acts_removeStale [OF assms(1)] r(2)])
    have sf: "sift (zip ?ss (map (\<lambda>k. Inr (sget (wview view ?w1) k)) (map (keySession u) ?ss))) =
        (List.map_filter (live_record ?v u) ?ss, ?stale)"
      unfolding zr(3) by (rule sift_reads)
    show ?thesis
    proof (rule that)
      show "session_listPage E u opts w = (Inr (List.map_filter (live_record ?v u) ?ss), w3)"
        by (simp only: def bindM_def zr(1) prod.case sum.case False if_False r(1) sf h(1) retM_def)
      show "wview view w3 = v_heal u {s \<in> set ?ss. live_record ?v u s = None} ?v"
        using h(3) r(3) zr(3) by simp
    qed (use h r in simp_all)
  qed
qed

text \<open>\<open>touch\<close>\<close>

lemma touch_absent:
  assumes "e_redis E = R" and "wok ok w" and "\<not> truthy (sget (wview view w) (keySession u s))"
  shows "fst (session_touch E u s w) = Inl (notFound ''Session not found.'')"
  using get_world(1) [OF assms(2), of "keySession u s"] assms(3)
  by (simp add: session_touch_def assms(1) exec Let_def)

lemma touch_effect:
  assumes "e_redis E = R" and "wok ok w" and "0 < e_sessionTtlSec E"
    and t: "sget (wview view w) (keySession u s) = Some t" "t \<noteq> []" "json_parse t = Some (JObj kvs)"
    and rec: "rec = JObj (jput ''lastUsedAt'' (JNum (w_now w)) kvs)"
  obtains w' where "session_touch E u s w = (Inr rec, w')" and "wok ok w'"
    and "wview view w' = v_zadd (keyIndexZ u) (w_now w) s
      (v_set (keySession u s) (json_print rec) (Some (w_now w + 1000 * e_sessionTtlSec E)) (wview view w))"
    and "w_now w' = w_now w" and "w_db w' = w_db w" and "w_ctr w' = w_ctr w"
proof -
  note g = get_world [OF assms(2), of "keySession u s"]
  let ?w1 = "rstep (\<lambda>n. r_get R n (keySession u s)) w"
  let ?cs = "[redisM (\<lambda>n. r_set_ex R n (keySession u s) (json_print rec) (e_sessionTtlSec E)),
     redisM (\<lambda>n. r_zadd R n (keyIndexZ u) (w_now w) s)]"
  let ?gs = "[\<lambda>n. v_set (keySession u s) (json_print rec) (Some (n + 1000 * e_sessionTtlSec E)),
     \<lambda>n. v_zadd (keyIndexZ u) (w_now w) s]"
  have "acts ok view (batchM ?cs) (effects ?gs)"
    using assms(3) by (intro acts_batch) (auto intro: acts_commands)
  from this g(2) obtain w' where b: "batchM ?cs ?w1 = (Inr (), w')" "wok ok w'"
    "wview view w' = effects ?gs (w_now ?w1) (wview view ?w1)"
    "w_now w' = w_now ?w1" "w_db w' = w_db ?w1" "w_ctr w' = w_ctr ?w1"
    by (rule actsE)
  show ?thesis
  proof (rule that)
    have "truthy (sget (wview view w) (keySession u s))" using t by (simp add: truthy_def)
    then show "session_touch E u s w = (Inr rec, w')"
      by (simp only: session_touch_def Let_def assms(1) bindM_def g(1) prod.case sum.case not_True_eq_False
            if_False t option.sel parseM_def option.case retM_def dateNow_def getsM_def rstep_rest jset.simps rec [symmetric] b(1))
  qed (use b g(3) in simp_all)
qed

text \<open>\<open>linkRefreshJti\<close>, \<open>unlinkRefreshJti\<close>, \<open>findSessionByJti\<close>\<close>

lemma acts_link:
  assumes "e_redis E = R" and "0 < e_sessionTtlSec E"
  shows "acts ok view (linkRefreshJti E u s j)
    (\<lambda>n v. v_set (keyJtiIndex j) (u @ '':'' @ s) (Some (n + 1000 * e_sessionTtlSec E)) (v_sadd (keySessionJtis u s) j v))"
proof -
  have "acts ok view (linkRefreshJti E u s j) (effects [\<lambda>n. v_sadd (keySessionJtis u s) j,
      \<lambda>n. v_set (keyJtiIndex j) (u @ '':'' @ s) (Some (n + 1000 * e_sessionTtlSec E))])"
    unfolding linkRefreshJti_def assms(1) using assms(2) by (intro acts_batch) (auto intro: acts_commands)
  then show ?thesis by (simp add: effects_def [abs_def] comp_def)
qed

lemma acts_unlink:
  assumes "e_redis E = R"
  shows "acts ok view (unlinkRefreshJti E u s j)
    (\<lambda>n v. v_del (keyJtiIndex j) (v_srem (keySessionJtis u s) j v))"
proof -
  have "acts ok view (unlinkRefreshJti E u s j)
      (effects [\<lambda>n. v_srem (keySessionJtis u s) j, \<lambda>n. v_del (keyJtiIndex j)])"
    unfolding unlinkRefreshJti_def assms(1) by (intro acts_batch) (auto intro: acts_commands)
  then show ?thesis by (simp add: effects_def [abs_def] comp_def)
qed

lemma find_run:
  assumes "e_redis E = R" and "wok ok w"
  shows "findSessionByJti E j w =
    (Inr (case sget (wview view w) (keyJtiIndex j) of
        None \<Rightarrow> None
      | Some t \<Rightarrow> if t = [] then None
          else (case split_on (CHR '':'') t of [] \<Rightarrow> None | [u] \<Rightarrow> Some (u, None) | u # s # _ \<Rightarrow> Some (u, Some s))),
     rstep (\<lambda>n. r_get R n (keyJtiIndex j)) w)"
  using get_world(1) [OF assms(2), of "keyJtiIndex j"]
  by (auto simp: findSessionByJti_def assms(1) exec truthy_def split: option.split list.split)

text \<open>\<open>revokeAll\<close>\<close>

lemma acts_revokeAll_commands:
  assumes "e_redis E = R"
  shows "list_all2 (acts ok view)
    (concat (map (\<lambda>(s, js). revoke_commands E u s js) ps)) (concat (map (\<lambda>(s, js). revoke_effects u s js) ps))"
  by (induction ps) (auto intro!: list_all2_appendI acts_revoke_commands assms)

lemma revokeAll_effect:
  assumes "e_redis E = R" and "wok ok w"
  obtains w' jss where "session_revokeAll E u w = (Inr (), w')" and "wok ok w'"
    and "wview view w' = v_revokeAll u (zip (slist (w_redis w) (keyIndex u)) jss) (wview view w)"
    and "list_all2 (\<lambda>s js. set js = rsets (wview view w) (keySessionJtis u s)) (slist (w_redis w) (keyIndex u)) jss"
    and "w_now w' = w_now w" and "w_db w' = w_db w" and "w_ctr w' = w_ctr w"
proof -
  note sm = smembers_world [OF assms(2), of "keyIndex u"]
  let ?ss = "slist (w_redis w) (keyIndex u)"
  let ?w1 = "rstep (\<lambda>n. r_smembers R n (keyIndex u)) w"
  show ?thesis
  proof (cases "?ss = []")
    case True
    with sm show ?thesis
      by (intro that [of ?w1 "[]"]) (simp_all add: session_revokeAll_def assms(1) exec v_revokeAll_def)
  next
    case False
    obtain w2 jss where b:
      "pipeline_exec (map (\<lambda>k. redisM (\<lambda>n. r_smembers R n k)) (map (keySessionJtis u) ?ss)) ?w1 = (Inr (map Inr jss), w2)"
      "list_all2 (\<lambda>k xs. set xs = rsets (wview view ?w1) k) (map (keySessionJtis u) ?ss) jss"
      "wok ok w2" "wview view w2 = wview view ?w1" "w_now w2 = w_now ?w1" "w_db w2 = w_db ?w1" "w_ctr w2 = w_ctr ?w1"
      using smembers_batch [OF sm(2), of "map (keySessionJtis u) ?ss"] by blast
    let ?cs = "concat (map (\<lambda>(sid, x). revoke_commands E u sid (reply_list x)) (zip ?ss (map Inr jss)))"
    have cs: "?cs = concat (map (\<lambda>(s, js). revoke_commands E u s js) (zip ?ss jss))"
      by (simp add: zip_map2 comp_def case_prod_unfold reply_list_def)
    from acts_batch [OF acts_revokeAll_commands [OF assms(1)]] b(3)
    obtain w3 where c: "batchM (concat (map (\<lambda>(s, js). revoke_commands E u s js) (zip ?ss jss))) w2 = (Inr (), w3)"
      "wok ok w3"
      "wview view w3 = effects (concat (map (\<lambda>(s, js). revoke_effects u s js) (zip ?ss jss))) (w_now w2) (wview view w2)"
      "w_now w3 = w_now w2" "w_db w3 = w_db w2" "w_ctr w3 = w_ctr w2"
      by (rule actsE)
    show ?thesis
    proof (rule that)
      show "session_revokeAll E u w = (Inr (), w3)"
        by (simp only: session_revokeAll_def assms(1) bindM_def sm(1) prod.case sum.case False if_False b(1) cs c(1))
      show "wview view w3 = v_revokeAll u (zip ?ss jss) (wview view w)"
        using c(3) b(4) sm(3) by (simp add: revokeAll_effects_view)
      show "list_all2 (\<lambda>s js. set js = rsets (wview view w) (keySessionJtis u s)) ?ss jss"
        using b(2) sm(3) by (simp add: list_all2_map1)
    qed (use b c in simp_all)
  qed
qed

end

end
