(* ===== verification/SessionProps.thy ===== *)
theory SessionProps
  imports SessionFacts
begin

text \<open>
  The properties of the session store. Each holds for every Redis that satisfies the laws of
  \<open>redis_api\<close> and every server state \<open>w\<close> its client can be in; each witness runs the
  operation on the in-memory client of the repository's tests.
\<close>

section \<open>A concrete world for the witnesses\<close>

definition fake_uuid :: "nat \<Rightarrow> string" where
  "fake_uuid n = ''uuid-'' @ nat_str n"

definition fake_env :: "fake_redis session_env" where
  "fake_env = \<lparr>e_redis = fake_ops, e_uuid = fake_uuid, e_sessionTtlSec = 60\<rparr>"

definition fake_world :: "(fake_redis, unit) auth_world" where
  "fake_world = \<lparr>w_redis = fake_new, w_db = (), w_now = 1000, w_ctr = 0\<rparr>"

lemma fake_world_ok: "wok fake_ok fake_world" "e_redis fake_env = fake_ops" "0 < e_sessionTtlSec fake_env"
  by (simp_all add: fake_world_def wok_def fake_env_def)

section \<open>Lemmas on records\<close>

lemma session_json_plain [simp]: "json_plain (session_json r)"
  by (auto simp: session_json_def opt_member_def split: option.splits)

lemma json_print_nonempty: "json_plain j \<Longrightarrow> json_print j \<noteq> []"
  using json_print_length by force

lemma jfield_jput: "jfield k' (JObj (jput k v kvs)) = (if k' = k then Some v else jfield k' (JObj kvs))"
proof (cases "k \<in> fst ` set kvs")
  case True
  have *: "map_of (map (\<lambda>(k', x). if k' = k then (k', v) else (k', x)) xs) k' =
      (if k' = k \<and> k \<in> fst ` set xs then Some v else map_of xs k')" for xs
  proof (induction xs)
    case (Cons p xs)
    then show ?case by (cases p; cases "fst p = k"; cases "k' = k") simp_all
  qed simp
  have "rev (jput k v kvs) = map (\<lambda>(k', x). if k' = k then (k', v) else (k', x)) (rev kvs)"
    using True by (simp add: jput_def rev_map)
  with True show ?thesis by (simp add: *)
next
  case False
  then show ?thesis by (simp add: jput_def)
qed

lemma json_plain_jput: "json_plain (JObj kvs) \<Longrightarrow> json_plain v \<Longrightarrow> json_plain (JObj (jput k v kvs))"
  by (auto simp: jput_def)

lemma split_pair: "CHR '':'' \<notin> set u \<Longrightarrow> CHR '':'' \<notin> set s \<Longrightarrow> split_on (CHR '':'') (u @ '':'' @ s) = [u, s]"
  by (simp add: split_on_append split_on_free)

section \<open>Properties\<close>

text \<open>
  C7: what \<open>create\<close> returns is what \<open>get\<close> reads back, and the session is in both indexes
  of its user and lives for exactly \<open>sessionTtlSec\<close> seconds.
\<close>

theorem create_get:
  assumes "redis_api R ok view slist zlist" and "e_redis E = R" and "wok ok w" and "0 < e_sessionTtlSec E"
    and c: "session_create E ci w = (x, w')"
  shows "\<exists>rec. x = Inr rec \<and> s_userId rec = ci_userId ci \<and> s_createdAt rec = w_now w \<and> s_lastUsedAt rec = w_now w \<and>
    fst (session_get E (ci_userId ci) (s_id rec) w') = Inr (Some (session_json rec)) \<and>
    s_id rec \<in> rsets (wview view w') (keyIndex (ci_userId ci)) \<and>
    zscores (wview view w') (keyIndexZ (ci_userId ci)) (s_id rec) = Some (w_now w) \<and>
    expiry (wview view w') (keySession (ci_userId ci) (s_id rec)) = Some (w_now w + 1000 * e_sessionTtlSec E)"
  using redis_api.create_effect [OF assms(1-4), of ci] c
  by (auto simp: redis_api.session_get_run [OF assms(1, 2)] rview_simps json_print_nonempty json_roundtrip expiry_def)

theorem create_get_witness:
  "\<exists>rec. fst (session_create fake_env \<lparr>ci_userId = ''u1'', ci_ip = None, ci_userAgent = Some ''curl'', ci_device = None\<rparr> fake_world) = Inr rec \<and>
    s_createdAt rec = 1000"
  using create_get [OF fr.redis_api_axioms fake_world_ok(2, 1, 3) prod.collapse [symmetric],
      of "\<lparr>ci_userId = ''u1'', ci_ip = None, ci_userAgent = Some ''curl'', ci_device = None\<rparr>"]
  by (auto simp: fake_world_def)

text \<open>
  C5: \<open>revoke\<close> ends a session: its record is gone, it has left both indexes, and every refresh
  token linked to it has lost its allow-list entry and its link back to the session. Every
  string stored under any other key, in particular the sessions and tokens of everybody else, is
  as it was.
\<close>

theorem revoke_kills:
  assumes "redis_api R ok view slist zlist" and "e_redis E = R" and "wok ok w" and "plain_id u"
  shows "\<exists>w'. session_revoke E u s w = (Inr (), w') \<and>
    fst (session_get E u s w') = Inr None \<and>
    s \<notin> rsets (wview view w') (keyIndex u) \<and> zscores (wview view w') (keyIndexZ u) s = None \<and>
    (\<forall>j \<in> rsets (wview view w) (keySessionJtis u s).
       fst (findSessionByJti E j w') = Inr None \<and> sget (wview view w') (refreshAllowKey j) = None) \<and>
    (\<forall>k. k \<notin> revoked_keys u s (rsets (wview view w) (keySessionJtis u s)) \<longrightarrow>
       strs (wview view w') k = strs (wview view w) k)"
proof -
  obtain w' where r: "session_revoke E u s w = (Inr (), w')" "wok ok w'"
    "wview view w' = v_revoke u s (rsets (wview view w) (keySessionJtis u s)) (wview view w)"
    by (rule redis_api.revoke_effect [OF assms(1-3)])
  note run = redis_api.session_get_run [OF assms(1, 2) r(2)] redis_api.find_run [OF assms(1, 2) r(2)]
  show ?thesis
    by (intro exI [of _ w'] conjI r(1))
       (auto simp: run r(3) sget_def v_revoke_def plain_index_not_revoked [OF assms(4)] revoked_keys_def)
qed

theorem revoke_kills_witness:
  "\<exists>w'. session_revoke fake_env ''u1'' ''s1'' fake_world = (Inr (), w') \<and> fst (session_get fake_env ''u1'' ''s1'' w') = Inr None"
  using revoke_kills [OF fr.redis_api_axioms fake_world_ok(2, 1), of "''u1''" "''s1''"]
  by (auto simp: plain_id_def)

text \<open>
  \<open>revokeAll\<close> logs a user out everywhere: the index is empty, no session that was in it
  has a record, and every refresh token linked to one of them has lost its allow-list entry; the
  index of every other user is as it was.
\<close>

theorem revokeAll_kills:
  assumes "redis_api R ok view slist zlist" and "e_redis E = R" and "wok ok w" and "plain_id u"
  shows "\<exists>w'. session_revokeAll E u w = (Inr (), w') \<and>
    rsets (wview view w') (keyIndex u) = {} \<and>
    (\<forall>s \<in> rsets (wview view w) (keyIndex u). sget (wview view w') (keySession u s) = None \<and>
      (\<forall>j \<in> rsets (wview view w) (keySessionJtis u s).
         sget (wview view w') (refreshAllowKey j) = None \<and> sget (wview view w') (keyJtiIndex j) = None)) \<and>
    (\<forall>u'. u' \<noteq> u \<longrightarrow> rsets (wview view w') (keyIndex u') = rsets (wview view w) (keyIndex u'))"
proof -
  let ?ss = "slist (w_redis w) (keyIndex u)"
  obtain w' jss where r: "session_revokeAll E u w = (Inr (), w')" "wok ok w'"
    "wview view w' = v_revokeAll u (zip ?ss jss) (wview view w)"
    "list_all2 (\<lambda>s js. set js = rsets (wview view w) (keySessionJtis u s)) ?ss jss"
    by (rule redis_api.revokeAll_effect [OF assms(1-3)])
  have ss: "set ?ss = rsets (wview view w) (keyIndex u)"
    by (rule redis_api.smembers_world(4) [OF assms(1, 3)])
  have len: "length ?ss = length jss" using r(4) by (rule list_all2_lengthD)
  have zipped: "\<exists>js. (s, js) \<in> set (zip ?ss jss) \<and> set js = rsets (wview view w) (keySessionJtis u s)"
    if "s \<in> rsets (wview view w) (keyIndex u)" for s
  proof -
    from that ss obtain i where i: "i < length ?ss" "?ss ! i = s" by (metis in_set_conv_nth)
    then have "(s, jss ! i) \<in> set (zip ?ss jss)" by (auto simp: set_zip len)
    then show ?thesis using list_all2_nthD [OF r(4) i(1)] i(2) by auto
  qed
  have gone: "strs (wview view w') k = None"
    if "s \<in> rsets (wview view w) (keyIndex u)" "k \<in> revoked_keys u s (rsets (wview view w) (keySessionJtis u s))" for s k
    using zipped [OF that(1)] that(2) unfolding r(3) strs_v_revokeAll by fastforce
  have "rsets (wview view w') (keyIndex u) = {}"
    using len ss by (simp add: r(3) rsets_v_revokeAll [OF assms(4)] set_map [symmetric] del: set_map)
  moreover have "\<forall>u'. u' \<noteq> u \<longrightarrow> rsets (wview view w') (keyIndex u') = rsets (wview view w) (keyIndex u')"
    by (simp add: r(3) rsets_v_revokeAll [OF assms(4)])
  ultimately show ?thesis
    using r(1) gone by (auto simp: sget_def revoked_keys_def)
qed

theorem revokeAll_kills_witness:
  "\<exists>w'. session_revokeAll fake_env ''u1'' fake_world = (Inr (), w') \<and> rsets (wview fake_view w') (keyIndex ''u1'') = {}"
  using revokeAll_kills [OF fr.redis_api_axioms fake_world_ok(2, 1), of "''u1''"]
  by (auto simp: plain_id_def)



text \<open>
  \<open>touch\<close> of a session that has no record is a 404; of a live one it rewrites the record
  with the current time as \<open>lastUsedAt\<close> and every other member as it was, renews its time to
  live and moves it to the front of the index used for paging.
\<close>

theorem touch_renews:
  assumes "redis_api R ok view slist zlist" and "e_redis E = R" and "wok ok w" and "0 < e_sessionTtlSec E"
  shows "(live_record (wview view w) u s = None \<and> sget (wview view w) (keySession u s) \<in> {None, Some []} \<longrightarrow>
      fst (session_touch E u s w) = Inl (notFound ''Session not found.'')) \<and>
    (\<forall>kvs. live_record (wview view w) u s = Some (JObj kvs) \<and> json_plain (JObj kvs) \<longrightarrow>
      (\<exists>rec w'. session_touch E u s w = (Inr rec, w') \<and>
        fst (session_get E u s w') = Inr (Some rec) \<and>
        lastUsed rec = w_now w \<and> (\<forall>k. k \<noteq> ''lastUsedAt'' \<longrightarrow> jfield k rec = jfield k (JObj kvs)) \<and>
        expiry (wview view w') (keySession u s) = Some (w_now w + 1000 * e_sessionTtlSec E) \<and>
        zscores (wview view w') (keyIndexZ u) s = Some (w_now w)))"
proof (intro conjI allI impI)
  assume "live_record (wview view w) u s = None \<and> sget (wview view w) (keySession u s) \<in> {None, Some []}"
  then have "\<not> truthy (sget (wview view w) (keySession u s))" by (auto simp: truthy_def)
  then show "fst (session_touch E u s w) = Inl (notFound ''Session not found.'')"
    by (rule redis_api.touch_absent [OF assms(1-3)])
next
  fix kvs
  assume *: "live_record (wview view w) u s = Some (JObj kvs) \<and> json_plain (JObj kvs)"
  then obtain t where t: "sget (wview view w) (keySession u s) = Some t" "t \<noteq> []" "json_parse t = Some (JObj kvs)"
    by (auto simp: live_record_def split: option.splits if_splits)
  let ?rec = "JObj (jput ''lastUsedAt'' (JNum (w_now w)) kvs)"
  have plain: "json_plain ?rec" using * by (intro json_plain_jput) (auto simp del: json_plain.simps(3))
  obtain w' where r: "session_touch E u s w = (Inr ?rec, w')" "wok ok w'"
    "wview view w' = v_zadd (keyIndexZ u) (w_now w) s
      (v_set (keySession u s) (json_print ?rec) (Some (w_now w + 1000 * e_sessionTtlSec E)) (wview view w))"
    by (rule redis_api.touch_effect [OF assms t refl])
  have "fst (session_get E u s w') = Inr (Some ?rec)"
    using json_print_nonempty [OF plain] json_roundtrip [OF plain]
    by (simp add: redis_api.session_get_run [OF assms(1, 2) r(2)] r(3) rview_simps)
  then show "\<exists>rec w'. session_touch E u s w = (Inr rec, w') \<and> fst (session_get E u s w') = Inr (Some rec) \<and>
      lastUsed rec = w_now w \<and> (\<forall>k. k \<noteq> ''lastUsedAt'' \<longrightarrow> jfield k rec = jfield k (JObj kvs)) \<and>
      expiry (wview view w') (keySession u s) = Some (w_now w + 1000 * e_sessionTtlSec E) \<and>
      zscores (wview view w') (keyIndexZ u) s = Some (w_now w)"
    using r(1) by (intro exI [of _ ?rec] exI [of _ w'])
      (simp add: r(3) rview_simps expiry_def lastUsed_def jfield_jput del: jfield.simps)
qed

theorem touch_renews_witness:
  "fst (session_touch fake_env ''u1'' ''s1'' fake_world) = Inl (notFound ''Session not found.'')"
  using touch_renews [OF fr.redis_api_axioms fake_world_ok(2, 1, 3), of "''u1''" "''s1''"]
  by (simp add: live_record_def sget_def wview_def fake_view_def fake_world_def fake_new_def)

text \<open>
  the reverse index: after \<open>linkRefreshJti\<close> the session of a token is found by its jti and
  the token is in the session's set; after \<open>unlinkRefreshJti\<close> neither holds.
\<close>

theorem link_find:
  assumes "redis_api R ok view slist zlist" and "e_redis E = R" and "wok ok w" and "0 < e_sessionTtlSec E"
    and u: "u \<noteq> []" "CHR '':'' \<notin> set u" and s: "CHR '':'' \<notin> set s"
  shows "\<exists>w1 w2. linkRefreshJti E u s j w = (Inr (), w1) \<and>
    fst (findSessionByJti E j w1) = Inr (Some (u, Some s)) \<and>
    j \<in> rsets (wview view w1) (keySessionJtis u s) \<and>
    unlinkRefreshJti E u s j w1 = (Inr (), w2) \<and>
    fst (findSessionByJti E j w2) = Inr None \<and> j \<notin> rsets (wview view w2) (keySessionJtis u s)"
proof -
  obtain w1 where l: "linkRefreshJti E u s j w = (Inr (), w1)" "wok ok w1"
    "wview view w1 = v_set (keyJtiIndex j) (u @ '':'' @ s) (Some (w_now w + 1000 * e_sessionTtlSec E))
       (v_sadd (keySessionJtis u s) j (wview view w))"
    by (rule actsE [OF redis_api.acts_link [OF assms(1, 2, 4)] assms(3)])
  obtain w2 where n: "unlinkRefreshJti E u s j w1 = (Inr (), w2)" "wok ok w2"
    "wview view w2 = v_del (keyJtiIndex j) (v_srem (keySessionJtis u s) j (wview view w1))"
    by (rule actsE [OF redis_api.acts_unlink [OF assms(1, 2)] l(2)])
  show ?thesis
    using l(1) n(1) u split_pair [OF u(2) s]
    by (intro exI [of _ w1] exI [of _ w2])
       (simp add: redis_api.find_run [OF assms(1, 2) l(2)] redis_api.find_run [OF assms(1, 2) n(2)] l(3) n(3) rview_simps)
qed

theorem link_find_witness:
  "\<exists>w1. linkRefreshJti fake_env ''u1'' ''s1'' ''j1'' fake_world = (Inr (), w1) \<and>
     fst (findSessionByJti fake_env ''j1'' w1) = Inr (Some (''u1'', Some ''s1''))"
  using link_find [OF fr.redis_api_axioms fake_world_ok(2, 1, 3), of "''u1''" "''s1''" "''j1''"]
  by auto

text \<open>
  The key schema is free of collisions: no key is used with two Redis types, for identifiers
  that hold no colon and are no reserved word, and session records of different sessions have
  different keys.
\<close>

theorem key_schema:
  "string_keys \<inter> set_keys = {} \<and> string_keys \<inter> zset_keys = {} \<and> set_keys \<inter> zset_keys = {} \<and>
   inj_on (\<lambda>(u, s). keySession u s) {(u, s). plain_id u}"
proof (intro conjI)
  show "string_keys \<inter> set_keys = {}"
    by (auto simp: string_keys_def set_keys_def keySession_disjoint keySession_disjoint [symmetric])
  show "string_keys \<inter> zset_keys = {}"
    by (auto simp: string_keys_def zset_keys_def keySession_disjoint keySession_disjoint [symmetric])
  show "set_keys \<inter> zset_keys = {}"
    by (auto simp: set_keys_def zset_keys_def keyIndex_Z dest!: sym [of "keyIndexZ _"])
  show "inj_on (\<lambda>(u, s). keySession u s) {(u, s). plain_id u}"
    by (auto simp: inj_on_def keySession_inj)
qed

end
