(* ===== verification/RefreshFacts.thy ===== *)
theory RefreshFacts
  imports Refresh SessionProps
begin

text \<open>
  The effect of token rotation on what can be observed of the server, for every Redis that
  satisfies \<open>redis_api\<close>, every \<open>jsonwebtoken\<close> that satisfies \<open>jwt_lib_ok\<close> and every
  database whose \<open>findUnique\<close> reads.
\<close>

lemma acts_catch: "acts ok view c g \<Longrightarrow> acts ok view (catchM c h) g"
  unfolding acts_def by (fastforce simp: catchM_def)

lemma acts_bestEffort: "acts ok view c g \<Longrightarrow> acts ok view (bestEffortM c) g"
  unfolding acts_def by (fastforce simp: bestEffortM_def catchM_def bindM_def retM_def)

lemma acts_if: "(b \<Longrightarrow> acts ok view c g) \<Longrightarrow> (\<not> b \<Longrightarrow> acts ok view d h) \<Longrightarrow>
    acts ok view (if b then c else d) (\<lambda>n v. if b then g n v else h n v)"
  by auto

section \<open>Tokens of the service itself\<close>

definition refresh_token :: "('r, 'm) token_env_scheme \<Rightarrow> int \<Rightarrow> string \<Rightarrow> string \<Rightarrow> string \<Rightarrow> string" where
  "refresh_token E t0 sub sid jti =
     j_sign (t_jwt E) t0 (JObj (refresh_payload sub sid)) (t_refreshSecret E) (refresh_opts E jti)"

definition refresh_claims :: "('r, 'm) token_env_scheme \<Rightarrow> int \<Rightarrow> string \<Rightarrow> string \<Rightarrow> string \<Rightarrow> json" where
  "refresh_claims E t0 sub sid jti = JObj (refresh_payload sub sid @ signed_claims t0 (refresh_opts E jti))"

definition access_token :: "('r, 'm) token_env_scheme \<Rightarrow> int \<Rightarrow> string \<Rightarrow> string list \<Rightarrow> string" where
  "access_token E t0 sub roles =
     j_sign (t_jwt E) t0 (JObj (access_payload sub roles)) (t_accessSecret E) (access_opts E)"

definition access_claims :: "('r, 'm) token_env_scheme \<Rightarrow> int \<Rightarrow> string \<Rightarrow> string list \<Rightarrow> json" where
  "access_claims E t0 sub roles = JObj (access_payload sub roles @ signed_claims t0 (access_opts E))"

text \<open>The token has not expired (with the five seconds of tolerance \<open>verify\<close> is given).\<close>

definition fresh_at :: "('r, 'm) token_env_scheme \<Rightarrow> int \<Rightarrow> int \<Rightarrow> bool" where
  "fresh_at E t0 now \<longleftrightarrow> now div 1000 < t0 div 1000 + t_refreshTtlSec E + 5"

lemma refresh_payload_plain: "plain_payload (refresh_payload sub sid)"
  by (auto simp: plain_payload_def refresh_payload_def)

lemma access_payload_plain: "plain_payload (access_payload sub roles)"
  by (auto simp: plain_payload_def access_payload_def)

lemma refresh_accepts:
  "accepts t0 (refresh_opts E jti) now (verify_options E ign) \<longleftrightarrow> ign \<or> fresh_at E t0 now"
  by (auto simp: accepts_def refresh_opts_def verify_options_def fresh_at_def algebra_simps)

lemma refresh_claims_fields [simp]:
  "jfield ''sub'' (refresh_claims E t0 sub sid jti) = Some (JStr sub)"
  "jfield ''sid'' (refresh_claims E t0 sub sid jti) = Some (JStr sid)"
  "jfield ''typ'' (refresh_claims E t0 sub sid jti) = Some (JStr ''refresh'')"
  "jfield ''jti'' (refresh_claims E t0 sub sid jti) = Some (JStr jti)"
  by (auto simp: refresh_claims_def refresh_payload_def signed_claims_def refresh_opts_def opt_member_def
      split: option.split)

lemma access_claims_fields [simp]:
  "jfield ''sub'' (access_claims E t0 sub roles) = Some (JStr sub)"
  "jfield ''roles'' (access_claims E t0 sub roles) = Some (JArr (map JStr roles))"
  "jfield ''typ'' (access_claims E t0 sub roles) = Some (JStr ''access'')"
  by (auto simp: access_claims_def access_payload_def signed_claims_def access_opts_def opt_member_def
      split: option.split)

lemma tmpl_opt_str [simp]: "tmpl_opt (Some (JStr s)) = s"
  by (simp add: tmpl_opt_def)

lemma safeVerify_own:
  assumes "jwt_lib_ok (t_jwt E)" and "ign \<or> fresh_at E t0 (w_now w)"
  shows "safeVerify E (refresh_token E t0 sub sid jti) (t_refreshSecret E) ign (Some ''refresh'') w
    = (Inr (refresh_claims E t0 sub sid jti), w)"
proof -
  have "j_verify (t_jwt E) (w_now w) (refresh_token E t0 sub sid jti) (t_refreshSecret E) (verify_options E ign)
      = Inr (refresh_claims E t0 sub sid jti)"
    unfolding refresh_token_def refresh_claims_def
    using assms by (intro jwt_verify_own refresh_payload_plain) (simp_all add: refresh_accepts)
  then show ?thesis by (simp add: safeVerify_def dateNow_def liftE_def exec)
qed

lemma safeVerify_error:
  "j_verify (t_jwt E) (w_now w) tok sec (verify_options E ign) = Inl e \<Longrightarrow>
   safeVerify E tok sec ign typ w = (Inl (unauthorized ''Invalid token.''), w)"
  by (simp add: safeVerify_def dateNow_def liftE_def exec)

text \<open>Whatever the token, verification only reads.\<close>

lemma safeVerify_state: "snd (safeVerify E tok sec ign typ w) = w"
  by (simp add: safeVerify_def dateNow_def liftE_def exec split: sum.split)

text \<open>\<open>t\<close> is what the allow-list holds for a token, if anything.\<close>

definition allow_text :: "string \<Rightarrow> string option \<Rightarrow> string" where
  "allow_text sub so = json_print (allow_record sub so)"

lemma allow_record_plain [simp]: "json_plain (allow_record sub so)"
  by (auto simp: allow_record_def split: option.split)

lemma allow_record_fields [simp]:
  "jfield ''userId'' (allow_record sub so) = Some (JStr sub)"
  "jfield ''sessionId'' (allow_record sub so) = Some (case so of None \<Rightarrow> JNull | Some s \<Rightarrow> JStr s)"
  by (simp_all add: allow_record_def)

lemma allow_text_truthy [simp]: "truthy (Some (allow_text sub so))"
  by (simp add: truthy_def allow_text_def json_print_nonempty)

lemma parse_allow_text:
  "parseAllowRecord (allow_text sub so) u ps =
     (if sub \<noteq> [] \<and> sub = u then Some (allow_record sub so) else None)"
  by (simp add: parseAllowRecord_def allow_text_def json_roundtrip)

section \<open>Effects\<close>

text \<open>What issuing a pair and using a token change on the server.\<close>

definition v_issue :: "('r, 'd, 'm) refresh_env_scheme \<Rightarrow> int \<Rightarrow> string \<Rightarrow> string option \<Rightarrow> string \<Rightarrow> rview \<Rightarrow> rview" where
  "v_issue E now u so jti v =
     (let v1 = v_set (refreshAllowKey jti) (allow_text u so) (Some (now + 1000 * max (f_refreshTtlSeconds E) 60)) v
      in if truthy so
         then v_set (keyJtiIndex jti) (u @ '':'' @ the so) (Some (now + 1000 * e_sessionTtlSec E))
                (v_sadd (keySessionJtis u (the so)) jti v1)
         else v1)"

definition v_consume :: "('r, 'd, 'm) refresh_env_scheme \<Rightarrow> int \<Rightarrow> string \<Rightarrow> string option \<Rightarrow> string \<Rightarrow> rview \<Rightarrow> rview" where
  "v_consume E now u so jti v =
     (let v1 = v_set (keyRefreshBlacklist jti) ''1'' (Some (now + 1000 * f_refreshTtlSeconds E)) (v_del (refreshAllowKey jti) v)
      in case so of None \<Rightarrow> v1
         | Some s \<Rightarrow> v_del (keyJtiIndex jti) (v_srem (keySessionJtis u s) jti v1))"

context redis_api
begin

lemma isRefreshBlacklisted_run:
  assumes "e_redis E = R" and "wok ok w"
  shows "isRefreshBlacklisted E jti w =
    (Inr (sget (wview view w) (keyRefreshBlacklist jti) = Some ''1''), rstep (\<lambda>n. r_get R n (keyRefreshBlacklist jti)) w)"
  using get_world(1) [OF assms(2), of "keyRefreshBlacklist jti"]
  by (simp add: isRefreshBlacklisted_def assms(1) exec)

lemma acts_blacklist:
  assumes "e_redis E = R" and "0 < t"
  shows "acts ok view (blacklistRefreshJti E jti (Some t))
    (\<lambda>n. v_set (keyRefreshBlacklist jti) ''1'' (Some (n + 1000 * t)))"
  using acts_set [OF assms(2)] assms by (simp add: blacklistRefreshJti_def)

lemma acts_safeBlacklist:
  assumes "e_redis E = R" and "0 < f_refreshTtlSeconds E" and "jti \<noteq> []"
  shows "acts ok view (safeBlacklist E (Some jti))
    (\<lambda>n. v_set (keyRefreshBlacklist jti) ''1'' (Some (n + 1000 * f_refreshTtlSeconds E)))"
  using acts_catch [OF acts_blacklist [OF assms(1, 2)]] assms(3) by (simp add: safeBlacklist_def truthy_def)

lemma verify_own:
  assumes "e_redis E = R" and "wok ok w" and "jwt_lib_ok (t_jwt E)" and "fresh_at E t0 (w_now w)"
    and "sid \<noteq> []" and "jti \<noteq> []"
  shows "verifyRefreshToken E (refresh_token E t0 sub sid jti) False False w =
    (if sget (wview view w) (keyRefreshBlacklist jti) = Some ''1''
     then Inl (unauthorized ''Refresh token verification failed.'') else Inr (refresh_claims E t0 sub sid jti),
     rstep (\<lambda>n. r_get R n (keyRefreshBlacklist jti)) w)"
proof -
  have "refresh_token E t0 sub sid jti \<noteq> []"
    unfolding refresh_token_def by (rule jwt_token_nonempty [OF assms(3) refresh_payload_plain]) simp
  moreover have "\<not> refresh_claims_missing (refresh_claims E t0 sub sid jti)"
    using assms(5, 6) by (simp add: refresh_claims_missing_def)
  ultimately show ?thesis
    using safeVerify_own [OF assms(3), of False t0 w] assms(4) isRefreshBlacklisted_run [OF assms(1, 2), of jti]
    by (simp add: verifyRefreshToken_def verifyRefresh_def exec)
qed

lemma getdel_world:
  assumes "e_redis E = R" and "wok ok w"
  obtains w' where "atomicGetDel E key w = (Inr (sget (wview view w) key), w')" and "wok ok w'"
    and "wview view w' = v_del key (wview view w)"
    and "w_now w' = w_now w" and "w_db w' = w_db w" and "w_ctr w' = w_ctr w"
proof (cases "r_getdel R")
  case (Some gd)
  show ?thesis
    by (rule that [of "w\<lparr>w_redis := post (gd (w_now w) key) (w_redis w)\<rparr>"])
       (use assms Some in \<open>simp_all add: atomicGetDel_def redisM_def wok_def wview_def redis_laws\<close>)
next
  case None
  note g = get_world [OF assms(2), of key]
  obtain w' where d: "redisM (\<lambda>n. r_del R n key) (rstep (\<lambda>n. r_get R n key) w) = (Inr (), w')" "wok ok w'"
    "wview view w' = v_del key (wview view (rstep (\<lambda>n. r_get R n key) w))" "w_now w' = w_now w"
    "w_db w' = w_db w" "w_ctr w' = w_ctr w"
    by (rule actsE [OF acts_del g(2)]) simp
  show ?thesis
    by (rule that [of w']) (use assms None g d in \<open>simp_all add: atomicGetDel_def attemptM_def exec\<close>)
qed

text \<open>Issuing a pair.\<close>

lemma build_effect:
  assumes "e_redis E = R" and "wok ok w" and "0 < e_sessionTtlSec E"
  obtains w' where "buildPair E user so w =
      (Inr \<lparr>accessToken = access_token E (w_now w) (u_id user) (roleNames user),
            refreshToken = refresh_token E (w_now w) (u_id user) (nullish so (e_uuid E (w_ctr w))) (e_uuid E (w_ctr w))\<rparr>, w')"
    and "wok ok w'" and "wview view w' = v_issue E (w_now w) (u_id user) so (e_uuid E (w_ctr w)) (wview view w)"
    and "w_now w' = w_now w" and "w_db w' = w_db w" and "w_ctr w' = Suc (w_ctr w)"
proof -
  let ?jti = "e_uuid E (w_ctr w)"
  let ?w1 = "w\<lparr>w_ctr := Suc (w_ctr w)\<rparr>"
  let ?set = "catchM (redisM (\<lambda>n. r_set_ex R n (refreshKey (Some ?jti))
    (json_print (allow_record (u_id user) so)) (max (f_refreshTtlSeconds E) 60))) (\<lambda>_. retM ())"
  let ?link = "if truthy so then bestEffortM (linkRefreshJti E (u_id user) (the so) ?jti) else retM ()"
  have w1: "wok ok ?w1" using assms(2) by (simp add: wok_def)
  have "acts ok view ?set (\<lambda>n. v_set (refreshAllowKey ?jti) (allow_text (u_id user) so)
      (Some (n + 1000 * max (f_refreshTtlSeconds E) 60)))"
    unfolding allow_text_def by (simp add: refreshKey_def nullish_def) (intro acts_catch acts_set, simp)
  from this w1 obtain w2 where s: "?set ?w1 = (Inr (), w2)" "wok ok w2"
    "wview view w2 = v_set (refreshAllowKey ?jti) (allow_text (u_id user) so)
      (Some (w_now ?w1 + 1000 * max (f_refreshTtlSeconds E) 60)) (wview view ?w1)"
    "w_now w2 = w_now ?w1" "w_db w2 = w_db ?w1" "w_ctr w2 = w_ctr ?w1"
    by (rule actsE)
  have "acts ok view ?link (\<lambda>n v. if truthy so then
      v_set (keyJtiIndex ?jti) (u_id user @ '':'' @ the so) (Some (n + 1000 * e_sessionTtlSec E))
        (v_sadd (keySessionJtis (u_id user) (the so)) ?jti v) else v)"
    by (intro acts_if acts_ret acts_bestEffort acts_link [OF assms(1, 3)])
  from this s(2) obtain w3 where l: "?link w2 = (Inr (), w3)" "wok ok w3"
    "wview view w3 = (if truthy so then
      v_set (keyJtiIndex ?jti) (u_id user @ '':'' @ the so) (Some (w_now w2 + 1000 * e_sessionTtlSec E))
        (v_sadd (keySessionJtis (u_id user) (the so)) ?jti (wview view w2)) else wview view w2)"
    "w_now w3 = w_now w2" "w_db w3 = w_db w2" "w_ctr w3 = w_ctr w2"
    by (rule actsE)
  show ?thesis
  proof (rule that)
    show "buildPair E user so w =
      (Inr \<lparr>accessToken = access_token E (w_now w) (u_id user) (roleNames user),
            refreshToken = refresh_token E (w_now w) (u_id user) (nullish so ?jti) ?jti\<rparr>, w3)"
      by (simp only: buildPair_def Let_def assms(1) bindM_def thenM_def randomUUID_def signAccess_def signRefresh_def
          dateNow_def getsM_def retM_def prod.case sum.case s(1) l(1)
          access_token_def refresh_token_def) simp
    show "wview view w3 = v_issue E (w_now w) (u_id user) so ?jti (wview view w)"
      using l(3) s(3, 4) by (simp add: v_issue_def wview_def)
  qed (use s l in simp_all)
qed

text \<open>Using a token.\<close>

lemma safeTtl_run:
  assumes "e_redis E = R" and "wok ok w"
  shows "safeTtl E k w = (Inr (ttl_of (w_now w) (wview view w) k), rstep (\<lambda>n. r_ttl R n k) w)"
  using ttl_world(1) [OF assms(2), of k] by (simp add: safeTtl_def assms(1) exec)

lemma refresh_denied:
  assumes "e_redis E = R" and "wok ok w" and "jwt_lib_ok (t_jwt E)" and "fresh_at E t0 (w_now w)"
    and "sub \<noteq> []" and "sid \<noteq> []" and "jti \<noteq> []"
    and "sget (wview view w) (keyRefreshBlacklist jti) = Some ''1'' \<or> sget (wview view w) (refreshAllowKey jti) = None"
  shows "\<exists>m. fst (refresh_refresh E (refresh_token E t0 sub sid jti) w) = Inl (unauthorized m)"
proof (cases "sget (wview view w) (keyRefreshBlacklist jti) = Some ''1''")
  case True
  then show ?thesis
    using verify_own [OF assms(1-4, 6, 7), of sub] by (auto simp: refresh_refresh_def bindM_def)
next
  case False
  let ?w1 = "rstep (\<lambda>n. r_get R n (keyRefreshBlacklist jti)) w"
  let ?w2 = "rstep (\<lambda>n. r_ttl R n (refreshAllowKey jti)) ?w1"
  note g = get_world [OF assms(2), of "keyRefreshBlacklist jti"]
  note v = verify_own [OF assms(1-4, 6, 7), of sub, unfolded if_not_P [OF False]]
  note t = ttl_world [OF g(2), of "refreshAllowKey jti"]
  obtain w3 where d: "atomicGetDel E (refreshAllowKey jti) ?w2 = (Inr (sget (wview view ?w2) (refreshAllowKey jti)), w3)"
    by (rule getdel_world [OF assms(1) t(2)])
  have none: "sget (wview view ?w2) (refreshAllowKey jti) = None"
    using False assms(8) g(3) t(3) by simp
  show ?thesis
    using assms(5, 7) v safeTtl_run [OF assms(1) g(2)] d none
    by (auto simp: refresh_refresh_def bindM_def thenM_def throwIfM_def retM_def throwM_def refreshKey_def nullish_def truthy_def Let_def)
qed

lemma refresh_effect:
  assumes "e_redis E = R" and "wok ok w" and "jwt_lib_ok (t_jwt E)" and "fresh_at E t0 (w_now w)"
    and "sub \<noteq> []" and "sid \<noteq> []" and "jti \<noteq> []"
    and db: "users_db_ok (f_users E) rows" "rows (w_db w) sub = Some user"
    and ttl: "0 < e_sessionTtlSec E" "0 < f_refreshTtlSeconds E"
    and live: "sget (wview view w) (keyRefreshBlacklist jti) \<noteq> Some ''1''"
      "sget (wview view w) (refreshAllowKey jti) = Some (allow_text sub so)" "so \<in> {None, Some sid}"
  obtains w' where "refresh_refresh E (refresh_token E t0 sub sid jti) w =
      (Inr \<lparr>accessToken = access_token E (w_now w) sub (roleNames user),
            refreshToken = refresh_token E (w_now w) sub sid (e_uuid E (w_ctr w))\<rparr>, w')"
    and "wok ok w'" and "wview view w' = v_issue E (w_now w) sub (Some sid) (e_uuid E (w_ctr w))
      (v_consume E (w_now w) sub so jti (wview view w))"
    and "w_now w' = w_now w" and "w_db w' = w_db w" and "w_ctr w' = Suc (w_ctr w)"
proof -
  let ?w1 = "rstep (\<lambda>n. r_get R n (keyRefreshBlacklist jti)) w"
  let ?w2 = "rstep (\<lambda>n. r_ttl R n (refreshAllowKey jti)) ?w1"
  note g = get_world [OF assms(2), of "keyRefreshBlacklist jti"]
  note v = verify_own [OF assms(1-4, 6, 7), of sub, unfolded if_not_P [OF live(1)]]
  note t = ttl_world [OF g(2), of "refreshAllowKey jti"]
  obtain w3 where d: "atomicGetDel E (refreshAllowKey jti) ?w2 = (Inr (sget (wview view ?w2) (refreshAllowKey jti)), w3)"
    "wok ok w3" "wview view w3 = v_del (refreshAllowKey jti) (wview view ?w2)"
    "w_now w3 = w_now ?w2" "w_db w3 = w_db ?w2" "w_ctr w3 = w_ctr ?w2"
    by (rule getdel_world [OF assms(1) t(2)])
  obtain w4 where b: "safeBlacklist E (Some jti) w3 = (Inr (), w4)" "wok ok w4"
    "wview view w4 = v_set (keyRefreshBlacklist jti) ''1'' (Some (w_now w3 + 1000 * f_refreshTtlSeconds E)) (wview view w3)"
    "w_now w4 = w_now w3" "w_db w4 = w_db w3" "w_ctr w4 = w_ctr w3"
    by (rule actsE [OF acts_safeBlacklist [OF assms(1) ttl(2) assms(7)] d(2)])
  let ?unlink = "if so \<noteq> None then bestEffortM (unlinkRefreshJti E sub sid jti) else retM ()"
  have "acts ok view ?unlink (\<lambda>n v. if so \<noteq> None then v_del (keyJtiIndex jti) (v_srem (keySessionJtis sub sid) jti v) else v)"
    by (intro acts_if acts_ret acts_bestEffort acts_unlink [OF assms(1)])
  from this b(2) obtain w5 where u: "?unlink w4 = (Inr (), w5)" "wok ok w5"
    "wview view w5 = (if so \<noteq> None then v_del (keyJtiIndex jti) (v_srem (keySessionJtis sub sid) jti (wview view w4)) else wview view w4)"
    "w_now w5 = w_now w4" "w_db w5 = w_db w4" "w_ctr w5 = w_ctr w4"
    by (rule actsE)
  have uid: "u_id user = sub" using db unfolding users_db_ok_def by blast
  have user: "ensureActiveWithRoles (f_users E) sub w5 = (Inr user, w5)"
    using db u(5) b(5) d(5) by (simp add: ensureActive_run)
  obtain w6 where p: "buildPair E user (Some sid) w5 =
      (Inr \<lparr>accessToken = access_token E (w_now w5) (u_id user) (roleNames user),
            refreshToken = refresh_token E (w_now w5) (u_id user) (nullish (Some sid) (e_uuid E (w_ctr w5))) (e_uuid E (w_ctr w5))\<rparr>, w6)"
    "wok ok w6" "wview view w6 = v_issue E (w_now w5) (u_id user) (Some sid) (e_uuid E (w_ctr w5)) (wview view w5)"
    "w_now w6 = w_now w5" "w_db w6 = w_db w5" "w_ctr w6 = Suc (w_ctr w5)"
    by (rule build_effect [OF assms(1) u(2) ttl(1)])
  have stored: "sget (wview view ?w2) (refreshAllowKey jti) = Some (allow_text sub so)"
    using live(2) g(3) t(3) by simp
  have rest: "w_now w5 = w_now w" "w_ctr w5 = w_ctr w" "w_db w5 = w_db w"
    using u b d by simp_all
  have sid: "(case claim ''sessionId'' (allow_record sub so) of Some s \<Rightarrow> Some s
      | None \<Rightarrow> claim ''sid'' (refresh_claims E t0 sub sid jti)) = Some sid"
    using live(3) by (auto simp: claim_def)
  have run: "refresh_refresh E (refresh_token E t0 sub sid jti) w = buildPair E user (Some sid) w5"
  proof -
    from live(3) show ?thesis
      using u(1) sid assms(6)
      by (auto simp: refresh_refresh_def bindM_def thenM_def throwIfM_def retM_def refreshKey_def nullish_def
          v assms(5, 7) safeTtl_run [OF assms(1) g(2)] d(1) stored parse_allow_text b(1) user session_mismatch_def Let_def)
  qed
  show ?thesis
  proof (rule that)
    show "wview view w6 = v_issue E (w_now w) sub (Some sid) (e_uuid E (w_ctr w)) (v_consume E (w_now w) sub so jti (wview view w))"
      using live(3) rest uid p(3) u(3) b(3, 4) d(3, 4) g(3) t(3) by (auto simp: v_consume_def Let_def)
  qed (use run p rest uid in \<open>simp_all add: nullish_def\<close>)
qed

text \<open>Revoking a token: even an expired or blacklisted one is accepted.\<close>

lemma revoke_token_effect:
  assumes "e_redis E = R" and "wok ok w" and "jwt_lib_ok (t_jwt E)"
    and "sub \<noteq> []" and "sid \<noteq> []" and "jti \<noteq> []" and "0 < f_refreshTtlSeconds E"
  obtains w' where "refresh_revoke E (refresh_token E t0 sub sid jti) w = (Inr (), w')"
    and "wok ok w'" and "wview view w' = v_consume E (w_now w) sub (Some sid) jti (wview view w)"
    and "w_now w' = w_now w" and "w_db w' = w_db w" and "w_ctr w' = w_ctr w"
proof -
  let ?tok = "refresh_token E t0 sub sid jti"
  have "?tok \<noteq> []"
    unfolding refresh_token_def by (rule jwt_token_nonempty [OF assms(3) refresh_payload_plain]) simp
  moreover have "\<not> refresh_claims_missing (refresh_claims E t0 sub sid jti)"
    using assms(5, 6) by (simp add: refresh_claims_missing_def)
  ultimately have v: "verifyRefreshToken E ?tok True True w = (Inr (refresh_claims E t0 sub sid jti), w)"
    using safeVerify_own [OF assms(3), of True t0 w]
    by (simp add: verifyRefreshToken_def verifyRefresh_def exec)
  obtain w1 where d: "bestEffortM (redisM (\<lambda>n. r_del R n (refreshAllowKey jti))) w = (Inr (), w1)" "wok ok w1"
    "wview view w1 = v_del (refreshAllowKey jti) (wview view w)"
    "w_now w1 = w_now w" "w_db w1 = w_db w" "w_ctr w1 = w_ctr w"
    by (rule actsE [OF acts_bestEffort [OF acts_del] assms(2)])
  obtain w2 where b: "safeBlacklist E (Some jti) w1 = (Inr (), w2)" "wok ok w2"
    "wview view w2 = v_set (keyRefreshBlacklist jti) ''1'' (Some (w_now w1 + 1000 * f_refreshTtlSeconds E)) (wview view w1)"
    "w_now w2 = w_now w1" "w_db w2 = w_db w1" "w_ctr w2 = w_ctr w1"
    by (rule actsE [OF acts_safeBlacklist [OF assms(1, 7, 6)] d(2)])
  obtain w3 where u: "bestEffortM (unlinkRefreshJti E sub sid jti) w2 = (Inr (), w3)" "wok ok w3"
    "wview view w3 = v_del (keyJtiIndex jti) (v_srem (keySessionJtis sub sid) jti (wview view w2))"
    "w_now w3 = w_now w2" "w_db w3 = w_db w2" "w_ctr w3 = w_ctr w2"
    by (rule actsE [OF acts_bestEffort [OF acts_unlink [OF assms(1)]] b(2)])
  show ?thesis
  proof (rule that)
    show "refresh_revoke E ?tok w = (Inr (), w3)"
      using v d(1) b(1) u(1) assms(4-6)
      by (simp add: refresh_revoke_def bindM_def thenM_def Let_def refreshKey_def nullish_def assms(1))
    show "wview view w3 = v_consume E (w_now w) sub (Some sid) jti (wview view w)"
      using u(3) b(3) d(3, 4) by (simp add: v_consume_def)
  qed (use u b d in simp_all)
qed

text \<open>One hit of the rate limiter.\<close>

lemma limit_effect:
  assumes "wok ok w" and "0 < l_windowSec L"
    and key: "key = limit_key L (if i = [] then ''anonymous'' else i)" and c: "counter (wview view w) key = Some n"
    and n: "n \<noteq> 0 \<or> strs (wview view w) key = None"
  obtains w' where "limit_consume R L i w =
      (if n + 1 > l_maxHits L
       then Inl (tooManyRequests ''TooManyRefreshRequests'' ''Too many refresh attempts. Please try again later.'')
       else Inr (), w')"
    and "wok ok w'" and "wview view w' = v_set key (int_str (n + 1))
      (if n = 0 then Some (w_now w + 1000 * l_windowSec L) else expiry (wview view w) key) (wview view w)"
    and "w_now w' = w_now w" and "w_db w' = w_db w" and "w_ctr w' = w_ctr w"
proof -
  note inc = incr_world [OF assms(1) c]
  let ?w1 = "rstep (\<lambda>n. r_incr R n key) w"
  show ?thesis
  proof (cases "n = 0")
    case False
    then show ?thesis
      using inc by (intro that [of ?w1])
        (auto simp: limit_consume_def key [symmetric] bindM_def thenM_def throwIfM_def throwM_def retM_def Let_def)
  next
    case True
    have "strs (wview view ?w1) key = Some (int_str (n + 1), expiry (wview view w) key)"
      using inc(3) by (simp add: rview_simps)
    note ex = expire_world [OF inc(2) assms(2) this]
    let ?w2 = "rstep (\<lambda>n. r_expire R n key (l_windowSec L)) ?w1"
    show ?thesis
    proof (rule that [of ?w2])
      show "wview view ?w2 = v_set key (int_str (n + 1))
        (if n = 0 then Some (w_now w + 1000 * l_windowSec L) else expiry (wview view w) key) (wview view w)"
        using ex(3) inc(3) True by (simp add: v_set_def)
    qed (use inc ex True in \<open>auto simp: limit_consume_def key [symmetric] bindM_def thenM_def throwIfM_def throwM_def retM_def Let_def\<close>)
  qed
qed

end

end
