(* ===== verification/RefreshProps.thy ===== *)
theory RefreshProps
  imports RefreshFacts
begin

text \<open>
  The properties of token rotation. The token of a property is one the service signed at some
  time \<open>t0\<close> (\<open>refresh_token E t0 sub sid jti\<close>), so that the signature law of
  \<open>jsonwebtoken\<close> applies to it; forged tokens are the subject of a property of their own.
\<close>

section \<open>A concrete world for the witnesses\<close>

definition fake_user :: UserWithRelations where
  "fake_user = \<lparr>u_id = ''u1'', u_username = ''ann'', u_email = None, u_phone = None, u_name = None, u_bio = None,
     u_city = None, u_avatarUrl = None, u_passwordHash = None, u_userRoles = [Some ''USER'']\<rparr>"

definition fake_renv :: "(fake_redis, string \<Rightarrow> UserWithRelations option) refresh_env" where
  "fake_renv = \<lparr>e_redis = fake_ops, e_uuid = fake_uuid, e_sessionTtlSec = 60, t_jwt = clear_jwt,
     t_issuer = None, t_audience = Some ''web'', t_accessSecret = ''a'', t_refreshSecret = ''r'',
     t_accessTtlSec = 600, t_refreshTtlSec = 3600, f_users = table_db, f_refreshTtlSeconds = 3600\<rparr>"

definition fake_rworld :: "(fake_redis, string \<Rightarrow> UserWithRelations option) auth_world" where
  "fake_rworld = \<lparr>w_redis = fake_new, w_db = (\<lambda>i. if i = ''u1'' then Some fake_user else None), w_now = 1000, w_ctr = 0\<rparr>"

lemma fake_rworld_ok: "wok fake_ok fake_rworld" "e_redis fake_renv = fake_ops" "jwt_lib_ok (t_jwt fake_renv)"
  "users_db_ok (f_users fake_renv) table_rows" "0 < e_sessionTtlSec fake_renv" "0 < f_refreshTtlSeconds fake_renv"
  "table_rows (w_db fake_rworld) ''u1'' = Some fake_user"
  by (simp_all add: fake_rworld_def wok_def fake_renv_def clear_jwt_ok table_db_ok table_rows_def fake_user_def)

lemma fake_rview: "sget (wview fake_view fake_rworld) k = None" "strs (wview fake_view fake_rworld) k = None"
  by (simp_all add: sget_def wview_def fake_view_def fake_rworld_def fake_new_def)

lemma fake_uuid_inj: "fake_uuid m = fake_uuid n \<longleftrightarrow> m = n"
  unfolding fake_uuid_def using digits_val_nat_str by (metis append_same_eq same_append_eq)

section \<open>Keys and views\<close>

lemma rbl_key_disjoint [simp]:
  "keyRefreshBlacklist j \<noteq> refreshAllowKey i" "refreshAllowKey i \<noteq> keyRefreshBlacklist j"
  "keyRefreshBlacklist j \<noteq> keyJtiIndex i" "keyJtiIndex i \<noteq> keyRefreshBlacklist j"
  "keyRefreshBlacklist j = keyRefreshBlacklist i \<longleftrightarrow> j = i"
  by (simp_all add: keyRefreshBlacklist_def key_defs)

lemma sget_v_issue:
  "sget (v_issue E now u so j v) k =
     (if truthy so \<and> k = keyJtiIndex j then Some (u @ '':'' @ the so)
      else if k = refreshAllowKey j then Some (allow_text u so) else sget v k)"
  by (auto simp: v_issue_def Let_def rview_simps)

lemma sget_v_consume:
  "sget (v_consume E now u so j v) k =
     (if (so \<noteq> None \<and> k = keyJtiIndex j) \<or> k = refreshAllowKey j then None
      else if k = keyRefreshBlacklist j then Some ''1'' else sget v k)"
  by (auto simp: v_consume_def Let_def rview_simps split: option.split)

lemma truthy_some: "sid \<noteq> [] \<Longrightarrow> truthy (Some sid)"
  by (simp add: truthy_def)

section \<open>Properties\<close>

text \<open>
  C1: rotation: using a live refresh token gives a new pair for the same user and session, whose
  refresh token is live; the used token has lost its allow-list entry and is blacklisted, and
  using it again is refused with 401 whatever happens to other keys in between: in every later
  state in which its entry has not been written again or it is still blacklisted.
\<close>

theorem refresh_rotates:
  assumes "redis_api R ok view slist zlist" and "e_redis E = R" and "wok ok w" and "jwt_lib_ok (t_jwt E)"
    and "users_db_ok (f_users E) rows" and "rows (w_db w) sub = Some user"
    and "0 < e_sessionTtlSec E" and "0 < f_refreshTtlSeconds E" and "fresh_at E t0 (w_now w)"
    and ids: "sub \<noteq> []" "sid \<noteq> []" "jti \<noteq> []" and new: "e_uuid E (w_ctr w) \<noteq> jti"
    and "sget (wview view w) (keyRefreshBlacklist jti) \<noteq> Some ''1''"
    and "sget (wview view w) (refreshAllowKey jti) = Some (allow_text sub so)" and "so \<in> {None, Some sid}"
  shows "\<exists>pair w'. refresh_refresh E (refresh_token E t0 sub sid jti) w = (Inr pair, w') \<and>
    wok ok w' \<and> w_now w' = w_now w \<and>
    refreshToken pair = refresh_token E (w_now w) sub sid (e_uuid E (w_ctr w)) \<and>
    accessToken pair = access_token E (w_now w) sub (roleNames user) \<and>
    sget (wview view w') (refreshAllowKey (e_uuid E (w_ctr w))) = Some (allow_text sub (Some sid)) \<and>
    sget (wview view w') (refreshAllowKey jti) = None \<and>
    sget (wview view w') (keyRefreshBlacklist jti) = Some ''1'' \<and>
    (\<forall>w2. wok ok w2 \<and> fresh_at E t0 (w_now w2) \<and>
        (sget (wview view w2) (refreshAllowKey jti) = None \<or> sget (wview view w2) (keyRefreshBlacklist jti) = Some ''1'') \<longrightarrow>
      (\<exists>m. fst (refresh_refresh E (refresh_token E t0 sub sid jti) w2) = Inl (unauthorized m)))"
proof -
  obtain w' where r: "refresh_refresh E (refresh_token E t0 sub sid jti) w =
      (Inr \<lparr>accessToken = access_token E (w_now w) sub (roleNames user),
            refreshToken = refresh_token E (w_now w) sub sid (e_uuid E (w_ctr w))\<rparr>, w')"
    "wok ok w'" "w_now w' = w_now w" "wview view w' = v_issue E (w_now w) sub (Some sid) (e_uuid E (w_ctr w))
      (v_consume E (w_now w) sub so jti (wview view w))"
    by (rule redis_api.refresh_effect [OF assms(1-4, 9) ids assms(5-8, 14-16)])
  have "\<exists>m. fst (refresh_refresh E (refresh_token E t0 sub sid jti) w2) = Inl (unauthorized m)"
    if "wok ok w2" "fresh_at E t0 (w_now w2)"
      "sget (wview view w2) (keyRefreshBlacklist jti) = Some ''1'' \<or> sget (wview view w2) (refreshAllowKey jti) = None" for w2
    by (rule redis_api.refresh_denied [OF assms(1, 2) that(1) assms(4) that(2) ids that(3)])
  then show ?thesis
    using r new ids by (auto simp: sget_v_issue sget_v_consume)
qed

text \<open>
  What is issued can be used: a pair issued for an existing user and a session is refreshed
  successfully, by the refresh token it contains, for as long as nothing but that user's requests
  touches the server; the pair that comes back is for the same user and session.
\<close>

theorem issue_then_refresh:
  assumes "redis_api R ok view slist zlist" and "e_redis E = R" and "wok ok w" and "jwt_lib_ok (t_jwt E)"
    and "users_db_ok (f_users E) rows" and "rows (w_db w) sub = Some user"
    and "0 < e_sessionTtlSec E" and "0 < f_refreshTtlSeconds E" and "0 \<le> t_refreshTtlSec E"
    and ids: "sub \<noteq> []" "sid \<noteq> []" "e_uuid E (w_ctr w) \<noteq> []"
    and "sget (wview view w) (keyRefreshBlacklist (e_uuid E (w_ctr w))) \<noteq> Some ''1''"
  shows "\<exists>pair w1 pair2 w2. issueTokensForUserId E sub (Some sid) w = (Inr pair, w1) \<and>
    refresh_refresh E (refreshToken pair) w1 = (Inr pair2, w2) \<and>
    refreshToken pair2 = refresh_token E (w_now w) sub sid (e_uuid E (Suc (w_ctr w)))"
proof -
  let ?jti = "e_uuid E (w_ctr w)"
  have uid: "u_id user = sub" using assms(5, 6) unfolding users_db_ok_def by blast
  obtain w1 where b: "buildPair E user (Some sid) w =
      (Inr \<lparr>accessToken = access_token E (w_now w) (u_id user) (roleNames user),
            refreshToken = refresh_token E (w_now w) (u_id user) (nullish (Some sid) ?jti) ?jti\<rparr>, w1)"
    "wok ok w1" "wview view w1 = v_issue E (w_now w) (u_id user) (Some sid) ?jti (wview view w)"
    "w_now w1 = w_now w" "w_db w1 = w_db w" "w_ctr w1 = Suc (w_ctr w)"
    by (rule redis_api.build_effect [OF assms(1-3, 7)])
  have issue: "issueTokensForUserId E sub (Some sid) w =
      (Inr \<lparr>accessToken = access_token E (w_now w) sub (roleNames user),
            refreshToken = refresh_token E (w_now w) sub sid ?jti\<rparr>, w1)"
    using b(1) assms(6) uid by (simp add: issueTokensForUserId_def bindM_def ensureActive_run [OF assms(5)] nullish_def)
  have fresh: "fresh_at E (w_now w) (w_now w1)"
    using assms(9) b(4) by (simp add: fresh_at_def)
  have row: "rows (w_db w1) sub = Some user" using assms(6) b(5) by simp
  have live: "sget (wview view w1) (keyRefreshBlacklist ?jti) \<noteq> Some ''1''"
    "sget (wview view w1) (refreshAllowKey ?jti) = Some (allow_text sub (Some sid))"
    "Some sid \<in> {None, Some sid}"
    using assms(13) by (simp_all add: b(3) sget_v_issue uid)
  obtain w2 where "refresh_refresh E (refresh_token E (w_now w) sub sid ?jti) w1 =
      (Inr \<lparr>accessToken = access_token E (w_now w1) sub (roleNames user),
            refreshToken = refresh_token E (w_now w1) sub sid (e_uuid E (w_ctr w1))\<rparr>, w2)"
    by (rule redis_api.refresh_effect [OF assms(1, 2) b(2) assms(4) fresh ids assms(5) row assms(7, 8) live])
  with issue b(4, 6) show ?thesis by (auto intro!: exI)
qed

theorem issue_then_refresh_witness:
  "\<exists>pair w1 pair2 w2. issueTokensForUserId fake_renv ''u1'' (Some ''s1'') fake_rworld = (Inr pair, w1) \<and>
    refresh_refresh fake_renv (refreshToken pair) w1 = (Inr pair2, w2)"
  using issue_then_refresh [OF fr.redis_api_axioms fake_rworld_ok(2, 1, 3, 4, 7, 5, 6), of "''s1''"]
  by (auto simp: fake_rview fake_renv_def fake_uuid_def)

text \<open>The witness of rotation uses the token that was issued for a session.\<close>

theorem refresh_rotates_witness:
  "\<exists>w1 tok pair w2. refresh_refresh fake_renv tok w1 = (Inr pair, w2) \<and>
     (\<exists>m. fst (refresh_refresh fake_renv tok w2) = Inl (unauthorized m))"
proof -
  obtain w1 where b: "buildPair fake_renv fake_user (Some ''s1'') fake_rworld =
      (Inr \<lparr>accessToken = access_token fake_renv (w_now fake_rworld) (u_id fake_user) (roleNames fake_user),
            refreshToken = refresh_token fake_renv (w_now fake_rworld) (u_id fake_user)
              (nullish (Some ''s1'') (e_uuid fake_renv (w_ctr fake_rworld))) (e_uuid fake_renv (w_ctr fake_rworld))\<rparr>, w1)"
    "wok fake_ok w1" "wview fake_view w1 = v_issue fake_renv (w_now fake_rworld) (u_id fake_user) (Some ''s1'')
       (e_uuid fake_renv (w_ctr fake_rworld)) (wview fake_view fake_rworld)"
    "w_now w1 = w_now fake_rworld" "w_db w1 = w_db fake_rworld" "w_ctr w1 = Suc (w_ctr fake_rworld)"
    by (rule redis_api.build_effect [OF fr.redis_api_axioms fake_rworld_ok(2, 1, 5)])
  let ?tok = "refresh_token fake_renv 1000 ''u1'' ''s1'' (fake_uuid 0)"
  have "fresh_at fake_renv 1000 (w_now w1)" using b(4) by (simp add: fresh_at_def fake_renv_def fake_rworld_def)
  moreover have "table_rows (w_db w1) ''u1'' = Some fake_user" using b(5) fake_rworld_ok(7) by simp
  moreover have "fake_uuid 0 \<noteq> []" "e_uuid fake_renv (w_ctr w1) \<noteq> fake_uuid 0"
    using b(6) by (simp_all add: fake_uuid_def fake_renv_def fake_rworld_def)
      (metis digits_val_nat_str nat.distinct(1))
  moreover have "sget (wview fake_view w1) (keyRefreshBlacklist (fake_uuid 0)) \<noteq> Some ''1''"
    "sget (wview fake_view w1) (refreshAllowKey (fake_uuid 0)) = Some (allow_text ''u1'' (Some ''s1''))"
    by (simp_all add: b(3) sget_v_issue fake_rview, simp_all add: fake_renv_def fake_rworld_def fake_user_def)
  ultimately obtain pair w2 where r: "refresh_refresh fake_renv ?tok w1 = (Inr pair, w2)" "wok fake_ok w2"
    "w_now w2 = w_now w1" "sget (wview fake_view w2) (refreshAllowKey (fake_uuid 0)) = None"
    "\<forall>w3. wok fake_ok w3 \<and> fresh_at fake_renv 1000 (w_now w3) \<and>
      (sget (wview fake_view w3) (refreshAllowKey (fake_uuid 0)) = None \<or>
       sget (wview fake_view w3) (keyRefreshBlacklist (fake_uuid 0)) = Some ''1'') \<longrightarrow>
      (\<exists>m. fst (refresh_refresh fake_renv ?tok w3) = Inl (unauthorized m))"
    using refresh_rotates [OF fr.redis_api_axioms fake_rworld_ok(2) b(2) fake_rworld_ok(3, 4) _ fake_rworld_ok(5, 6),
        of "''u1''" fake_user 1000 "''s1''" "fake_uuid 0" "Some ''s1''"]
    by auto
  have "fresh_at fake_renv 1000 (w_now w2)"
    using r(3) b(4) by (simp add: fresh_at_def fake_renv_def fake_rworld_def)
  with r(2, 4, 5) have "\<exists>m. fst (refresh_refresh fake_renv ?tok w2) = Inl (unauthorized m)" by blast
  with r(1) show ?thesis by blast
qed

text \<open>
  Revoking a refresh token, even one that has expired or was used, succeeds, and afterwards the
  token is refused.
\<close>

theorem revoked_token_refused:
  assumes "redis_api R ok view slist zlist" and "e_redis E = R" and "wok ok w" and "jwt_lib_ok (t_jwt E)"
    and "0 < f_refreshTtlSeconds E" and "sub \<noteq> []" and "sid \<noteq> []" and "jti \<noteq> []"
  shows "\<exists>w'. refresh_revoke E (refresh_token E t0 sub sid jti) w = (Inr (), w') \<and>
    sget (wview view w') (refreshAllowKey jti) = None \<and> sget (wview view w') (keyRefreshBlacklist jti) = Some ''1'' \<and>
    (fresh_at E t0 (w_now w) \<longrightarrow>
      (\<exists>m. fst (refresh_refresh E (refresh_token E t0 sub sid jti) w') = Inl (unauthorized m)))"
proof -
  obtain w' where r: "refresh_revoke E (refresh_token E t0 sub sid jti) w = (Inr (), w')" "wok ok w'"
    "wview view w' = v_consume E (w_now w) sub (Some sid) jti (wview view w)" "w_now w' = w_now w"
    by (rule redis_api.revoke_token_effect [OF assms(1-4, 6-8, 5)])
  have gone: "sget (wview view w') (keyRefreshBlacklist jti) = Some ''1''" "sget (wview view w') (refreshAllowKey jti) = None"
    by (simp_all add: r(3) sget_v_consume)
  have "\<exists>m. fst (refresh_refresh E (refresh_token E t0 sub sid jti) w') = Inl (unauthorized m)" if "fresh_at E t0 (w_now w)"
    using that gone by (intro redis_api.refresh_denied [OF assms(1, 2) r(2) assms(4) _ assms(6-8)]) (simp_all add: r(4))
  then show ?thesis using r(1) gone by auto
qed

theorem revoked_token_refused_witness:
  "\<exists>w'. refresh_revoke fake_renv (refresh_token fake_renv 1000 ''u1'' ''s1'' ''j1'') fake_rworld = (Inr (), w') \<and>
    (\<exists>m. fst (refresh_refresh fake_renv (refresh_token fake_renv 1000 ''u1'' ''s1'' ''j1'') w') = Inl (unauthorized m))"
  using revoked_token_refused [OF fr.redis_api_axioms fake_rworld_ok(2, 1, 3, 6), of "''u1''" "''s1''" "''j1''" 1000]
  by (auto simp: fresh_at_def fake_renv_def fake_rworld_def)

text \<open>
  C2: closing a session closes its tokens: after \<open>SessionService.revoke\<close> every refresh token
  linked to the session is refused, although it is neither expired nor blacklisted.
\<close>

theorem closed_session_refused:
  assumes "redis_api R ok view slist zlist" and "e_redis E = R" and "wok ok w" and "jwt_lib_ok (t_jwt E)"
    and "plain_id sub" and "fresh_at E t0 (w_now w)" and "sub \<noteq> []" and "sid \<noteq> []" and "jti \<noteq> []"
    and "jti \<in> rsets (wview view w) (keySessionJtis sub sid)"
  shows "\<exists>w'. session_revoke E sub sid w = (Inr (), w') \<and>
    (\<exists>m. fst (refresh_refresh E (refresh_token E t0 sub sid jti) w') = Inl (unauthorized m))"
proof -
  obtain w' where r: "session_revoke E sub sid w = (Inr (), w')" "wok ok w'"
    "wview view w' = v_revoke sub sid (rsets (wview view w) (keySessionJtis sub sid)) (wview view w)" "w_now w' = w_now w"
    by (rule redis_api.revoke_effect [OF assms(1-3)])
  have "sget (wview view w') (refreshAllowKey jti) = None"
    using assms(10) by (simp add: r(3) v_revoke_def sget_def revoked_keys_def)
  then show ?thesis
    using r(1) assms(6) r(4)
    by (auto intro!: redis_api.refresh_denied [OF assms(1, 2) r(2) assms(4) _ assms(7-9)])
qed

theorem closed_session_refused_witness:
  "\<exists>w w'. session_revoke fake_renv ''u1'' ''s1'' w = (Inr (), w') \<and>
    (\<exists>m. fst (refresh_refresh fake_renv (refresh_token fake_renv 1000 ''u1'' ''s1'' ''j1'') w') = Inl (unauthorized m))"
proof -
  obtain w1 where l: "linkRefreshJti fake_renv ''u1'' ''s1'' ''j1'' fake_rworld = (Inr (), w1)" "wok fake_ok w1"
    "wview fake_view w1 = v_set (keyJtiIndex ''j1'') (''u1'' @ '':'' @ ''s1'') (Some (w_now fake_rworld + 1000 * e_sessionTtlSec fake_renv))
       (v_sadd (keySessionJtis ''u1'' ''s1'') ''j1'' (wview fake_view fake_rworld))" "w_now w1 = w_now fake_rworld"
    by (rule actsE [OF redis_api.acts_link [OF fr.redis_api_axioms fake_rworld_ok(2, 5)] fake_rworld_ok(1)])
  have "''j1'' \<in> rsets (wview fake_view w1) (keySessionJtis ''u1'' ''s1'')"
    by (simp add: l(3) rview_simps)
  moreover have "fresh_at fake_renv 1000 (w_now w1)"
    by (simp add: l(4) fresh_at_def fake_renv_def fake_rworld_def)
  moreover have "plain_id ''u1''" by (simp add: plain_id_def)
  ultimately show ?thesis
    using closed_session_refused [OF fr.redis_api_axioms fake_rworld_ok(2) l(2) fake_rworld_ok(3), of "''u1''" 1000 "''s1''" "''j1''"]
    by blast
qed

text \<open>
  C4: a token that does not verify gets nothing: whatever its text and the state of the server,
  \<open>refresh\<close> and \<open>revoke\<close> answer 401 and change neither the server nor the database; no
  allow-list entry is consumed and no session is touched.
\<close>

theorem forged_token_inert:
  assumes "\<And>ign. \<exists>e. j_verify (t_jwt E) (w_now w) tok (t_refreshSecret E) (verify_options E ign) = Inl e"
  shows "(\<exists>m. refresh_refresh E tok w = (Inl (unauthorized m), w)) \<and> (\<exists>m. refresh_revoke E tok w = (Inl (unauthorized m), w))"
proof -
  have "\<exists>m. verifyRefreshToken E tok ign b w = (Inl (unauthorized m), w)" for ign b
  proof -
    from assms [of ign] obtain e
      where "j_verify (t_jwt E) (w_now w) tok (t_refreshSecret E) (verify_options E ign) = Inl e" by blast
    from safeVerify_error [OF this, of "Some ''refresh''"]
    show ?thesis by (auto simp: verifyRefreshToken_def verifyRefresh_def exec)
  qed
  then obtain m1 m2 where m: "verifyRefreshToken E tok False False w = (Inl (unauthorized m1), w)"
    "verifyRefreshToken E tok True True w = (Inl (unauthorized m2), w)" by blast
  show ?thesis
    by (intro conjI exI [of _ m1] exI [of _ m2])
       (simp_all only: refresh_refresh_def refresh_revoke_def bindM_def m prod.case sum.case)
qed

theorem forged_token_inert_witness:
  "(\<exists>m. refresh_refresh fake_renv ''not-a-token'' fake_rworld = (Inl (unauthorized m), fake_rworld)) \<and>
   (\<exists>m. refresh_revoke fake_renv ''not-a-token'' fake_rworld = (Inl (unauthorized m), fake_rworld))"
proof -
  have "json_parse ''not-a-token'' = None" by code_simp
  then have "\<exists>e. j_verify (t_jwt fake_renv) (w_now fake_rworld) ''not-a-token'' (t_refreshSecret fake_renv) (verify_options fake_renv ign) = Inl e" for ign
    by (simp add: fake_renv_def clear_jwt_def clear_verify_def)
  then show ?thesis by (rule forged_token_inert)
qed

text \<open>
  C3: the two kinds of token are not interchangeable: even when both secrets are the same, a
  refresh token is refused where an access token is expected and an access token where a refresh
  token is expected; in its own place an unexpired access token is accepted and gives back its
  user and roles.
\<close>

theorem token_kinds_apart:
  assumes "jwt_lib_ok (t_jwt E)" and "sub \<noteq> []"
  shows "(\<exists>m. verifyAccess E (refresh_token E t0 sub sid jti) w = (Inl (unauthorized m), w)) \<and>
    (\<exists>m. refresh_refresh E (access_token E t0 sub roles) w = (Inl (unauthorized m), w)) \<and>
    (w_now w div 1000 < t0 div 1000 + t_accessTtlSec E + 5 \<longrightarrow>
      verifyAccess E (access_token E t0 sub roles) w = (Inr (access_claims E t0 sub roles), w))"
proof (intro conjI impI)
  have state: "\<exists>x. safeVerify E tok sec ign ty w = (x, w)" for tok sec ign ty
    using safeVerify_state [of E tok sec ign ty w] by (metis prod.collapse)
  show "\<exists>m. verifyAccess E (refresh_token E t0 sub sid jti) w = (Inl (unauthorized m), w)"
  proof (cases "t_accessSecret E = t_refreshSecret E \<and> accepts t0 (refresh_opts E jti) (w_now w) (verify_options E False)")
    case True
    then have "j_verify (t_jwt E) (w_now w) (refresh_token E t0 sub sid jti) (t_accessSecret E) (verify_options E False)
        = Inr (refresh_claims E t0 sub sid jti)"
      unfolding refresh_token_def refresh_claims_def
      using jwt_verify_own [OF assms(1) refresh_payload_plain, of t0 "refresh_opts E jti" "w_now w" "verify_options E False"] by simp
    then show ?thesis
      by (auto simp: verifyAccess_def safeVerify_def dateNow_def liftE_def exec truthy_def)
  next
    case False
    then obtain e where "j_verify (t_jwt E) (w_now w) (refresh_token E t0 sub sid jti) (t_accessSecret E) (verify_options E False) = Inl e"
      unfolding refresh_token_def using jwt_verify_foreign [OF assms(1) refresh_payload_plain token_opts_subject(2)] by blast
    from safeVerify_error [OF this, of "Some ''access''"]
    show ?thesis by (auto simp: verifyAccess_def bindM_def)
  qed
  show "\<exists>m. refresh_refresh E (access_token E t0 sub roles) w = (Inl (unauthorized m), w)"
  proof (cases "t_refreshSecret E = t_accessSecret E \<and> accepts t0 (access_opts E) (w_now w) (verify_options E False)")
    case True
    then have "j_verify (t_jwt E) (w_now w) (access_token E t0 sub roles) (t_refreshSecret E) (verify_options E False)
        = Inr (access_claims E t0 sub roles)"
      unfolding access_token_def access_claims_def
      using jwt_verify_own [OF assms(1) access_payload_plain, of t0 "access_opts E" "w_now w" "verify_options E False"] by simp
    then have "safeVerify E (access_token E t0 sub roles) (t_refreshSecret E) False (Some ''refresh'') w
        = (Inl (unauthorized ''Invalid token.''), w)"
      by (simp add: safeVerify_def dateNow_def liftE_def exec truthy_def)
    then show ?thesis by (auto simp: refresh_refresh_def verifyRefreshToken_def verifyRefresh_def exec)
  next
    case False
    then obtain e where "j_verify (t_jwt E) (w_now w) (access_token E t0 sub roles) (t_refreshSecret E) (verify_options E False) = Inl e"
      unfolding access_token_def using jwt_verify_foreign [OF assms(1) access_payload_plain token_opts_subject(1)] by blast
    from safeVerify_error [OF this, of "Some ''refresh''"]
    show ?thesis by (auto simp: refresh_refresh_def verifyRefreshToken_def verifyRefresh_def exec)
  qed
  assume "w_now w div 1000 < t0 div 1000 + t_accessTtlSec E + 5"
  then have "accepts t0 (access_opts E) (w_now w) (verify_options E False)"
    by (simp add: accepts_def access_opts_def verify_options_def algebra_simps)
  from jwt_verify_own [OF assms(1) access_payload_plain this]
  have "j_verify (t_jwt E) (w_now w) (access_token E t0 sub roles) (t_accessSecret E) (verify_options E False)
      = Inr (access_claims E t0 sub roles)" by (simp add: access_token_def access_claims_def)
  then show "verifyAccess E (access_token E t0 sub roles) w = (Inr (access_claims E t0 sub roles), w)"
    using assms(2) by (auto simp: verifyAccess_def safeVerify_def dateNow_def liftE_def exec js_array_def is_jstr_def)
qed

theorem token_kinds_apart_witness:
  "verifyAccess fake_renv (access_token fake_renv 1000 ''u1'' [''USER'']) fake_rworld
     = (Inr (access_claims fake_renv 1000 ''u1'' [''USER'']), fake_rworld)"
  using token_kinds_apart [OF fake_rworld_ok(3), of "''u1''"]
  by (simp add: fake_renv_def fake_rworld_def)

section \<open>The rate limiter\<close>





end
