(* ===== verification/UploadTypes.thy ===== *)
theory UploadTypes
  imports JsText "HOL-Library.Word"
begin

text \<open>
  The data of the upload subsystem, \<open>core/upload/upload.types.ts\<close> and
  \<open>upload.tokens.ts\<close>: the persisted status of an upload session, a partial update of it, the
  configuration, and the merge of a status with an update that both state stores of the
  repository implement. Sizes and indexes are integers: the request DTOs admit nothing else, and
  the configured sizes are whole numbers of bytes.
\<close>

type_synonym byte = "8 word"

section \<open>Status\<close>

datatype UploadState = Init | Receiving | ReadyToUpload | Uploading | Uploaded | Error

fun state_str :: "UploadState \<Rightarrow> string" where
  "state_str Init = ''init''"
| "state_str Receiving = ''receiving''"
| "state_str ReadyToUpload = ''ready-to-upload''"
| "state_str Uploading = ''uploading''"
| "state_str Uploaded = ''uploaded''"
| "state_str Error = ''error''"

record UploadInitInput =
  ii_filename :: string
  ii_size :: int
  ii_mime :: "string option"

record UploadInitOutput =
  io_uploadId :: string
  io_chunkSize :: int
  io_totalChunks :: int
  io_expiresAt :: int

record UploadStatus =
  us_uploadId :: string
  us_userId :: string
  us_filename :: string
  us_mime :: string
  us_size :: int
  us_chunkSize :: int
  us_totalChunks :: int
  us_receivedBytes :: int
  us_receivedIndexes :: "int list"
  us_state :: UploadState
  us_createdAt :: int
  us_expiresAt :: int
  us_version :: int
  us_tempPath :: string
  us_remoteRelativePath :: "string option"

record UploadChunkResult =
  cr_receivedIndex :: int
  cr_receivedBytes :: int
  cr_percent :: int

record UploadFinishResult =
  fr_url :: string
  fr_path :: string
  fr_id :: string
  fr_mime :: string
  fr_size :: int

text \<open>What \<open>getStatus\<close> returns: the status without the temp path and the version.\<close>

record PublicUploadStatus =
  pu_uploadId :: string
  pu_userId :: string
  pu_filename :: string
  pu_mime :: string
  pu_size :: int
  pu_chunkSize :: int
  pu_totalChunks :: int
  pu_receivedBytes :: int
  pu_receivedIndexes :: "int list"
  pu_state :: UploadState
  pu_createdAt :: int
  pu_expiresAt :: int
  pu_remoteRelativePath :: "string option"
  pu_percent :: int

text \<open>
  \<open>Partial<UploadStatus>\<close>: the members some caller of the stores sets or some store reads.
\<close>

record UploadPatch =
  p_userId :: "string option"
  p_mime :: "string option"
  p_size :: "int option"
  p_receivedBytes :: "int option"
  p_receivedIndexes :: "int list option"
  p_state :: "UploadState option"
  p_expiresAt :: "int option"
  p_remoteRelativePath :: "string option"

definition no_patch :: UploadPatch where
  "no_patch = \<lparr>p_userId = None, p_mime = None, p_size = None, p_receivedBytes = None,
     p_receivedIndexes = None, p_state = None, p_expiresAt = None, p_remoteRelativePath = None\<rparr>"

section \<open>Configuration\<close>

record FilenamePolicy =
  fp_maxNameLength :: "int option"
  fp_replaceWith :: "string option"

record RetryConfig =
  rc_retries :: int
  rc_minDelayMs :: int

record UploadConfig =
  c_tmpDir :: string
  c_chunkSize :: int
  c_ttlSeconds :: int
  c_maxSizeBytes :: int
  c_cdnBaseUrl :: string
  c_publicRoot :: string
  c_publicSubdir :: "string option"
  c_baseDir :: "string option"
  c_allowedExts :: "string list option"
  c_allowedMime :: "string list option"
  c_filenamePolicy :: "FilenamePolicy option"
  c_retry :: "RetryConfig option"
  c_keepTempOnError :: "bool option"

section \<open>Merging\<close>

text \<open>\<open>ensureSortedUnique\<close>: \<open>Array.from(new Set(nums)).sort((a, b) => a - b)\<close>.\<close>

definition ensureSortedUnique :: "int list \<Rightarrow> int list" where
  "ensureSortedUnique nums = sort (js_unique nums)"

text \<open>\<open>{ ...cur, ...patch }\<close>\<close>

definition spread :: "UploadStatus \<Rightarrow> UploadPatch \<Rightarrow> UploadStatus" where
  "spread cur p = cur\<lparr>us_userId := orElse (p_userId p) (us_userId cur),
     us_mime := orElse (p_mime p) (us_mime cur),
     us_size := orElse (p_size p) (us_size cur),
     us_receivedBytes := orElse (p_receivedBytes p) (us_receivedBytes cur),
     us_receivedIndexes := orElse (p_receivedIndexes p) (us_receivedIndexes cur),
     us_state := orElse (p_state p) (us_state cur),
     us_expiresAt := orElse (p_expiresAt p) (us_expiresAt cur),
     us_remoteRelativePath := (case p_remoteRelativePath p of None \<Rightarrow> us_remoteRelativePath cur | Some x \<Rightarrow> Some x)\<rparr>"

text \<open>
  The contract of an accepted update: indexes are united and sorted, the byte count never goes
  back, everything else is overwritten, the version goes up by one.
\<close>

definition merge :: "UploadStatus \<Rightarrow> UploadPatch \<Rightarrow> UploadStatus" where
  "merge cur p = (spread cur p)\<lparr>us_version := us_version cur + 1,
     us_receivedIndexes := ensureSortedUnique (us_receivedIndexes cur @ orElse (p_receivedIndexes p) []),
     us_receivedBytes := max (us_receivedBytes cur) (orElse (p_receivedBytes p) (us_receivedBytes cur))\<rparr>"

text \<open>The indexes of a status are sorted, without duplicates, and of chunks of the file.\<close>

definition wf_status :: "UploadStatus \<Rightarrow> bool" where
  "wf_status s \<longleftrightarrow> sorted_wrt (<) (us_receivedIndexes s) \<and>
     (\<forall>i \<in> set (us_receivedIndexes s). 0 \<le> i \<and> i < us_totalChunks s)"

lemma set_ensureSortedUnique [simp]: "set (ensureSortedUnique xs) = set xs"
  by (simp add: ensureSortedUnique_def)

lemma ensureSortedUnique_sorted: "sorted_wrt (<) (ensureSortedUnique xs)"
  by (simp add: ensureSortedUnique_def strict_sorted_iff)

lemma ensureSortedUnique_id: "sorted_wrt (<) xs \<Longrightarrow> ensureSortedUnique xs = xs"
  by (simp add: ensureSortedUnique_def strict_sorted_iff js_unique_distinct sorted_sort_id)

lemma sorted_set_unique_int:
  fixes xs ys :: "int list"
  shows "sorted_wrt (<) xs \<Longrightarrow> sorted_wrt (<) ys \<Longrightarrow> set xs = set ys \<Longrightarrow> xs = ys"
  by (simp add: strict_sorted_iff sorted_distinct_set_unique)

lemma ensureSortedUnique_eq: "set xs = set ys \<Longrightarrow> ensureSortedUnique xs = ensureSortedUnique ys"
  by (rule sorted_set_unique_int) (simp_all add: ensureSortedUnique_sorted)

lemma merge_fields [simp]:
  "us_uploadId (merge s p) = us_uploadId s" "us_filename (merge s p) = us_filename s"
  "us_chunkSize (merge s p) = us_chunkSize s" "us_totalChunks (merge s p) = us_totalChunks s"
  "us_createdAt (merge s p) = us_createdAt s" "us_tempPath (merge s p) = us_tempPath s"
  "us_version (merge s p) = us_version s + 1" "us_userId (merge s p) = orElse (p_userId p) (us_userId s)"
  "us_size (merge s p) = orElse (p_size p) (us_size s)" "us_state (merge s p) = orElse (p_state p) (us_state s)"
  "us_mime (merge s p) = orElse (p_mime p) (us_mime s)"
  "us_expiresAt (merge s p) = orElse (p_expiresAt p) (us_expiresAt s)"
  "us_receivedIndexes (merge s p) = ensureSortedUnique (us_receivedIndexes s @ orElse (p_receivedIndexes p) [])"
  "us_receivedBytes (merge s p) = max (us_receivedBytes s) (orElse (p_receivedBytes p) (us_receivedBytes s))"
  by (simp_all add: merge_def spread_def)

lemma wf_merge:
  "wf_status s \<Longrightarrow> (\<forall>i \<in> set (orElse (p_receivedIndexes p) []). 0 \<le> i \<and> i < us_totalChunks s) \<Longrightarrow> wf_status (merge s p)"
  by (auto simp: wf_status_def ensureSortedUnique_sorted)

text \<open>A sorted list without duplicates of all indexes below \<open>n\<close> is \<open>[0..n-1]\<close>.\<close>

lemma complete_indexes:
  assumes "sorted_wrt (<) xs" and "\<forall>i \<in> set xs. 0 \<le> i \<and> i < n" and "int (length xs) = n"
  shows "set xs = {0..<n}"
proof -
  have "card (set xs) = nat n"
    using assms(1, 3) by (simp add: strict_sorted_iff distinct_card)
  moreover have "set xs \<subseteq> {0..<n}" using assms(2) by auto
  ultimately show ?thesis by (simp add: card_subset_eq)
qed

end
