(* ===== verification/UploadStore.thy ===== *)
theory UploadStore
  imports UploadTypes
begin

text \<open>
  The interface \<open>UploadStateStore\<close> of \<open>upload.types.ts\<close> as a record of operations and a
  locale of laws, and its in-memory implementation \<open>InMemoryUploadStateStore\<close>
  (\<open>apps/api/test/utils/upload-fakes.ts\<close>), on which the locale is interpreted. The operations
  the service probes for with \<open>typeof\<close> are optional members. \<open>withLock(id, ttl, work)\<close> is
  split into the acquisition, which gives the lock's token, and the release; the service runs its
  work between the two.
\<close>

section \<open>Operations\<close>

text \<open>The first argument of every operation is the time in milliseconds.\<close>

record 'st store_ops =
  st_create :: "int \<Rightarrow> UploadStatus \<Rightarrow> int \<Rightarrow> ('st, unit) eff"
  st_get :: "int \<Rightarrow> string \<Rightarrow> ('st, UploadStatus option) eff"
  st_patchCAS :: "(int \<Rightarrow> string \<Rightarrow> int \<Rightarrow> UploadPatch \<Rightarrow> ('st, bool) eff) option"
  st_acquire :: "(int \<Rightarrow> string \<Rightarrow> int \<Rightarrow> ('st, string) eff) option"
  st_release :: "int \<Rightarrow> string \<Rightarrow> string \<Rightarrow> ('st, unit) eff"
  st_touch :: "(int \<Rightarrow> string \<Rightarrow> int \<Rightarrow> ('st, unit) eff) option"
  st_delete :: "int \<Rightarrow> string \<Rightarrow> ('st, unit) eff"

text \<open>
  What a store must be given: identified and owned statuses, with their indexes in order. The
  identifiers are those of \<open>randomUUID\<close>; one that began with \<open>lock:\<close> would share its
  Redis key with a lock.
\<close>

definition plain_upload :: "string \<Rightarrow> bool" where
  "plain_upload i \<longleftrightarrow> i \<noteq> [] \<and> \<not> starts_with i ''lock:''"

definition storable :: "UploadStatus \<Rightarrow> bool" where
  "storable s \<longleftrightarrow> plain_upload (us_uploadId s) \<and> us_userId s \<noteq> [] \<and> sorted_wrt (<) (us_receivedIndexes s)"

text \<open>An operation returns \<open>x\<close> and leaves the store with the given statuses and locks.\<close>

definition store_step ::
  "(int \<Rightarrow> 'st \<Rightarrow> bool) \<Rightarrow> (int \<Rightarrow> 'st \<Rightarrow> string \<Rightarrow> UploadStatus option) \<Rightarrow> (int \<Rightarrow> 'st \<Rightarrow> string \<Rightarrow> string option)
    \<Rightarrow> int \<Rightarrow> ('st, 'a) eff \<Rightarrow> 'st \<Rightarrow> 'a \<Rightarrow> (string \<Rightarrow> UploadStatus option) \<Rightarrow> (string \<Rightarrow> string option) \<Rightarrow> bool"
where
  "store_step ok view held now c st x V H \<longleftrightarrow>
     (\<exists>st'. c st = (Inr x, st') \<and> ok now st' \<and> view now st' = V \<and> held now st' = H)"

definition cas_view :: "string \<Rightarrow> int \<Rightarrow> UploadPatch \<Rightarrow> (string \<Rightarrow> UploadStatus option) \<Rightarrow> (string \<Rightarrow> UploadStatus option)" where
  "cas_view i v p V = (case V i of None \<Rightarrow> V | Some c \<Rightarrow> if us_version c = v then V(i \<mapsto> merge c p) else V)"

definition cas_result :: "string \<Rightarrow> int \<Rightarrow> (string \<Rightarrow> UploadStatus option) \<Rightarrow> bool" where
  "cas_result i v V = (case V i of None \<Rightarrow> False | Some c \<Rightarrow> us_version c = v)"

section \<open>Laws\<close>

locale upload_store =
  fixes S :: "'st store_ops"
    and ok :: "int \<Rightarrow> 'st \<Rightarrow> bool"
    and view :: "int \<Rightarrow> 'st \<Rightarrow> string \<Rightarrow> UploadStatus option"
    and held :: "int \<Rightarrow> 'st \<Rightarrow> string \<Rightarrow> string option"
  assumes advance: "ok now st \<Longrightarrow> now \<le> now' \<Longrightarrow> ok now' st \<and> view now' st \<subseteq>\<^sub>m view now st"
    and view_storable: "ok now st \<Longrightarrow> view now st i = Some s \<Longrightarrow> storable s \<and> us_uploadId s = i"
    and create_law: "ok now st \<Longrightarrow> storable s \<Longrightarrow> 0 < ttl \<Longrightarrow> view now st (us_uploadId s) = None \<Longrightarrow>
      store_step ok view held now (st_create S now s ttl) st () ((view now st)(us_uploadId s \<mapsto> s)) (held now st)"
    and create_exists: "ok now st \<Longrightarrow> storable s \<Longrightarrow> 0 < ttl \<Longrightarrow> view now st (us_uploadId s) \<noteq> None \<Longrightarrow>
      \<exists>e. fst (st_create S now s ttl st) = Inl e"
    and get_law: "ok now st \<Longrightarrow>
      store_step ok view held now (st_get S now i) st (view now st i) (view now st) (held now st)"
    and patch_law: "ok now st \<Longrightarrow> st_patchCAS S = Some pc \<Longrightarrow> orElse (p_userId p) ''u'' \<noteq> [] \<Longrightarrow>
      store_step ok view held now (pc now i v p) st (cas_result i v (view now st)) (cas_view i v p (view now st)) (held now st)"
    and touch_law: "ok now st \<Longrightarrow> st_touch S = Some tc \<Longrightarrow> 0 < ttl \<Longrightarrow> view now st i = Some s \<Longrightarrow>
      \<exists>e \<in> {us_expiresAt s, now + 1000 * ttl}.
        store_step ok view held now (tc now i ttl) st () ((view now st)(i \<mapsto> s\<lparr>us_expiresAt := e\<rparr>)) (held now st)"
    and delete_law: "ok now st \<Longrightarrow>
      \<exists>H. store_step ok view held now (st_delete S now i) st () ((view now st)(i := None)) H \<and>
          (plain_upload i \<longrightarrow> H = held now st)"
    and acquire_law: "ok now st \<Longrightarrow> st_acquire S = Some ac \<Longrightarrow> 0 < ttl \<Longrightarrow> held now st i = None \<Longrightarrow>
      \<exists>tok. store_step ok view held now (ac now i ttl) st tok (view now st) ((held now st)(i \<mapsto> tok))"
    and acquire_busy: "ok now st \<Longrightarrow> st_acquire S = Some ac \<Longrightarrow> 0 < ttl \<Longrightarrow> held now st i \<noteq> None \<Longrightarrow>
      \<exists>e st'. ac now i ttl st = (Inl e, st') \<and> ok now st' \<and> view now st' = view now st \<and> held now st' = held now st"
    and release_law: "ok now st \<Longrightarrow>
      \<exists>H. store_step ok view held now (st_release S now i tok) st () (view now st) H \<and>
          (held now st i = Some tok \<longrightarrow> H = (held now st)(i := None))"

section \<open>The in-memory store\<close>

record mem_store =
  ms_items :: "string \<Rightarrow> UploadStatus option"
  ms_locks :: "string \<Rightarrow> bool"

definition mem_new :: mem_store where
  "mem_new = \<lparr>ms_items = Map.empty, ms_locks = (\<lambda>i. False)\<rparr>"

text \<open>The version and the expiry of a \<open>UploadStatus\<close> are always set, so the defaults are not used.\<close>

definition mem_create :: "int \<Rightarrow> UploadStatus \<Rightarrow> int \<Rightarrow> (mem_store, unit) eff" where
  "mem_create now status ttlSec m =
     (if ms_items m (us_uploadId status) \<noteq> None then (Inl (JsError ''exists''), m)
      else (Inr (), m\<lparr>ms_items := (ms_items m)(us_uploadId status \<mapsto> status)\<rparr>))"

definition mem_get :: "int \<Rightarrow> string \<Rightarrow> (mem_store, UploadStatus option) eff" where
  "mem_get now i m = (Inr (ms_items m i), m)"

definition mem_merge :: "UploadStatus \<Rightarrow> int \<Rightarrow> UploadPatch \<Rightarrow> UploadStatus" where
  "mem_merge cur expectedVersion p =
     (let m0 = (spread cur p)\<lparr>us_version := expectedVersion + 1\<rparr>;
          m1 = (case p_receivedIndexes p of
                  Some xs \<Rightarrow> m0\<lparr>us_receivedIndexes := sort (js_unique (us_receivedIndexes cur @ xs))\<rparr>
                | None \<Rightarrow> m0\<lparr>us_receivedIndexes := us_receivedIndexes cur\<rparr>);
          m2 = (case p_receivedBytes p of
                  Some n \<Rightarrow> m1\<lparr>us_receivedBytes := max (us_receivedBytes cur) n\<rparr> | None \<Rightarrow> m1)
      in case p_expiresAt p of
           Some e \<Rightarrow> if e \<noteq> 0 then m2\<lparr>us_expiresAt := e\<rparr> else m2 | None \<Rightarrow> m2)"

definition mem_patchCAS :: "int \<Rightarrow> string \<Rightarrow> int \<Rightarrow> UploadPatch \<Rightarrow> (mem_store, bool) eff" where
  "mem_patchCAS now i expectedVersion p m =
     (case ms_items m i of
        None \<Rightarrow> (Inr False, m)
      | Some cur \<Rightarrow>
          if us_version cur \<noteq> expectedVersion then (Inr False, m)
          else (Inr True, m\<lparr>ms_items := (ms_items m)(i \<mapsto> mem_merge cur expectedVersion p)\<rparr>))"

text \<open>\<open>withLock\<close>: the lock is taken, or the call fails at once; without locks it is a no-op.\<close>

definition mem_acquire :: "bool \<Rightarrow> int \<Rightarrow> string \<Rightarrow> int \<Rightarrow> (mem_store, string) eff" where
  "mem_acquire useLocks now i ttlMs m =
     (if \<not> useLocks then (Inr ''none'', m)
      else if ms_locks m i then (Inl (JsError ''lock busy''), m)
      else (Inr ''locked'', m\<lparr>ms_locks := (ms_locks m)(i := True)\<rparr>))"

definition mem_release :: "bool \<Rightarrow> int \<Rightarrow> string \<Rightarrow> string \<Rightarrow> (mem_store, unit) eff" where
  "mem_release useLocks now i tok m =
     (if useLocks then (Inr (), m\<lparr>ms_locks := (ms_locks m)(i := False)\<rparr>) else (Inr (), m))"

definition mem_touch :: "int \<Rightarrow> string \<Rightarrow> int \<Rightarrow> (mem_store, unit) eff" where
  "mem_touch now i ttlSec m =
     (case ms_items m i of
        None \<Rightarrow> (Inl (JsError ''missing''), m)
      | Some cur \<Rightarrow> (Inr (), m\<lparr>ms_items := (ms_items m)(i \<mapsto> cur\<lparr>us_expiresAt := now + ttlSec * 1000\<rparr>)\<rparr>))"

definition mem_delete :: "int \<Rightarrow> string \<Rightarrow> (mem_store, unit) eff" where
  "mem_delete now i m = (Inr (), m\<lparr>ms_items := (ms_items m)(i := None)\<rparr>)"

definition mem_ops :: "bool \<Rightarrow> mem_store store_ops" where
  "mem_ops useLocks = \<lparr>st_create = mem_create, st_get = mem_get, st_patchCAS = Some mem_patchCAS,
     st_acquire = Some (mem_acquire useLocks), st_release = mem_release useLocks,
     st_touch = Some mem_touch, st_delete = mem_delete\<rparr>"

definition mem_ok :: "int \<Rightarrow> mem_store \<Rightarrow> bool" where
  "mem_ok now m \<longleftrightarrow> (\<forall>i s. ms_items m i = Some s \<longrightarrow> storable s \<and> us_uploadId s = i)"

definition mem_view :: "int \<Rightarrow> mem_store \<Rightarrow> string \<Rightarrow> UploadStatus option" where
  "mem_view now m = ms_items m"

definition mem_held :: "int \<Rightarrow> mem_store \<Rightarrow> string \<Rightarrow> string option" where
  "mem_held now m i = (if ms_locks m i then Some ''locked'' else None)"

lemma mem_merge_merge: "sorted_wrt (<) (us_receivedIndexes cur) \<Longrightarrow> mem_merge cur (us_version cur) p = merge cur p"
  by (intro UploadStatus.equality)
     (auto simp: mem_merge_def merge_def spread_def Let_def ensureSortedUnique_def [symmetric] ensureSortedUnique_id
        orElse_def split: option.split)

lemma storable_merge: "storable s \<Longrightarrow> orElse (p_userId p) ''u'' \<noteq> [] \<Longrightarrow> storable (merge s p)"
  by (auto simp: storable_def ensureSortedUnique_sorted orElse_def split: option.splits)

interpretation ms: upload_store "mem_ops True" mem_ok mem_view mem_held
proof (unfold_locales, goal_cases)
  case (1 now st now')
  then show ?case by (simp add: mem_ok_def mem_view_def)
next
  case (2 now st i s)
  then show ?case by (simp add: mem_ok_def mem_view_def)
next
  case (3 now st s ttl)
  then show ?case by (auto simp: store_step_def mem_ops_def mem_create_def mem_view_def mem_ok_def mem_held_def fun_eq_iff)
next
  case (4 now st s ttl)
  then show ?case by (auto simp: mem_ops_def mem_create_def mem_view_def)
next
  case (5 now st i)
  then show ?case by (simp add: store_step_def mem_ops_def mem_get_def mem_view_def)
next
  case (6 now st pc p i v)
  show ?case
  proof (cases "\<exists>c. ms_items st i = Some c \<and> us_version c = v")
    case True
    then obtain c where c: "ms_items st i = Some c" "us_version c = v" by blast
    with 6 have sc: "storable c" "us_uploadId c = i" by (auto simp: mem_ok_def)
    with c have "mem_merge c v p = merge c p" using mem_merge_merge [of c p] by (simp add: storable_def)
    moreover have "storable (merge c p)" using sc 6 by (simp add: storable_merge)
    ultimately show ?thesis using 6 c sc
      by (auto simp: store_step_def mem_ops_def mem_patchCAS_def mem_view_def mem_ok_def mem_held_def
          cas_result_def cas_view_def fun_eq_iff)
  next
    case False
    with 6 show ?thesis
      by (auto simp: store_step_def mem_ops_def mem_patchCAS_def mem_view_def mem_held_def cas_result_def cas_view_def
          fun_eq_iff split: option.split)
  qed
next
  case (7 now st tc ttl i s)
  from 7(2) have tc: "tc = mem_touch" by (simp add: mem_ops_def)
  from 7(1, 3, 4) show ?case unfolding tc
    by (intro bexI [of _ "now + 1000 * ttl"])
       (auto simp: store_step_def mem_touch_def mem_view_def mem_ok_def mem_held_def storable_def
         fun_eq_iff mult.commute)
next
  case (8 now st i)
  then show ?case
    by (intro exI [of _ "mem_held now st"])
       (auto simp: store_step_def mem_ops_def mem_delete_def mem_view_def mem_ok_def mem_held_def fun_eq_iff)
next
  case (9 now st ac ttl i)
  then show ?case
    by (intro exI [of _ "''locked''"])
       (auto simp: store_step_def mem_ops_def mem_acquire_def mem_view_def mem_ok_def mem_held_def fun_eq_iff)
next
  case (10 now st ac ttl i)
  then show ?case
    by (auto simp: mem_ops_def mem_acquire_def mem_held_def split: if_splits)
next
  case (11 now st i tok)
  then show ?case
    by (intro exI [of _ "(mem_held now st)(i := None)"])
       (auto simp: store_step_def mem_ops_def mem_release_def mem_view_def mem_ok_def mem_held_def fun_eq_iff)
qed

end
