(* ===== verification/UploadWorld.thy ===== *)
theory UploadWorld
  imports Complex_Main UploadStore
begin

text \<open>
  What the upload service acts on besides the state store: the temporary files, the remote
  storage behind the interface \<open>StorageDriver\<close>, the socket gateway that reports progress
  (\<open>upload.gateway.ts\<close>), the table of files behind \<open>core/media/media.service.ts\<close>, the clock
  and the supply of UUIDs.
\<close>

section \<open>Temporary files\<close>

text \<open>
  The files by path, and the paths on which every operation fails (permissions, a full disk).
\<close>

record temp_fs =
  fs_files :: "string \<Rightarrow> byte list option"
  fs_denied :: "string \<Rightarrow> bool"

text \<open>\<open>open(path, 'w')\<close>, \<open>truncate(size)\<close>, \<open>close()\<close>: a file of zeros.\<close>

definition fs_create :: "string \<Rightarrow> int \<Rightarrow> (temp_fs, unit) eff" where
  "fs_create path sz f =
     (if fs_denied f path then (Inl (JsError ''EACCES''), f)
      else (Inr (), f\<lparr>fs_files := (fs_files f)(path \<mapsto> replicate (nat sz) 0)\<rparr>))"

text \<open>Writing a buffer at an offset; a gap before it is filled with zeros.\<close>

definition overlay :: "nat \<Rightarrow> byte list \<Rightarrow> byte list \<Rightarrow> byte list" where
  "overlay off chunk content =
     take off (content @ replicate (off - length content) 0) @ chunk @ drop (off + length chunk) content"

text \<open>\<open>open(path, 'r+')\<close>, \<open>write(chunk, 0, chunk.length, offset)\<close>, \<open>close()\<close>\<close>

definition fs_write_at :: "string \<Rightarrow> byte list \<Rightarrow> int \<Rightarrow> (temp_fs, unit) eff" where
  "fs_write_at path chunk off f =
     (case fs_files f path of
        None \<Rightarrow> (Inl (JsError ''ENOENT''), f)
      | Some content \<Rightarrow>
          if fs_denied f path then (Inl (JsError ''EACCES''), f)
          else (Inr (), f\<lparr>fs_files := (fs_files f)(path \<mapsto> overlay (nat off) chunk content)\<rparr>))"

text \<open>\<open>rm(path, { force: true })\<close>\<close>

definition fs_rm :: "string \<Rightarrow> (temp_fs, unit) eff" where
  "fs_rm path f =
     (if fs_denied f path then (Inl (JsError ''EACCES''), f)
      else (Inr (), f\<lparr>fs_files := (fs_files f)(path := None)\<rparr>))"

text \<open>\<open>stat(path)\<close>: the size; every path of the model is a file or absent.\<close>

definition fs_stat :: "string \<Rightarrow> (temp_fs, int) eff" where
  "fs_stat path f =
     (case fs_files f path of
        None \<Rightarrow> (Inl (JsError ''ENOENT''), f)
      | Some content \<Rightarrow> (Inr (int (length content)), f))"

lemma length_overlay: "length (overlay off chunk content) = max (length content) (off + length chunk)"
  by (simp add: overlay_def)

lemma nth_overlay:
  assumes "off + length chunk \<le> length content" and "k < length content"
  shows "overlay off chunk content ! k =
    (if off \<le> k \<and> k < off + length chunk then chunk ! (k - off) else content ! k)"
  using assms by (auto simp: overlay_def nth_append min_def)

section \<open>Remote storage\<close>

text \<open>A progress report of the driver, with the time at which it arrives.\<close>

record storage_progress =
  sp_sentBytes :: int
  sp_totalBytes :: "int option"
  sp_at :: int

text \<open>\<open>uploadFile\<close> reads the local file itself; it gives back the reports it made.\<close>

record 'rm storage_ops =
  sd_ensureDir :: "(string \<Rightarrow> ('rm, unit) eff) option"
  sd_uploadFile :: "int \<Rightarrow> temp_fs \<Rightarrow> string \<Rightarrow> string \<Rightarrow> 'rm \<Rightarrow> (exn + unit) \<times> 'rm \<times> storage_progress list"
  sd_delete :: "(string \<Rightarrow> ('rm, unit) eff) option"

locale storage_driver =
  fixes D :: "'rm storage_ops"
    and objects :: "'rm \<Rightarrow> string \<Rightarrow> byte list option"
  assumes upload_stores: "sd_uploadFile D now fs lp rp r = (Inr u, r', ps) \<Longrightarrow>
      \<exists>content. fs_files fs lp = Some content \<and> objects r' = (objects r)(rp \<mapsto> content)"
    and upload_frame: "sd_uploadFile D now fs lp rp r = (x, r', ps) \<Longrightarrow> q \<noteq> rp \<Longrightarrow> objects r' q = objects r q"
    and ensure_frame: "sd_ensureDir D = Some e \<Longrightarrow> e d r = (x, r') \<Longrightarrow> objects r' = objects r"
    and delete_removes: "sd_delete D = Some dl \<Longrightarrow> dl p r = (Inr u, r') \<Longrightarrow> objects r' = (objects r)(p := None)"
    and delete_frame: "sd_delete D = Some dl \<Longrightarrow> dl p r = (x, r') \<Longrightarrow> q \<noteq> p \<Longrightarrow> objects r' q = objects r q"

text \<open>The driver of the repository's tests, \<open>FakeStorageDriver\<close>.\<close>

record fake_storage =
  fk_uploaded :: "string \<Rightarrow> byte list option"
  fk_ensuredDirs :: "string set"
  fk_deleted :: "string list"

definition fake_storage_new :: fake_storage where
  "fake_storage_new = \<lparr>fk_uploaded = Map.empty, fk_ensuredDirs = {}, fk_deleted = []\<rparr>"

definition fake_ensureDir :: "string \<Rightarrow> (fake_storage, unit) eff" where
  "fake_ensureDir d r =
     (Inr (), r\<lparr>fk_ensuredDirs := insert (map (\<lambda>c. if c = CHR 0x5C then CHR 0x2F else c) d) (fk_ensuredDirs r)\<rparr>)"

text \<open>The reports of the loop that counts \<open>sent\<close> up to \<open>total\<close> in three steps or so.\<close>

function fake_reports :: "int \<Rightarrow> int \<Rightarrow> int \<Rightarrow> int \<Rightarrow> storage_progress list" where
  "fake_reports now step tot sent =
     (if sent < tot \<and> 0 < step
      then let sent' = min tot (sent + step)
           in \<lparr>sp_sentBytes = sent', sp_totalBytes = Some tot, sp_at = now\<rparr> # fake_reports now step tot sent'
      else [])"
  by pat_completeness auto

termination
  by (relation "measure (\<lambda>(now, step, tot, sent). nat (tot - sent))") auto

declare fake_reports.simps [simp del]

definition fake_uploadFile ::
  "int \<Rightarrow> temp_fs \<Rightarrow> string \<Rightarrow> string \<Rightarrow> fake_storage \<Rightarrow> (exn + unit) \<times> fake_storage \<times> storage_progress list" where
  "fake_uploadFile now fs lp rp r =
     (case fs_files fs lp of
        None \<Rightarrow> (Inl (JsError ''ENOENT''), r, [])
      | Some content \<Rightarrow>
          let tot = int (length content)
          in (Inr (), r\<lparr>fk_uploaded := (fk_uploaded r)(rp \<mapsto> content)\<rparr>,
              fake_reports now (max 1 (tot div 3)) tot 0))"

definition fake_sdelete :: "string \<Rightarrow> (fake_storage, unit) eff" where
  "fake_sdelete p r = (Inr (), r\<lparr>fk_deleted := fk_deleted r @ [p], fk_uploaded := (fk_uploaded r)(p := None)\<rparr>)"

definition fake_exists :: "string \<Rightarrow> (fake_storage, bool) eff" where
  "fake_exists p r = (Inr (fk_uploaded r p \<noteq> None), r)"

definition fake_rename :: "string \<Rightarrow> string \<Rightarrow> (fake_storage, unit) eff" where
  "fake_rename p q r =
     (case fk_uploaded r p of
        None \<Rightarrow> (Inl (JsError ''missing''), r)
      | Some b \<Rightarrow> (Inr (), r\<lparr>fk_uploaded := ((fk_uploaded r)(p := None))(q \<mapsto> b)\<rparr>))"

definition fake_storage_ops :: "fake_storage storage_ops" where
  "fake_storage_ops = \<lparr>sd_ensureDir = Some fake_ensureDir, sd_uploadFile = fake_uploadFile, sd_delete = Some fake_sdelete\<rparr>"

interpretation fk: storage_driver fake_storage_ops fk_uploaded
  by unfold_locales
     (auto simp: fake_storage_ops_def fake_uploadFile_def fake_ensureDir_def fake_sdelete_def Let_def split: option.splits)

section \<open>The gateway\<close>

datatype ws_event =
    ServerProgress (we_uploadId: string) (we_sent: int) (we_total: int) (we_percent: rat)
  | UploadedEvent (we_uploadId: string) (we_url: string) (we_path: string)

definition isValidUploadId :: "string \<Rightarrow> bool" where
  "isValidUploadId i \<longleftrightarrow> \<not> (length i < 8 \<or> length i > 128)"

definition js_round :: "rat \<Rightarrow> int" where
  "js_round x = \<lfloor>x + 1 / 2\<rfloor>"

definition safePercent :: "int \<Rightarrow> int \<Rightarrow> rat" where
  "safePercent sent tot =
     (if tot \<le> 0 then 0
      else let p = of_int sent / of_int tot * 100
           in max 0 (min 100 (of_int (js_round (p * 10)) / 10)))"

definition room :: "string \<Rightarrow> string" where
  "room uploadId = ''upload:'' @ uploadId"

text \<open>
  Emission to the room of an upload; nothing is sent without a server or for an implausible id.
  \<open>hasServer\<close> is whether the socket server is attached.
\<close>

definition emitServerProgress :: "bool \<Rightarrow> string \<Rightarrow> int \<Rightarrow> int \<Rightarrow> (string \<times> ws_event) list" where
  "emitServerProgress hasServer uploadId sent tot =
     (if \<not> hasServer then [] else if \<not> isValidUploadId uploadId then []
      else [(room uploadId, ServerProgress uploadId sent tot (safePercent sent tot))])"

definition emitUploaded :: "bool \<Rightarrow> string \<Rightarrow> string \<Rightarrow> string \<Rightarrow> (string \<times> ws_event) list" where
  "emitUploaded hasServer uploadId url path =
     (if \<not> hasServer then [] else if \<not> isValidUploadId uploadId then []
      else [(room uploadId, UploadedEvent uploadId url path)])"

lemma safePercent_bounds: "0 \<le> safePercent sent tot \<and> safePercent sent tot \<le> 100"
  by (simp add: safePercent_def Let_def)

section \<open>The world of the upload service\<close>

text \<open>
  \<open>uw_s\<close> is the local variable \<open>s\<close> of the request being served, which
  \<open>patchAndSync\<close> updates in place; \<open>uw_sleeps\<close> records the delays the request waits for.
\<close>

record ('st, 'rm, 'd) upload_world =
  uw_store :: 'st
  uw_fs :: temp_fs
  uw_remote :: 'rm
  uw_db :: 'd
  uw_now :: int
  uw_ctr :: nat
  uw_events :: "(string \<times> ws_event) list"
  uw_sleeps :: "int list"
  uw_s :: UploadStatus

definition storeM :: "(int \<Rightarrow> ('st, 'a) eff) \<Rightarrow> (('st, 'rm, 'd) upload_world, 'a) eff" where
  "storeM c w = (case c (uw_now w) (uw_store w) of (x, st') \<Rightarrow> (x, w\<lparr>uw_store := st'\<rparr>))"

definition fsM :: "(temp_fs, 'a) eff \<Rightarrow> (('st, 'rm, 'd) upload_world, 'a) eff" where
  "fsM c w = (case c (uw_fs w) of (x, f') \<Rightarrow> (x, w\<lparr>uw_fs := f'\<rparr>))"

definition remoteM :: "('rm, 'a) eff \<Rightarrow> (('st, 'rm, 'd) upload_world, 'a) eff" where
  "remoteM c w = (case c (uw_remote w) of (x, r') \<Rightarrow> (x, w\<lparr>uw_remote := r'\<rparr>))"

definition tableM :: "('d, 'a) eff \<Rightarrow> (('st, 'rm, 'd) upload_world, 'a) eff" where
  "tableM c w = (case c (uw_db w) of (x, d') \<Rightarrow> (x, w\<lparr>uw_db := d'\<rparr>))"

definition emitM :: "(string \<times> ws_event) list \<Rightarrow> (('st, 'rm, 'd) upload_world, unit) eff" where
  "emitM es w = (Inr (), w\<lparr>uw_events := uw_events w @ es\<rparr>)"

definition sleepM :: "int \<Rightarrow> (('st, 'rm, 'd) upload_world, unit) eff" where
  "sleepM ms w = (Inr (), w\<lparr>uw_sleeps := uw_sleeps w @ [ms]\<rparr>)"

definition uuidM :: "(nat \<Rightarrow> string) \<Rightarrow> (('st, 'rm, 'd) upload_world, string) eff" where
  "uuidM uuid w = (Inr (uuid (uw_ctr w)), w\<lparr>uw_ctr := Suc (uw_ctr w)\<rparr>)"

definition snapM :: "(('st, 'rm, 'd) upload_world, UploadStatus) eff" where
  "snapM = getsM uw_s"

section \<open>The table of files\<close>

record CreateFileInput =
  cf_userId :: string
  cf_filename :: string
  cf_mime :: string
  cf_size :: int
  cf_path :: string
  cf_url :: string
  cf_status :: "string option"

text \<open>\<open>MediaService.createFile\<close> over \<open>prisma.file.create\<close>, a parameter that gives the new id.\<close>

definition media_createFile ::
  "(CreateFileInput \<Rightarrow> ('d, string) eff) \<Rightarrow> CreateFileInput \<Rightarrow> (('st, 'rm, 'd) upload_world, string) eff" where
  "media_createFile create input =
     catchM (tableM (create (input\<lparr>cf_status := Some (case cf_status input of None \<Rightarrow> ''uploaded'' | Some x \<Rightarrow> x)\<rparr>)))
       (\<lambda>_. throwM (internalError ''failed to create media record''))"

end
