(* ===== verification/Paths.thy ===== *)
theory Paths
  imports JsText
begin

text \<open>
  The functions of Node's \<open>path.posix\<close> and of \<open>Date\<close> that the upload code uses, on the
  model's strings: \<open>join\<close>, \<open>normalize\<close>, \<open>dirname\<close>, \<open>basename\<close> and
  \<open>toISOString().slice(0, 10)\<close>.
\<close>

definition slash :: char where
  "slash = CHR 0x2F"

definition is_absolute :: "string \<Rightarrow> bool" where
  "is_absolute p \<longleftrightarrow> p \<noteq> [] \<and> hd p = slash"

text \<open>One segment against the segments kept so far, last first.\<close>

definition norm_step :: "bool \<Rightarrow> string \<Rightarrow> string list \<Rightarrow> string list" where
  "norm_step ab seg acc =
     (if seg = [] \<or> seg = ''.'' then acc
      else if seg = ''..''
      then (case acc of
              [] \<Rightarrow> if ab then [] else [''..'']
            | a # rest \<Rightarrow> if a = ''..'' then ''..'' # acc else rest)
      else seg # acc)"

definition norm_segments :: "bool \<Rightarrow> string list \<Rightarrow> string list" where
  "norm_segments ab segs = rev (fold (norm_step ab) segs [])"

definition posix_normalize :: "string \<Rightarrow> string" where
  "posix_normalize p =
     (if p = [] then ''.''
      else let ab = is_absolute p;
               trailing = last p = slash;
               path0 = join_with [slash] (norm_segments ab (split_on slash p));
               path1 = (if path0 = [] then (if ab then [] else (if trailing then ''./'' else ''.''))
                        else if trailing then path0 @ [slash] else path0)
           in if ab then slash # path1 else path1)"

definition posix_join :: "string list \<Rightarrow> string" where
  "posix_join ps =
     (let joined = join_with [slash] (filter (\<lambda>p. p \<noteq> []) ps)
      in if joined = [] then ''.'' else posix_normalize joined)"

definition strip_trailing :: "char \<Rightarrow> string \<Rightarrow> string" where
  "strip_trailing c s = rev (dropWhile (\<lambda>x. x = c) (rev s))"

definition strip_leading :: "char \<Rightarrow> string \<Rightarrow> string" where
  "strip_leading c s = dropWhile (\<lambda>x. x = c) s"

text \<open>The text before and after the last slash; \<open>None\<close> when there is none.\<close>

definition last_slash :: "string \<Rightarrow> (string \<times> string) option" where
  "last_slash s =
     (if slash \<in> set s
      then Some (rev (tl (dropWhile (\<lambda>c. c \<noteq> slash) (rev s))), rev (takeWhile (\<lambda>c. c \<noteq> slash) (rev s)))
      else None)"

definition posix_dirname :: "string \<Rightarrow> string" where
  "posix_dirname p =
     (if p = [] then ''.''
      else let t = strip_trailing slash p
           in if t = [] then [slash]
              else case last_slash t of
                     None \<Rightarrow> ''.''
                   | Some (d, b) \<Rightarrow> (let d' = strip_trailing slash d in if d' = [] then [slash] else d'))"

definition posix_basename :: "string \<Rightarrow> string" where
  "posix_basename p =
     (let t = strip_trailing slash p
      in case last_slash t of None \<Rightarrow> t | Some (d, b) \<Rightarrow> b)"

section \<open>Dates\<close>

text \<open>Year, month and day of a number of days since the epoch, in the proleptic Gregorian calendar.\<close>

definition civil_from_days :: "int \<Rightarrow> int \<times> int \<times> int" where
  "civil_from_days z0 =
     (let z = z0 + 719468;
          era = z div 146097;
          doe = z - era * 146097;
          yoe = (doe - doe div 1460 + doe div 36524 - doe div 146096) div 365;
          doy = doe - (365 * yoe + yoe div 4 - yoe div 100);
          mp = (5 * doy + 2) div 153;
          d = doy - (153 * mp + 2) div 5 + 1;
          m = (if mp < 10 then mp + 3 else mp - 9);
          y = yoe + era * 400 + (if m \<le> 2 then 1 else 0)
      in (y, m, d))"

definition pad :: "nat \<Rightarrow> string \<Rightarrow> string" where
  "pad n s = replicate (n - length s) (CHR ''0'') @ s"

text \<open>For the years 0 to 9999, as a server's clock shows them.\<close>

definition iso_date :: "int \<Rightarrow> string" where
  "iso_date now =
     (case civil_from_days (now div 86400000) of
        (y, m, d) \<Rightarrow> pad 4 (int_str y) @ ''-'' @ pad 2 (int_str m) @ ''-'' @ pad 2 (int_str d))"

lemma int_str_chars: "c \<in> set (int_str i) \<Longrightarrow> is_digit c \<or> c = CHR ''-''"
  using nat_str_digits by (auto simp: int_str_def list_all_iff split: if_splits)

lemma iso_date_chars: "c \<in> set (iso_date now) \<Longrightarrow> is_digit c \<or> c = CHR ''-''"
  by (auto simp: iso_date_def pad_def is_digit_def split: prod.splits dest: int_str_chars)

lemma iso_date_nonempty: "iso_date now \<noteq> []"
  by (simp add: iso_date_def split: prod.split)


end
