(* ===== verification/UploadService.thy ===== *)
theory UploadService
  imports UploadWorld Paths Duration
begin

text \<open>
  The upload service, \<open>core/upload/upload.service.ts\<close>: a session is created with a temporary
  file of the final size, chunks are written into it in any order, and \<open>finish\<close> hands the file
  to the storage driver and records it. Every method is a definition; the helpers keep the code's
  names. Log lines and trace ids are left out. File names are of the model's characters, on which
  the normal form NFC is the identity.
\<close>

text \<open>
  What the service is constructed with, and the functions of packages that are not part of the
  repository: \<open>file-type\<close> (\<open>ue_fileType\<close>, the MIME type detected in a buffer) and Prisma's
  \<open>file.create\<close>. \<open>ue_development\<close> is \<open>NODE_ENV === 'development'\<close>.
\<close>

record ('st, 'rm, 'd) upload_env =
  ue_cfg :: UploadConfig
  ue_store :: "'st store_ops"
  ue_storage :: "'rm storage_ops"
  ue_uuid :: "nat \<Rightarrow> string"
  ue_fileType :: "byte list \<Rightarrow> exn + string option"
  ue_createFile :: "CreateFileInput \<Rightarrow> ('d, string) eff"
  ue_server :: bool
  ue_development :: bool

type_synonym ('st, 'rm, 'd, 'a) up = "(('st, 'rm, 'd) upload_world, 'a) eff"

definition returnE :: "exn + 'a \<Rightarrow> ('s, 'a) eff" where
  "returnE x = (case x of Inl e \<Rightarrow> throwM e | Inr v \<Rightarrow> retM v)"

definition nowM :: "('st, 'rm, 'd, int) up" where
  "nowM = getsM uw_now"

definition setS :: "UploadStatus \<Rightarrow> ('st, 'rm, 'd, unit) up" where
  "setS s = modifyM (\<lambda>w. w\<lparr>uw_s := s\<rparr>)"

section \<open>Names and lists\<close>

definition MIME_EXTENSION_MAP :: "string \<Rightarrow> string option" where
  "MIME_EXTENSION_MAP = map_of
     [(''image/jpeg'', ''jpg''), (''image/png'', ''png''), (''image/webp'', ''webp''), (''image/svg+xml'', ''svg''),
      (''video/mp4'', ''mp4''), (''video/x-matroska'', ''mkv''), (''application/pdf'', ''pdf''),
      (''application/zip'', ''zip''), (''application/vnd.rar'', ''rar'')]"

definition mime_alias :: "string \<Rightarrow> string option" where
  "mime_alias = map_of
     [(''application/x-zip-compressed'', ''application/zip''), (''application/x-zip'', ''application/zip''),
      (''multipart/x-zip'', ''application/zip''), (''application/x-rar-compressed'', ''application/vnd.rar'')]"

text \<open>The text after the last dot, and the text before it.\<close>

definition after_dot :: "string \<Rightarrow> string" where
  "after_dot s = rev (takeWhile (\<lambda>c. c \<noteq> CHR ''.'') (rev s))"

text \<open>The match of \<open>/\.([a-z0-9]+)$/i\<close> on a name in lower case.\<close>

definition match_ext :: "string \<Rightarrow> string option" where
  "match_ext s =
     (let e = after_dot s
      in if CHR ''.'' \<in> set s \<and> e \<noteq> [] \<and> list_all (\<lambda>c. is_lower c \<or> is_upper c \<or> is_digit c) e
         then Some e else None)"

definition isAllowedExt :: "UploadConfig \<Rightarrow> string \<Rightarrow> bool" where
  "isAllowedExt cfg filename =
     (let list = map js_lower (orElse (c_allowedExts cfg) [])
      in if list = [] then True
         else case match_ext (js_lower filename) of None \<Rightarrow> False | Some ext \<Rightarrow> ext \<in> set list)"

definition isAllowedMime :: "UploadConfig \<Rightarrow> string option \<Rightarrow> bool" where
  "isAllowedMime cfg mime =
     (let list = map js_lower (orElse (c_allowedMime cfg) [])
      in if list = [] then True
         else case mime of None \<Rightarrow> False | Some m \<Rightarrow> m \<noteq> [] \<and> js_lower m \<in> set list)"

definition name_char :: "char \<Rightarrow> bool" where
  "name_char c \<longleftrightarrow> is_lower c \<or> is_upper c \<or> is_digit c \<or> c \<in> {CHR ''_'', CHR ''.'', CHR ''-''}"

definition safeName :: "UploadConfig \<Rightarrow> string \<Rightarrow> string" where
  "safeName cfg name =
     (let policy = c_filenamePolicy cfg;
          replaceWith = (case policy of None \<Rightarrow> ''_'' | Some p \<Rightarrow> orElse (fp_replaceWith p) ''_'');
          cleaned = concat (map (\<lambda>c. if name_char c then [c] else replaceWith) name);
          tokens = split_on (CHR ''.'') cleaned;
          ext = (if length tokens > 1 then last tokens else []);
          rest = (if length tokens > 1 then butlast tokens else tokens);
          base = join_with ''_'' rest;
          maxLen = (case policy of None \<Rightarrow> 100 | Some p \<Rightarrow> orElse (fp_maxNameLength p) 100);
          base = (if int (length base) > maxLen
                  then take (nat (if maxLen < 0 then max 0 (int (length base) + maxLen) else maxLen)) base else base);
          base = (if base = [] then ''file'' else base)
      in if ext \<noteq> [] then base @ ''.'' @ ext else base)"

text \<open>\<open>replace(/\.[^.]+$/, '')\<close>\<close>

definition strip_ext :: "string \<Rightarrow> string" where
  "strip_ext s =
     (let e = after_dot s
      in if CHR ''.'' \<in> set s \<and> e \<noteq> [] then take (length s - length e - 1) s else s)"

definition buildPublicUrl :: "UploadConfig \<Rightarrow> string \<Rightarrow> string" where
  "buildPublicUrl cfg relativePath = strip_trailing slash (c_cdnBaseUrl cfg) @ ''/'' @ relativePath"

definition sanitizePathSegments :: "string \<Rightarrow> string list" where
  "sanitizePathSegments input =
     filter (\<lambda>seg. seg \<noteq> [] \<and> seg \<noteq> ''.'' \<and> seg \<noteq> ''..'')
       (map js_trim (split_on slash (map (\<lambda>c. if c = CHR 0x5C then slash else c) input)))"

definition normalizeSubdir :: "string \<Rightarrow> string" where
  "normalizeSubdir input =
     (let segments = sanitizePathSegments input
      in if segments \<noteq> [] then join_with ''/'' segments else ''uploads'')"

definition normalizeOptionalSegment :: "string option \<Rightarrow> string" where
  "normalizeOptionalSegment input = join_with ''/'' (sanitizePathSegments (orElse input []))"

section \<open>Patching the state\<close>

definition safeRemoveTemp :: "string \<Rightarrow> ('st, 'rm, 'd, unit) up" where
  "safeRemoveTemp path = (if path = [] then retM () else catchM (fsM (fs_rm path)) (\<lambda>_. retM ()))"

definition deleteState :: "('st, 'rm, 'd) upload_env \<Rightarrow> string \<Rightarrow> ('st, 'rm, 'd, unit) up" where
  "deleteState E i = storeM (\<lambda>n. st_delete (ue_store E) n i)"

text \<open>\<open>patch\<close>: by compare-and-set when the store has it, otherwise by reading, deleting and
  creating again.\<close>

definition patch :: "('st, 'rm, 'd) upload_env \<Rightarrow> string \<Rightarrow> int \<Rightarrow> UploadPatch \<Rightarrow> ('st, 'rm, 'd, int) up" where
  "patch E i expectedVersion p =
     (case st_patchCAS (ue_store E) of
        Some pc \<Rightarrow>
          bindM (storeM (\<lambda>n. pc n i expectedVersion p)) (\<lambda>ok.
          if \<not> ok then throwM (conflict ''upload state changed; retry'')
          else retM (expectedVersion + 1))
      | None \<Rightarrow>
          bindM (storeM (\<lambda>n. st_get (ue_store E) n i)) (\<lambda>cur.
          case cur of
            None \<Rightarrow> throwM (badRequest ''upload session not found'')
          | Some c \<Rightarrow>
              let merged = (spread c p)\<lparr>us_version := expectedVersion + 1,
                    us_receivedIndexes := (case p_receivedIndexes p of
                       Some xs \<Rightarrow> sort (js_unique (us_receivedIndexes c @ xs)) | None \<Rightarrow> us_receivedIndexes c),
                    us_receivedBytes := (case p_receivedBytes p of
                       Some b \<Rightarrow> max (us_receivedBytes c) b | None \<Rightarrow> us_receivedBytes c)\<rparr>
              in thenM (catchM (deleteState E i) (\<lambda>_. retM ()))
                 (thenM (storeM (\<lambda>n. st_create (ue_store E) n merged (c_ttlSeconds (ue_cfg E))))
                 (retM (us_version merged)))))"

text \<open>
  The snapshot takes over the members of the update; \<open>if (patch.size)\<close> and
  \<open>if (patch.mime)\<close> skip zero and the empty string.
\<close>

definition sync :: "UploadPatch \<Rightarrow> int \<Rightarrow> UploadStatus \<Rightarrow> UploadStatus" where
  "sync p nextVersion s = s\<lparr>us_version := nextVersion,
     us_state := orElse (p_state p) (us_state s),
     us_receivedBytes := orElse (p_receivedBytes p) (us_receivedBytes s),
     us_receivedIndexes := orElse (p_receivedIndexes p) (us_receivedIndexes s),
     us_remoteRelativePath := (case p_remoteRelativePath p of None \<Rightarrow> us_remoteRelativePath s | Some x \<Rightarrow> Some x),
     us_mime := (case p_mime p of Some m \<Rightarrow> if m \<noteq> [] then m else us_mime s | None \<Rightarrow> us_mime s),
     us_size := (case p_size p of Some n \<Rightarrow> if n \<noteq> 0 then n else us_size s | None \<Rightarrow> us_size s)\<rparr>"

definition patchAndSync :: "('st, 'rm, 'd) upload_env \<Rightarrow> string \<Rightarrow> UploadPatch \<Rightarrow> ('st, 'rm, 'd, unit) up" where
  "patchAndSync E i p =
     bindM snapM (\<lambda>s.
     bindM (patch E i (us_version s) p) (\<lambda>nextVersion.
     setS (sync p nextVersion s)))"

definition withStoreLock :: "('st, 'rm, 'd) upload_env \<Rightarrow> string \<Rightarrow> ('st, 'rm, 'd, 'a) up \<Rightarrow> ('st, 'rm, 'd, 'a) up" where
  "withStoreLock E i work =
     (case st_acquire (ue_store E) of
        Some ac \<Rightarrow>
          (let desired = c_ttlSeconds (ue_cfg E) * 1000;
               lockTtl = min (max 15000 desired) 120000
           in bindM (storeM (\<lambda>n. ac n i lockTtl)) (\<lambda>tok.
              finallyM work (storeM (\<lambda>n. st_release (ue_store E) n i tok))))
      | None \<Rightarrow> work)"

section \<open>Loading and checking a session\<close>

text \<open>
  The clean-up of an expired session is started and not waited for; it is run here to its end,
  its errors dropped, before the 410.
\<close>

definition assertNotExpired :: "('st, 'rm, 'd) upload_env \<Rightarrow> UploadStatus \<Rightarrow> ('st, 'rm, 'd, unit) up" where
  "assertNotExpired E s =
     bindM nowM (\<lambda>now.
     if now > us_expiresAt s
     then thenM (safeRemoveTemp (us_tempPath s))
          (thenM (bestEffortM (deleteState E (us_uploadId s)))
          (throwM (gone ''upload session expired'')))
     else retM ())"

definition mustGetActive :: "('st, 'rm, 'd) upload_env \<Rightarrow> string \<Rightarrow> ('st, 'rm, 'd, UploadStatus) up" where
  "mustGetActive E i =
     bindM (storeM (\<lambda>n. st_get (ue_store E) n i)) (\<lambda>r.
     case r of
       None \<Rightarrow> throwM (badRequest ''upload session not found'')
     | Some s \<Rightarrow> thenM (assertNotExpired E s) (retM s))"

definition expected_length :: "UploadStatus \<Rightarrow> int \<Rightarrow> int" where
  "expected_length s index =
     (let offset = index * us_chunkSize s; isLast = (index = us_totalChunks s - 1)
      in if isLast then us_size s - offset else us_chunkSize s)"

definition assertChunkLength :: "int \<Rightarrow> byte list \<Rightarrow> UploadStatus \<Rightarrow> ('st, 'rm, 'd, unit) up" where
  "assertChunkLength index buf s =
     throwIfM (int (length buf) \<noteq> expected_length s index)
       (unprocessable (''invalid chunk length at index '' @ int_str index))"

text \<open>The loop over the indexes: the first that is not in its place.\<close>

definition first_missing :: "UploadStatus \<Rightarrow> nat option" where
  "first_missing s = List.find (\<lambda>k. us_receivedIndexes s ! k \<noteq> int k) [0 ..< nat (us_totalChunks s)]"

definition assertAllChunksReceived :: "UploadStatus \<Rightarrow> ('st, 'rm, 'd, unit) up" where
  "assertAllChunksReceived s =
     (if int (length (us_receivedIndexes s)) \<noteq> us_totalChunks s
      then throwM (badRequest ''file is incomplete (missing chunks)'')
      else case first_missing s of
             None \<Rightarrow> retM ()
           | Some k \<Rightarrow> throwM (badRequest (''missing chunk index '' @ nat_str k)))"

definition assertTempReady :: "string \<Rightarrow> int \<Rightarrow> ('st, 'rm, 'd, unit) up" where
  "assertTempReady localPath expectedSize =
     bindM (catchM (fsM (fs_stat localPath))
              (\<lambda>_. throwM (internalError (''temp file missing: '' @ localPath)))) (\<lambda>n.
     throwIfM (expectedSize > 0 \<and> n \<noteq> expectedSize)
       (internalError (''temp size mismatch: got='' @ int_str n @ '' expected='' @ int_str expectedSize)))"

text \<open>
  \<open>Math.floor((received / total) * 100)\<close>, with exact division.
\<close>

definition percent_of :: "UploadStatus \<Rightarrow> int list \<Rightarrow> int" where
  "percent_of s received = (int (length received) * 100) div us_totalChunks s"

section \<open>\<open>init\<close>\<close>

text \<open>\<open>Math.ceil(size / chunkSize)\<close>\<close>

definition ceil_div :: "int \<Rightarrow> int \<Rightarrow> int" where
  "ceil_div a b = - ((- a) div b)"

definition upload_init :: "('st, 'rm, 'd) upload_env \<Rightarrow> UploadInitInput \<Rightarrow> string \<Rightarrow> ('st, 'rm, 'd, UploadInitOutput) up" where
  "upload_init E input userId =
     (let cfg = ue_cfg E;
          filename = ii_filename input;
          sz = ii_size input;
          rawMime = js_lower (js_trim (orElse (ii_mime input) ''application/octet-stream''));
          mimeNormalized = orElse (mime_alias rawMime) rawMime
      in thenM (throwIfM (userId = []) (badRequest ''userId is required''))
         (thenM (throwIfM (filename = []) (badRequest ''filename is required''))
         (thenM (throwIfM (sz \<le> 0) (badRequest ''size must be a positive number''))
         (thenM (throwIfM (c_maxSizeBytes cfg \<noteq> 0 \<and> sz > c_maxSizeBytes cfg) (payloadTooLarge ''file is too large''))
         (thenM (throwIfM (\<not> isAllowedExt cfg filename) (badRequest ''file extension is not allowed''))
         (thenM (throwIfM (mimeNormalized \<noteq> ''application/octet-stream'' \<and> \<not> isAllowedMime cfg (Some mimeNormalized))
                   (badRequest ''MIME type is not allowed''))
         (bindM (uuidM (ue_uuid E)) (\<lambda>uploadId.
          let tempPath = posix_join [c_tmpDir cfg, uploadId @ ''.part'']
          in thenM (catchM (fsM (fs_create tempPath sz)) (\<lambda>_. throwM (internalError ''failed to create temp file'')))
             (bindM nowM (\<lambda>now.
              let expiresAt = now + c_ttlSeconds cfg * 1000;
                  totalChunks = ceil_div sz (c_chunkSize cfg);
                  status = \<lparr>us_uploadId = uploadId, us_userId = userId, us_filename = filename,
                    us_mime = mimeNormalized, us_size = sz, us_chunkSize = c_chunkSize cfg, us_totalChunks = totalChunks,
                    us_receivedBytes = 0, us_receivedIndexes = [], us_state = Init, us_createdAt = now,
                    us_expiresAt = expiresAt, us_version = 1, us_tempPath = tempPath, us_remoteRelativePath = None\<rparr>
              in thenM (storeM (\<lambda>n. st_create (ue_store E) n status (c_ttlSeconds cfg)))
                 (retM \<lparr>io_uploadId = uploadId, io_chunkSize = c_chunkSize cfg,
                        io_totalChunks = totalChunks, io_expiresAt = expiresAt\<rparr>)))))))))))"

section \<open>\<open>writeChunk\<close>\<close>

text \<open>\<open>ft?.mime?.toLowerCase()\<close> as a condition: an empty type counts as none.\<close>

definition detected_of :: "string option \<Rightarrow> string option" where
  "detected_of ft = (case ft of None \<Rightarrow> None | Some m \<Rightarrow> if m = [] then None else Some (js_lower m))"

text \<open>The check of the first chunk's content, with the \<open>catch\<close> that swallows its own rejection.\<close>

definition sniffFirst :: "('st, 'rm, 'd) upload_env \<Rightarrow> string \<Rightarrow> byte list \<Rightarrow> ('st, 'rm, 'd, unit) up" where
  "sniffFirst E i chunk =
     catchM
       (bindM (returnE (ue_fileType E chunk)) (\<lambda>ft.
        bindM snapM (\<lambda>s.
        case detected_of ft of
          None \<Rightarrow> retM ()
        | Some detected \<Rightarrow>
            thenM (if \<not> isAllowedMime (ue_cfg E) (Some detected)
                   then thenM (safeRemoveTemp (us_tempPath s))
                        (thenM (deleteState E i)
                        (throwM (badRequest (''detected MIME not allowed: '' @ detected))))
                   else retM ())
            (if detected \<noteq> us_mime s then patchAndSync E i (no_patch\<lparr>p_mime := Some detected\<rparr>) else retM ()))))
       (\<lambda>_. retM ())"

definition touchIfSupported :: "('st, 'rm, 'd) upload_env \<Rightarrow> string \<Rightarrow> ('st, 'rm, 'd, unit) up" where
  "touchIfSupported E i =
     (case st_touch (ue_store E) of
        Some tc \<Rightarrow> catchM (storeM (\<lambda>n. tc n i (c_ttlSeconds (ue_cfg E)))) (\<lambda>_. retM ())
      | None \<Rightarrow> retM ())"

definition not_writable :: "UploadState \<Rightarrow> bool" where
  "not_writable st \<longleftrightarrow> st = Uploaded \<or> st = ReadyToUpload \<or> st = Uploading \<or> st = Error"

text \<open>The second half of \<open>writeChunk\<close>: the write, the update of the state, the answer.\<close>

definition storeChunk :: "('st, 'rm, 'd) upload_env \<Rightarrow> string \<Rightarrow> int \<Rightarrow> byte list \<Rightarrow> int \<Rightarrow> UploadStatus
    \<Rightarrow> ('st, 'rm, 'd, UploadChunkResult) up" where
  "storeChunk E i index chunk offset s =
     (let already = index \<in> set (us_receivedIndexes s)
      in thenM (if \<not> already
                then catchM (fsM (fs_write_at (us_tempPath s) chunk offset))
                       (\<lambda>_. throwM (internalError ''failed to write chunk''))
                else retM ())
         (let receivedIndexes = (if already then us_receivedIndexes s else sort (us_receivedIndexes s @ [index]));
              receivedBytes = max (us_receivedBytes s) (offset + int (length chunk))
          in thenM (patchAndSync E i (no_patch\<lparr>p_receivedBytes := Some receivedBytes,
                      p_receivedIndexes := Some receivedIndexes\<rparr>))
             (thenM (touchIfSupported E i)
             (retM \<lparr>cr_receivedIndex = index, cr_receivedBytes = receivedBytes,
                    cr_percent = percent_of s receivedIndexes\<rparr>))))"

definition writeChunk_run :: "('st, 'rm, 'd) upload_env \<Rightarrow> string \<Rightarrow> int \<Rightarrow> byte list \<Rightarrow> ('st, 'rm, 'd, UploadChunkResult) up" where
  "writeChunk_run E i index chunk =
     bindM (mustGetActive E i) (\<lambda>s0.
     thenM (setS s0)
     (thenM (throwIfM (not_writable (us_state s0)) (conflict ''upload session is not writable''))
     (thenM (if us_state s0 = Init then patchAndSync E i (no_patch\<lparr>p_state := Some Receiving\<rparr>) else retM ())
     (thenM (throwIfM (index \<ge> us_totalChunks s0) (badRequest ''chunk index out of range''))
     (thenM (assertChunkLength index chunk s0)
     (thenM (if index = 0 then sniffFirst E i chunk else retM ())
     (bindM snapM (\<lambda>s. storeChunk E i index chunk (index * us_chunkSize s0) s))))))))"

definition writeChunk :: "('st, 'rm, 'd) upload_env \<Rightarrow> string \<Rightarrow> int \<Rightarrow> byte list \<Rightarrow> ('st, 'rm, 'd, UploadChunkResult) up" where
  "writeChunk E i index chunk =
     thenM (throwIfM (i = []) (badRequest ''uploadId is required''))
     (thenM (throwIfM (index < 0) (badRequest ''index must be a non-negative integer''))
     (thenM (throwIfM (chunk = []) (badRequest ''empty chunk''))
     (withStoreLock E i (writeChunk_run E i index chunk))))"

section \<open>\<open>getStatus\<close> and \<open>abort\<close>\<close>

definition getStatus :: "('st, 'rm, 'd) upload_env \<Rightarrow> string \<Rightarrow> ('st, 'rm, 'd, PublicUploadStatus) up" where
  "getStatus E i =
     bindM (mustGetActive E i) (\<lambda>s.
     retM \<lparr>pu_uploadId = us_uploadId s, pu_userId = us_userId s, pu_filename = us_filename s, pu_mime = us_mime s,
       pu_size = us_size s, pu_chunkSize = us_chunkSize s, pu_totalChunks = us_totalChunks s,
       pu_receivedBytes = us_receivedBytes s, pu_receivedIndexes = us_receivedIndexes s, pu_state = us_state s,
       pu_createdAt = us_createdAt s, pu_expiresAt = us_expiresAt s, pu_remoteRelativePath = us_remoteRelativePath s,
       pu_percent = percent_of s (us_receivedIndexes s)\<rparr>)"

definition upload_abort :: "('st, 'rm, 'd) upload_env \<Rightarrow> string \<Rightarrow> ('st, 'rm, 'd, string) up" where
  "upload_abort E i =
     thenM (throwIfM (i = []) (badRequest ''uploadId is required''))
     (bindM (storeM (\<lambda>n. st_get (ue_store E) n i)) (\<lambda>r.
      case r of
        None \<Rightarrow> throwM (badRequest ''upload session not found'')
      | Some s \<Rightarrow> thenM (safeRemoveTemp (us_tempPath s)) (thenM (deleteState E i) (retM i))))"

section \<open>Sending the file\<close>

text \<open>\<open>/ECONN|ETIMEDOUT|EPIPE|ENOTFOUND|ECONNRESET|Timeout/i\<close> on the error's message.\<close>

definition isTransient :: "exn \<Rightarrow> bool" where
  "isTransient err =
     (let msg = js_lower (exn_message err)
      in js_includes msg ''econn'' \<or> js_includes msg ''etimedout'' \<or> js_includes msg ''epipe''
         \<or> js_includes msg ''enotfound'' \<or> js_includes msg ''econnreset'' \<or> js_includes msg ''timeout'')"

text \<open>The attempts \<open>i..attempts\<close>, given as their number \<open>left\<close>.\<close>

fun retry_from :: "('st, 'rm, 'd, unit) up \<Rightarrow> int \<Rightarrow> nat \<Rightarrow> nat \<Rightarrow> ('st, 'rm, 'd, unit) up" where
  "retry_from fn baseDelayMs i 0 = throwM (JsError ''undefined'')"
| "retry_from fn baseDelayMs i (Suc left) =
     catchM fn (\<lambda>err.
       if \<not> isTransient err \<or> left = 0 then throwM err
       else thenM (sleepM (baseDelayMs * 2 ^ (i - 1))) (retry_from fn baseDelayMs (Suc i) left))"

definition uploadWithRetry :: "('st, 'rm, 'd, unit) up \<Rightarrow> nat \<Rightarrow> int \<Rightarrow> ('st, 'rm, 'd, unit) up" where
  "uploadWithRetry fn attempts baseDelayMs = retry_from fn baseDelayMs 1 attempts"

text \<open>The throttled progress callback, over the reports of one attempt.\<close>

fun progress_events :: "bool \<Rightarrow> string \<Rightarrow> int \<Rightarrow> int \<Rightarrow> int \<Rightarrow> storage_progress list \<Rightarrow> (string \<times> ws_event) list" where
  "progress_events srv i fileSize lastEmitAt lastPercent [] = []"
| "progress_events srv i fileSize lastEmitAt lastPercent (p # ps) =
     (let tot = orElse (sp_totalBytes p) fileSize;
          percentFromProgress = (if tot > 0 then min 100 ((sp_sentBytes p * 100) div tot) else 0);
          percent = (if percentFromProgress \<ge> 0 then percentFromProgress else 0);
          shouldEmit = (percent \<ge> lastPercent + 1 \<or> sp_at p - lastEmitAt \<ge> 100)
      in if shouldEmit
         then emitServerProgress srv i (sp_sentBytes p) tot @ progress_events srv i fileSize (sp_at p) percent ps
         else progress_events srv i fileSize lastEmitAt lastPercent ps)"

definition uploadFileM :: "('st, 'rm, 'd) upload_env \<Rightarrow> string \<Rightarrow> string \<Rightarrow> string \<Rightarrow> int \<Rightarrow> ('st, 'rm, 'd, unit) up" where
  "uploadFileM E i lp rp fileSize w =
     (case sd_uploadFile (ue_storage E) (uw_now w) (uw_fs w) lp rp (uw_remote w) of
        (x, r', ps) \<Rightarrow> (x, w\<lparr>uw_remote := r', uw_events := uw_events w @ progress_events (ue_server E) i fileSize 0 (-1) ps\<rparr>))"

definition ensureRemoteDir :: "('st, 'rm, 'd) upload_env \<Rightarrow> string \<Rightarrow> ('st, 'rm, 'd, unit) up" where
  "ensureRemoteDir E relativeDir =
     (case sd_ensureDir (ue_storage E) of Some e \<Rightarrow> remoteM (e relativeDir) | None \<Rightarrow> retM ())"

section \<open>\<open>finish\<close>\<close>

text \<open>The check of the whole file; the rejection it throws is swallowed by its own \<open>catch\<close>.\<close>

definition sniffFile :: "('st, 'rm, 'd) upload_env \<Rightarrow> string \<Rightarrow> ('st, 'rm, 'd, string option) up" where
  "sniffFile E i =
     catchM
       (bindM snapM (\<lambda>s.
        bindM (getsM (\<lambda>w. fs_files (uw_fs w) (us_tempPath s))) (\<lambda>content.
        let ft = (case content of None \<Rightarrow> None
                  | Some c \<Rightarrow> (case ue_fileType E c of Inl _ \<Rightarrow> None | Inr v \<Rightarrow> v));
            sniffed = map_option js_lower ft
        in thenM (if detected_of ft \<noteq> None \<and> \<not> isAllowedMime (ue_cfg E) sniffed
                  then thenM (safeRemoveTemp (us_tempPath s))
                       (thenM (deleteState E i)
                       (throwM (badRequest (''detected MIME not allowed: '' @ the sniffed))))
                  else retM ())
           (retM sniffed))))
       (\<lambda>_. retM None)"

definition relative_dir :: "UploadConfig \<Rightarrow> string option \<Rightarrow> int \<Rightarrow> string" where
  "relative_dir cfg subdir now =
     (let publicSubdir = normalizeOptionalSegment (c_publicSubdir cfg);
          baseDir = normalizeSubdir (orElse (c_baseDir cfg) (orElse subdir ''uploads''))
      in join_with ''/'' (filter (\<lambda>d. d \<noteq> []) [publicSubdir, baseDir, iso_date now]))"

definition final_name :: "UploadConfig \<Rightarrow> string \<Rightarrow> string \<Rightarrow> string" where
  "final_name cfg filename finalMime =
     (let originalSafe = safeName cfg filename
      in case MIME_EXTENSION_MAP finalMime of
           Some targetExt \<Rightarrow> strip_ext originalSafe @ ''.'' @ targetExt
         | None \<Rightarrow> originalSafe)"

text \<open>The sending of the file: the \<open>try\<close> of \<open>finish\<close> with its \<open>catch\<close> and \<open>finally\<close>.\<close>

definition send_body :: "('st, 'rm, 'd) upload_env \<Rightarrow> string \<Rightarrow> string \<Rightarrow> string \<Rightarrow> UploadStatus \<Rightarrow> ('st, 'rm, 'd, unit) up" where
  "send_body E i relativeDir relativePath s =
     (let cfg = ue_cfg E;
          maxAttempts = max 1 (case c_retry cfg of None \<Rightarrow> 3 | Some r \<Rightarrow> rc_retries r);
          baseDelayMs = max 100 (case c_retry cfg of None \<Rightarrow> 800 | Some r \<Rightarrow> rc_minDelayMs r)
      in thenM (assertTempReady (us_tempPath s) (us_size s))
         (thenM (if relativeDir \<noteq> [] then ensureRemoteDir E relativeDir else retM ())
         (thenM (patchAndSync E i (no_patch\<lparr>p_state := Some Uploading\<rparr>))
         (thenM (uploadWithRetry (uploadFileM E i (us_tempPath s) relativePath (us_size s)) (nat maxAttempts) baseDelayMs)
         (emitM (emitServerProgress (ue_server E) i (us_size s) (us_size s)))))))"

text \<open>\<open>err.name\<close>: the class of a Nest exception, \<open>Error\<close> for a plain error.\<close>

definition exn_name :: "exn \<Rightarrow> string" where
  "exn_name err =
     (case err of
        JsError m \<Rightarrow> ''Error''
      | Http st c m \<Rightarrow> orElse (map_of [(400, ''BadRequestException''), (409, ''ConflictException''), (410, ''GoneException''),
          (500, ''InternalServerErrorException'')] st) ''HttpException'')"

definition send_handler :: "('st, 'rm, 'd) upload_env \<Rightarrow> string \<Rightarrow> UploadStatus \<Rightarrow> exn \<Rightarrow> ('st, 'rm, 'd, unit) up" where
  "send_handler E i s err =
     thenM (patchAndSync E i (no_patch\<lparr>p_state := Some Error\<rparr>))
     (thenM (if \<not> orElse (c_keepTempOnError (ue_cfg E)) False then safeRemoveTemp (us_tempPath s) else retM ())
     (throwM (internalError (if ue_development E then ''remote upload failed: '' @ exn_name err @ '': '' @ exn_message err
                             else ''remote upload failed''))))"

text \<open>The \<open>finally\<close> removes the temporary file after a success, and after an error unless
  the configuration keeps it.\<close>

definition sendFile :: "('st, 'rm, 'd) upload_env \<Rightarrow> string \<Rightarrow> string \<Rightarrow> string \<Rightarrow> ('st, 'rm, 'd, unit) up" where
  "sendFile E i relativeDir relativePath =
     bindM snapM (\<lambda>s w.
       case send_body E i relativeDir relativePath s w of
         (Inr u, w1) \<Rightarrow> safeRemoveTemp (us_tempPath s) w1
       | (Inl err, w1) \<Rightarrow>
           finallyM (send_handler E i s err)
             (if \<not> orElse (c_keepTempOnError (ue_cfg E)) False then safeRemoveTemp (us_tempPath s) else retM ()) w1)"

text \<open>Recording the file: on failure the remote object is removed and the session marked.\<close>

definition recordFile :: "('st, 'rm, 'd) upload_env \<Rightarrow> string \<Rightarrow> string \<Rightarrow> string \<Rightarrow> ('st, 'rm, 'd, string) up" where
  "recordFile E i relativePath url =
     finallyM
       (catchM
         (bindM snapM (\<lambda>s. media_createFile (ue_createFile E)
            \<lparr>cf_userId = us_userId s, cf_filename = us_filename s, cf_mime = us_mime s, cf_size = us_size s,
             cf_path = relativePath, cf_url = url, cf_status = Some ''uploaded''\<rparr>))
         (\<lambda>_. thenM (case sd_delete (ue_storage E) of
                       Some dl \<Rightarrow> catchM (remoteM (dl relativePath)) (\<lambda>_. retM ())
                     | None \<Rightarrow> retM ())
              (thenM (patchAndSync E i (no_patch\<lparr>p_state := Some Error\<rparr>))
              (throwM (internalError ''failed to persist file record'')))))
       (bestEffortM (deleteState E i))"

text \<open>\<open>finish\<close> from the detection of the MIME type on; \<open>s0\<close> is the status it loaded.\<close>

definition finish_send :: "('st, 'rm, 'd) upload_env \<Rightarrow> string \<Rightarrow> string option \<Rightarrow> UploadStatus \<Rightarrow> string option
    \<Rightarrow> ('st, 'rm, 'd, UploadFinishResult) up" where
  "finish_send E i subdir s0 detectedMime =
     (let finalMime = js_lower (orElse detectedMime (us_mime s0))
      in thenM (if finalMime \<noteq> us_mime s0 then patchAndSync E i (no_patch\<lparr>p_mime := Some finalMime\<rparr>) else retM ())
         (bindM nowM (\<lambda>now.
          bindM (uuidM (ue_uuid E)) (\<lambda>uuid.
          let relativeDir = relative_dir (ue_cfg E) subdir now;
              relativePath = relativeDir @ ''/'' @ uuid @ ''-'' @ final_name (ue_cfg E) (us_filename s0) finalMime
          in thenM (patchAndSync E i (no_patch\<lparr>p_state := Some ReadyToUpload, p_remoteRelativePath := Some relativePath\<rparr>))
             (thenM (sendFile E i relativeDir relativePath)
             (thenM (patchAndSync E i (no_patch\<lparr>p_state := Some Uploaded\<rparr>))
             (let url = buildPublicUrl (ue_cfg E) relativePath
              in bindM (recordFile E i relativePath url) (\<lambda>savedId.
                 thenM (emitM (emitUploaded (ue_server E) i url relativePath))
                 (bindM snapM (\<lambda>s.
                  retM \<lparr>fr_url = url, fr_path = relativePath, fr_id = savedId, fr_mime = us_mime s, fr_size = us_size s\<rparr>))))))))))"

definition finish_run :: "('st, 'rm, 'd) upload_env \<Rightarrow> string \<Rightarrow> string option \<Rightarrow> ('st, 'rm, 'd, UploadFinishResult) up" where
  "finish_run E i subdir =
     bindM (mustGetActive E i) (\<lambda>s0.
     thenM (setS s0)
     (thenM (assertAllChunksReceived s0)
     (thenM (throwIfM (us_tempPath s0 = []) (internalError ''temp file not found''))
     (thenM (throwIfM (us_state s0 = Uploaded) (conflict ''upload already finished''))
     (thenM (throwIfM (us_state s0 \<noteq> Receiving \<and> us_state s0 \<noteq> ReadyToUpload)
               (conflict (''invalid state for finish: '' @ state_str (us_state s0))))
     (bindM (sniffFile E i) (finish_send E i subdir s0)))))))"

definition finish :: "('st, 'rm, 'd) upload_env \<Rightarrow> string \<Rightarrow> string option \<Rightarrow> ('st, 'rm, 'd, UploadFinishResult) up" where
  "finish E i subdir =
     thenM (throwIfM (i = []) (badRequest ''uploadId is required''))
     (withStoreLock E i (finish_run E i subdir))"

end
