(* ===== verification/Hoare.thy ===== *)
theory Hoare
  imports Prelude
begin

text \<open>
  A program logic for the effect monad: \<open>hoare P m Q R\<close> says that from a state satisfying
  \<open>P\<close> the operation \<open>m\<close> ends in a state satisfying \<open>Q x\<close> when it returns \<open>x\<close>
  and \<open>R e\<close> when it throws \<open>e\<close>. The rules follow the structure of a handler, so that an
  invariant is carried through every branch and every error path.
\<close>

definition hoare :: "('s \<Rightarrow> bool) \<Rightarrow> ('s, 'a) eff \<Rightarrow> ('a \<Rightarrow> 's \<Rightarrow> bool) \<Rightarrow> (exn \<Rightarrow> 's \<Rightarrow> bool) \<Rightarrow> bool" where
  "hoare P m Q R \<longleftrightarrow> (\<forall>s. P s \<longrightarrow> (case m s of (Inr x, s') \<Rightarrow> Q x s' | (Inl e, s') \<Rightarrow> R e s'))"

lemma hoareI: "(\<And>s x s'. P s \<Longrightarrow> m s = (Inr x, s') \<Longrightarrow> Q x s') \<Longrightarrow>
    (\<And>s e s'. P s \<Longrightarrow> m s = (Inl e, s') \<Longrightarrow> R e s') \<Longrightarrow> hoare P m Q R"
  unfolding hoare_def by (simp split: prod.split sum.split)

lemma hoare_ok: "hoare P m Q R \<Longrightarrow> P s \<Longrightarrow> m s = (Inr x, s') \<Longrightarrow> Q x s'"
  unfolding hoare_def by fastforce

lemma hoare_err: "hoare P m Q R \<Longrightarrow> P s \<Longrightarrow> m s = (Inl e, s') \<Longrightarrow> R e s'"
  unfolding hoare_def by fastforce

lemma hoare_conseq:
  "hoare P m Q R \<Longrightarrow> (\<And>s. P' s \<Longrightarrow> P s) \<Longrightarrow> (\<And>x s. Q x s \<Longrightarrow> Q' x s) \<Longrightarrow> (\<And>e s. R e s \<Longrightarrow> R' e s) \<Longrightarrow>
   hoare P' m Q' R'"
  unfolding hoare_def by (fastforce split: prod.splits sum.splits)

lemma hoare_pre: "hoare P m Q R \<Longrightarrow> (\<And>s. P' s \<Longrightarrow> P s) \<Longrightarrow> hoare P' m Q R"
  by (rule hoare_conseq)

lemma hoare_false [simp]: "hoare (\<lambda>s. False) m Q R"
  by (simp add: hoare_def)

lemma hoare_ret: "(\<And>s. P s \<Longrightarrow> Q x s) \<Longrightarrow> hoare P (retM x) Q R"
  by (simp add: hoare_def retM_def)

lemma hoare_throw: "(\<And>s. P s \<Longrightarrow> R e s) \<Longrightarrow> hoare P (throwM e) Q R"
  by (simp add: hoare_def throwM_def)

lemma hoare_gets: "(\<And>s. P s \<Longrightarrow> Q (f s) s) \<Longrightarrow> hoare P (getsM f) Q R"
  by (simp add: hoare_def getsM_def)

lemma hoare_modify: "(\<And>s. P s \<Longrightarrow> Q () (f s)) \<Longrightarrow> hoare P (modifyM f) Q R"
  by (simp add: hoare_def modifyM_def)

lemma hoare_bind: "hoare P m M R \<Longrightarrow> (\<And>x. hoare (M x) (f x) Q R) \<Longrightarrow> hoare P (bindM m f) Q R"
  unfolding hoare_def bindM_def by (fastforce split: prod.splits sum.splits)

lemma hoare_then: "hoare P m (\<lambda>_. M) R \<Longrightarrow> hoare M n Q R \<Longrightarrow> hoare P (thenM m n) Q R"
  unfolding thenM_def by (rule hoare_bind)

lemma hoare_throwIf:
  "(\<And>s. P s \<Longrightarrow> c \<Longrightarrow> R e s) \<Longrightarrow> (\<And>s. P s \<Longrightarrow> \<not> c \<Longrightarrow> Q () s) \<Longrightarrow> hoare P (throwIfM c e) Q R"
  by (simp add: throwIfM_def hoare_ret hoare_throw)

text \<open>A guard: what follows may use that the condition is false.\<close>

lemma hoare_guard:
  "(c \<Longrightarrow> (\<And>s. P s \<Longrightarrow> R e s)) \<Longrightarrow> (\<not> c \<Longrightarrow> hoare P n Q R) \<Longrightarrow> hoare P (thenM (throwIfM c e) n) Q R"
  by (cases c) (simp_all add: throwIfM_def thenM_def hoare_throw)

lemma hoare_catch: "hoare P m Q E \<Longrightarrow> (\<And>e. hoare (E e) (h e) Q R) \<Longrightarrow> hoare P (catchM m h) Q R"
  unfolding hoare_def catchM_def by (fastforce split: prod.splits sum.splits)

lemma hoare_finally:
  "hoare P m A B \<Longrightarrow> (\<And>x. hoare (A x) f (\<lambda>_. Q x) R) \<Longrightarrow> (\<And>e. hoare (B e) f (\<lambda>_. R e) R) \<Longrightarrow>
   hoare P (finallyM m f) Q R"
proof (rule hoareI)
  assume m: "hoare P m A B" and a: "\<And>x. hoare (A x) f (\<lambda>_. Q x) R" and b: "\<And>e. hoare (B e) f (\<lambda>_. R e) R"
  fix s s''
  assume p: "P s"
  show "finallyM m f s = (Inr x, s'') \<Longrightarrow> Q x s''" for x
    using hoare_ok [OF m p] hoare_ok [OF a [of x]] by (auto simp: finallyM_def split: prod.splits sum.splits)
  show "finallyM m f s = (Inl e, s'') \<Longrightarrow> R e s''" for e
    using hoare_ok [OF m p] hoare_err [OF m p] hoare_err [OF a] hoare_ok [OF b [of e]] hoare_err [OF b]
    by (cases "fst (m s)"; auto simp: finallyM_def split: prod.splits sum.splits)
qed

lemma hoare_bestEffort: "hoare P m (\<lambda>_. M) (\<lambda>_. M) \<Longrightarrow> hoare P (bestEffortM m) (\<lambda>_. M) R"
  unfolding bestEffortM_def by (rule hoare_catch, rule hoare_bind, assumption) (simp_all add: hoare_ret)

lemma hoare_if: "(c \<Longrightarrow> hoare P m Q R) \<Longrightarrow> (\<not> c \<Longrightarrow> hoare P n Q R) \<Longrightarrow> hoare P (if c then m else n) Q R"
  by simp

lemma hoare_option:
  "(v = None \<Longrightarrow> hoare P m Q R) \<Longrightarrow> (\<And>x. v = Some x \<Longrightarrow> hoare P (n x) Q R) \<Longrightarrow>
   hoare P (case v of None \<Rightarrow> m | Some x \<Rightarrow> n x) Q R"
  by (cases v) simp_all

lemma hoare_ex: "(\<And>a. hoare (P a) m Q R) \<Longrightarrow> hoare (\<lambda>s. \<exists>a. P a s) m Q R"
  by (rule hoareI) (auto dest: hoare_ok hoare_err)

lemma hoare_pure: "(c \<Longrightarrow> hoare P m Q R) \<Longrightarrow> hoare (\<lambda>s. c \<and> P s) m Q R"
  by (cases c) (simp_all add: hoare_def)

text \<open>An operation that returns deterministically.\<close>

lemma hoare_run: "(\<And>s. P s \<Longrightarrow> \<exists>x s'. m s = (Inr x, s') \<and> Q x s') \<Longrightarrow> hoare P m Q R"
  unfolding hoare_def by fastforce

lemma hoare_either:
  "(\<And>s. P s \<Longrightarrow> (\<exists>e s'. m s = (Inl e, s') \<and> R e s') \<or> (\<exists>x s'. m s = (Inr x, s') \<and> Q x s')) \<Longrightarrow> hoare P m Q R"
  unfolding hoare_def by fastforce

end
