(* ===== verification/UploadFacts.thy ===== *)
theory UploadFacts
  imports UploadService Hoare
begin

text \<open>
  The invariant of the upload service and the proof that every operation keeps it, for every
  state store that satisfies \<open>upload_store\<close> and every driver that satisfies
  \<open>storage_driver\<close>. \<open>F i\<close> is the file the client of session \<open>i\<close> is sending: the
  invariant says that every session in the store is well formed and that the chunks it counts as
  received are, in its temporary file, the chunks of \<open>F i\<close>.
\<close>

section \<open>Chunks of a file\<close>

definition chunk_of :: "int \<Rightarrow> byte list \<Rightarrow> int \<Rightarrow> byte list" where
  "chunk_of cs f k = take (nat cs) (drop (nat (k * cs)) f)"

lemma nth_chunk_of:
  assumes "j < length (chunk_of cs f k)"
  shows "chunk_of cs f k ! j = f ! (nat (k * cs) + j)"
proof -
  have "nat (k * cs) \<le> length f" "j < nat cs" using assms by (auto simp: chunk_of_def)
  then show ?thesis by (simp add: chunk_of_def)
qed

lemma length_chunk_of:
  assumes "0 < cs" and "0 \<le> k"
  shows "int (length (chunk_of cs f k)) = max 0 (min cs (int (length f) - k * cs))"
proof -
  define a where "a = nat (k * cs)"
  have "int a = k * cs" using assms by (simp add: a_def)
  moreover have "length (chunk_of cs f k) = min (length f - a) (nat cs)" by (simp add: chunk_of_def a_def)
  ultimately show ?thesis using assms(1) by linarith
qed

text \<open>The exact number of chunks: the last one is the first that reaches the end.\<close>

lemma ceil_div_bounds:
  assumes "0 < n" and "0 < cs"
  shows "0 < ceil_div n cs" and "(ceil_div n cs - 1) * cs < n" and "n \<le> ceil_div n cs * cs"
proof -
  let ?q = "(- n) div cs" and ?m = "(- n) mod cs"
  have e: "- n = cs * ?q + ?m" by simp
  have m: "0 \<le> ?m" "?m < cs" using assms(2) by simp_all
  have "?q < 0" using assms by (simp add: div_neg_pos_less0)
  then show "0 < ceil_div n cs" by (simp add: ceil_div_def)
  have p: "ceil_div n cs * cs = - (cs * ?q)" by (simp add: ceil_div_def mult.commute)
  show "n \<le> ceil_div n cs * cs" using e m p by linarith
  have "(ceil_div n cs - 1) * cs = ceil_div n cs * cs - cs" by (simp add: left_diff_distrib)
  then show "(ceil_div n cs - 1) * cs < n" using e m p by linarith
qed

lemma expected_chunk_length:
  assumes "0 < cs" and "0 < int (length f)" and "us_chunkSize s = cs" and "us_size s = int (length f)"
    and "us_totalChunks s = ceil_div (us_size s) cs" and "0 \<le> k" and "k < us_totalChunks s"
  shows "int (length (chunk_of cs f k)) = expected_length s k"
proof -
  note b = ceil_div_bounds [OF assms(2, 1)]
  show ?thesis
  proof (cases "k = us_totalChunks s - 1")
    case True
    then have k: "k * cs < int (length f)" "int (length f) \<le> (k + 1) * cs"
      using b assms(4, 5) by simp_all
    have "(k + 1) * cs = k * cs + cs" by (simp add: algebra_simps)
    with k have "max 0 (min cs (int (length f) - k * cs)) = int (length f) - k * cs" by linarith
    then show ?thesis
      using True assms(1-4, 6) by (simp add: length_chunk_of expected_length_def Let_def)
  next
    case False
    then have "k + 1 \<le> us_totalChunks s - 1" using assms(7) by simp
    then have "(k + 1) * cs \<le> (us_totalChunks s - 1) * cs" using assms(1) by (simp add: mult_right_mono)
    also have "\<dots> < int (length f)" using b(2) assms(4, 5) by simp
    finally have "k * cs + cs < int (length f)" by (simp add: algebra_simps)
    then have "max 0 (min cs (int (length f) - k * cs)) = cs" using assms(1) by linarith
    then show ?thesis
      using False assms(1-4, 6) by (simp add: length_chunk_of expected_length_def Let_def)
  qed
qed

text \<open>Two files of the same length with the same chunks are the same.\<close>

lemma chunks_determine:
  assumes "0 < cs" and "length c = length f" and "\<And>k. 0 \<le> k \<Longrightarrow> k * cs < int (length f) \<Longrightarrow> chunk_of cs c k = chunk_of cs f k"
  shows "c = f"
proof (rule nth_equalityI)
  show "length c = length f" by fact
  fix j
  assume j: "j < length c"
  define k where "k = int j div cs"
  define r where "r = nat (int j mod cs)"
  have k: "0 \<le> k" "int j = k * cs + int r" "int r < cs"
    using assms(1) by (simp_all add: k_def r_def pos_imp_zdiv_nonneg_iff)
  then have kl: "k * cs < int (length f)" using j assms(2) by linarith
  have idx: "nat (k * cs) + r = j"
    using k assms(1) by (metis int_nat_eq mult_nonneg_nonneg nat_int nat_int_add of_nat_0_le_iff zero_less_imp_eq_int less_imp_le of_nat_add)
  have "r < length (chunk_of cs f k)" "r < length (chunk_of cs c k)"
    using k j assms(1, 2) length_chunk_of [OF assms(1) k(1), of f] length_chunk_of [OF assms(1) k(1), of c]
    by linarith+
  then show "c ! j = f ! j"
    using assms(3) [OF k(1) kl] nth_chunk_of [of r cs f k] nth_chunk_of [of r cs c k] idx by simp
qed

text \<open>Writing one chunk in its place changes no other chunk.\<close>

lemma chunk_overlay:
  assumes "0 < cs" and "0 \<le> k" and "0 \<le> m" and "k * cs + int (length b) \<le> int (length c)"
    and "int (length b) \<le> cs"
    and "k * cs + cs \<le> int (length c) \<longrightarrow> int (length b) = cs"
    and "int (length c) < k * cs + cs \<longrightarrow> k * cs + int (length b) = int (length c)"
  shows "chunk_of cs (overlay (nat (k * cs)) b c) m = (if m = k then b else chunk_of cs c m)"
proof -
  let ?o = "overlay (nat (k * cs)) b c"
  have kc: "0 \<le> k * cs" using assms(1, 2) by simp
  have lo: "length ?o = length c" using assms(4) kc by (simp add: length_overlay)
  have nth: "?o ! j = (if nat (k * cs) \<le> j \<and> j < nat (k * cs) + length b then b ! (j - nat (k * cs)) else c ! j)"
    if "j < length c" for j
    using nth_overlay [of "nat (k * cs)" b c j] that assms(4) kc by simp
  have len: "length (chunk_of cs ?o m) = length (chunk_of cs c m)"
    by (simp add: chunk_of_def lo)
  have mc: "0 \<le> m * cs" using assms(1, 3) by simp
  show ?thesis
  proof (cases "m = k")
    case True
    have "length (chunk_of cs c k) = length b"
      using length_chunk_of [OF assms(1, 2), of c] assms(4-7) by auto
    with True show ?thesis
      using len nth kc assms(4) by (auto intro!: nth_equalityI simp: nth_chunk_of)
  next
    case False
    have disj: "\<not> (nat (k * cs) \<le> j \<and> j < nat (k * cs) + length b)"
      if "nat (m * cs) \<le> j" "int j < m * cs + cs" for j
    proof -
      have "m + 1 \<le> k \<or> k + 1 \<le> m" using False by linarith
      then have "(m + 1) * cs \<le> k * cs \<or> (k + 1) * cs \<le> m * cs"
        using assms(1) by (auto simp: mult_right_mono)
      then have "m * cs + cs \<le> k * cs \<or> k * cs + cs \<le> m * cs" by (simp add: algebra_simps)
      moreover have "int (nat (k * cs)) = k * cs" "int (nat (m * cs)) = m * cs" using kc mc by simp_all
      ultimately show ?thesis using that assms(5) by linarith
    qed
    show ?thesis
    proof (simp add: False, rule nth_equalityI)
      show "length (chunk_of cs ?o m) = length (chunk_of cs c m)" by (rule len)
      fix j
      assume j: "j < length (chunk_of cs ?o m)"
      then have "int j < cs" "nat (m * cs) + j < length c"
        by (auto simp: chunk_of_def lo)
      then show "chunk_of cs ?o m ! j = chunk_of cs c m ! j"
        using j len nth [of "nat (m * cs) + j"] disj [of "nat (m * cs) + j"] mc
        by (simp add: nth_chunk_of)
    qed
  qed
qed

end
