(* ===== verification/UploadInv.thy ===== *)
theory UploadInv
  imports UploadFacts
begin

text \<open>
  The invariant of the upload service, carried through every branch of every operation by the
  program logic of \<open>Hoare\<close>.
\<close>

definition temp_path :: "UploadConfig \<Rightarrow> string \<Rightarrow> string" where
  "temp_path cfg i = posix_join [c_tmpDir cfg, i @ ''.part'']"

text \<open>The temporary file still counts: before the upload to the storage has begun.\<close>

definition collecting :: "UploadState \<Rightarrow> bool" where
  "collecting st \<longleftrightarrow> st = Init \<or> st = Receiving \<or> st = ReadyToUpload"

type_synonym files = "string \<Rightarrow> byte list option"

definition fixed_ok :: "UploadConfig \<Rightarrow> files \<Rightarrow> string \<Rightarrow> UploadStatus \<Rightarrow> bool" where
  "fixed_ok cfg F i s \<longleftrightarrow> wf_status s \<and> us_uploadId s = i \<and> 0 < us_size s \<and>
     (\<forall>f. F i = Some f \<longrightarrow> us_size s = int (length f)) \<and>
     us_chunkSize s = c_chunkSize cfg \<and> us_totalChunks s = ceil_div (us_size s) (us_chunkSize s) \<and>
     us_tempPath s = temp_path cfg i"

definition file_ok :: "UploadConfig \<Rightarrow> files \<Rightarrow> string \<Rightarrow> UploadStatus \<Rightarrow> files \<Rightarrow> bool" where
  "file_ok cfg F i s files \<longleftrightarrow> (\<exists>c. files (us_tempPath s) = Some c \<and> int (length c) = us_size s \<and>
     (\<forall>f. F i = Some f \<longrightarrow>
        (\<forall>k \<in> set (us_receivedIndexes s). chunk_of (c_chunkSize cfg) c k = chunk_of (c_chunkSize cfg) f k)))"

definition session_ok :: "UploadConfig \<Rightarrow> files \<Rightarrow> string \<Rightarrow> UploadStatus \<Rightarrow> files \<Rightarrow> bool" where
  "session_ok cfg F i s files \<longleftrightarrow> fixed_ok cfg F i s \<and> (collecting (us_state s) \<longrightarrow> file_ok cfg F i s files)"

lemma session_ok_expires: "session_ok cfg F i (s\<lparr>us_expiresAt := e\<rparr>) fs = session_ok cfg F i s fs"
  unfolding session_ok_def fixed_ok_def file_ok_def wf_status_def by simp

text \<open>Only the store has changed.\<close>

definition only_store :: "('st, 'rm, 'd) upload_world \<Rightarrow> ('st, 'rm, 'd) upload_world \<Rightarrow> bool" where
  "only_store w w' \<longleftrightarrow> uw_fs w' = uw_fs w \<and> uw_remote w' = uw_remote w \<and> uw_db w' = uw_db w \<and>
     uw_now w' = uw_now w \<and> uw_ctr w' = uw_ctr w \<and> uw_s w' = uw_s w \<and> uw_sleeps w' = uw_sleeps w"

locale upload_service = upload_store S ok view held + storage_driver D objects
  for S :: "'st store_ops" and ok and view and held and D :: "'rm storage_ops" and objects +
  fixes E :: "('st, 'rm, 'd) upload_env"
  assumes env: "ue_store E = S" "ue_storage E = D"
    and cas: "\<exists>pc. st_patchCAS S = Some pc"
    and cfg: "0 < c_chunkSize (ue_cfg E)" "0 < c_ttlSeconds (ue_cfg E)"
    and ids: "inj (ue_uuid E)" "\<And>n. plain_upload (ue_uuid E n)"
    and file_types: "\<And>b m. ue_fileType E b = Inr (Some m) \<Longrightarrow> m \<noteq> []"
    and paths: "inj (\<lambda>n. temp_path (ue_cfg E) (ue_uuid E n))" "\<And>n. temp_path (ue_cfg E) (ue_uuid E n) \<noteq> []"
begin

definition sessions :: "('st, 'rm, 'd) upload_world \<Rightarrow> string \<Rightarrow> UploadStatus option" where
  "sessions w = view (uw_now w) (uw_store w)"

definition inv :: "files \<Rightarrow> ('st, 'rm, 'd) upload_world \<Rightarrow> bool" where
  "inv F w \<longleftrightarrow> ok (uw_now w) (uw_store w) \<and>
     (\<forall>i s. sessions w i = Some s \<longrightarrow>
        session_ok (ue_cfg E) F i s (fs_files (uw_fs w)) \<and> (\<exists>n < uw_ctr w. i = ue_uuid E n))"

text \<open>
  While a request on session \<open>i\<close> runs: the stored status is the snapshot \<open>s\<close>, the other
  sessions are those of \<open>V\<close>, the temporary files are \<open>f\<close>, the remote objects \<open>Ob\<close>.
\<close>

definition live_at :: "files \<Rightarrow> string \<Rightarrow> (string \<Rightarrow> UploadStatus option) \<Rightarrow> UploadStatus \<Rightarrow> temp_fs \<Rightarrow> files
    \<Rightarrow> ('st, 'rm, 'd) upload_world \<Rightarrow> bool" where
  "live_at F i V s f Ob w \<longleftrightarrow> inv F w \<and> sessions w = V(i \<mapsto> s) \<and> uw_s w = s \<and> uw_fs w = f \<and> objects (uw_remote w) = Ob"

text \<open>The session is gone, and no session has the temporary file \<open>p\<close>.\<close>

definition gone_at :: "files \<Rightarrow> string \<Rightarrow> string \<Rightarrow> files \<Rightarrow> ('st, 'rm, 'd) upload_world \<Rightarrow> bool" where
  "gone_at F i p Ob w \<longleftrightarrow> inv F w \<and> sessions w i = None \<and> objects (uw_remote w) = Ob \<and>
     (\<forall>j t. sessions w j = Some t \<longrightarrow> us_tempPath t \<noteq> p)"

lemma inv_session: "inv F w \<Longrightarrow> sessions w i = Some s \<Longrightarrow> session_ok (ue_cfg E) F i s (fs_files (uw_fs w)) \<and> storable s"
  using view_storable unfolding inv_def sessions_def by blast

lemma inv_ok: "inv F w \<Longrightarrow> ok (uw_now w) (uw_store w)"
  by (simp add: inv_def)

text \<open>Sessions have different temporary files.\<close>

lemma other_path:
  assumes "inv F w" and "sessions w i = Some s" and "sessions w j = Some t" and "i \<noteq> j"
  shows "us_tempPath s \<noteq> us_tempPath t"
proof -
  from assms obtain m n where "i = ue_uuid E m" "j = ue_uuid E n"
    "us_tempPath s = temp_path (ue_cfg E) i" "us_tempPath t = temp_path (ue_cfg E) j"
    unfolding inv_def session_ok_def fixed_ok_def by meson
  with paths(1) assms(4) show ?thesis by (auto dest: injD)
qed

text \<open>A change of one session and of the files, in the terms of the invariant.\<close>

lemma inv_update:
  assumes "inv F w" and "ok (uw_now w') (uw_store w')"
    and "\<And>j t. j \<noteq> i \<Longrightarrow> sessions w' j = Some t \<Longrightarrow>
      sessions w j = Some t \<and> fs_files (uw_fs w') (us_tempPath t) = fs_files (uw_fs w) (us_tempPath t)"
    and "\<And>s. sessions w' i = Some s \<Longrightarrow> session_ok (ue_cfg E) F i s (fs_files (uw_fs w')) \<and> (\<exists>n < uw_ctr w'. i = ue_uuid E n)"
    and "uw_ctr w \<le> uw_ctr w'"
  shows "inv F w'"
  unfolding inv_def
proof (intro conjI allI impI)
  show "ok (uw_now w') (uw_store w')" by fact
  fix j t
  assume t: "sessions w' j = Some t"
  show "session_ok (ue_cfg E) F j t (fs_files (uw_fs w'))"
    using t assms(1, 3, 4) by (cases "j = i") (auto simp: inv_def session_ok_def file_ok_def)
  show "\<exists>n<uw_ctr w'. j = ue_uuid E n"
    using t assms(1, 3, 4, 5) unfolding inv_def by (cases "j = i") (auto, meson order_less_le_trans)
qed

section \<open>The store\<close>

lemma store_step_world:
  assumes "store_step ok view held (uw_now w) (c (uw_now w)) (uw_store w) x V H"
  obtains w' where "storeM c w = (Inr x, w')" and "ok (uw_now w') (uw_store w')" and "sessions w' = V"
    and "only_store w w'"
proof -
  from assms obtain st' where st: "c (uw_now w) (uw_store w) = (Inr x, st')" "ok (uw_now w) st'" "view (uw_now w) st' = V"
    unfolding store_step_def by blast
  show ?thesis
    by (rule that [of "w\<lparr>uw_store := st'\<rparr>"]) (use st in \<open>simp_all add: storeM_def sessions_def only_store_def\<close>)
qed

lemma get_run:
  assumes "inv F w"
  obtains w' where "storeM (\<lambda>n. st_get S n i) w = (Inr (sessions w i), w')" and "inv F w'" and "sessions w' = sessions w"
    and "only_store w w'"
proof -
  obtain w' where w: "storeM (\<lambda>n. st_get S n i) w = (Inr (sessions w i), w')" "ok (uw_now w') (uw_store w')"
    "sessions w' = sessions w" "only_store w w'"
    by (rule store_step_world [where c = "\<lambda>n. st_get S n i", OF get_law [OF inv_ok [OF assms], of i, folded sessions_def]])
  have "inv F w'"
    by (rule inv_update [OF assms w(2), of i]) (use w(3, 4) assms in \<open>auto simp: inv_def only_store_def\<close>)
  with w that show ?thesis by blast
qed

lemma delete_run:
  assumes "ok (uw_now w) (uw_store w)"
  obtains w' where "deleteState E i w = (Inr (), w')" and "ok (uw_now w') (uw_store w')"
    and "sessions w' = (sessions w)(i := None)" and "only_store w w'"
proof -
  obtain H where "store_step ok view held (uw_now w) (st_delete S (uw_now w) i) (uw_store w) () ((sessions w)(i := None)) H"
    using delete_law [OF assms, of i] unfolding sessions_def by blast
  from store_step_world [where c = "\<lambda>n. st_delete S n i", OF this] show ?thesis
    using that by (metis deleteState_def env(1))
qed

text \<open>A session loses its temporary file only together with its state.\<close>

lemma rm_frame: "fs_rm p f = (x, f') \<Longrightarrow> q \<noteq> p \<Longrightarrow> fs_files f' q = fs_files f q"
  by (auto simp: fs_rm_def split: if_splits)

lemma safeRemoveTemp_run:
  obtains w' where "safeRemoveTemp p w = (Inr (), w')" and "uw_store w' = uw_store w" and "uw_remote w' = uw_remote w"
    and "uw_now w' = uw_now w" and "uw_ctr w' = uw_ctr w" and "uw_s w' = uw_s w"
    and "\<And>q. q \<noteq> p \<Longrightarrow> fs_files (uw_fs w') q = fs_files (uw_fs w) q"
proof -
  have "\<exists>x f'. fs_rm p (uw_fs w) = (x, f')" by (cases "fs_rm p (uw_fs w)") auto
  then obtain x f' where f: "fs_rm p (uw_fs w) = (x, f')" by blast
  show ?thesis
  proof (cases "p = []")
    case True
    then show ?thesis by (intro that [of w]) (simp_all add: safeRemoveTemp_def retM_def)
  next
    case False
    then show ?thesis
      by (intro that [of "w\<lparr>uw_fs := f'\<rparr>"])
         (use f rm_frame [OF f] in \<open>auto simp: safeRemoveTemp_def fsM_def catchM_def retM_def split: sum.split\<close>)
  qed
qed

lemma discard_run:
  assumes "inv F w" and "sessions w i = Some s"
  obtains w' where "thenM (safeRemoveTemp (us_tempPath s)) (deleteState E i) w = (Inr (), w')"
    and "gone_at F i (us_tempPath s) (objects (uw_remote w)) w'" and "uw_s w' = uw_s w" and "uw_now w' = uw_now w"
proof -
  obtain w1 where r: "safeRemoveTemp (us_tempPath s) w = (Inr (), w1)" "uw_store w1 = uw_store w" "uw_remote w1 = uw_remote w"
    "uw_now w1 = uw_now w" "uw_ctr w1 = uw_ctr w" "uw_s w1 = uw_s w"
    "\<And>q. q \<noteq> us_tempPath s \<Longrightarrow> fs_files (uw_fs w1) q = fs_files (uw_fs w) q"
    by (rule safeRemoveTemp_run) blast
  have "ok (uw_now w1) (uw_store w1)" using inv_ok [OF assms(1)] r by simp
  then obtain w2 where d: "deleteState E i w1 = (Inr (), w2)" "ok (uw_now w2) (uw_store w2)"
    "sessions w2 = (sessions w1)(i := None)" "only_store w1 w2"
    by (rule delete_run)
  have "inv F w2"
  proof (rule inv_update [OF assms(1) d(2), of i])
    fix j t
    assume j: "j \<noteq> i" "sessions w2 j = Some t"
    then have t: "sessions w j = Some t" using d(3) r(2, 4) by (simp add: sessions_def)
    then show "sessions w j = Some t \<and> fs_files (uw_fs w2) (us_tempPath t) = fs_files (uw_fs w) (us_tempPath t)"
      using other_path [OF assms(1) t assms(2)] j(1) r(7) d(4) by (simp add: only_store_def)
  qed (use d(3, 4) r(5) in \<open>auto simp: only_store_def\<close>)
  moreover have "us_tempPath t \<noteq> us_tempPath s" if "sessions w2 j = Some t" for j t
    using that d(3) r(2, 4) other_path [OF assms(1) _ assms(2), of j t] by (auto simp: sessions_def split: if_splits)
  ultimately show ?thesis
    using d r by (intro that [of w2]) (auto simp: thenM_def bindM_def gone_at_def only_store_def)
qed

text \<open>An update of the session being served.\<close>

definition safe_patch :: "UploadPatch \<Rightarrow> UploadStatus \<Rightarrow> bool" where
  "safe_patch p s \<longleftrightarrow> sync p (us_version s + 1) s = merge s p \<and> p_userId p = None"

lemma patch_run:
  assumes "live_at F i V s f Ob w" and "safe_patch p s" and "session_ok (ue_cfg E) F i (merge s p) (fs_files f)"
  obtains w' where "patchAndSync E i p w = (Inr (), w')" and "live_at F i V (merge s p) f Ob w'"
    and "uw_now w' = uw_now w" and "uw_ctr w' = uw_ctr w"
proof -
  from assms(1) have w: "inv F w" "sessions w i = Some s" "uw_s w = s" "uw_fs w = f" "objects (uw_remote w) = Ob"
    and V: "sessions w = V(i \<mapsto> s)"
    by (simp_all add: live_at_def)
  obtain pc where pc: "st_patchCAS S = Some pc" using cas by blast
  have "store_step ok view held (uw_now w) (pc (uw_now w) i (us_version s) p) (uw_store w)
      (cas_result i (us_version s) (sessions w)) (cas_view i (us_version s) p (sessions w)) (held (uw_now w) (uw_store w))"
    unfolding sessions_def using assms(2) by (intro patch_law [OF inv_ok [OF w(1)] pc]) (simp add: safe_patch_def)
  from store_step_world [where c = "\<lambda>n. pc n i (us_version s) p", OF this]
  obtain w1 where p: "storeM (\<lambda>n. pc n i (us_version s) p) w = (Inr (cas_result i (us_version s) (sessions w)), w1)"
    "ok (uw_now w1) (uw_store w1)" "sessions w1 = cas_view i (us_version s) p (sessions w)" "only_store w w1"
    by blast
  have cr: "cas_result i (us_version s) (sessions w)" "cas_view i (us_version s) p (sessions w) = (sessions w)(i \<mapsto> merge s p)"
    using w(2) by (simp_all add: cas_result_def cas_view_def)
  let ?w' = "w1\<lparr>uw_s := merge s p\<rparr>"
  have run: "patchAndSync E i p w = (Inr (), ?w')"
    using p(1, 4) cr(1) w(3) assms(2)
    by (simp add: patchAndSync_def patch_def env pc snapM_def setS_def exec safe_patch_def only_store_def)
  have "inv F ?w'"
  proof (rule inv_update [OF w(1), of ?w' i])
    show "ok (uw_now ?w') (uw_store ?w')" using p(2) by simp
    show "\<And>j t. j \<noteq> i \<Longrightarrow> sessions ?w' j = Some t \<Longrightarrow>
        sessions w j = Some t \<and> fs_files (uw_fs ?w') (us_tempPath t) = fs_files (uw_fs w) (us_tempPath t)"
      using p(3, 4) cr(2) by (simp add: sessions_def only_store_def)
    show "\<And>t. sessions ?w' i = Some t \<Longrightarrow> session_ok (ue_cfg E) F i t (fs_files (uw_fs ?w')) \<and> (\<exists>n < uw_ctr ?w'. i = ue_uuid E n)"
      using p(3, 4) cr(2) assms(3) w unfolding inv_def by (auto simp: sessions_def only_store_def)
    show "uw_ctr w \<le> uw_ctr ?w'" using p(4) by (simp add: only_store_def)
  qed
  then show ?thesis
    using run p(3, 4) cr(2) w V by (intro that [of ?w']) (auto simp: live_at_def sessions_def only_store_def)
qed

text \<open>An update of a session that is gone is refused.\<close>

lemma patch_gone_run:
  assumes "gone_at F i q Ob w" and pu: "p_userId p = None"
  obtains w' where "patchAndSync E i p w = (Inl (conflict ''upload state changed; retry''), w')" and "gone_at F i q Ob w'" and "uw_s w' = uw_s w"
proof -
  from assms have w: "inv F w" "sessions w i = None" by (simp_all add: gone_at_def)
  obtain pc where pc: "st_patchCAS S = Some pc" using cas by blast
  let ?v = "us_version (uw_s w)"
  have "store_step ok view held (uw_now w) (pc (uw_now w) i ?v p) (uw_store w)
      (cas_result i ?v (sessions w)) (cas_view i ?v p (sessions w)) (held (uw_now w) (uw_store w))"
    unfolding sessions_def using pu by (intro patch_law [OF inv_ok [OF w(1)] pc]) simp
  from store_step_world [where c = "\<lambda>n. pc n i ?v p", OF this]
  obtain w1 where p: "storeM (\<lambda>n. pc n i ?v p) w = (Inr (cas_result i ?v (sessions w)), w1)"
    "ok (uw_now w1) (uw_store w1)" "sessions w1 = cas_view i ?v p (sessions w)" "only_store w w1"
    by blast
  have cr: "\<not> cas_result i ?v (sessions w)" "cas_view i ?v p (sessions w) = sessions w"
    using w(2) by (simp_all add: cas_result_def cas_view_def)
  have "inv F w1"
    by (rule inv_update [OF w(1) p(2), of i]) (use p(3, 4) cr(2) w in \<open>auto simp: inv_def only_store_def\<close>)
  then show ?thesis
    using p cr w assms
    by (intro that [of w1])
       (auto simp: patchAndSync_def patch_def env pc snapM_def exec gone_at_def only_store_def)
qed

lemma safe_patchI:
  assumes "wf_status s" and "p_userId p = None" and "p_size p = None" and "p_expiresAt p = None" and "p_mime p \<noteq> Some []"
    and "\<And>ys. p_receivedIndexes p = Some ys \<Longrightarrow> sorted_wrt (<) ys \<and> set (us_receivedIndexes s) \<subseteq> set ys"
    and "\<And>b. p_receivedBytes p = Some b \<Longrightarrow> us_receivedBytes s \<le> b"
  shows "safe_patch p s"
proof -
  have idx: "ensureSortedUnique (us_receivedIndexes s @ orElse (p_receivedIndexes p) []) = orElse (p_receivedIndexes p) (us_receivedIndexes s)"
  proof (cases "p_receivedIndexes p")
    case None
    then show ?thesis using assms(1) by (simp add: wf_status_def ensureSortedUnique_id)
  next
    case (Some ys)
    with assms(6) have "ensureSortedUnique (us_receivedIndexes s @ ys) = ensureSortedUnique ys"
      by (intro ensureSortedUnique_eq) auto
    with Some assms(6) show ?thesis by (simp add: ensureSortedUnique_id)
  qed
  have bytes: "max (us_receivedBytes s) (orElse (p_receivedBytes p) (us_receivedBytes s)) = orElse (p_receivedBytes p) (us_receivedBytes s)"
    using assms(7) by (cases "p_receivedBytes p") auto
  have "sync p (us_version s + 1) s = merge s p"
    unfolding sync_def merge_def spread_def idx bytes using assms(2-5)
    by (intro UploadStatus.equality) (auto simp: orElse_def split: option.split)
  then show ?thesis using assms(2) by (simp add: safe_patch_def)
qed

lemma sort_insert_strict:
  fixes xs :: "int list"
  assumes "sorted_wrt (<) xs" and "k \<notin> set xs"
  shows "sorted_wrt (<) (sort (xs @ [k]))"
  using assms by (simp add: strict_sorted_iff)

section \<open>Rules for the steps of a request\<close>

lemma h_patch:
  "safe_patch p s \<Longrightarrow> session_ok (ue_cfg E) F i (merge s p) (fs_files f) \<Longrightarrow>
   hoare (live_at F i V s f Ob) (patchAndSync E i p) (\<lambda>_. live_at F i V (merge s p) f Ob) R"
  by (rule hoare_run) (metis patch_run)

lemma h_patch_gone:
  "p_userId p = None \<Longrightarrow> hoare (gone_at F i q Ob) (patchAndSync E i p) Q (\<lambda>_. gone_at F i q Ob)"
  by (rule hoareI) (metis patch_gone_run prod.inject sum.distinct(1), metis patch_gone_run prod.inject)

text \<open>What is left of a session: the invariant and the remote objects.\<close>

definition rest :: "files \<Rightarrow> files \<Rightarrow> ('st, 'rm, 'd) upload_world \<Rightarrow> bool" where
  "rest F Ob w \<longleftrightarrow> inv F w \<and> objects (uw_remote w) = Ob"

definition at_rest :: "files \<Rightarrow> (string \<Rightarrow> UploadStatus option) \<Rightarrow> files \<Rightarrow> ('st, 'rm, 'd) upload_world \<Rightarrow> bool" where
  "at_rest F V Ob w \<longleftrightarrow> rest F Ob w \<and> sessions w = V"

lemma live_rest: "live_at F i V s f Ob w \<Longrightarrow> rest F Ob w"
  by (simp add: live_at_def rest_def)

lemma gone_rest: "gone_at F i q Ob w \<Longrightarrow> rest F Ob w"
  by (simp add: gone_at_def rest_def)

lemma live_session: "live_at F i V s f Ob w \<Longrightarrow> session_ok (ue_cfg E) F i s (fs_files f) \<and> storable s"
  using inv_session [of F w i s] by (simp add: live_at_def)

lemma h_discard:
  "hoare (live_at F i V s f Ob) (thenM (safeRemoveTemp (us_tempPath s)) (deleteState E i)) (\<lambda>_. gone_at F i (us_tempPath s) Ob) R"
  by (rule hoare_run) (auto simp: live_at_def elim!: discard_run [where i = i])

lemma h_active:
  "hoare (at_rest F V Ob) (mustGetActive E i)
     (\<lambda>s w. V i = Some s \<and> uw_now w \<le> us_expiresAt s \<and> at_rest F V Ob w) (\<lambda>_. rest F Ob)"
proof (rule hoareI)
  fix w
  assume "at_rest F V Ob w"
  then have w: "inv F w" "objects (uw_remote w) = Ob" "sessions w = V" by (simp_all add: rest_def at_rest_def)
  obtain w1 where g: "storeM (\<lambda>n. st_get S n i) w = (Inr (sessions w i), w1)" "inv F w1" "sessions w1 = sessions w" "only_store w w1"
    by (rule get_run [OF w(1)])
  have o1: "objects (uw_remote w1) = Ob" using w(2) g(4) by (simp add: only_store_def)
  have run: "mustGetActive E i w = (case sessions w i of None \<Rightarrow> (Inl (badRequest ''upload session not found''), w1)
      | Some s \<Rightarrow> thenM (assertNotExpired E s) (retM s) w1)"
    using g(1) by (simp add: mustGetActive_def env bindM_def throwM_def split: option.split)
  have both: "(x = Inr s \<longrightarrow> V i = Some s \<and> uw_now w' \<le> us_expiresAt s \<and> at_rest F V Ob w') \<and> (\<forall>e. x = Inl e \<longrightarrow> rest F Ob w')"
    if "mustGetActive E i w = (x, w')" for x w' s
  proof (cases "sessions w i")
    case None
    with that run g(2) o1 show ?thesis by (auto simp: rest_def)
  next
    case (Some t)
    show ?thesis
    proof (cases "uw_now w1 > us_expiresAt t")
      case False
      with Some that run g(2, 3) o1 w(3) show ?thesis
        by (auto simp: assertNotExpired_def nowM_def exec rest_def at_rest_def)
    next
      case True
      have id: "us_uploadId t = i"
        using Some inv_session [OF w(1) Some] by (simp add: session_ok_def fixed_ok_def)
      obtain w2 where d: "thenM (safeRemoveTemp (us_tempPath t)) (deleteState E i) w1 = (Inr (), w2)" "gone_at F i (us_tempPath t) Ob w2"
        using discard_run [OF g(2), of i t] Some g(3) o1 by metis
      have "\<exists>w3. safeRemoveTemp (us_tempPath t) w1 = (Inr (), w3) \<and> deleteState E i w3 = (Inr (), w2)"
        using d(1) by (auto simp: thenM_def bindM_def split: prod.splits sum.splits)
      with Some True that run id show ?thesis
        using d(2) by (auto simp: assertNotExpired_def nowM_def exec dest: gone_rest)
    qed
  qed
  show "mustGetActive E i w = (Inr s, w') \<Longrightarrow> V i = Some s \<and> uw_now w' \<le> us_expiresAt s \<and> at_rest F V Ob w'" for s w'
    using both by blast
  show "mustGetActive E i w = (Inl e, w') \<Longrightarrow> rest F Ob w'" for e w'
    using both by blast
qed

lemma h_setS:
  "V i = Some s \<Longrightarrow> hoare (at_rest F V Ob) (setS s) (\<lambda>_ w. \<exists>f. live_at F i V s f Ob w) R"
  unfolding setS_def
  by (rule hoare_modify) (auto simp: live_at_def rest_def at_rest_def inv_def sessions_def fun_eq_iff)

lemma h_touch:
  "hoare (live_at F i V s f Ob) (touchIfSupported E i) (\<lambda>_ w. \<exists>e. at_rest F (V(i \<mapsto> s\<lparr>us_expiresAt := e\<rparr>)) Ob w) R"
proof (rule hoare_run)
  fix w
  assume l: "live_at F i V s f Ob w"
  then have w: "inv F w" "sessions w i = Some s" "objects (uw_remote w) = Ob" "uw_fs w = f"
    and V: "sessions w = V(i \<mapsto> s)" by (simp_all add: live_at_def)
  show "\<exists>x w'. touchIfSupported E i w = (Inr x, w') \<and> (\<exists>e. at_rest F (V(i \<mapsto> s\<lparr>us_expiresAt := e\<rparr>)) Ob w')"
  proof (cases "st_touch S")
    case None
    then show ?thesis using w V
      by (auto simp: touchIfSupported_def env retM_def rest_def at_rest_def intro!: exI [of _ "us_expiresAt s"])
  next
    case (Some tc)
    obtain e where e: "store_step ok view held (uw_now w) (tc (uw_now w) i (c_ttlSeconds (ue_cfg E))) (uw_store w) ()
        ((sessions w)(i \<mapsto> s\<lparr>us_expiresAt := e\<rparr>)) (held (uw_now w) (uw_store w))"
      using touch_law [OF inv_ok [OF w(1)] Some cfg(2) w(2) [unfolded sessions_def]] unfolding sessions_def by blast
    from store_step_world [where c = "\<lambda>n. tc n i (c_ttlSeconds (ue_cfg E))", OF e]
    obtain w1 where t: "storeM (\<lambda>n. tc n i (c_ttlSeconds (ue_cfg E))) w = (Inr (), w1)" "ok (uw_now w1) (uw_store w1)"
      "sessions w1 = (sessions w)(i \<mapsto> s\<lparr>us_expiresAt := e\<rparr>)" "only_store w w1" by blast
    have so: "session_ok (ue_cfg E) F i (s\<lparr>us_expiresAt := e\<rparr>) (fs_files f)"
      using live_session [OF l] by (simp only: session_ok_expires)
    have "inv F w1"
    proof (rule inv_update [OF w(1) t(2), of i])
      show "\<And>t. sessions w1 i = Some t \<Longrightarrow> session_ok (ue_cfg E) F i t (fs_files (uw_fs w1)) \<and> (\<exists>n<uw_ctr w1. i = ue_uuid E n)"
        using t(3, 4) so w unfolding inv_def by (auto simp: only_store_def)
    qed (use t(3, 4) in \<open>auto simp: only_store_def\<close>)
    then show ?thesis
      using t w Some V
      by (auto simp: touchIfSupported_def env catchM_def rest_def at_rest_def only_store_def intro!: exI [of _ e])
  qed
qed

text \<open>A claim on the sessions and the remote storage only: the lock does not disturb it.\<close>

definition settled :: "files \<Rightarrow> (('st, 'rm, 'd) upload_world \<Rightarrow> bool) \<Rightarrow> bool" where
  "settled F P \<longleftrightarrow> (\<forall>w. P w \<longrightarrow> inv F w) \<and>
     (\<forall>w w'. P w \<longrightarrow> inv F w' \<longrightarrow> uw_remote w' = uw_remote w \<longrightarrow> sessions w' = sessions w \<longrightarrow> uw_db w' = uw_db w \<longrightarrow> P w')"

lemma settledD:
  "settled F P \<Longrightarrow> P w \<Longrightarrow> inv F w' \<Longrightarrow> uw_remote w' = uw_remote w \<Longrightarrow> sessions w' = sessions w \<Longrightarrow>
   uw_db w' = uw_db w \<Longrightarrow> P w'"
  unfolding settled_def by blast

lemma settled_rest: "settled F (rest F Ob)"
  by (simp add: settled_def rest_def)

lemma settled_at_rest: "settled F (at_rest F V Ob)"
  by (simp add: settled_def rest_def at_rest_def)

lemma settledI: "(\<And>w. P w \<longleftrightarrow> inv F w \<and> G (uw_remote w) (sessions w) (uw_db w)) \<Longrightarrow> settled F P"
  by (simp add: settled_def)

lemma h_lock:
  assumes "hoare P work Q (\<lambda>_. R)" and st: "settled F P" "\<And>x. settled F (Q x)" "settled F R"
    and ob: "\<And>w. P w \<Longrightarrow> R w"
  shows "hoare P (withStoreLock E i work) Q (\<lambda>_. R)"
proof (cases "st_acquire S")
  case None
  then show ?thesis
    using assms by (simp add: withStoreLock_def env)
next
  case (Some ac)
  let ?ttl = "min (max 15000 (c_ttlSeconds (ue_cfg E) * 1000)) 120000"
  have pos: "0 < ?ttl" by (simp add: max_def)
  have acq: "hoare P (storeM (\<lambda>n. ac n i ?ttl)) (\<lambda>_. P) (\<lambda>_. R)"
  proof (rule hoareI)
    fix w
    assume r: "P w"
    with st(1) have w: "inv F w" by (simp add: settled_def)
    have keep: "P (w\<lparr>uw_store := st'\<rparr>)"
      if "ok (uw_now w) st'" "view (uw_now w) st' = view (uw_now w) (uw_store w)" for st'
    proof -
      have "inv F (w\<lparr>uw_store := st'\<rparr>)"
        by (rule inv_update [OF w, of _ i]) (use that w in \<open>auto simp: inv_def sessions_def\<close>)
      then show ?thesis
        by (rule settledD [OF st(1) r]) (simp_all add: sessions_def that(2))
    qed
    have "\<exists>x st'. ac (uw_now w) i ?ttl (uw_store w) = (x, st') \<and> ok (uw_now w) st' \<and> view (uw_now w) st' = view (uw_now w) (uw_store w)"
    proof (cases "held (uw_now w) (uw_store w) i")
      case None
      then show ?thesis
        using acquire_law [OF inv_ok [OF w] Some pos None] unfolding store_step_def by blast
    next
      case (Some t)
      then show ?thesis
        using acquire_busy [OF inv_ok [OF w] \<open>st_acquire S = Some ac\<close> pos, of i] by blast
    qed
    then obtain x st' where a: "ac (uw_now w) i ?ttl (uw_store w) = (x, st')" and k: "P (w\<lparr>uw_store := st'\<rparr>)"
      using keep by blast
    show "storeM (\<lambda>n. ac n i ?ttl) w = (Inr y, w') \<Longrightarrow> P w'" for y w'
      using a k by (auto simp: storeM_def)
    show "storeM (\<lambda>n. ac n i ?ttl) w = (Inl e, w') \<Longrightarrow> R w'" for e w'
      using a k ob by (auto simp: storeM_def)
  qed
  have rel: "hoare T (storeM (\<lambda>n. st_release S n i tok)) (\<lambda>_. T) Rx" if sp: "settled F T" for T Rx tok
  proof (rule hoare_run)
    fix w
    assume p: "T w"
    with sp have iw: "inv F w" by (simp add: settled_def)
    obtain H where "store_step ok view held (uw_now w) (st_release S (uw_now w) i tok) (uw_store w) () (sessions w) H"
      using release_law [OF inv_ok [OF iw]] unfolding sessions_def by blast
    from store_step_world [where c = "\<lambda>n. st_release S n i tok", OF this]
    obtain w1 where w1: "storeM (\<lambda>n. st_release S n i tok) w = (Inr (), w1)" "ok (uw_now w1) (uw_store w1)"
      "sessions w1 = sessions w" "only_store w w1" by blast
    have "inv F w1"
      by (rule inv_update [OF iw w1(2), of i]) (use w1(3, 4) iw in \<open>auto simp: inv_def only_store_def\<close>)
    then have "T w1"
      by (rule settledD [OF sp p]) (use w1(3, 4) in \<open>simp_all add: only_store_def\<close>)
    then show "\<exists>x w'. storeM (\<lambda>n. st_release S n i tok) w = (Inr x, w') \<and> T w'"
      using w1 by auto
  qed
  have "hoare P (finallyM work (storeM (\<lambda>n. st_release S n i tok))) Q (\<lambda>_. R)" for tok
    by (rule hoare_finally [OF assms(1)]) (rule rel, rule st)+
  then show ?thesis
    unfolding withStoreLock_def env Some option.case Let_def by (intro hoare_bind [OF acq])
qed

end

end
