(* ===== verification/UploadChunk.thy ===== *)
theory UploadChunk
  imports UploadInv
begin

text \<open>
  Receiving chunks: \<open>writeChunk\<close> keeps the invariant of the service on every branch, whatever
  a client sends; a client that sends the chunks of its file keeps them in the temporary file.
\<close>

text \<open>The sniffing of the first chunk changes nothing that the rest of \<open>writeChunk\<close> reads.\<close>

definition alike :: "UploadStatus \<Rightarrow> UploadStatus \<Rightarrow> bool" where
  "alike s t \<longleftrightarrow> us_tempPath t = us_tempPath s \<and> us_totalChunks t = us_totalChunks s \<and> us_chunkSize t = us_chunkSize s \<and>
     us_size t = us_size s \<and> us_receivedIndexes t = us_receivedIndexes s \<and> us_state t = us_state s"

lemma alike_refl [simp]: "alike s s"
  by (simp add: alike_def)

text \<open>A client that is trusted to send the file \<open>f\<close> sends the chunk at \<open>index\<close>.\<close>

definition honest :: "UploadConfig \<Rightarrow> files \<Rightarrow> string \<Rightarrow> int \<Rightarrow> byte list \<Rightarrow> bool" where
  "honest cfg F i index chunk \<longleftrightarrow> (\<forall>f. F i = Some f \<longrightarrow> chunk = chunk_of (c_chunkSize cfg) f index)"

lemma session_ok_merge:
  assumes "session_ok cfg F i s fs" and "p_size p = None" and "orElse (p_receivedIndexes p) [] = []"
    and "collecting (orElse (p_state p) (us_state s)) \<longrightarrow> collecting (us_state s)"
  shows "session_ok cfg F i (merge s p) fs"
  using assms by (auto simp: session_ok_def fixed_ok_def file_ok_def wf_merge)

text \<open>The temporary file holds the chunk of the client's file.\<close>

definition has_chunk :: "UploadConfig \<Rightarrow> files \<Rightarrow> string \<Rightarrow> UploadStatus \<Rightarrow> files \<Rightarrow> int \<Rightarrow> bool" where
  "has_chunk cfg F i s fs k \<longleftrightarrow> (\<forall>c f. fs (us_tempPath s) = Some c \<longrightarrow> F i = Some f \<longrightarrow>
     chunk_of (c_chunkSize cfg) c k = chunk_of (c_chunkSize cfg) f k)"

text \<open>A write of an accepted chunk.\<close>

lemma session_ok_write:
  assumes s: "session_ok cfg F i s fs" "collecting (us_state s)" and cs: "0 < c_chunkSize cfg"
    and k: "0 \<le> k" "k < us_totalChunks s" "int (length b) = expected_length s k" "honest cfg F i k b"
    and w: "fs (us_tempPath s) = Some c" "fs' (us_tempPath s) = Some (overlay (nat (k * us_chunkSize s)) b c)"
  shows "session_ok cfg F i s fs' \<and> has_chunk cfg F i s fs' k"
proof -
  let ?cs = "c_chunkSize cfg"
  from s have f: "fixed_ok cfg F i s" "file_ok cfg F i s fs" by (simp_all add: session_ok_def)
  then have fx: "us_chunkSize s = ?cs" "us_totalChunks s = ceil_div (us_size s) ?cs" "0 < us_size s" "wf_status s"
    by (simp_all add: fixed_ok_def)
  have c: "int (length c) = us_size s" "\<And>f j. F i = Some f \<Longrightarrow> j \<in> set (us_receivedIndexes s) \<Longrightarrow> chunk_of ?cs c j = chunk_of ?cs f j"
    using f(2) w(1) by (auto simp: file_ok_def)
  have e: "int (length (chunk_of ?cs c k)) = int (length b)"
    unfolding k(3) using fx(3) c(1)
    by (intro expected_chunk_length [OF cs _ fx(1) _ fx(2) k(1) k(2)]) linarith+
  have lb: "int (length b) = max 0 (min ?cs (int (length c) - k * ?cs))"
    unfolding e [symmetric] by (rule length_chunk_of [OF cs k(1)])
  have kc: "k * ?cs < int (length c)"
  proof -
    have "k * ?cs \<le> (us_totalChunks s - 1) * ?cs" using k(2) cs by (intro mult_right_mono) auto
    then show ?thesis using ceil_div_bounds(2) [OF fx(3) cs] fx(2) c(1) by simp
  qed
  have "int (length b) = (if k * ?cs + ?cs \<le> int (length c) then ?cs else int (length c) - k * ?cs)"
    using lb kc cs by (simp add: min_def max_def)
  then have lb2: "k * ?cs + int (length b) \<le> int (length c)" "int (length b) \<le> ?cs"
    "k * ?cs + ?cs \<le> int (length c) \<longrightarrow> int (length b) = ?cs"
    "int (length c) < k * ?cs + ?cs \<longrightarrow> k * ?cs + int (length b) = int (length c)"
    by (simp_all split: if_splits)
  have kp: "0 \<le> k * ?cs" using k(1) cs by simp
  have ov: "chunk_of ?cs (overlay (nat (k * ?cs)) b c) m = (if m = k then b else chunk_of ?cs c m)" if "0 \<le> m" for m
    by (rule chunk_overlay [OF cs k(1) that]) (simp_all add: lb2)
  have lo: "int (length (overlay (nat (k * ?cs)) b c)) = us_size s"
    using lb2(1) c(1) kp by (simp add: length_overlay)
  have ch: "chunk_of ?cs (overlay (nat (k * ?cs)) b c) m = chunk_of ?cs f m"
    if "F i = Some f" "m = k \<or> m \<in> set (us_receivedIndexes s)" for f m
  proof -
    have "0 \<le> m" using fx(4) k(1) that(2) by (auto simp: wf_status_def)
    then show ?thesis using that ov c(2) k(4) by (auto simp: honest_def)
  qed
  have "file_ok cfg F i s fs'"
    unfolding file_ok_def using w(2) fx(1) lo ch by auto
  moreover have "has_chunk cfg F i s fs' k"
    unfolding has_chunk_def using w(2) fx(1) ch by auto
  ultimately show ?thesis using f(1) by (simp add: session_ok_def)
qed

text \<open>The update that counts a chunk which is there.\<close>

lemma session_ok_count:
  assumes "session_ok cfg F i s fs" and "has_chunk cfg F i s fs k"
    and "p_size p = None" and "p_state p = None" and "set (orElse (p_receivedIndexes p) []) = insert k (set (us_receivedIndexes s))"
    and "0 \<le> k" and "k < us_totalChunks s"
  shows "session_ok cfg F i (merge s p) fs"
proof -
  have "fixed_ok cfg F i (merge s p)"
    using assms unfolding session_ok_def fixed_ok_def by (auto simp: wf_status_def ensureSortedUnique_sorted)
  moreover have "file_ok cfg F i (merge s p) fs" if "file_ok cfg F i s fs"
    using that assms unfolding file_ok_def has_chunk_def by auto
  ultimately show ?thesis using assms(1, 4) by (simp add: session_ok_def)
qed

text \<open>What a successful \<open>writeChunk\<close> leaves of the session's status \<open>s\<close>, and answers.\<close>

definition chunk_counted :: "int \<Rightarrow> UploadStatus \<Rightarrow> UploadChunkResult \<Rightarrow> UploadStatus \<Rightarrow> bool" where
  "chunk_counted k s r t \<longleftrightarrow> us_state t = Receiving \<and> set (us_receivedIndexes t) = insert k (set (us_receivedIndexes s)) \<and>
     us_tempPath t = us_tempPath s \<and> us_totalChunks t = us_totalChunks s \<and> us_chunkSize t = us_chunkSize s \<and>
     us_size t = us_size s \<and> cr_receivedIndex r = k \<and> cr_receivedBytes r = us_receivedBytes t \<and>
     cr_percent r = percent_of t (us_receivedIndexes t)"

context upload_service
begin

lemma h_discard_s:
  "hoare (live_at F i V s f Ob) (thenM (safeRemoveTemp (us_tempPath s)) (deleteState E i))
     (\<lambda>_ w. gone_at F i (us_tempPath s) Ob w \<and> uw_s w = s) R"
  by (rule hoare_run) (auto simp: live_at_def elim!: discard_run)

lemma h_sniffFirst:
  "hoare (live_at F i V s f Ob) (sniffFirst E i chunk)
     (\<lambda>_ w. (\<exists>t. alike s t \<and> live_at F i V t f Ob w) \<or> gone_at F i (us_tempPath s) Ob w \<and> uw_s w = s) R"
  (is "hoare ?P _ ?Q _")
proof -
  have th: "thenM a (thenM b c) = thenM (thenM a b) c" for a :: "('st, 'rm, 'd, unit) up" and b :: "('st, 'rm, 'd, unit) up" and c :: "('st, 'rm, 'd, unit) up"
    by (simp add: thenM_def bindM_assoc)
  have live: "?P w \<Longrightarrow> ?Q () w" for w by (auto intro!: exI [of _ s])
  have mime: "hoare ?P (patchAndSync E i (no_patch\<lparr>p_mime := Some m\<rparr>)) ?Q (\<lambda>_. ?Q ())" if m: "m \<noteq> []" for m
  proof (rule hoareI)
    fix w x w'
    let ?p = "no_patch\<lparr>p_mime := Some m\<rparr>"
    assume l: "?P w"
    note so = live_session [OF l]
    then have wf: "wf_status s" by (simp add: session_ok_def fixed_ok_def)
    have sp: "safe_patch ?p s" using wf m by (intro safe_patchI) (simp_all add: no_patch_def)
    have ok: "session_ok (ue_cfg E) F i (merge s ?p) (fs_files f)"
      using so by (intro session_ok_merge) (simp_all add: no_patch_def)
    have al: "alike s (merge s ?p)" using wf by (simp add: alike_def no_patch_def wf_status_def ensureSortedUnique_id)
    show "patchAndSync E i ?p w = (Inr x, w') \<Longrightarrow> ?Q x w'"
      using hoare_ok [OF h_patch [OF sp ok] l] al by blast
    show "patchAndSync E i ?p w = (Inl e, w') \<Longrightarrow> ?Q () w'" for e
      using hoare_err [OF h_patch [OF sp ok, where R = "\<lambda>_ _. False"] l] by blast
  qed
  show ?thesis
    unfolding sniffFirst_def
  proof (rule hoare_catch [where E = "\<lambda>_. ?Q ()"])
    show "hoare ?P (bindM (returnE (ue_fileType E chunk)) (\<lambda>ft. bindM snapM (\<lambda>s. case detected_of ft of
          None \<Rightarrow> retM ()
        | Some detected \<Rightarrow>
            thenM (if \<not> isAllowedMime (ue_cfg E) (Some detected)
                   then thenM (safeRemoveTemp (us_tempPath s))
                        (thenM (deleteState E i)
                        (throwM (badRequest (''detected MIME not allowed: '' @ detected))))
                   else retM ())
            (if detected \<noteq> us_mime s then patchAndSync E i (no_patch\<lparr>p_mime := Some detected\<rparr>) else retM ()))))
        ?Q (\<lambda>_. ?Q ())"
    proof (rule hoare_bind [where M = "\<lambda>_. ?P"])
      show "hoare ?P (returnE (ue_fileType E chunk)) (\<lambda>_. ?P) (\<lambda>_. ?Q ())"
        unfolding returnE_def by (cases "ue_fileType E chunk") (simp_all add: hoare_ret hoare_throw live)
      fix ft
      show "hoare ?P (bindM snapM (\<lambda>s. case detected_of ft of
          None \<Rightarrow> retM ()
        | Some detected \<Rightarrow>
            thenM (if \<not> isAllowedMime (ue_cfg E) (Some detected)
                   then thenM (safeRemoveTemp (us_tempPath s))
                        (thenM (deleteState E i)
                        (throwM (badRequest (''detected MIME not allowed: '' @ detected))))
                   else retM ())
            (if detected \<noteq> us_mime s then patchAndSync E i (no_patch\<lparr>p_mime := Some detected\<rparr>) else retM ()))) ?Q (\<lambda>_. ?Q ())"
      proof (rule hoare_bind [where M = "\<lambda>t w. t = s \<and> ?P w"])
        show "hoare ?P snapM (\<lambda>t w. t = s \<and> ?P w) (\<lambda>_. ?Q ())"
          unfolding snapM_def by (rule hoare_gets) (simp add: live_at_def)
        show "hoare (\<lambda>w. t = s \<and> ?P w) (case detected_of ft of
          None \<Rightarrow> retM ()
        | Some detected \<Rightarrow>
            thenM (if \<not> isAllowedMime (ue_cfg E) (Some detected)
                   then thenM (safeRemoveTemp (us_tempPath t))
                        (thenM (deleteState E i)
                        (throwM (badRequest (''detected MIME not allowed: '' @ detected))))
                   else retM ())
            (if detected \<noteq> us_mime t then patchAndSync E i (no_patch\<lparr>p_mime := Some detected\<rparr>) else retM ())) ?Q (\<lambda>_. ?Q ())" for t
        proof (rule hoare_pure, simp only:, rule hoare_option, goal_cases)
          case 1
          show ?case by (rule hoare_ret) (rule live)
        next
          case (2 d)
          then have d: "d \<noteq> []" by (auto simp: detected_of_def js_lower_def split: option.splits if_splits)
          show ?case
            by (rule hoare_then [where M = ?P], unfold th, intro hoare_if hoare_then [OF h_discard_s] hoare_throw hoare_ret)
               (auto intro: mime [OF d] hoare_ret live)
        qed
      qed
    qed
  qed (rule hoare_ret, assumption)
qed

text \<open>A write to a temporary file that no session has, or that keeps its session's contents.\<close>

lemma h_write_gone:
  "hoare (gone_at F i p Ob) (catchM (fsM (fs_write_at p b off)) (\<lambda>_. throwM e)) (\<lambda>_. gone_at F i p Ob) (\<lambda>_. rest F Ob)"
proof (rule hoare_catch)
  show "hoare (gone_at F i p Ob) (fsM (fs_write_at p b off)) (\<lambda>_. gone_at F i p Ob) (\<lambda>_. gone_at F i p Ob)"
  proof (rule hoareI)
    fix w x w'
    assume g: "gone_at F i p Ob w"
    then have w: "inv F w" "sessions w i = None" "\<And>j t. sessions w j = Some t \<Longrightarrow> us_tempPath t \<noteq> p"
      by (simp_all add: gone_at_def)
    have upd: "gone_at F i p Ob (w\<lparr>uw_fs := f'\<rparr>)" if "\<And>q. q \<noteq> p \<Longrightarrow> fs_files f' q = fs_files (uw_fs w) q" for f'
    proof -
      have "inv F (w\<lparr>uw_fs := f'\<rparr>)"
        by (rule inv_update [OF w(1), of _ i]) (use w that in \<open>auto simp: inv_def sessions_def\<close>)
      then show ?thesis using g by (simp add: gone_at_def sessions_def)
    qed
    have all: "fsM (fs_write_at p b off) w = (y, w') \<Longrightarrow> gone_at F i p Ob w'" for y w'
      using upd g by (auto simp: fsM_def fs_write_at_def split: option.splits if_splits)
    show "fsM (fs_write_at p b off) w = (Inr x, w') \<Longrightarrow> gone_at F i p Ob w'" by (rule all)
    show "fsM (fs_write_at p b off) w = (Inl ex, w') \<Longrightarrow> gone_at F i p Ob w'" for ex w' by (rule all)
  qed
qed (rule hoare_throw, erule gone_rest)

lemma h_write_live:
  assumes "\<And>c f'. fs_files f (us_tempPath s) = Some c \<Longrightarrow>
      fs_files f' = (fs_files f)(us_tempPath s \<mapsto> overlay (nat off) b c) \<Longrightarrow> session_ok (ue_cfg E) F i s (fs_files f') \<and> K f'"
  shows "hoare (live_at F i V s f Ob) (catchM (fsM (fs_write_at (us_tempPath s) b off)) (\<lambda>_. throwM e))
     (\<lambda>_ w. \<exists>f'. K f' \<and> live_at F i V s f' Ob w) (\<lambda>_. rest F Ob)"
proof (rule hoare_catch)
  let ?p = "us_tempPath s"
  show "hoare (live_at F i V s f Ob) (fsM (fs_write_at ?p b off)) (\<lambda>_ w. \<exists>f'. K f' \<and> live_at F i V s f' Ob w) (\<lambda>_. rest F Ob)"
  proof (rule hoareI)
    fix w x w'
    assume l: "live_at F i V s f Ob w"
    then have w: "inv F w" "sessions w i = Some s" "uw_fs w = f" by (simp_all add: live_at_def)
    show "fsM (fs_write_at ?p b off) w = (Inl ex, w') \<Longrightarrow> rest F Ob w'" for ex w'
      using l by (auto simp: fsM_def fs_write_at_def live_rest split: option.splits if_splits)
    assume "fsM (fs_write_at ?p b off) w = (Inr x, w')"
    then obtain c where c: "fs_files f ?p = Some c" "w' = w\<lparr>uw_fs := f\<lparr>fs_files := (fs_files f)(?p \<mapsto> overlay (nat off) b c)\<rparr>\<rparr>"
      using w(3) by (auto simp: fsM_def fs_write_at_def split: option.splits if_splits)
    let ?f = "f\<lparr>fs_files := (fs_files f)(?p \<mapsto> overlay (nat off) b c)\<rparr>"
    have k: "session_ok (ue_cfg E) F i s (fs_files ?f) \<and> K ?f" using assms [OF c(1), of ?f] by simp
    have "inv F w'"
    proof (rule inv_update [OF w(1), of w' i])
      fix j t
      assume j: "j \<noteq> i" "sessions w' j = Some t"
      then have t: "sessions w j = Some t" using c(2) by (simp add: sessions_def)
      with other_path [OF w(1) t w(2) j(1)] w(3) c(2)
      show "sessions w j = Some t \<and> fs_files (uw_fs w') (us_tempPath t) = fs_files (uw_fs w) (us_tempPath t)" by simp
    qed (use w c(2) k in \<open>auto simp: inv_def sessions_def\<close>)
    then show "\<exists>f'. K f' \<and> live_at F i V s f' Ob w'"
      using l c(2) k by (intro exI [of _ ?f]) (simp add: live_at_def sessions_def)
  qed
qed (rule hoare_throw)

text \<open>The world after it.\<close>

definition after_chunk :: "files \<Rightarrow> string \<Rightarrow> (string \<Rightarrow> UploadStatus option) \<Rightarrow> files \<Rightarrow> int \<Rightarrow> UploadStatus \<Rightarrow> UploadChunkResult
    \<Rightarrow> ('st, 'rm, 'd) upload_world \<Rightarrow> bool" where
  "after_chunk F i V Ob k s r w \<longleftrightarrow> (\<exists>t. chunk_counted k s r t \<and> at_rest F (V(i \<mapsto> t)) Ob w)"

lemma h_storeChunk:
  assumes st: "us_state s = Receiving" and al: "alike s0 s" "us_chunkSize s = cs"
    and k: "0 \<le> k" "k < us_totalChunks s" "int (length b) = expected_length s k" "honest (ue_cfg E) F i k b"
  shows "hoare (live_at F i V s f Ob) (storeChunk E i k b (k * cs) s) (after_chunk F i V Ob k s0) (\<lambda>_. rest F Ob)"
proof -
  let ?cfg = "ue_cfg E"
  let ?idx = "if k \<in> set (us_receivedIndexes s) then us_receivedIndexes s else sort (us_receivedIndexes s @ [k])"
  let ?p = "no_patch\<lparr>p_receivedBytes := Some (max (us_receivedBytes s) (k * cs + int (length b))), p_receivedIndexes := Some ?idx\<rparr>"
  have col: "collecting (us_state s)" using st by (simp add: collecting_def)
  have set_idx: "set ?idx = insert k (set (us_receivedIndexes s))" by auto
  have wr: "hoare (live_at F i V s f Ob)
      (if k \<notin> set (us_receivedIndexes s)
       then catchM (fsM (fs_write_at (us_tempPath s) b (k * cs))) (\<lambda>_. throwM (internalError ''failed to write chunk''))
       else retM ())
      (\<lambda>_ w. \<exists>f'. has_chunk ?cfg F i s (fs_files f') k \<and> live_at F i V s f' Ob w) (\<lambda>_. rest F Ob)"
  proof (rule hoareI)
    fix w x w'
    assume l: "live_at F i V s f Ob w"
    note so = live_session [OF l, THEN conjunct1]
    have "hoare (live_at F i V s f Ob) (catchM (fsM (fs_write_at (us_tempPath s) b (k * cs))) (\<lambda>_. throwM (internalError ''failed to write chunk'')))
       (\<lambda>_ w. \<exists>f'. has_chunk ?cfg F i s (fs_files f') k \<and> live_at F i V s f' Ob w) (\<lambda>_. rest F Ob)"
    proof (rule h_write_live)
      fix c f'
      assume "fs_files f (us_tempPath s) = Some c"
        and "fs_files f' = (fs_files f)(us_tempPath s \<mapsto> overlay (nat (k * cs)) b c)"
      with session_ok_write [OF so col cfg(1) k, of c "fs_files f'"] al(2)
      show "session_ok ?cfg F i s (fs_files f') \<and> has_chunk ?cfg F i s (fs_files f') k" by simp
    qed
    moreover have "has_chunk ?cfg F i s (fs_files f) k" if "k \<in> set (us_receivedIndexes s)"
      using so col that unfolding session_ok_def file_ok_def has_chunk_def by auto
    ultimately have h: "hoare (live_at F i V s f Ob)
      (if k \<notin> set (us_receivedIndexes s)
       then catchM (fsM (fs_write_at (us_tempPath s) b (k * cs))) (\<lambda>_. throwM (internalError ''failed to write chunk''))
       else retM ())
      (\<lambda>_ w. \<exists>f'. has_chunk ?cfg F i s (fs_files f') k \<and> live_at F i V s f' Ob w) (\<lambda>_. rest F Ob)"
      by (auto intro!: hoare_ret)
    show "(if k \<notin> set (us_receivedIndexes s)
       then catchM (fsM (fs_write_at (us_tempPath s) b (k * cs))) (\<lambda>_. throwM (internalError ''failed to write chunk''))
       else retM ()) w = (Inr x, w') \<Longrightarrow> \<exists>f'. has_chunk ?cfg F i s (fs_files f') k \<and> live_at F i V s f' Ob w'"
      by (rule hoare_ok [OF h l])
    show "(if k \<notin> set (us_receivedIndexes s)
       then catchM (fsM (fs_write_at (us_tempPath s) b (k * cs))) (\<lambda>_. throwM (internalError ''failed to write chunk''))
       else retM ()) w = (Inl e, w') \<Longrightarrow> rest F Ob w'" for e
      by (rule hoare_err [OF h l])
  qed
  have patch: "hoare (\<lambda>w. \<exists>f'. has_chunk ?cfg F i s (fs_files f') k \<and> live_at F i V s f' Ob w) (patchAndSync E i ?p)
      (\<lambda>_ w. sorted_wrt (<) (us_receivedIndexes s) \<and> (\<exists>f'. live_at F i V (merge s ?p) f' Ob w)) (\<lambda>_. rest F Ob)"
  proof (rule hoare_ex, rule hoareI)
    fix f' w x w'
    assume l: "has_chunk ?cfg F i s (fs_files f') k \<and> live_at F i V s f' Ob w"
    then have so: "session_ok ?cfg F i s (fs_files f')" using live_session by blast
    then have wf: "wf_status s" by (simp add: session_ok_def fixed_ok_def)
    have srt: "sorted_wrt (<) (us_receivedIndexes s)" using wf by (simp add: wf_status_def)
    have "safe_patch ?p s"
      using wf srt by (intro safe_patchI) (auto simp: no_patch_def wf_status_def split: if_splits intro: sort_insert_strict)
    moreover have "session_ok ?cfg F i (merge s ?p) (fs_files f')"
      by (rule session_ok_count [OF so, of k]) (use l k set_idx in \<open>simp_all add: no_patch_def\<close>)
    ultimately have h: "hoare (live_at F i V s f' Ob) (patchAndSync E i ?p) (\<lambda>_. live_at F i V (merge s ?p) f' Ob) (\<lambda>_. rest F Ob)"
      by (rule h_patch)
    show "patchAndSync E i ?p w = (Inr x, w') \<Longrightarrow> sorted_wrt (<) (us_receivedIndexes s) \<and> (\<exists>f'. live_at F i V (merge s ?p) f' Ob w')"
      using hoare_ok [OF h] l srt by blast
    show "patchAndSync E i ?p w = (Inl e, w') \<Longrightarrow> rest F Ob w'" for e
      using hoare_err [OF h] l by blast
  qed
  have res: "chunk_counted k s0 \<lparr>cr_receivedIndex = k, cr_receivedBytes = max (us_receivedBytes s) (k * cs + int (length b)),
       cr_percent = percent_of s ?idx\<rparr> ((merge s ?p)\<lparr>us_expiresAt := e\<rparr>)" if "sorted_wrt (<) (us_receivedIndexes s)" for e
  proof -
    have "ensureSortedUnique (us_receivedIndexes s @ ?idx) = ?idx"
      using that by (intro sorted_set_unique_int) (auto simp: ensureSortedUnique_sorted sort_insert_strict)
    then show ?thesis
      using st al set_idx by (simp add: chunk_counted_def no_patch_def percent_of_def alike_def)
  qed
  show ?thesis
    unfolding storeChunk_def Let_def
  proof (rule hoare_then [OF wr], rule hoare_then [OF patch], rule hoare_pure, rule hoare_ex, rule hoare_then [OF h_touch])
    fix f'
    assume "sorted_wrt (<) (us_receivedIndexes s)"
    then show "hoare (\<lambda>w. \<exists>e. at_rest F (V(i \<mapsto> (merge s ?p)\<lparr>us_expiresAt := e\<rparr>)) Ob w)
      (retM \<lparr>cr_receivedIndex = k, cr_receivedBytes = max (us_receivedBytes s) (k * cs + int (length b)),
         cr_percent = percent_of s ?idx\<rparr>) (after_chunk F i V Ob k s0) (\<lambda>_. rest F Ob)"
      unfolding after_chunk_def by (intro hoare_ret) (use res in blast)
  qed
qed

lemma settled_after_chunk: "settled F (after_chunk F i V Ob k s r)"
  by (rule settledI [where G = "\<lambda>ob v d. objects ob = Ob \<and> (\<exists>t. chunk_counted k s r t \<and> v = V(i \<mapsto> t))"])
     (auto simp: after_chunk_def at_rest_def rest_def)

lemma at_rest_rest: "at_rest F V Ob w \<Longrightarrow> rest F Ob w"
  by (simp add: at_rest_def)

text \<open>The second half, from the state the sniffing leaves.\<close>

lemma h_store_or_gone:
  assumes st: "us_state s = Receiving" and al: "alike s0 s" and p0: "us_tempPath s = us_tempPath s0"
    and k: "0 \<le> k" "k < us_totalChunks s0" "int (length b) = expected_length s0 k" "honest (ue_cfg E) F i k b"
  shows "hoare (\<lambda>w. (\<exists>t. alike s t \<and> live_at F i V t f Ob w) \<or> gone_at F i (us_tempPath s) Ob w \<and> uw_s w = s)
     (bindM snapM (\<lambda>t. storeChunk E i k b (k * us_chunkSize s0) t)) (after_chunk F i V Ob k s0) (\<lambda>_. rest F Ob)"
proof -
  have e: "expected_length t k = expected_length s0 k" if "alike s t" for t
    using that al by (simp add: alike_def expected_length_def)
  have live: "hoare (\<lambda>w. live_at F i V t f Ob w) (bindM snapM (\<lambda>t. storeChunk E i k b (k * us_chunkSize s0) t))
      (after_chunk F i V Ob k s0) (\<lambda>_. rest F Ob)" if a: "alike s t" for t
  proof (rule hoare_bind [where M = "\<lambda>u w. u = t \<and> live_at F i V t f Ob w"])
    show "hoare (live_at F i V t f Ob) snapM (\<lambda>u w. u = t \<and> live_at F i V t f Ob w) (\<lambda>_. rest F Ob)"
      unfolding snapM_def by (rule hoare_gets) (simp add: live_at_def)
    show "hoare (\<lambda>w. u = t \<and> live_at F i V t f Ob w) (storeChunk E i k b (k * us_chunkSize s0) u)
        (after_chunk F i V Ob k s0) (\<lambda>_. rest F Ob)" for u
      using a al st k e [OF a]
      by (intro hoare_pure) (auto intro!: h_storeChunk simp: alike_def)
  qed
  have gone: "hoare (\<lambda>w. gone_at F i (us_tempPath s) Ob w \<and> uw_s w = s) (bindM snapM (\<lambda>t. storeChunk E i k b (k * us_chunkSize s0) t))
      (after_chunk F i V Ob k s0) (\<lambda>_. rest F Ob)"
  proof (rule hoare_bind [where M = "\<lambda>u w. u = s \<and> gone_at F i (us_tempPath s) Ob w"])
    show "hoare (\<lambda>w. gone_at F i (us_tempPath s) Ob w \<and> uw_s w = s) snapM (\<lambda>u w. u = s \<and> gone_at F i (us_tempPath s) Ob w) (\<lambda>_. rest F Ob)"
      unfolding snapM_def by (rule hoare_gets) simp
    fix u
    have pg: "hoare (gone_at F i q Ob) (patchAndSync E i (no_patch\<lparr>p_receivedBytes := x, p_receivedIndexes := y\<rparr>)) (\<lambda>_ _. False) (\<lambda>_. rest F Ob)" for q x y
      by (rule hoare_conseq [OF h_patch_gone [where q = q and Q = "\<lambda>_ _. False"]]) (auto simp: no_patch_def dest: gone_rest)
    show "hoare (\<lambda>w. u = s \<and> gone_at F i (us_tempPath s) Ob w) (storeChunk E i k b (k * us_chunkSize s0) u)
        (after_chunk F i V Ob k s0) (\<lambda>_. rest F Ob)"
      unfolding storeChunk_def Let_def
      by (rule hoare_pure, simp only:, rule hoare_then [where M = "gone_at F i (us_tempPath s) Ob"], intro hoare_if h_write_gone hoare_ret,
          assumption, rule hoare_then [OF pg], simp)
  qed
  show ?thesis
    by (rule hoareI) (use hoare_ok [OF live] hoare_err [OF live] hoare_ok [OF gone] hoare_err [OF gone] in blast)+
qed

lemma h_load:
  "hoare (at_rest F V Ob) (mustGetActive E i) (\<lambda>s w. V i = Some s \<and> at_rest F V Ob w) (\<lambda>_. rest F Ob)"
  by (rule hoare_conseq [OF h_active]) auto

lemma no_session:
  assumes "V i = None"
  shows "hoare (at_rest F V Ob) (mustGetActive E i) (\<lambda>_ _. False) (\<lambda>_. rest F Ob)"
  by (rule hoare_conseq [OF h_load [where V = V and i = i]]) (use assms in auto)

lemma h_writeChunk_run:
  assumes k: "0 \<le> k" and hon: "honest (ue_cfg E) F i k b" and V: "V i = Some s0"
  shows "hoare (at_rest F V Ob) (writeChunk_run E i k b) (after_chunk F i V Ob k s0) (\<lambda>_. rest F Ob)"
proof -
  let ?pre = "no_patch\<lparr>p_state := Some Receiving\<rparr>"
  have recv: "hoare (live_at F i V s0 f Ob)
      (if us_state s0 = Init then patchAndSync E i ?pre else retM ())
      (\<lambda>_ w. \<exists>s. us_state s = Receiving \<and> us_tempPath s = us_tempPath s0 \<and> us_totalChunks s = us_totalChunks s0 \<and>
        alike (s0\<lparr>us_state := Receiving\<rparr>) s \<and> live_at F i V s f Ob w) (\<lambda>_. rest F Ob)"
    if w: "\<not> not_writable (us_state s0)" for f
  proof (rule hoareI)
    fix w x w'
    assume l: "live_at F i V s0 f Ob w"
    note so = live_session [OF l, THEN conjunct1]
    then have wf: "wf_status s0" by (simp add: session_ok_def fixed_ok_def)
    have sp: "safe_patch ?pre s0" using wf by (intro safe_patchI) (simp_all add: no_patch_def)
    have ok: "session_ok (ue_cfg E) F i (merge s0 ?pre) (fs_files f)" if "us_state s0 = Init"
      using so that by (intro session_ok_merge) (simp_all add: no_patch_def collecting_def)
    have al: "alike (s0\<lparr>us_state := Receiving\<rparr>) (merge s0 ?pre)"
      using wf by (simp add: alike_def no_patch_def wf_status_def ensureSortedUnique_id)
    have rc: "us_state s0 \<noteq> Init \<Longrightarrow> us_state s0 = Receiving" using w by (cases "us_state s0") (auto simp: not_writable_def)
    let ?Q = "\<lambda>w. \<exists>s. us_state s = Receiving \<and> us_tempPath s = us_tempPath s0 \<and> us_totalChunks s = us_totalChunks s0 \<and>
        alike (s0\<lparr>us_state := Receiving\<rparr>) s \<and> live_at F i V s f Ob w"
    have q1: "live_at F i V (merge s0 ?pre) f Ob w' \<Longrightarrow> ?Q w'" for w'
      using al by (intro exI [of _ "merge s0 ?pre"]) (simp add: no_patch_def)
    have q2: "us_state s0 \<noteq> Init \<Longrightarrow> ?Q w"
      using l rc by (intro exI [of _ s0]) (simp add: alike_def)
    show "(if us_state s0 = Init then patchAndSync E i ?pre else retM ()) w = (Inr x, w') \<Longrightarrow> ?Q w'"
      using hoare_ok [OF h_patch [OF sp ok] l] q1 q2 by (cases "us_state s0 = Init") (auto simp: retM_def)
    show "(if us_state s0 = Init then patchAndSync E i ?pre else retM ()) w = (Inl e, w') \<Longrightarrow> rest F Ob w'" for e
      using hoare_err [OF h_patch [OF sp ok, where R = "\<lambda>_ _. False"] l] by (cases "us_state s0 = Init") (auto simp: retM_def)
  qed
  show ?thesis
    unfolding writeChunk_run_def
  proof (rule hoare_bind [OF h_load], rule hoare_pure)
    fix s
    assume "V i = Some s"
    with V have s: "s = s0" by simp
    show "hoare (at_rest F V Ob) (thenM (setS s) (thenM (throwIfM (not_writable (us_state s)) (conflict ''upload session is not writable''))
      (thenM (if us_state s = Init then patchAndSync E i ?pre else retM ())
      (thenM (throwIfM (k \<ge> us_totalChunks s) (badRequest ''chunk index out of range''))
      (thenM (assertChunkLength k b s)
      (thenM (if k = 0 then sniffFirst E i b else retM ())
      (bindM snapM (\<lambda>t. storeChunk E i k b (k * us_chunkSize s) t)))))))) (after_chunk F i V Ob k s0) (\<lambda>_. rest F Ob)"
      unfolding s assertChunkLength_def
    proof (rule hoare_then [OF h_setS [where V = V, OF V]], rule hoare_ex, rule hoare_guard, erule live_rest,
        rule hoare_then [OF recv], assumption, rule hoare_ex, rule hoare_guard, use live_rest in blast, rule hoare_guard, use live_rest in blast)
      fix f s1
      assume g: "\<not> us_totalChunks s0 \<le> k" "\<not> int (length b) \<noteq> expected_length s0 k"
      let ?s0 = "s0\<lparr>us_state := Receiving\<rparr>"
      show "hoare (\<lambda>w. us_state s1 = Receiving \<and> us_tempPath s1 = us_tempPath s0 \<and> us_totalChunks s1 = us_totalChunks s0 \<and>
          alike ?s0 s1 \<and> live_at F i V s1 f Ob w)
        (thenM (if k = 0 then sniffFirst E i b else retM ()) (bindM snapM (\<lambda>t. storeChunk E i k b (k * us_chunkSize s0) t)))
        (after_chunk F i V Ob k s0) (\<lambda>_. rest F Ob)"
      proof (intro hoare_pure)
        assume a: "us_state s1 = Receiving" "us_tempPath s1 = us_tempPath s0" "us_totalChunks s1 = us_totalChunks s0" "alike ?s0 s1"
        have sniff: "hoare (live_at F i V s1 f Ob) (if k = 0 then sniffFirst E i b else retM ())
            (\<lambda>_ w. (\<exists>t. alike s1 t \<and> live_at F i V t f Ob w) \<or> gone_at F i (us_tempPath s1) Ob w \<and> uw_s w = s1) (\<lambda>_. rest F Ob)"
          using h_sniffFirst by (auto intro!: hoare_ret exI [of _ s1])
        have ac: "after_chunk F i V Ob k ?s0 = after_chunk F i V Ob k s0"
          by (intro ext) (simp add: after_chunk_def chunk_counted_def)
        have "hoare (\<lambda>w. (\<exists>t. alike s1 t \<and> live_at F i V t f Ob w) \<or> gone_at F i (us_tempPath s1) Ob w \<and> uw_s w = s1)
           (bindM snapM (\<lambda>t. storeChunk E i k b (k * us_chunkSize ?s0) t)) (after_chunk F i V Ob k ?s0) (\<lambda>_. rest F Ob)"
          by (rule h_store_or_gone) (use a g k hon in \<open>simp_all add: expected_length_def\<close>)
        then show "hoare (live_at F i V s1 f Ob) (thenM (if k = 0 then sniffFirst E i b else retM ())
            (bindM snapM (\<lambda>t. storeChunk E i k b (k * us_chunkSize s0) t))) (after_chunk F i V Ob k s0) (\<lambda>_. rest F Ob)"
          unfolding ac by (intro hoare_then [OF sniff]) simp
      qed
    qed
  qed
qed

text \<open>\<open>writeChunk\<close> as a whole: the guards on the request, then the work under the lock.\<close>

lemma h_writeChunk:
  assumes hon: "honest (ue_cfg E) F i k b" and V: "V i = Some s0"
  shows "hoare (at_rest F V Ob) (writeChunk E i k b) (after_chunk F i V Ob k s0) (\<lambda>_. rest F Ob)"
  unfolding writeChunk_def
proof (rule hoare_guard, erule at_rest_rest, rule hoare_guard, erule at_rest_rest, rule hoare_guard, erule at_rest_rest)
  assume "\<not> k < 0"
  then show "hoare (at_rest F V Ob) (withStoreLock E i (writeChunk_run E i k b)) (after_chunk F i V Ob k s0) (\<lambda>_. rest F Ob)"
    by (intro h_lock [where F = F] h_writeChunk_run hon V settled_at_rest settled_after_chunk settled_rest at_rest_rest) simp_all
qed

text \<open>On any request, answered or refused, the invariant stays.\<close>

lemma at_rest_of: "inv F w \<Longrightarrow> at_rest F (sessions w) (objects (uw_remote w)) w"
  by (simp add: at_rest_def rest_def)

lemma h_writeChunk_rest:
  assumes hon: "honest (ue_cfg E) F i k b"
  shows "hoare (rest F Ob) (writeChunk E i k b) (\<lambda>_. rest F Ob) (\<lambda>_. rest F Ob)"
proof (rule hoareI)
  fix w x w'
  assume r: "rest F Ob w"
  let ?V = "sessions w"
  have a: "at_rest F ?V Ob w" using r by (simp add: at_rest_def)
  have h: "hoare (at_rest F ?V Ob) (writeChunk E i k b) (\<lambda>_. rest F Ob) (\<lambda>_. rest F Ob)"
  proof (cases "?V i")
    case None
    have "hoare (at_rest F ?V Ob) (writeChunk_run E i k b) (\<lambda>_. rest F Ob) (\<lambda>_. rest F Ob)"
      unfolding writeChunk_run_def by (rule hoare_bind [OF no_session [where V = ?V, OF None]]) simp
    then have "hoare (at_rest F ?V Ob) (withStoreLock E i (writeChunk_run E i k b)) (\<lambda>_. rest F Ob) (\<lambda>_. rest F Ob)"
      by (rule h_lock [where F = F]) (simp_all add: settled_at_rest settled_rest at_rest_rest)
    then show ?thesis
      unfolding writeChunk_def by (intro hoare_guard) (simp_all add: at_rest_rest)
  next
    case (Some s0)
    show ?thesis
      by (rule hoare_conseq [OF h_writeChunk [where V = ?V, OF hon Some]]) (auto simp: after_chunk_def at_rest_rest)
  qed
  show "writeChunk E i k b w = (Inr x, w') \<Longrightarrow> rest F Ob w'" by (rule hoare_ok [OF h a])
  show "writeChunk E i k b w = (Inl e, w') \<Longrightarrow> rest F Ob w'" for e by (rule hoare_err [OF h a])
qed

end

end
