(* ===== verification/UploadFinish.thy ===== *)
theory UploadFinish
  imports UploadChunk
begin

text \<open>
  Finishing an upload: what \<open>finish\<close> sends to the storage driver is the temporary file, complete
  and unchanged, under a path of its own, and the invariant of the service survives every failure.
\<close>

section \<open>All chunks are there\<close>

text \<open>The temporary file is the client's file.\<close>

definition whole :: "files \<Rightarrow> string \<Rightarrow> UploadStatus \<Rightarrow> files \<Rightarrow> bool" where
  "whole F i s fs \<longleftrightarrow> (\<exists>c. fs (us_tempPath s) = Some c \<and> int (length c) = us_size s \<and> (\<forall>f. F i = Some f \<longrightarrow> c = f))"

lemma session_whole:
  assumes s: "session_ok cfg F i s fs" "collecting (us_state s)" and cs: "0 < c_chunkSize cfg"
    and n: "int (length (us_receivedIndexes s)) = us_totalChunks s"
  shows "whole F i s fs"
proof -
  let ?cs = "c_chunkSize cfg"
  from s have f: "fixed_ok cfg F i s" "file_ok cfg F i s fs" by (simp_all add: session_ok_def)
  then obtain c where c: "fs (us_tempPath s) = Some c" "int (length c) = us_size s"
    "\<And>f k. F i = Some f \<Longrightarrow> k \<in> set (us_receivedIndexes s) \<Longrightarrow> chunk_of ?cs c k = chunk_of ?cs f k"
    by (auto simp: file_ok_def)
  have fx: "us_totalChunks s = ceil_div (us_size s) ?cs" "0 < us_size s" "wf_status s"
    using f(1) by (simp_all add: fixed_ok_def)
  have all: "set (us_receivedIndexes s) = {0..<us_totalChunks s}"
    using fx(3) n by (intro complete_indexes) (simp_all add: wf_status_def)
  have "c = f" if F: "F i = Some f" for f
  proof (rule chunks_determine [OF cs])
    have lf: "us_size s = int (length f)" using f(1) F by (simp add: fixed_ok_def)
    then show "length c = length f" using c(2) by simp
    fix k
    assume k: "0 \<le> k" "k * ?cs < int (length f)"
    have "k < us_totalChunks s"
    proof (rule ccontr)
      assume "\<not> k < us_totalChunks s"
      then have "us_totalChunks s * ?cs \<le> k * ?cs" using cs by (intro mult_right_mono) auto
      then show False using ceil_div_bounds(3) [OF fx(2) cs] fx(1) lf k(2) by simp
    qed
    then show "chunk_of ?cs c k = chunk_of ?cs f k" using c(3) [OF F] all k(1) by simp
  qed
  then show ?thesis using c unfolding whole_def by blast
qed

text \<open>After the update of another member the whole file is still there.\<close>

lemma whole_alike: "whole F i s fs \<Longrightarrow> us_tempPath t = us_tempPath s \<Longrightarrow> us_size t = us_size s \<Longrightarrow> whole F i t fs"
  by (simp add: whole_def)

context upload_service
begin

section \<open>Frames\<close>

lemma inv_frame:
  assumes "inv F w" and "uw_store w' = uw_store w" and "uw_now w' = uw_now w" and "uw_fs w' = uw_fs w"
    and "uw_ctr w \<le> uw_ctr w'"
  shows "inv F w'"
  using assms unfolding inv_def sessions_def by (metis order_less_le_trans)

lemma live_frame:
  assumes "live_at F i V s f Ob w" and "uw_store w' = uw_store w" and "uw_now w' = uw_now w" and "uw_fs w' = uw_fs w"
    and "uw_s w' = uw_s w" and "uw_ctr w \<le> uw_ctr w'"
  shows "live_at F i V s f (objects (uw_remote w')) w'"
proof -
  have w: "inv F w" using assms(1) by (simp add: live_at_def)
  have "inv F w'" by (rule inv_frame [OF w]) (use assms in simp_all)
  then show ?thesis using assms by (simp add: live_at_def sessions_def)
qed

lemma gone_frame:
  assumes "gone_at F i p Ob w" and "uw_store w' = uw_store w" and "uw_now w' = uw_now w" and "uw_fs w' = uw_fs w"
    and "uw_ctr w \<le> uw_ctr w'"
  shows "gone_at F i p (objects (uw_remote w')) w'"
proof -
  have w: "inv F w" using assms(1) by (simp add: gone_at_def)
  have "inv F w'" by (rule inv_frame [OF w]) (use assms in simp_all)
  then show ?thesis using assms by (simp add: gone_at_def sessions_def)
qed

text \<open>A failed \<open>finish\<close> may leave a partial object, at one path.\<close>

definition spoilt :: "files \<Rightarrow> files \<Rightarrow> ('st, 'rm, 'd) upload_world \<Rightarrow> bool" where
  "spoilt F Ob w \<longleftrightarrow> inv F w \<and> (\<exists>rp. \<forall>q. q \<noteq> rp \<longrightarrow> objects (uw_remote w) q = Ob q)"

lemma rest_spoilt: "rest F Ob w \<Longrightarrow> spoilt F Ob w"
  by (simp add: spoilt_def rest_def)

lemma settled_spoilt: "settled F (spoilt F Ob)"
  by (rule settledI [where G = "\<lambda>ob v d. \<exists>rp. \<forall>q. q \<noteq> rp \<longrightarrow> objects ob q = Ob q"]) (simp add: spoilt_def)

definition near :: "string \<Rightarrow> files \<Rightarrow> files \<Rightarrow> bool" where
  "near rp Ob Ob' \<longleftrightarrow> (\<forall>q. q \<noteq> rp \<longrightarrow> Ob' q = Ob q)"

lemma near_refl [simp]: "near rp Ob Ob"
  by (simp add: near_def)

lemma near_upd [simp]: "near rp Ob Ob' \<Longrightarrow> Ob'(rp \<mapsto> c) = Ob(rp \<mapsto> c)"
  by (auto simp: near_def)

lemma near_spoilt: "rest F Ob' w \<Longrightarrow> near rp Ob Ob' \<Longrightarrow> spoilt F Ob w"
  by (auto simp: spoilt_def rest_def near_def)

section \<open>Removing the temporary file of a session that no longer counts on it\<close>

lemma h_remove:
  assumes "\<not> collecting (us_state s)"
  shows "hoare (\<lambda>w. \<exists>f. live_at F i V s f Ob w) (safeRemoveTemp (us_tempPath s)) (\<lambda>_ w. \<exists>f. live_at F i V s f Ob w) R"
proof (rule hoare_ex, rule hoare_run)
  fix f w
  assume l: "live_at F i V s f Ob w"
  then have w: "inv F w" "sessions w i = Some s" by (simp_all add: live_at_def)
  obtain w' where r: "safeRemoveTemp (us_tempPath s) w = (Inr (), w')" "uw_store w' = uw_store w" "uw_remote w' = uw_remote w"
    "uw_now w' = uw_now w" "uw_ctr w' = uw_ctr w" "uw_s w' = uw_s w"
    "\<And>q. q \<noteq> us_tempPath s \<Longrightarrow> fs_files (uw_fs w') q = fs_files (uw_fs w) q"
    by (rule safeRemoveTemp_run) blast
  have se: "sessions w' = sessions w" using r by (simp add: sessions_def)
  have so: "session_ok (ue_cfg E) F i s fs" for fs
    using live_session [OF l] assms by (simp add: session_ok_def)
  have "inv F w'"
  proof (rule inv_update [OF w(1), of w' i])
    fix j t
    assume j: "j \<noteq> i" "sessions w' j = Some t"
    then have t: "sessions w j = Some t" using se by simp
    with other_path [OF w(1) t w(2) j(1)] r(7)
    show "sessions w j = Some t \<and> fs_files (uw_fs w') (us_tempPath t) = fs_files (uw_fs w) (us_tempPath t)" by simp
  qed (use w r se so in \<open>auto simp: inv_def\<close>)
  then have "live_at F i V s (uw_fs w') Ob w'"
    using l r se by (simp add: live_at_def)
  then show "\<exists>x w'. safeRemoveTemp (us_tempPath s) w = (Inr x, w') \<and> (\<exists>f. live_at F i V s f Ob w')"
    using r(1) by blast
qed

section \<open>The steps of the sending\<close>

lemma h_tempReady: "hoare (live_at F i V s f Ob) (assertTempReady p n) (\<lambda>_. live_at F i V s f Ob) (\<lambda>_. live_at F i V s f Ob)"
  unfolding assertTempReady_def
  by (rule hoareI) (auto simp: exec fsM_def fs_stat_def split: option.splits if_splits)

lemma h_remoteDir: "hoare (live_at F i V s f Ob) (ensureRemoteDir E d) (\<lambda>_. live_at F i V s f Ob) (\<lambda>_. live_at F i V s f Ob)"
proof (cases "sd_ensureDir D")
  case None
  then show ?thesis by (simp add: ensureRemoteDir_def env hoare_ret)
next
  case (Some e)
  have k: "live_at F i V s f Ob (w\<lparr>uw_remote := r'\<rparr>)" if "live_at F i V s f Ob w" "e d (uw_remote w) = (x, r')" for w r' x
    using live_frame [OF that(1), of "w\<lparr>uw_remote := r'\<rparr>"] ensure_frame [OF Some that(2)] that(1)
    by (simp add: live_at_def)
  show ?thesis
    by (rule hoareI) (auto simp: ensureRemoteDir_def env Some remoteM_def dest: k split: prod.splits)
qed

text \<open>One attempt to send the file: the object is its content, or something is left at its path.\<close>

definition sending :: "files \<Rightarrow> string \<Rightarrow> (string \<Rightarrow> UploadStatus option) \<Rightarrow> UploadStatus \<Rightarrow> temp_fs \<Rightarrow> files \<Rightarrow> string
    \<Rightarrow> ('st, 'rm, 'd) upload_world \<Rightarrow> bool" where
  "sending F i V s f Ob rp w \<longleftrightarrow> (\<exists>Ob'. near rp Ob Ob' \<and> live_at F i V s f Ob' w)"

lemma live_sending: "live_at F i V s f Ob w \<Longrightarrow> sending F i V s f Ob rp w"
  using near_refl unfolding sending_def by blast

lemma h_uploadFile:
  assumes "fs_files f lp = Some c"
  shows "hoare (sending F i V s f Ob rp) (uploadFileM E i lp rp n) (\<lambda>_. live_at F i V s f (Ob(rp \<mapsto> c))) (\<lambda>_. sending F i V s f Ob rp)"
proof (rule hoareI)
  fix w x w'
  assume "sending F i V s f Ob rp w"
  then obtain Ob' where n: "near rp Ob Ob'" and l: "live_at F i V s f Ob' w" by (auto simp: sending_def)
  then have fs: "uw_fs w = f" "objects (uw_remote w) = Ob'" by (simp_all add: live_at_def)
  obtain y r' ps where u: "sd_uploadFile D (uw_now w) f lp rp (uw_remote w) = (y, r', ps)"
    using prod_cases3 by blast
  let ?w = "w\<lparr>uw_remote := r', uw_events := uw_events w @ progress_events (ue_server E) i n 0 (-1) ps\<rparr>"
  have run: "uploadFileM E i lp rp n w = (y, ?w)" using u fs by (simp add: uploadFileM_def env)
  have lw: "live_at F i V s f (objects r') ?w" using live_frame [OF l, of ?w] by simp
  show "uploadFileM E i lp rp n w = (Inr x, w') \<Longrightarrow> live_at F i V s f (Ob(rp \<mapsto> c)) w'"
    using upload_stores [of "uw_now w" f lp rp "uw_remote w" x r' ps] u run lw fs assms near_upd [OF n, of c] by auto
  have "near rp Ob (objects r')"
    using upload_frame [OF u] n fs(2) by (auto simp: near_def)
  then show "uploadFileM E i lp rp n w = (Inl e, w') \<Longrightarrow> sending F i V s f Ob rp w'" for e
    using run lw by (auto simp: sending_def)
qed

lemma h_sleep: "hoare (sending F i V s f Ob rp) (sleepM ms) (\<lambda>_. sending F i V s f Ob rp) R"
proof (rule hoareI)
  fix w x w'
  assume "sending F i V s f Ob rp w"
  then obtain Ob' where n: "near rp Ob Ob'" and l: "live_at F i V s f Ob' w" by (auto simp: sending_def)
  have "live_at F i V s f Ob' (w\<lparr>uw_sleeps := uw_sleeps w @ [ms]\<rparr>)"
    using live_frame [OF l, of "w\<lparr>uw_sleeps := uw_sleeps w @ [ms]\<rparr>"] l by (simp add: live_at_def)
  then show "sleepM ms w = (Inr x, w') \<Longrightarrow> sending F i V s f Ob rp w'"
    using n by (auto simp: sleepM_def sending_def)
qed (simp add: sleepM_def)

lemma h_retry:
  assumes "hoare P fn (\<lambda>_. Q) (\<lambda>_. P)" and "\<And>ms. hoare P (sleepM ms) (\<lambda>_. P) (\<lambda>_. P)"
  shows "hoare P (retry_from fn d k n) (\<lambda>_. Q) (\<lambda>_. P)"
proof (induction n arbitrary: k)
  case (Suc n)
  show ?case
    by (simp only: retry_from.simps, rule hoare_catch [OF assms(1)], rule hoare_if)
       (auto intro!: hoare_throw hoare_then [OF assms(2)] Suc.IH)
qed (simp add: hoare_throw)

lemma h_emit: "hoare (live_at F i V s f Ob) (emitM es) (\<lambda>_. live_at F i V s f Ob) R"
proof (rule hoareI)
  fix w x w'
  assume l: "live_at F i V s f Ob w"
  have "live_at F i V s f Ob (w\<lparr>uw_events := uw_events w @ es\<rparr>)"
    using live_frame [OF l, of "w\<lparr>uw_events := uw_events w @ es\<rparr>"] l by (simp add: live_at_def)
  then show "emitM es w = (Inr x, w') \<Longrightarrow> live_at F i V s f Ob w'" by (auto simp: emitM_def)
qed (simp add: emitM_def)

text \<open>An update that changes the state only.\<close>

lemma h_state:
  assumes "\<And>w. P w \<Longrightarrow> live_at F i V s f Ob w"
    and "p = no_patch\<lparr>p_state := Some st\<rparr> \<or> p = no_patch\<lparr>p_state := Some st, p_remoteRelativePath := Some rp\<rparr>"
    and "collecting st \<longrightarrow> collecting (us_state s)"
  shows "hoare P (patchAndSync E i p) (\<lambda>_ w. \<exists>t. us_state t = st \<and> us_tempPath t = us_tempPath s \<and> us_size t = us_size s \<and>
      live_at F i V t f Ob w) R"
proof (rule hoareI)
  fix w x w'
  assume "P w"
  then have l: "live_at F i V s f Ob w" by (rule assms(1))
  note so = live_session [OF l, THEN conjunct1]
  then have wf: "wf_status s" by (simp add: session_ok_def fixed_ok_def)
  have sp: "safe_patch p s" using wf assms(2) by (intro safe_patchI) (auto simp: no_patch_def)
  have ok: "session_ok (ue_cfg E) F i (merge s p) (fs_files f)"
    using so assms(2, 3) by (intro session_ok_merge) (auto simp: no_patch_def)
  note h = h_patch [OF sp ok]
  show "patchAndSync E i p w = (Inr x, w') \<Longrightarrow> \<exists>t. us_state t = st \<and> us_tempPath t = us_tempPath s \<and> us_size t = us_size s \<and>
      live_at F i V t f Ob w'"
    using hoare_ok [OF h l] assms(2) by (intro exI [of _ "merge s p"]) (auto simp: no_patch_def)
  show "patchAndSync E i p w = (Inl e, w') \<Longrightarrow> R e w'" for e
    using hoare_err [OF h [where R = "\<lambda>_ _. False"] l] by blast
qed

lemma h_send_body:
  assumes w: "whole F i s (fs_files f)" and st: "us_state s = ReadyToUpload"
  shows "hoare (live_at F i V s f Ob) (send_body E i rd rp s)
     (\<lambda>_ w. \<exists>t c. us_state t = Uploading \<and> us_tempPath t = us_tempPath s \<and> us_size t = us_size s \<and>
        int (length c) = us_size s \<and> (\<forall>g. F i = Some g \<longrightarrow> c = g) \<and> live_at F i V t f (Ob(rp \<mapsto> c)) w)
     (\<lambda>_ w. \<exists>t. us_tempPath t = us_tempPath s \<and> sending F i V t f Ob rp w)"
  (is "hoare _ _ ?Q ?R")
proof -
  obtain c where c: "fs_files f (us_tempPath s) = Some c" "int (length c) = us_size s" "\<And>g. F i = Some g \<Longrightarrow> c = g"
    using w unfolding whole_def by blast
  have err: "live_at F i V t f Ob w \<Longrightarrow> us_tempPath t = us_tempPath s \<Longrightarrow> ?R e w" for t w e
    using near_refl unfolding sending_def by blast
  note to_err = hoare_conseq [where R' = ?R]
  have up: "hoare (live_at F i V t f Ob)
      (thenM (uploadWithRetry (uploadFileM E i (us_tempPath s) rp (us_size s)) n d) (emitM es)) ?Q ?R"
    if t: "us_state t = Uploading" "us_tempPath t = us_tempPath s" "us_size t = us_size s" for t n d es
  proof (rule hoare_then)
    have "hoare (sending F i V t f Ob rp) (uploadWithRetry (uploadFileM E i (us_tempPath s) rp (us_size s)) n d)
        (\<lambda>_. live_at F i V t f (Ob(rp \<mapsto> c))) (\<lambda>_. sending F i V t f Ob rp)"
      unfolding uploadWithRetry_def by (rule h_retry [OF h_uploadFile [OF c(1)] h_sleep])
    then show "hoare (live_at F i V t f Ob) (uploadWithRetry (uploadFileM E i (us_tempPath s) rp (us_size s)) n d)
        (\<lambda>_. live_at F i V t f (Ob(rp \<mapsto> c))) ?R"
      by (rule hoare_conseq) (use t in \<open>auto intro: live_sending\<close>)
    show "hoare (live_at F i V t f (Ob(rp \<mapsto> c))) (emitM es) ?Q ?R"
      by (rule hoare_conseq [OF h_emit [where R = "\<lambda>_ _. False"]]) (use t c in auto)
  qed
  show ?thesis
    unfolding send_body_def Let_def
  proof (rule hoare_then [where M = "live_at F i V s f Ob"], goal_cases)
    case 1
    show ?case by (rule to_err [OF h_tempReady]) (use err in auto)
  next
    case 2
    show ?case
    proof (rule hoare_then [where M = "live_at F i V s f Ob"], goal_cases)
      case 1
      have "hoare (live_at F i V s f Ob) (ensureRemoteDir E rd) (\<lambda>_. live_at F i V s f Ob) ?R"
        by (rule to_err [OF h_remoteDir]) (use err in auto)
      then show ?case by (auto intro!: hoare_ret)
    next
      case 2
      have "hoare (live_at F i V s f Ob) (patchAndSync E i (no_patch\<lparr>p_state := Some Uploading\<rparr>)) (\<lambda>_ w. \<exists>t. us_state t = Uploading \<and>
          us_tempPath t = us_tempPath s \<and> us_size t = us_size s \<and> live_at F i V t f Ob w) ?R"
        by (rule h_state) (simp_all add: collecting_def)
      then show ?case
        by (rule hoare_then) (intro hoare_ex hoare_pure up; assumption)
    qed
  qed
qed

text \<open>The whole \<open>try\<close>, with its \<open>catch\<close> and \<open>finally\<close>.\<close>

lemma h_sendFile:
  assumes w: "whole F i s (fs_files f)" and st: "us_state s = ReadyToUpload"
  shows "hoare (live_at F i V s f Ob) (sendFile E i rd rp)
     (\<lambda>_ w. \<exists>t f' c. us_state t = Uploading \<and> us_size t = us_size s \<and>
        int (length c) = us_size s \<and> (\<forall>g. F i = Some g \<longrightarrow> c = g) \<and> live_at F i V t f' (Ob(rp \<mapsto> c)) w)
     (\<lambda>_. spoilt F Ob)"
proof (rule hoareI)
  fix w x w'
  assume l: "live_at F i V s f Ob w"
  then have sn: "uw_s w = s" by (simp add: live_at_def)
  let ?b = "send_body E i rd rp s"
  let ?rm = "if \<not> orElse (c_keepTempOnError (ue_cfg E)) False then safeRemoveTemp (us_tempPath s) else retM ()"
  note body = h_send_body [OF assms, of V Ob rd rp]
  have run: "sendFile E i rd rp w = (case ?b w of (Inr u, w1) \<Rightarrow> safeRemoveTemp (us_tempPath s) w1
      | (Inl err, w1) \<Rightarrow> finallyM (send_handler E i s err) ?rm w1)"
    by (simp add: sendFile_def snapM_def bindM_def getsM_def sn)
  have rm: "hoare (\<lambda>w. \<exists>f. live_at F i V t f Ob' w) ?rm (\<lambda>_ w. \<exists>f. live_at F i V t f Ob' w) R"
    if "us_state t = Error" "us_tempPath t = us_tempPath s" for t Ob' R
    using h_remove [of t F i V Ob' R] that by (auto simp: collecting_def intro!: hoare_ret)
  have hd: "hoare (live_at F i V t f Ob') (finallyM (send_handler E i s err) ?rm) (\<lambda>_ _. False) (\<lambda>_. spoilt F Ob)"
    if p: "us_tempPath t = us_tempPath s" "near rp Ob Ob'" for t Ob' err
  proof (rule hoare_finally [where A = "\<lambda>_ _. False" and B = "\<lambda>_ w. \<exists>u f'. us_state u = Error \<and> us_tempPath u = us_tempPath s \<and> live_at F i V u f' Ob' w"])
    show "hoare (live_at F i V t f Ob') (send_handler E i s err) (\<lambda>_ _. False)
        (\<lambda>_ w. \<exists>u f'. us_state u = Error \<and> us_tempPath u = us_tempPath s \<and> live_at F i V u f' Ob' w)"
      unfolding send_handler_def
    proof (rule hoare_then [OF h_state], assumption, rule disjI1, rule refl, simp add: collecting_def, intro hoare_ex hoare_pure)
      fix u :: UploadStatus
      assume u: "us_state u = Error" "us_tempPath u = us_tempPath t"
      then have ut: "us_tempPath u = us_tempPath s" using p by simp
      show "hoare (live_at F i V u f Ob') (thenM ?rm (throwM (internalError (if ue_development E
            then ''remote upload failed: '' @ exn_name err @ '': '' @ exn_message err else ''remote upload failed'')))) (\<lambda>_ _. False)
          (\<lambda>_ w. \<exists>u f'. us_state u = Error \<and> us_tempPath u = us_tempPath s \<and> live_at F i V u f' Ob' w)"
        by (rule hoare_then, rule hoare_pre [OF rm [OF u(1) ut]], blast, rule hoare_throw) (use u ut in blast)
    qed
    show "hoare (\<lambda>w. \<exists>u f'. us_state u = Error \<and> us_tempPath u = us_tempPath s \<and> live_at F i V u f' Ob' w) ?rm (\<lambda>_. spoilt F Ob) (\<lambda>_. spoilt F Ob)" for e
    proof (rule hoare_ex)
      fix u :: UploadStatus
      show "hoare (\<lambda>w. \<exists>f'. us_state u = Error \<and> us_tempPath u = us_tempPath s \<and> live_at F i V u f' Ob' w) ?rm (\<lambda>_. spoilt F Ob) (\<lambda>_. spoilt F Ob)"
      proof (cases "us_state u = Error \<and> us_tempPath u = us_tempPath s")
        case True
        then show ?thesis
          by (intro hoare_conseq [OF rm [of u Ob' "\<lambda>_ _. False"]]) (auto dest: live_rest near_spoilt [OF _ p(2)])
      next
        case False
        then show ?thesis by (auto simp: hoare_def)
      qed
    qed
  qed simp
  show "\<exists>t f' c. us_state t = Uploading \<and> us_size t = us_size s \<and> int (length c) = us_size s \<and> (\<forall>g. F i = Some g \<longrightarrow> c = g) \<and>
      live_at F i V t f' (Ob(rp \<mapsto> c)) w'" if r: "sendFile E i rd rp w = (Inr x, w')"
  proof (cases "?b w")
    case (Pair y w1)
    show ?thesis
    proof (cases y)
      case (Inl err)
      obtain t Ob' where t: "us_tempPath t = us_tempPath s" "near rp Ob Ob'" "live_at F i V t f Ob' w1"
        using hoare_err [OF body l] Pair Inl by (auto simp: sending_def)
      have "finallyM (send_handler E i s err) ?rm w1 = (Inr x, w')" using run r Pair Inl by simp
      from hoare_ok [OF hd [OF t(1, 2)] t(3) this] show ?thesis by simp
    next
      case (Inr u)
      obtain t c where t: "us_state t = Uploading" "us_tempPath t = us_tempPath s" "us_size t = us_size s"
        "int (length c) = us_size s" "\<forall>g. F i = Some g \<longrightarrow> c = g" "live_at F i V t f (Ob(rp \<mapsto> c)) w1"
        using hoare_ok [OF body l] Pair Inr by blast
      have "safeRemoveTemp (us_tempPath t) w1 = (Inr x, w')" using run r Pair Inr t(2) by simp
      then have "\<exists>f'. live_at F i V t f' (Ob(rp \<mapsto> c)) w'"
        using hoare_ok [OF h_remove [of t F i V "Ob(rp \<mapsto> c)"]] t(1, 6) by (auto simp: collecting_def)
      with t show ?thesis by blast
    qed
  qed
  show "spoilt F Ob w'" if r: "sendFile E i rd rp w = (Inl e, w')" for e
  proof (cases "?b w")
    case (Pair y w1)
    show ?thesis
    proof (cases y)
      case (Inl err)
      obtain t Ob' where t: "us_tempPath t = us_tempPath s" "near rp Ob Ob'" "live_at F i V t f Ob' w1"
        using hoare_err [OF body l] Pair Inl by (auto simp: sending_def)
      have "finallyM (send_handler E i s err) ?rm w1 = (Inl e, w')" using run r Pair Inl by simp
      from hoare_err [OF hd [OF t(1, 2)] t(3) this] show ?thesis .
    next
      case (Inr u)
      obtain w2 where "safeRemoveTemp (us_tempPath s) w1 = (Inr (), w2)" by (rule safeRemoveTemp_run)
      then show ?thesis using run r Pair Inr by simp
    qed
  qed
qed

section \<open>Recording the file\<close>

lemma deleteState_live:
  assumes "inv F w"
  obtains w' where "deleteState E i w = (Inr (), w')" and "inv F w'" and "sessions w' = (sessions w)(i := None)" and "only_store w w'"
proof -
  obtain w' where d: "deleteState E i w = (Inr (), w')" "ok (uw_now w') (uw_store w')"
    "sessions w' = (sessions w)(i := None)" "only_store w w'"
    by (rule delete_run [OF inv_ok [OF assms]])
  have "inv F w'"
    by (rule inv_update [OF assms d(2), of i]) (use d(3, 4) in \<open>auto simp: only_store_def\<close>)
  with d that show ?thesis by blast
qed

lemma h_delete_spoilt: "hoare (spoilt F Ob) (bestEffortM (deleteState E i)) (\<lambda>_. spoilt F Ob) R"
proof (rule hoare_run)
  fix w
  assume s: "spoilt F Ob w"
  then have w: "inv F w" by (simp add: spoilt_def)
  obtain w' where "deleteState E i w = (Inr (), w')" "inv F w'" "only_store w w'"
    by (rule deleteState_live [OF w])
  with s show "\<exists>x w'. bestEffortM (deleteState E i) w = (Inr x, w') \<and> spoilt F Ob w'"
    by (auto simp: exec spoilt_def only_store_def)
qed

text \<open>The record that is created, and what it says of the file.\<close>

definition recorded :: "UploadStatus \<Rightarrow> string \<Rightarrow> string \<Rightarrow> string \<Rightarrow> 'd \<Rightarrow> bool" where
  "recorded s rp url rid db \<longleftrightarrow> (\<exists>db0. ue_createFile E \<lparr>cf_userId = us_userId s, cf_filename = us_filename s, cf_mime = us_mime s,
     cf_size = us_size s, cf_path = rp, cf_url = url, cf_status = Some ''uploaded''\<rparr> db0 = (Inr rid, db))"

lemma h_recordFile:
  assumes st: "us_state s = Uploaded" and nr: "near rp Ob Ob'"
  shows "hoare (live_at F i V s f Ob') (recordFile E i rp url)
     (\<lambda>rid w. recorded s rp url rid (uw_db w) \<and> uw_s w = s \<and> at_rest F (V(i := None)) Ob' w) (\<lambda>_. spoilt F Ob)"
  unfolding recordFile_def
proof (rule hoare_finally)
  let ?A = "\<lambda>rid w. recorded s rp url rid (uw_db w) \<and> live_at F i V s f Ob' w"
  show "hoare (live_at F i V s f Ob') (catchM
         (bindM snapM (\<lambda>s. media_createFile (ue_createFile E)
            \<lparr>cf_userId = us_userId s, cf_filename = us_filename s, cf_mime = us_mime s, cf_size = us_size s,
             cf_path = rp, cf_url = url, cf_status = Some ''uploaded''\<rparr>))
         (\<lambda>_. thenM (case sd_delete (ue_storage E) of
                       Some dl \<Rightarrow> catchM (remoteM (dl rp)) (\<lambda>_. retM ())
                     | None \<Rightarrow> retM ())
              (thenM (patchAndSync E i (no_patch\<lparr>p_state := Some Error\<rparr>))
              (throwM (internalError ''failed to persist file record''))))) ?A (\<lambda>_. spoilt F Ob)"
  proof (rule hoare_catch [where E = "\<lambda>_. live_at F i V s f Ob'"])
    show "hoare (live_at F i V s f Ob') (bindM snapM (\<lambda>s. media_createFile (ue_createFile E)
            \<lparr>cf_userId = us_userId s, cf_filename = us_filename s, cf_mime = us_mime s, cf_size = us_size s,
             cf_path = rp, cf_url = url, cf_status = Some ''uploaded''\<rparr>)) ?A (\<lambda>_. live_at F i V s f Ob')"
    proof (rule hoareI)
      fix w x w'
      assume l: "live_at F i V s f Ob' w"
      then have sn: "uw_s w = s" by (simp add: live_at_def)
      let ?in = "\<lparr>cf_userId = us_userId s, cf_filename = us_filename s, cf_mime = us_mime s, cf_size = us_size s,
             cf_path = rp, cf_url = url, cf_status = Some ''uploaded''\<rparr>"
      obtain y d' where y: "ue_createFile E ?in (uw_db w) = (y, d')" by (cases "ue_createFile E ?in (uw_db w)")
      have lw: "live_at F i V s f Ob' (w\<lparr>uw_db := d'\<rparr>)"
        using live_frame [OF l, of "w\<lparr>uw_db := d'\<rparr>"] l by (simp add: live_at_def)
      have run: "bindM snapM (\<lambda>s. media_createFile (ue_createFile E)
            \<lparr>cf_userId = us_userId s, cf_filename = us_filename s, cf_mime = us_mime s, cf_size = us_size s,
             cf_path = rp, cf_url = url, cf_status = Some ''uploaded''\<rparr>) w
          = (case y of Inl e \<Rightarrow> (Inl (internalError ''failed to create media record''), w\<lparr>uw_db := d'\<rparr>) | Inr v \<Rightarrow> (Inr v, w\<lparr>uw_db := d'\<rparr>))"
        using y by (simp add: snapM_def media_createFile_def tableM_def exec sn split: sum.split)
      show "bindM snapM (\<lambda>s. media_createFile (ue_createFile E)
            \<lparr>cf_userId = us_userId s, cf_filename = us_filename s, cf_mime = us_mime s, cf_size = us_size s,
             cf_path = rp, cf_url = url, cf_status = Some ''uploaded''\<rparr>) w = (Inr x, w') \<Longrightarrow> ?A x w'"
        using y lw unfolding run recorded_def by (cases y) auto
      show "bindM snapM (\<lambda>s. media_createFile (ue_createFile E)
            \<lparr>cf_userId = us_userId s, cf_filename = us_filename s, cf_mime = us_mime s, cf_size = us_size s,
             cf_path = rp, cf_url = url, cf_status = Some ''uploaded''\<rparr>) w = (Inl e, w') \<Longrightarrow> live_at F i V s f Ob' w'" for e
        using lw unfolding run by (cases y) auto
    qed
    fix e
    have del: "hoare (live_at F i V s f Ob') (case sd_delete (ue_storage E) of
                       Some dl \<Rightarrow> catchM (remoteM (dl rp)) (\<lambda>_. retM ())
                     | None \<Rightarrow> retM ()) (\<lambda>_. sending F i V s f Ob rp) (\<lambda>_. spoilt F Ob)"
    proof (cases "sd_delete D")
      case None
      then show ?thesis using nr by (auto simp: env sending_def intro!: hoare_ret)
    next
      case (Some dl)
      have k: "sending F i V s f Ob rp (w\<lparr>uw_remote := r'\<rparr>)" if "live_at F i V s f Ob' w" "dl rp (uw_remote w) = (x, r')" for w r' x
      proof -
        have "near rp Ob (objects r')"
          using delete_frame [OF Some that(2)] that(1) nr by (auto simp: near_def live_at_def)
        moreover have "live_at F i V s f (objects r') (w\<lparr>uw_remote := r'\<rparr>)"
          using live_frame [OF that(1), of "w\<lparr>uw_remote := r'\<rparr>"] by simp
        ultimately show ?thesis unfolding sending_def by blast
      qed
      show ?thesis
        by (rule hoareI) (auto simp: env Some remoteM_def catchM_def retM_def dest: k split: prod.splits sum.splits)
    qed
    show "hoare (live_at F i V s f Ob') (thenM (case sd_delete (ue_storage E) of
                       Some dl \<Rightarrow> catchM (remoteM (dl rp)) (\<lambda>_. retM ())
                     | None \<Rightarrow> retM ())
              (thenM (patchAndSync E i (no_patch\<lparr>p_state := Some Error\<rparr>))
              (throwM (internalError ''failed to persist file record'')))) ?A (\<lambda>_. spoilt F Ob)"
    proof (rule hoare_then [OF del], unfold sending_def, intro hoare_ex hoare_pure)
      fix Ob''
      assume n: "near rp Ob Ob''"
      show "hoare (live_at F i V s f Ob'') (thenM (patchAndSync E i (no_patch\<lparr>p_state := Some Error\<rparr>))
              (throwM (internalError ''failed to persist file record''))) ?A (\<lambda>_. spoilt F Ob)"
        by (rule hoare_then [OF h_state], assumption, rule disjI1, rule refl, simp add: collecting_def,
            rule hoare_throw) (auto dest: live_rest near_spoilt [OF _ n])
    qed
  qed
  show "hoare (?A rid) (bestEffortM (deleteState E i))
     (\<lambda>_ w. recorded s rp url rid (uw_db w) \<and> uw_s w = s \<and> at_rest F (V(i := None)) Ob' w) (\<lambda>_. spoilt F Ob)" for rid
  proof (rule hoare_run)
    fix w
    assume a: "?A rid w"
    then have w: "inv F w" by (simp add: live_at_def)
    obtain w' where "deleteState E i w = (Inr (), w')" "inv F w'" "sessions w' = (sessions w)(i := None)" "only_store w w'"
      by (rule deleteState_live [OF w])
    with a show "\<exists>x w'. bestEffortM (deleteState E i) w = (Inr x, w') \<and>
        recorded s rp url rid (uw_db w') \<and> uw_s w' = s \<and> at_rest F (V(i := None)) Ob' w'"
      by (auto simp: exec only_store_def live_at_def at_rest_def rest_def)
  qed
qed (rule h_delete_spoilt)

section \<open>The detection of the MIME type\<close>

lemma h_sniffFile:
  "hoare (live_at F i V s f Ob) (sniffFile E i)
     (\<lambda>m w. m \<noteq> Some [] \<and> (live_at F i V s f Ob w \<or> gone_at F i (us_tempPath s) Ob w \<and> uw_s w = s)) R"
  unfolding sniffFile_def
proof (rule hoare_catch [where E = "\<lambda>_ w. gone_at F i (us_tempPath s) Ob w \<and> uw_s w = s"],
    rule hoare_bind [where M = "\<lambda>t w. t = s \<and> live_at F i V s f Ob w"], goal_cases)
  case 1
  show ?case unfolding snapM_def by (rule hoare_gets) (simp add: live_at_def)
next
  case (2 t)
  show ?case
  proof (rule hoare_bind [where M = "\<lambda>_ w. t = s \<and> live_at F i V s f Ob w"], goal_cases)
    case 1
    show ?case by (rule hoare_gets) simp
  next
    case (2 c)
    have th: "thenM a (thenM b d) = thenM (thenM a b) d" for a b :: "('st, 'rm, 'd, unit) up" and d :: "('st, 'rm, 'd, unit) up"
      by (simp add: thenM_def bindM_assoc)
    have ne: "map_option js_lower (case c of None \<Rightarrow> None | Some x \<Rightarrow> (case ue_fileType E x of Inl _ \<Rightarrow> None | Inr v \<Rightarrow> v)) \<noteq> Some []"
      using file_types by (auto simp: js_lower_def split: option.splits sum.splits)
    show ?case
      unfolding Let_def th
      by (rule hoare_pure, simp only:, rule hoare_then [where M = "live_at F i V s f Ob"],
          intro hoare_if hoare_then [OF h_discard_s] hoare_throw hoare_ret) (use ne in \<open>auto intro: hoare_ret\<close>)
  qed
next
  case (3 e)
  show ?case by (rule hoare_ret) simp
qed

section \<open>From the detection to the answer\<close>

text \<open>What a successful \<open>finish\<close> has done, and answers.\<close>

definition finished :: "files \<Rightarrow> string \<Rightarrow> (string \<Rightarrow> UploadStatus option) \<Rightarrow> files \<Rightarrow> UploadFinishResult
    \<Rightarrow> ('st, 'rm, 'd) upload_world \<Rightarrow> bool" where
  "finished F i V Ob r w \<longleftrightarrow> (\<exists>c s. int (length c) = fr_size r \<and> (\<forall>g. F i = Some g \<longrightarrow> c = g) \<and>
     fr_url r = buildPublicUrl (ue_cfg E) (fr_path r) \<and> us_size s = fr_size r \<and> us_mime s = fr_mime r \<and>
     recorded s (fr_path r) (fr_url r) (fr_id r) (uw_db w) \<and> at_rest F (V(i := None)) (Ob(fr_path r \<mapsto> c)) w)"

lemma settled_finished: "settled F (finished F i V Ob r)"
  by (rule settledI [where G = "\<lambda>ob v d. \<exists>c s. int (length c) = fr_size r \<and> (\<forall>g. F i = Some g \<longrightarrow> c = g) \<and>
     fr_url r = buildPublicUrl (ue_cfg E) (fr_path r) \<and> us_size s = fr_size r \<and> us_mime s = fr_mime r \<and>
     recorded s (fr_path r) (fr_url r) (fr_id r) d \<and> objects ob = Ob(fr_path r \<mapsto> c) \<and> v = V(i := None)"])
     (auto simp: finished_def at_rest_def rest_def)

lemma h_now: "hoare P nowM (\<lambda>_. P) R"
  unfolding nowM_def by (rule hoare_gets)

lemma h_uuid: "hoare (live_at F i V s f Ob) (uuidM (ue_uuid E)) (\<lambda>_. live_at F i V s f Ob) R"
proof (rule hoareI)
  fix w x w'
  assume l: "live_at F i V s f Ob w"
  have "live_at F i V s f Ob (w\<lparr>uw_ctr := Suc (uw_ctr w)\<rparr>)"
    using live_frame [OF l, of "w\<lparr>uw_ctr := Suc (uw_ctr w)\<rparr>"] l by (simp add: live_at_def)
  then show "uuidM (ue_uuid E) w = (Inr x, w') \<Longrightarrow> live_at F i V s f Ob w'" by (auto simp: uuidM_def)
qed (simp add: uuidM_def)

lemma h_uuid_gone: "hoare (gone_at F i p Ob) (uuidM (ue_uuid E)) (\<lambda>_. gone_at F i p Ob) R"
proof (rule hoareI)
  fix w x w'
  assume g: "gone_at F i p Ob w"
  have "gone_at F i p Ob (w\<lparr>uw_ctr := Suc (uw_ctr w)\<rparr>)"
    using gone_frame [OF g, of "w\<lparr>uw_ctr := Suc (uw_ctr w)\<rparr>"] g by (simp add: gone_at_def)
  then show "uuidM (ue_uuid E) w = (Inr x, w') \<Longrightarrow> gone_at F i p Ob w'" by (auto simp: uuidM_def)
qed (simp add: uuidM_def)

text \<open>A session that the detection has removed cannot be finished.\<close>

lemma h_finish_gone:
  "hoare (gone_at F i p Ob) (finish_send E i subdir s0 m) (\<lambda>_ _. False) (\<lambda>_. rest F Ob)"
proof -
  have pg: "hoare (gone_at F i p Ob) (patchAndSync E i q) Q (\<lambda>_. rest F Ob)" if "p_userId q = None" for q and Q :: "unit \<Rightarrow> _"
    by (rule hoare_conseq [OF h_patch_gone [OF that, where q = p and Q = Q]]) (auto dest: gone_rest)
  show ?thesis
    unfolding finish_send_def Let_def
    by (rule hoare_then [where M = "gone_at F i p Ob"], intro hoare_if pg hoare_ret, simp add: no_patch_def, assumption,
        rule hoare_bind [OF h_now], rule hoare_bind [OF h_uuid_gone], rule hoare_then [where M = "\<lambda>_. False"], rule pg)
       (simp_all add: no_patch_def)
qed

text \<open>The MIME type written by \<open>finish\<close> is not empty.\<close>

lemma h_mime:
  assumes "m \<noteq> []"
  shows "hoare (live_at F i V s f Ob) (patchAndSync E i (no_patch\<lparr>p_mime := Some m\<rparr>))
    (\<lambda>_ w. \<exists>t. us_state t = us_state s \<and> us_tempPath t = us_tempPath s \<and> us_size t = us_size s \<and> live_at F i V t f Ob w) R"
proof (rule hoareI)
  fix w x w'
  let ?p = "no_patch\<lparr>p_mime := Some m\<rparr>"
  assume l: "live_at F i V s f Ob w"
  note so = live_session [OF l, THEN conjunct1]
  then have wf: "wf_status s" by (simp add: session_ok_def fixed_ok_def)
  have sp: "safe_patch ?p s" using wf assms by (intro safe_patchI) (simp_all add: no_patch_def)
  have ok: "session_ok (ue_cfg E) F i (merge s ?p) (fs_files f)"
    using so by (intro session_ok_merge) (simp_all add: no_patch_def)
  show "patchAndSync E i ?p w = (Inr x, w') \<Longrightarrow>
      \<exists>t. us_state t = us_state s \<and> us_tempPath t = us_tempPath s \<and> us_size t = us_size s \<and> live_at F i V t f Ob w'"
    using hoare_ok [OF h_patch [OF sp ok] l] by (intro exI [of _ "merge s ?p"]) (simp add: no_patch_def)
  show "patchAndSync E i ?p w = (Inl e, w') \<Longrightarrow> R e w'" for e
    using hoare_err [OF h_patch [OF sp ok, where R = "\<lambda>_ _. False"] l] by blast
qed

lemma js_lower_nonempty: "m \<noteq> [] \<Longrightarrow> js_lower m \<noteq> []"
  by (simp add: js_lower_def)

lemma h_finish_send:
  assumes w: "whole F i s0 (fs_files f)" and st: "collecting (us_state s0)" and m: "m \<noteq> Some []"
  shows "hoare (live_at F i V s0 f Ob) (finish_send E i subdir s0 m) (finished F i V Ob) (\<lambda>_. spoilt F Ob)"
proof -
  let ?m = "js_lower (orElse m (us_mime s0))"
  have m': "?m \<noteq> []" if "?m \<noteq> us_mime s0"
    using that m by (intro js_lower_nonempty) (cases m, auto simp: js_lower_def)
  have mime: "hoare (live_at F i V s0 f Ob) (if ?m \<noteq> us_mime s0 then patchAndSync E i (no_patch\<lparr>p_mime := Some ?m\<rparr>) else retM ())
      (\<lambda>_ w. \<exists>t. us_state t = us_state s0 \<and> us_tempPath t = us_tempPath s0 \<and> us_size t = us_size s0 \<and> live_at F i V t f Ob w)
      (\<lambda>_. spoilt F Ob)"
    by (rule hoare_if, rule h_mime, erule m', rule hoare_ret) blast
  show ?thesis
    unfolding finish_send_def Let_def
  proof (rule hoare_then [OF mime], rule hoare_ex, intro hoare_pure, rule hoare_bind [OF h_now], rule hoare_bind [OF h_uuid], goal_cases)
    case (1 t now uuid)
    let ?rd = "relative_dir (ue_cfg E) subdir now"
    let ?rp = "?rd @ ''/'' @ uuid @ ''-'' @ final_name (ue_cfg E) (us_filename s0) ?m"
    let ?url = "buildPublicUrl (ue_cfg E) ?rp"
    have cp: "collecting ReadyToUpload \<longrightarrow> collecting (us_state t)" using 1 st by simp
    have answer: "hoare (\<lambda>w. recorded s ?rp ?url rid (uw_db w) \<and> uw_s w = s \<and> at_rest F (V(i := None)) (Ob(?rp \<mapsto> c)) w)
        (thenM (emitM (emitUploaded (ue_server E) i ?url ?rp)) (bindM snapM (\<lambda>s.
           retM \<lparr>fr_url = ?url, fr_path = ?rp, fr_id = rid, fr_mime = us_mime s, fr_size = us_size s\<rparr>)))
        (finished F i V Ob) (\<lambda>_. spoilt F Ob)"
      if c: "int (length c) = us_size s" "\<forall>g. F i = Some g \<longrightarrow> c = g" for rid c s
    proof (rule hoareI)
      fix w x w'
      assume p: "recorded s ?rp ?url rid (uw_db w) \<and> uw_s w = s \<and> at_rest F (V(i := None)) (Ob(?rp \<mapsto> c)) w"
      let ?w = "w\<lparr>uw_events := uw_events w @ emitUploaded (ue_server E) i ?url ?rp\<rparr>"
      have "inv F w" using p by (simp add: at_rest_def rest_def)
      then have "inv F ?w" by (rule inv_frame) simp_all
      then have a: "at_rest F (V(i := None)) (Ob(?rp \<mapsto> c)) ?w"
        using p by (simp add: at_rest_def rest_def sessions_def)
      show "thenM (emitM (emitUploaded (ue_server E) i ?url ?rp)) (bindM snapM (\<lambda>s.
           retM \<lparr>fr_url = ?url, fr_path = ?rp, fr_id = rid, fr_mime = us_mime s, fr_size = us_size s\<rparr>)) w = (Inr x, w')
         \<Longrightarrow> finished F i V Ob x w'"
        using p a c unfolding finished_def
        by (intro exI [of _ c] exI [of _ s]) (auto simp: exec emitM_def snapM_def)
    qed (simp add: exec emitM_def snapM_def)
    have send: "hoare (live_at F i V u f Ob) (sendFile E i ?rd ?rp)
        (\<lambda>_ w. \<exists>v f' c. us_state v = Uploading \<and> us_size v = us_size u \<and> int (length c) = us_size u \<and>
           (\<forall>g. F i = Some g \<longrightarrow> c = g) \<and> live_at F i V v f' (Ob(?rp \<mapsto> c)) w) (\<lambda>_. spoilt F Ob)"
      if "us_state u = ReadyToUpload" "us_tempPath u = us_tempPath t" "us_size u = us_size t" for u
      by (rule h_sendFile) (use that 1 whole_alike [OF w] in auto)
    show ?case
    proof (rule hoare_then [OF h_state [where rp = ?rp]], assumption, rule disjI2, rule refl, rule cp, rule hoare_ex, intro hoare_pure,
        rule hoare_then [OF send], assumption, assumption, assumption, intro hoare_ex hoare_pure,
        rule hoare_then [OF h_state [where rp = ?rp]], assumption, rule disjI1, rule refl, simp add: collecting_def, rule hoare_ex, intro hoare_pure,
        rule hoare_bind [OF h_recordFile [where rp = ?rp and Ob = Ob]], assumption, simp add: near_def, goal_cases)
      case (1 u v f' c y rid)
      show ?case by (rule answer) (use 1 in simp_all)
    qed
  qed
qed

lemma h_allReceived:
  "(int (length (us_receivedIndexes s)) = us_totalChunks s \<Longrightarrow> hoare P n Q R) \<Longrightarrow> (\<And>e w. P w \<Longrightarrow> R e w) \<Longrightarrow>
   hoare P (thenM (assertAllChunksReceived s) n) Q R"
  unfolding assertAllChunksReceived_def thenM_def
  by (cases "int (length (us_receivedIndexes s)) = us_totalChunks s"; cases "first_missing s") (auto intro: hoare_throw)

lemma h_finish_run:
  assumes V: "V i = Some s0"
  shows "hoare (at_rest F V Ob) (finish_run E i subdir) (finished F i V Ob) (\<lambda>_. spoilt F Ob)"
  unfolding finish_run_def
proof (rule hoare_bind [OF hoare_conseq [OF h_load]], assumption, assumption, erule rest_spoilt, rule hoare_pure)
  fix s
  assume "V i = Some s"
  with V have s: "s = s0" by simp
  have ls: "live_at F i V t f Ob w \<Longrightarrow> spoilt F Ob w" for t f w by (auto dest: live_rest rest_spoilt)
  show "hoare (at_rest F V Ob) (thenM (setS s) (thenM (assertAllChunksReceived s)
     (thenM (throwIfM (us_tempPath s = []) (internalError ''temp file not found''))
     (thenM (throwIfM (us_state s = Uploaded) (conflict ''upload already finished''))
     (thenM (throwIfM (us_state s \<noteq> Receiving \<and> us_state s \<noteq> ReadyToUpload)
               (conflict (''invalid state for finish: '' @ state_str (us_state s))))
     (bindM (sniffFile E i) (finish_send E i subdir s))))))) (finished F i V Ob) (\<lambda>_. spoilt F Ob)"
    unfolding s
  proof (rule hoare_then [OF h_setS [where V = V, OF V]], rule hoare_ex, rule h_allReceived, rule hoare_guard, erule ls,
      rule hoare_guard, erule ls, rule hoare_guard, erule ls, rule hoare_bind [OF h_sniffFile], rule hoare_pure)
    fix f and m :: "string option"
    assume n: "int (length (us_receivedIndexes s0)) = us_totalChunks s0"
      and st: "\<not> (us_state s0 \<noteq> Receiving \<and> us_state s0 \<noteq> ReadyToUpload)" and m: "m \<noteq> Some []"
    from st have col: "collecting (us_state s0)" by (auto simp: collecting_def)
    have live: "hoare (live_at F i V s0 f Ob) (finish_send E i subdir s0 m) (finished F i V Ob) (\<lambda>_. spoilt F Ob)"
    proof (rule hoareI)
      fix w x w'
      assume l: "live_at F i V s0 f Ob w"
      have wh: "whole F i s0 (fs_files f)" by (rule session_whole [OF live_session [OF l, THEN conjunct1] col cfg(1) n])
      show "finish_send E i subdir s0 m w = (Inr x, w') \<Longrightarrow> finished F i V Ob x w'"
        by (rule hoare_ok [OF h_finish_send [OF wh col m] l])
      show "finish_send E i subdir s0 m w = (Inl e, w') \<Longrightarrow> spoilt F Ob w'" for e
        by (rule hoare_err [OF h_finish_send [OF wh col m] l])
    qed
    note gone = h_finish_gone [of F i "us_tempPath s0" Ob subdir s0 m]
    show "hoare (\<lambda>w. live_at F i V s0 f Ob w \<or> gone_at F i (us_tempPath s0) Ob w \<and> uw_s w = s0)
        (finish_send E i subdir s0 m) (finished F i V Ob) (\<lambda>_. spoilt F Ob)"
      by (rule hoareI) (use hoare_ok [OF live] hoare_err [OF live] hoare_ok [OF gone] hoare_err [OF gone] rest_spoilt in blast)+
  qed (use ls in blast)
qed

lemma h_finish:
  assumes V: "V i = Some s0"
  shows "hoare (at_rest F V Ob) (finish E i subdir) (finished F i V Ob) (\<lambda>_. spoilt F Ob)"
  unfolding finish_def
  by (rule hoare_guard, erule rest_spoilt [OF at_rest_rest],
      rule h_lock [where F = F, OF h_finish_run [where V = V, OF V] settled_at_rest settled_finished settled_spoilt])
     (rule rest_spoilt [OF at_rest_rest])

text \<open>Without a session nothing is sent.\<close>

lemma settled_false: "settled F (\<lambda>w. False)"
  by (simp add: settled_def)

lemma h_finish_none:
  assumes V: "V i = None"
  shows "hoare (at_rest F V Ob) (finish E i subdir) (\<lambda>_ _. False) (\<lambda>_. rest F Ob)"
proof -
  have "hoare (at_rest F V Ob) (finish_run E i subdir) (\<lambda>_ _. False) (\<lambda>_. rest F Ob)"
    unfolding finish_run_def by (rule hoare_bind [OF no_session [where V = V, OF V]]) simp
  then have "hoare (at_rest F V Ob) (withStoreLock E i (finish_run E i subdir)) (\<lambda>_ _. False) (\<lambda>_. rest F Ob)"
    by (rule h_lock [where F = F, OF _ settled_at_rest settled_false settled_rest at_rest_rest])
  then show ?thesis
    unfolding finish_def by (intro hoare_guard) (simp_all add: at_rest_rest)
qed

section \<open>The other requests\<close>

lemma h_status: "hoare (rest F Ob) (getStatus E i) (\<lambda>_. rest F Ob) (\<lambda>_. rest F Ob)"
proof -
  have "hoare (at_rest F V Ob) (getStatus E i) (\<lambda>_. rest F Ob) (\<lambda>_. rest F Ob)" for V
    unfolding getStatus_def by (rule hoare_bind [OF h_load], rule hoare_ret) (auto dest: at_rest_rest)
  then have "hoare (\<lambda>w. \<exists>V. at_rest F V Ob w) (getStatus E i) (\<lambda>_. rest F Ob) (\<lambda>_. rest F Ob)"
    by (rule hoare_ex)
  then show ?thesis by (rule hoare_pre) (simp add: at_rest_def)
qed

lemma h_abort:
  "hoare (at_rest F V Ob) (upload_abort E i) (\<lambda>r w. r = i \<and> V i \<noteq> None \<and> at_rest F (V(i := None)) Ob w) (\<lambda>_. at_rest F V Ob)"
  unfolding upload_abort_def
proof (rule hoare_guard, assumption, rule hoare_bind [where M = "\<lambda>r w. r = V i \<and> at_rest F V Ob w"])
  show "hoare (at_rest F V Ob) (storeM (\<lambda>n. st_get (ue_store E) n i)) (\<lambda>r w. r = V i \<and> at_rest F V Ob w) (\<lambda>_. at_rest F V Ob)"
  proof (rule hoare_run)
    fix w
    assume a: "at_rest F V Ob w"
    then have "inv F w" by (simp add: at_rest_def rest_def)
    from get_run [OF this] obtain w' where "storeM (\<lambda>n. st_get S n i) w = (Inr (sessions w i), w')" "inv F w'"
      "sessions w' = sessions w" "only_store w w'" by blast
    with a show "\<exists>x w'. storeM (\<lambda>n. st_get (ue_store E) n i) w = (Inr x, w') \<and> x = V i \<and> at_rest F V Ob w'"
      by (auto simp: env at_rest_def rest_def only_store_def)
  qed
  fix r
  show "hoare (\<lambda>w. r = V i \<and> at_rest F V Ob w) (case r of None \<Rightarrow> throwM (badRequest ''upload session not found'')
      | Some s \<Rightarrow> thenM (safeRemoveTemp (us_tempPath s)) (thenM (deleteState E i) (retM i)))
      (\<lambda>r w. r = i \<and> V i \<noteq> None \<and> at_rest F (V(i := None)) Ob w) (\<lambda>_. at_rest F V Ob)"
  proof (rule hoare_pure, rule hoare_option)
    show "r = V i \<Longrightarrow> r = None \<Longrightarrow> hoare (at_rest F V Ob) (throwM (badRequest ''upload session not found''))
      (\<lambda>r w. r = i \<and> V i \<noteq> None \<and> at_rest F (V(i := None)) Ob w) (\<lambda>_. at_rest F V Ob)" by (rule hoare_throw)
    fix s
    assume s: "r = V i" "r = Some s"
    show "hoare (at_rest F V Ob) (thenM (safeRemoveTemp (us_tempPath s)) (thenM (deleteState E i) (retM i)))
      (\<lambda>r w. r = i \<and> V i \<noteq> None \<and> at_rest F (V(i := None)) Ob w) (\<lambda>_. at_rest F V Ob)"
    proof (rule hoare_run)
      fix w
      assume a: "at_rest F V Ob w"
      then have w: "inv F w" "sessions w i = Some s" using s by (simp_all add: at_rest_def rest_def)
      from discard_run [OF w] obtain w' where d: "thenM (safeRemoveTemp (us_tempPath s)) (deleteState E i) w = (Inr (), w')"
        "gone_at F i (us_tempPath s) (objects (uw_remote w)) w'" by blast
      obtain w1 where r: "safeRemoveTemp (us_tempPath s) w = (Inr (), w1)" "uw_store w1 = uw_store w" "uw_now w1 = uw_now w"
        by (rule safeRemoveTemp_run) blast
      have "ok (uw_now w1) (uw_store w1)" using inv_ok [OF w(1)] r by simp
      from delete_run [OF this] obtain w2 where x: "deleteState E i w1 = (Inr (), w2)" "sessions w2 = (sessions w1)(i := None)" by blast
      have "w2 = w'" using d(1) r(1) x(1) by (simp add: thenM_def bindM_def)
      then show "\<exists>x w'. thenM (safeRemoveTemp (us_tempPath s)) (thenM (deleteState E i) (retM i)) w = (Inr x, w') \<and>
          x = i \<and> V i \<noteq> None \<and> at_rest F (V(i := None)) Ob w'"
        using d(2) r x a s by (auto simp: exec gone_at_def at_rest_def rest_def sessions_def dest: sym)
    qed
  qed
qed

text \<open>\<open>init\<close>: a new session, with a temporary file of the announced size.\<close>

definition fresh_status :: "UploadInitInput \<Rightarrow> string \<Rightarrow> UploadInitOutput \<Rightarrow> UploadStatus \<Rightarrow> bool" where
  "fresh_status input userId r s \<longleftrightarrow> us_uploadId s = io_uploadId r \<and> us_userId s = userId \<and> us_filename s = ii_filename input \<and>
     us_size s = ii_size input \<and> us_receivedBytes s = 0 \<and> us_receivedIndexes s = [] \<and> us_state s = Init \<and>
     us_chunkSize s = io_chunkSize r \<and> us_totalChunks s = io_totalChunks r \<and> us_expiresAt s = io_expiresAt r"

definition opened :: "files \<Rightarrow> (string \<Rightarrow> UploadStatus option) \<Rightarrow> files \<Rightarrow> UploadInitInput \<Rightarrow> string \<Rightarrow> UploadInitOutput
    \<Rightarrow> ('st, 'rm, 'd) upload_world \<Rightarrow> bool" where
  "opened F V Ob input userId r w \<longleftrightarrow> (\<exists>s. V (io_uploadId r) = None \<and> fresh_status input userId r s \<and>
     at_rest F (V(io_uploadId r \<mapsto> s)) Ob w)"

text \<open>A client that is trusted to send a file announces its size.\<close>

definition announced :: "files \<Rightarrow> UploadInitInput \<Rightarrow> ('st, 'rm, 'd) upload_world \<Rightarrow> bool" where
  "announced F input w \<longleftrightarrow> (\<forall>f. F (ue_uuid E (uw_ctr w)) = Some f \<longrightarrow> ii_size input = int (length f))"

lemma fresh_id:
  assumes "inv F w"
  shows "sessions w (ue_uuid E (uw_ctr w)) = None"
proof (rule ccontr)
  assume "sessions w (ue_uuid E (uw_ctr w)) \<noteq> None"
  then obtain n where "n < uw_ctr w" "ue_uuid E (uw_ctr w) = ue_uuid E n" using assms unfolding inv_def by blast
  then show False using ids(1) by (auto dest: injD)
qed

lemma fresh_path:
  assumes "inv F w" and "sessions w j = Some t"
  shows "us_tempPath t \<noteq> temp_path (ue_cfg E) (ue_uuid E (uw_ctr w))"
proof -
  obtain n where "n < uw_ctr w" "us_tempPath t = temp_path (ue_cfg E) (ue_uuid E n)"
    using assms unfolding inv_def session_ok_def fixed_ok_def by metis
  then show ?thesis using paths(1) by (auto dest: injD)
qed

lemma h_init:
  "hoare (\<lambda>w. at_rest F V Ob w \<and> announced F input w) (upload_init E input userId) (opened F V Ob input userId) (\<lambda>_. rest F Ob)"
  unfolding upload_init_def Let_def
proof (rule hoare_guard, drule conjunct1, erule at_rest_rest, rule hoare_guard, drule conjunct1, erule at_rest_rest, rule hoare_guard, drule conjunct1, erule at_rest_rest,
    rule hoare_guard, drule conjunct1, erule at_rest_rest, rule hoare_guard, drule conjunct1, erule at_rest_rest, rule hoare_guard, drule conjunct1, erule at_rest_rest)
  let ?cfg = "ue_cfg E" and ?sz = "ii_size input"
  let ?raw = "js_lower (js_trim (orElse (ii_mime input) ''application/octet-stream''))"
  let ?mime = "orElse (mime_alias ?raw) ?raw"
  assume u: "userId \<noteq> []" and sz: "\<not> ?sz \<le> 0"
  let ?st = "\<lambda>i now. \<lparr>us_uploadId = i, us_userId = userId, us_filename = ii_filename input,
                    us_mime = ?mime, us_size = ?sz, us_chunkSize = c_chunkSize ?cfg, us_totalChunks = ceil_div ?sz (c_chunkSize ?cfg),
                    us_receivedBytes = 0, us_receivedIndexes = [], us_state = Init, us_createdAt = now,
                    us_expiresAt = now + c_ttlSeconds ?cfg * 1000, us_version = 1,
                    us_tempPath = posix_join [c_tmpDir ?cfg, i @ ''.part''], us_remoteRelativePath = None\<rparr>"
  let ?work = "bindM (uuidM (ue_uuid E)) (\<lambda>i.
          thenM (catchM (fsM (fs_create (posix_join [c_tmpDir ?cfg, i @ ''.part'']) ?sz)) (\<lambda>_. throwM (internalError ''failed to create temp file'')))
             (bindM nowM (\<lambda>now. thenM (storeM (\<lambda>n. st_create (ue_store E) n (?st i now) (c_ttlSeconds ?cfg)))
                 (retM \<lparr>io_uploadId = i, io_chunkSize = c_chunkSize ?cfg,
                        io_totalChunks = ceil_div ?sz (c_chunkSize ?cfg), io_expiresAt = now + c_ttlSeconds ?cfg * 1000\<rparr>))))"
  have both: "(\<exists>e w'. ?work w = (Inl e, w') \<and> rest F Ob w') \<or> (\<exists>r w'. ?work w = (Inr r, w') \<and> opened F V Ob input userId r w')"
    if a: "at_rest F V Ob w" "announced F input w" for w
  proof -
    let ?i = "ue_uuid E (uw_ctr w)" and ?now = "uw_now w"
    let ?p = "temp_path ?cfg ?i"
    from a have w: "inv F w" "sessions w = V" "objects (uw_remote w) = Ob" by (simp_all add: at_rest_def rest_def)
    let ?w0 = "w\<lparr>uw_ctr := Suc (uw_ctr w)\<rparr>"
    have i0: "inv F ?w0" by (rule inv_frame [OF w(1)]) simp_all
    show ?thesis
    proof (cases "fs_denied (uw_fs w) ?p")
      case True
      have "?work w = (Inl (internalError ''failed to create temp file''), ?w0)"
        using True by (simp add: exec uuidM_def fsM_def fs_create_def temp_path_def)
      moreover have "rest F Ob ?w0" using i0 w(3) by (simp add: rest_def)
      ultimately show ?thesis by blast
    next
      case False
      let ?f = "(uw_fs w)\<lparr>fs_files := (fs_files (uw_fs w))(?p \<mapsto> replicate (nat ?sz) 0)\<rparr>"
      let ?w1 = "?w0\<lparr>uw_fs := ?f\<rparr>"
      have i1: "inv F ?w1"
        by (rule inv_update [OF w(1), of ?w1 ?i])
           (use w(1) fresh_path [OF w(1)] fresh_id [OF w(1)] in \<open>auto simp: inv_def sessions_def\<close>)
      have st: "storable (?st ?i ?now)" using ids(2) u by (simp add: storable_def)
      have "view ?now (uw_store ?w1) (us_uploadId (?st ?i ?now)) = None" using fresh_id [OF w(1)] by (simp add: sessions_def)
      from create_law [OF _ st cfg(2) this]
      have "store_step ok view held (uw_now ?w1) (st_create S (uw_now ?w1) (?st ?i ?now) (c_ttlSeconds ?cfg)) (uw_store ?w1) ()
          ((sessions ?w1)(?i \<mapsto> ?st ?i ?now)) (held (uw_now ?w1) (uw_store ?w1))"
        using inv_ok [OF w(1)] by (simp add: sessions_def)
      from store_step_world [where c = "\<lambda>n. st_create S n (?st ?i ?now) (c_ttlSeconds ?cfg)", OF this]
      obtain w2 where s: "storeM (\<lambda>n. st_create S n (?st ?i ?now) (c_ttlSeconds ?cfg)) ?w1 = (Inr (), w2)"
        "ok (uw_now w2) (uw_store w2)" "sessions w2 = (sessions ?w1)(?i \<mapsto> ?st ?i ?now)" "only_store ?w1 w2" by blast
      have run: "?work w = (Inr \<lparr>io_uploadId = ?i, io_chunkSize = c_chunkSize ?cfg,
          io_totalChunks = ceil_div ?sz (c_chunkSize ?cfg), io_expiresAt = ?now + c_ttlSeconds ?cfg * 1000\<rparr>, w2)"
        using False s(1) by (simp add: exec uuidM_def fsM_def fs_create_def temp_path_def nowM_def env)
      have so: "session_ok ?cfg F ?i (?st ?i ?now) (fs_files ?f)"
        using sz a(2) by (auto simp: session_ok_def fixed_ok_def file_ok_def wf_status_def temp_path_def announced_def)
      have "inv F w2"
      proof (rule inv_update [OF i1 s(2), of ?i])
        show "\<And>t. sessions w2 ?i = Some t \<Longrightarrow> session_ok ?cfg F ?i t (fs_files (uw_fs w2)) \<and> (\<exists>n<uw_ctr w2. ?i = ue_uuid E n)"
          using s(3, 4) so by (auto simp: only_store_def)
      qed (use s(3, 4) in \<open>auto simp: only_store_def\<close>)
      then have "opened F V Ob input userId \<lparr>io_uploadId = ?i, io_chunkSize = c_chunkSize ?cfg,
          io_totalChunks = ceil_div ?sz (c_chunkSize ?cfg), io_expiresAt = ?now + c_ttlSeconds ?cfg * 1000\<rparr> w2"
        unfolding opened_def using s(3, 4) w fresh_id [OF w(1)]
        by (intro exI [of _ "?st ?i ?now"]) (simp add: fresh_status_def at_rest_def rest_def only_store_def sessions_def)
      then show ?thesis using run by blast
    qed
  qed
  show "hoare (\<lambda>w. at_rest F V Ob w \<and> announced F input w) ?work (opened F V Ob input userId) (\<lambda>_. rest F Ob)"
    by (rule hoare_either) (erule conjE, rule both)
qed

end

end
