(* ===== verification/UploadRun.thy ===== *)
theory UploadRun
  imports UploadFinish
begin

text \<open>
  Runs of the upload service: any sequence of requests on any sessions, in any order, with time
  passing between them, and the invariant in every state such a run reaches. The requests that
  carry the bytes of a session whose client is trusted carry the right ones; all others, and all
  requests on other sessions, are arbitrary.
\<close>

datatype upload_request =
    ReqInit UploadInitInput string
  | ReqChunk string int "byte list"
  | ReqStatus string
  | ReqAbort string
  | ReqFinish string "string option"
  | ReqTick int

fun upload_exec :: "('st, 'rm, 'd) upload_env \<Rightarrow> upload_request \<Rightarrow> ('st, 'rm, 'd) upload_world \<Rightarrow> ('st, 'rm, 'd) upload_world" where
  "upload_exec E (ReqInit input userId) w = post (upload_init E input userId) w"
| "upload_exec E (ReqChunk i k b) w = post (writeChunk E i k b) w"
| "upload_exec E (ReqStatus i) w = post (getStatus E i) w"
| "upload_exec E (ReqAbort i) w = post (upload_abort E i) w"
| "upload_exec E (ReqFinish i subdir) w = post (finish E i subdir) w"
| "upload_exec E (ReqTick d) w = w\<lparr>uw_now := uw_now w + d\<rparr>"

text \<open>\<open>F i\<close> is the file the trusted client of session \<open>i\<close> sends.\<close>

fun faithful :: "('st, 'rm, 'd) upload_env \<Rightarrow> files \<Rightarrow> ('st, 'rm, 'd) upload_world \<Rightarrow> upload_request \<Rightarrow> bool" where
  "faithful E F w (ReqInit input userId) \<longleftrightarrow>
     (\<forall>f. F (ue_uuid E (uw_ctr w)) = Some f \<longrightarrow> ii_size input = int (length f))"
| "faithful E F w (ReqChunk i k b) \<longleftrightarrow> honest (ue_cfg E) F i k b"
| "faithful E F w (ReqTick d) \<longleftrightarrow> 0 \<le> d"
| "faithful E F w _ \<longleftrightarrow> True"

inductive upload_reach :: "('st, 'rm, 'd) upload_env \<Rightarrow> files \<Rightarrow> ('st, 'rm, 'd) upload_world \<Rightarrow> ('st, 'rm, 'd) upload_world \<Rightarrow> bool"
  for E :: "('st, 'rm, 'd) upload_env" and F :: files and w0 :: "('st, 'rm, 'd) upload_world" where
  start: "upload_reach E F w0 w0"
| step: "upload_reach E F w0 w \<Longrightarrow> faithful E F w q \<Longrightarrow> upload_reach E F w0 (upload_exec E q w)"

inductive_cases upload_reachE: "upload_reach E F w0 w"

text \<open>A list of requests, one after the other.\<close>

fun upload_runs :: "('st, 'rm, 'd) upload_env \<Rightarrow> upload_request list \<Rightarrow> ('st, 'rm, 'd) upload_world \<Rightarrow> ('st, 'rm, 'd) upload_world" where
  "upload_runs E [] w = w"
| "upload_runs E (q # qs) w = upload_runs E qs (upload_exec E q w)"

fun all_faithful :: "('st, 'rm, 'd) upload_env \<Rightarrow> files \<Rightarrow> ('st, 'rm, 'd) upload_world \<Rightarrow> upload_request list \<Rightarrow> bool" where
  "all_faithful E F w [] \<longleftrightarrow> True"
| "all_faithful E F w (q # qs) \<longleftrightarrow> faithful E F w q \<and> all_faithful E F (upload_exec E q w) qs"

lemma reach_runs: "upload_reach E F w0 w \<Longrightarrow> all_faithful E F w qs \<Longrightarrow> upload_reach E F w0 (upload_runs E qs w)"
  by (induction qs arbitrary: w) (auto intro: upload_reach.step)

lemma hoare_post:
  assumes "hoare P m (\<lambda>_. Q) (\<lambda>_. Q)" and "P s"
  shows "Q (post m s)"
proof (cases "m s")
  case (Pair x s')
  with assms show ?thesis by (cases x) (auto simp: post_def dest: hoare_ok hoare_err)
qed

context upload_service
begin

lemma tick_inv:
  assumes "inv F w" and "0 \<le> d"
  shows "inv F (w\<lparr>uw_now := uw_now w + d\<rparr>)"
proof -
  have "ok (uw_now w + d) (uw_store w) \<and> view (uw_now w + d) (uw_store w) \<subseteq>\<^sub>m view (uw_now w) (uw_store w)"
    using assms by (intro advance) (auto simp: inv_def)
  then show ?thesis
    using assms(1) unfolding inv_def sessions_def map_le_def by (auto, metis domI, metis domI)
qed

lemma hoare_inv:
  assumes "\<And>V Ob. hoare (at_rest F V Ob) m (\<lambda>_. inv F) (\<lambda>_. inv F)" and "inv F w"
  shows "inv F (post m w)"
  by (rule hoare_post [OF assms(1)], rule at_rest_of, rule assms(2))

lemma finish_inv: "hoare (at_rest F V Ob) (finish E i subdir) (\<lambda>_. inv F) (\<lambda>_. inv F)"
proof (cases "V i")
  case None
  show ?thesis
    by (rule hoare_conseq [OF h_finish_none [where V = V and Ob = Ob, OF None]]) (auto simp: rest_def)
next
  case (Some s)
  show ?thesis
    by (rule hoare_conseq [OF h_finish [where V = V and Ob = Ob, OF Some]]) (auto simp: finished_def at_rest_def rest_def spoilt_def)
qed

lemma exec_inv:
  assumes i: "inv F w" and f: "faithful E F w q"
  shows "inv F (upload_exec E q w)"
proof (cases q)
  case (ReqInit input userId)
  have "hoare (\<lambda>v. at_rest F (sessions w) (objects (uw_remote w)) v \<and> announced F input v) (upload_init E input userId) (\<lambda>_. inv F) (\<lambda>_. inv F)"
    by (rule hoare_conseq [OF h_init]) (auto simp: opened_def at_rest_def rest_def)
  from hoare_post [OF this, of w] show ?thesis
    using i f ReqInit at_rest_of [OF i] by (simp add: announced_def)
next
  case (ReqChunk j k b)
  have hb: "honest (ue_cfg E) F j k b" using f ReqChunk by simp
  have "hoare (rest F (objects (uw_remote w))) (writeChunk E j k b) (\<lambda>_. inv F) (\<lambda>_. inv F)"
    by (rule hoare_conseq [OF h_writeChunk_rest [OF hb]]) (auto simp: rest_def)
  from hoare_post [OF this, of w] show ?thesis using i ReqChunk by (simp add: rest_def)
next
  case (ReqStatus j)
  have "hoare (rest F (objects (uw_remote w))) (getStatus E j) (\<lambda>_. inv F) (\<lambda>_. inv F)"
    by (rule hoare_conseq [OF h_status]) (auto simp: rest_def)
  from hoare_post [OF this, of w] show ?thesis using i ReqStatus by (simp add: rest_def)
next
  case (ReqAbort j)
  have "hoare (at_rest F V Ob) (upload_abort E j) (\<lambda>_. inv F) (\<lambda>_. inv F)" for V Ob
    by (rule hoare_conseq [OF h_abort [where V = V and Ob = Ob]]) (auto simp: at_rest_def rest_def)
  from hoare_inv [OF this i] show ?thesis using ReqAbort by simp
next
  case (ReqFinish j subdir)
  from hoare_inv [OF finish_inv i] show ?thesis using ReqFinish by simp
next
  case (ReqTick d)
  then show ?thesis using tick_inv [OF i] f by simp
qed

lemma inv_start: "ok (uw_now w0) (uw_store w0) \<Longrightarrow> view (uw_now w0) (uw_store w0) = Map.empty \<Longrightarrow> inv F w0"
  by (simp add: inv_def sessions_def)

lemma reach_inv:
  assumes "upload_reach E F w0 w" and "ok (uw_now w0) (uw_store w0)" and "view (uw_now w0) (uw_store w0) = Map.empty"
  shows "inv F w"
  using assms(1)
  by (induction rule: upload_reach.induct) (simp_all add: inv_start [OF assms(2, 3)] exec_inv)

section \<open>What a run shows\<close>

lemma finish_stores:
  assumes r: "inv F w" and "finish E i subdir w = (Inr r, w')" and "F i = Some f"
  shows "objects (uw_remote w') = (objects (uw_remote w))(fr_path r \<mapsto> f) \<and> fr_size r = int (length f) \<and>
    view (uw_now w') (uw_store w') i = None"
proof -
  note a = at_rest_of [OF r]
  obtain s where s: "sessions w i = Some s"
    using hoare_ok [OF h_finish_none [where V = "sessions w"] a assms(2)] by (cases "sessions w i") auto
  have "finished F i (sessions w) (objects (uw_remote w)) r w'"
    by (rule hoare_ok [OF h_finish [where V = "sessions w", OF s] a assms(2)])
  then show ?thesis using assms(3) by (auto simp: finished_def at_rest_def rest_def sessions_def)
qed

lemma finish_records:
  assumes r: "inv F w" and "finish E i subdir w = (Inr r, w')"
  shows "\<exists>(s::UploadStatus) db0. ue_createFile E \<lparr>cf_userId = us_userId s, cf_filename = us_filename s, cf_mime = fr_mime r,
     cf_size = fr_size r, cf_path = fr_path r, cf_url = buildPublicUrl (ue_cfg E) (fr_path r), cf_status = Some ''uploaded''\<rparr> db0
       = (Inr (fr_id r), uw_db w')"
proof -
  note a = at_rest_of [OF r]
  obtain s where s: "sessions w i = Some s"
    using hoare_ok [OF h_finish_none [where V = "sessions w"] a assms(2)] by (cases "sessions w i") auto
  have "finished F i (sessions w) (objects (uw_remote w)) r w'"
    by (rule hoare_ok [OF h_finish [where V = "sessions w", OF s] a assms(2)])
  then obtain s where s: "recorded s (fr_path r) (fr_url r) (fr_id r) (uw_db w')" "fr_url r = buildPublicUrl (ue_cfg E) (fr_path r)"
    "us_size s = fr_size r" "us_mime s = fr_mime r" unfolding finished_def by blast
  show ?thesis
    using s(1) unfolding recorded_def s(2-4) by blast
qed

lemma finish_failure:
  assumes r: "inv F w" and "finish E i subdir w = (Inl e, w')"
  shows "\<exists>rp. \<forall>q. q \<noteq> rp \<longrightarrow> objects (uw_remote w') q = objects (uw_remote w) q"
proof -
  note a = at_rest_of [OF r]
  have "spoilt F (objects (uw_remote w)) w'"
  proof (cases "sessions w i")
    case None
    then show ?thesis using hoare_err [OF h_finish_none [where V = "sessions w", OF None] a assms(2)] by (rule_tac rest_spoilt)
  next
    case (Some s)
    then show ?thesis using hoare_err [OF h_finish [where V = "sessions w", OF Some] a assms(2)] by simp
  qed
  then show ?thesis by (simp add: spoilt_def)
qed

lemma chunk_effect:
  assumes r: "inv F w" and "writeChunk E i k b w = (Inr r, w')" and hon: "honest (ue_cfg E) F i k b"
    and s: "view (uw_now w) (uw_store w) i = Some s"
  shows "\<exists>t. chunk_counted k s r t \<and> view (uw_now w') (uw_store w') = (view (uw_now w) (uw_store w))(i \<mapsto> t)"
proof -
  note a = at_rest_of [OF r]
  have "after_chunk F i (sessions w) (objects (uw_remote w)) k s r w'"
    by (rule hoare_ok [OF h_writeChunk [where V = "sessions w", OF hon] a assms(2)]) (use s in \<open>simp add: sessions_def\<close>)
  then show ?thesis by (auto simp: after_chunk_def at_rest_def sessions_def)
qed

text \<open>The bytes that are in the temporary file.\<close>

lemma received_bytes:
  assumes "inv F w" and "view (uw_now w) (uw_store w) i = Some s" and "collecting (us_state s)" and "F i = Some f"
  shows "\<exists>c. fs_files (uw_fs w) (us_tempPath s) = Some c \<and> length c = length f \<and>
    (\<forall>k \<in> set (us_receivedIndexes s). chunk_of (c_chunkSize (ue_cfg E)) c k = chunk_of (c_chunkSize (ue_cfg E)) f k)"
proof -
  have "session_ok (ue_cfg E) F i s (fs_files (uw_fs w))"
    using inv_session [OF assms(1), of i s] assms(2) by (simp add: sessions_def)
  then show ?thesis using assms(3, 4) by (auto simp: session_ok_def file_ok_def fixed_ok_def)
qed

end

end
