(* ===== verification/UploadProps.thy ===== *)
theory UploadProps
  imports UploadRun
begin

text \<open>
  The properties of the upload service. They hold for every state store that satisfies
  \<open>upload_store\<close> and every driver that satisfies \<open>storage_driver\<close>; the witnesses run the
  service on the in-memory store and the fake driver of the repository's tests.
\<close>

section \<open>A concrete service for the witnesses\<close>

definition up_uuid :: "nat \<Rightarrow> string" where
  "up_uuid n = ''upload-id-'' @ nat_str n"

definition up_cfg :: UploadConfig where
  "up_cfg = \<lparr>c_tmpDir = ''/tmp'', c_chunkSize = 4, c_ttlSeconds = 60, c_maxSizeBytes = 100,
     c_cdnBaseUrl = ''http://cdn/'', c_publicRoot = ''/public'', c_publicSubdir = None, c_baseDir = None,
     c_allowedExts = None, c_allowedMime = None, c_filenamePolicy = None, c_retry = None, c_keepTempOnError = None\<rparr>"

text \<open>The table of files is the list of what was recorded.\<close>

definition up_create :: "CreateFileInput \<Rightarrow> (CreateFileInput list, string) eff" where
  "up_create r db = (Inr (''file-'' @ nat_str (length db)), db @ [r])"

definition up_env :: "(mem_store, fake_storage, CreateFileInput list) upload_env" where
  "up_env = \<lparr>ue_cfg = up_cfg, ue_store = mem_ops True, ue_storage = fake_storage_ops, ue_uuid = up_uuid,
     ue_fileType = (\<lambda>b. Inr None), ue_createFile = up_create, ue_server = True, ue_development = False\<rparr>"

definition no_status :: UploadStatus where
  "no_status = \<lparr>us_uploadId = [], us_userId = [], us_filename = [], us_mime = [], us_size = 0, us_chunkSize = 0,
     us_totalChunks = 0, us_receivedBytes = 0, us_receivedIndexes = [], us_state = Init, us_createdAt = 0,
     us_expiresAt = 0, us_version = 0, us_tempPath = [], us_remoteRelativePath = None\<rparr>"

definition up_world :: "(mem_store, fake_storage, CreateFileInput list) upload_world" where
  "up_world = \<lparr>uw_store = mem_new, uw_fs = \<lparr>fs_files = Map.empty, fs_denied = (\<lambda>p. False)\<rparr>, uw_remote = fake_storage_new,
     uw_db = [], uw_now = 1000, uw_ctr = 0, uw_events = [], uw_sleeps = [], uw_s = no_status\<rparr>"

lemma nat_str_inj: "nat_str m = nat_str n \<Longrightarrow> m = n"
  by (metis digits_val_nat_str)

lemma nat_str_no_slash: "slash \<notin> set (nat_str n)"
  using nat_str_digits [of n] by (auto simp: list_all_iff slash_def is_digit_def)

lemma up_uuid_no_slash: "slash \<notin> set (up_uuid n)"
  using nat_str_no_slash by (auto simp: up_uuid_def slash_def)

lemma join_tmp:
  assumes "slash \<notin> set s" and "s \<noteq> []" and "s \<noteq> ''.''" and "s \<noteq> ''..''"
  shows "posix_join [''/tmp'', s] = ''/tmp/'' @ s"
proof -
  have l: "last s \<noteq> slash" using assms(1, 2) last_in_set by metis
  have sp: "split_on slash (''/tmp/'' @ s) = [[], ''tmp'', s]"
    using split_on_append [of slash "''/tmp''" s] assms(1)
    by (simp add: slash_def split_on_free)
  have n: "norm_segments True [[], ''tmp'', s] = [''tmp'', s]"
    using assms by (simp add: norm_segments_def norm_step_def)
  have j: "join_with [slash] [''/tmp'', s] = ''/tmp/'' @ s" by (simp add: slash_def)
  have f: "filter (\<lambda>p. p \<noteq> []) [''/tmp'', s] = [''/tmp'', s]" using assms(2) by simp
  show ?thesis
    unfolding posix_join_def f j Let_def
    using sp n l assms(2)
    by (simp add: posix_normalize_def Let_def is_absolute_def slash_def)
qed

lemma up_temp_path: "temp_path up_cfg (up_uuid n) = ''/tmp/'' @ up_uuid n @ ''.part''"
proof -
  have "slash \<notin> set (up_uuid n @ ''.part'')" using up_uuid_no_slash [of n] by (simp add: slash_def)
  then have "posix_join [''/tmp'', up_uuid n @ ''.part''] = ''/tmp/'' @ up_uuid n @ ''.part''"
    by (rule join_tmp) (simp_all add: up_uuid_def)
  then show ?thesis by (simp only: temp_path_def up_cfg_def UploadConfig.simps)
qed

interpretation up: upload_service "mem_ops True" mem_ok mem_view mem_held fake_storage_ops fk_uploaded up_env
proof unfold_locales
  show "ue_store up_env = mem_ops True" "ue_storage up_env = fake_storage_ops" by (simp_all add: up_env_def)
  show "\<exists>pc. st_patchCAS (mem_ops True) = Some pc" by (simp add: mem_ops_def)
  show "0 < c_chunkSize (ue_cfg up_env)" "0 < c_ttlSeconds (ue_cfg up_env)" by (simp_all add: up_env_def up_cfg_def)
  show "inj (ue_uuid up_env)" "\<And>n. plain_upload (ue_uuid up_env n)"
    by (auto simp: up_env_def up_uuid_def inj_def plain_upload_def dest: nat_str_inj)
  show "ue_fileType up_env b = Inr (Some m) \<Longrightarrow> m \<noteq> []" for b m by (simp add: up_env_def)
  show "inj (\<lambda>n. temp_path (ue_cfg up_env) (ue_uuid up_env n))" "\<And>n. temp_path (ue_cfg up_env) (ue_uuid up_env n) \<noteq> []"
  proof -
    have e: "ue_cfg up_env = up_cfg" "ue_uuid up_env = up_uuid" by (simp_all add: up_env_def)
    show "inj (\<lambda>n. temp_path (ue_cfg up_env) (ue_uuid up_env n))" "\<And>n. temp_path (ue_cfg up_env) (ue_uuid up_env n) \<noteq> []"
      unfolding e up_temp_path by (auto simp: up_uuid_def inj_def dest: nat_str_inj)
  qed
qed

text \<open>A client sends a file of six bytes in two chunks, the last one first, and the first one twice.\<close>

definition up_file :: "byte list" where
  "up_file = [1, 2, 3, 4, 5, 6]"

definition up_files :: files where
  "up_files = [''upload-id-0'' \<mapsto> up_file]"

definition up_requests :: "upload_request list" where
  "up_requests = [ReqInit \<lparr>ii_filename = ''a.bin'', ii_size = 6, ii_mime = None\<rparr> ''u1'',
     ReqChunk ''upload-id-0'' 1 [5, 6], ReqTick 10, ReqChunk ''upload-id-0'' 0 [1, 2, 3, 4]]"

text \<open>The states of this run.\<close>

definition up_st0 :: UploadStatus where
  "up_st0 = \<lparr>us_uploadId = ''upload-id-0'', us_userId = ''u1'', us_filename = ''a.bin'', us_mime = ''application/octet-stream'',
     us_size = 6, us_chunkSize = 4, us_totalChunks = 2, us_receivedBytes = 0, us_receivedIndexes = [], us_state = Init,
     us_createdAt = 1000, us_expiresAt = 61000, us_version = 1, us_tempPath = ''/tmp/upload-id-0.part'', us_remoteRelativePath = None\<rparr>"

definition up_st1 :: UploadStatus where
  "up_st1 = up_st0\<lparr>us_receivedBytes := 6, us_receivedIndexes := [1], us_state := Receiving, us_version := 3\<rparr>"

definition up_st2 :: UploadStatus where
  "up_st2 = up_st1\<lparr>us_receivedIndexes := [0, 1], us_version := 4, us_expiresAt := 61010\<rparr>"

type_synonym up_state = "(mem_store, fake_storage, CreateFileInput list) upload_world"

definition up_w1 :: up_state where
  "up_w1 = up_world\<lparr>uw_ctr := 1, uw_fs := \<lparr>fs_files = [''/tmp/upload-id-0.part'' \<mapsto> [0, 0, 0, 0, 0, 0]], fs_denied = (\<lambda>p. False)\<rparr>,
     uw_store := \<lparr>ms_items = [''upload-id-0'' \<mapsto> up_st0], ms_locks = \<lambda>_. False\<rparr>\<rparr>"

definition up_w2 :: up_state where
  "up_w2 = up_w1\<lparr>uw_fs := \<lparr>fs_files = [''/tmp/upload-id-0.part'' \<mapsto> [0, 0, 0, 0, 5, 6]], fs_denied = (\<lambda>p. False)\<rparr>,
     uw_store := \<lparr>ms_items = [''upload-id-0'' \<mapsto> up_st1], ms_locks = \<lambda>_. False\<rparr>, uw_s := up_st1\<rparr>"

definition up_w3 :: up_state where
  "up_w3 = up_w2\<lparr>uw_fs := \<lparr>fs_files = [''/tmp/upload-id-0.part'' \<mapsto> [1, 2, 3, 4, 5, 6]], fs_denied = (\<lambda>p. False)\<rparr>,
     uw_store := \<lparr>ms_items = [''upload-id-0'' \<mapsto> up_st2], ms_locks = \<lambda>_. False\<rparr>,
     uw_s := up_st2\<lparr>us_expiresAt := 61000\<rparr>, uw_now := 1010\<rparr>"

lemmas up_states = up_world_def up_st0_def up_st1_def up_st2_def up_w1_def up_w2_def up_w3_def

lemma up_env_simps: "ue_cfg up_env = up_cfg" "ue_uuid up_env = up_uuid" "ue_store up_env = mem_ops True"
  "ue_fileType up_env b = Inr None" "ue_storage up_env = fake_storage_ops" "ue_createFile up_env = up_create"
  "ue_server up_env" "\<not> ue_development up_env"
  by (simp_all add: up_env_def)

lemma up_cfg_simps: "c_tmpDir up_cfg = ''/tmp''" "c_chunkSize up_cfg = 4" "c_ttlSeconds up_cfg = 60" "c_maxSizeBytes up_cfg = 100"
  "c_allowedExts up_cfg = None" "c_allowedMime up_cfg = None" "c_retry up_cfg = None" "c_keepTempOnError up_cfg = None"
  "c_cdnBaseUrl up_cfg = ''http://cdn/''" "c_publicSubdir up_cfg = None" "c_baseDir up_cfg = None" "c_filenamePolicy up_cfg = None"
  by (simp_all add: up_cfg_def)

lemma up_strings: "up_uuid 0 = ''upload-id-0''" "up_uuid (Suc 0) = ''upload-id-1''"
  "posix_join [''/tmp'', ''upload-id-0.part''] = ''/tmp/upload-id-0.part''"
  "js_lower (js_trim ''application/octet-stream'') = ''application/octet-stream''"
  "js_lower ''application/octet-stream'' = ''application/octet-stream''" "mime_alias ''application/octet-stream'' = None"
  "relative_dir up_cfg None 1010 = ''uploads/1970-01-01''"
  "final_name up_cfg ''a.bin'' ''application/octet-stream'' = ''a.bin''"
  by code_simp+

lemmas up_store_defs = mem_ops_def mem_create_def mem_get_def mem_patchCAS_def mem_merge_def mem_acquire_def mem_release_def
  mem_touch_def mem_delete_def mem_new_def

lemmas up_eval = exec up_env_simps up_cfg_simps up_strings post_def Let_def fsM_def nowM_def storeM_def snapM_def setS_def uuidM_def
  up_store_defs fs_create_def fs_write_at_def overlay_def fs_rm_def fs_stat_def
  withStoreLock_def mustGetActive_def assertNotExpired_def patchAndSync_def patch_def spread_def no_patch_def sync_def
  upload_init_def isAllowedExt_def ceil_div_def writeChunk_def writeChunk_run_def not_writable_def assertChunkLength_def
  expected_length_def sniffFirst_def returnE_def detected_of_def storeChunk_def touchIfSupported_def numeral_eq_Suc fun_upd_idem

lemma up_step1: "upload_exec up_env (ReqInit \<lparr>ii_filename = ''a.bin'', ii_size = 6, ii_mime = None\<rparr> ''u1'') up_world = up_w1"
  by (simp add: up_eval up_states)

lemma up_step2: "upload_exec up_env (ReqChunk ''upload-id-0'' 1 [5, 6]) up_w1 = up_w2"
  by (simp add: up_eval up_states)

lemma up_step3: "upload_exec up_env (ReqChunk ''upload-id-0'' 0 [1, 2, 3, 4]) (upload_exec up_env (ReqTick 10) up_w2) = up_w3"
  by (simp add: up_eval up_states)

lemma up_run: "upload_runs up_env up_requests up_world = up_w3"
  by (simp only: up_requests_def upload_runs.simps up_step1 up_step2 up_step3)

lemma up_faithful: "all_faithful up_env up_files up_world up_requests"
proof -
  have "faithful up_env up_files up_world (ReqInit \<lparr>ii_filename = ''a.bin'', ii_size = 6, ii_mime = None\<rparr> ''u1'')"
    by (simp add: up_env_simps up_strings up_files_def up_file_def up_world_def)
  moreover have "honest up_cfg up_files ''upload-id-0'' 1 [5, 6]" "honest up_cfg up_files ''upload-id-0'' 0 [1, 2, 3, 4]"
    by (simp_all add: honest_def up_files_def up_file_def chunk_of_def up_cfg_simps)
  ultimately show ?thesis
    by (simp only: up_requests_def all_faithful.simps up_step1 up_step2) (simp add: up_env_simps)
qed

lemma up_reach: "upload_reach up_env up_files up_world up_w3"
  using reach_runs [OF upload_reach.start up_faithful] by (simp only: up_run)

lemma up_start: "mem_ok (uw_now up_world) (uw_store up_world)" "mem_view (uw_now up_world) (uw_store up_world) = Map.empty"
  by (simp_all add: up_world_def mem_ok_def mem_view_def mem_new_def)

lemmas up_finish_defs = finish_def finish_run_def assertAllChunksReceived_def first_missing_def upt_rec sniffFile_def finish_send_def
  recordFile_def media_createFile_def tableM_def up_create_def deleteState_def emitM_def sendFile_def send_body_def
  assertTempReady_def ensureRemoteDir_def fake_storage_ops_def remoteM_def fake_ensureDir_def uploadWithRetry_def
  uploadFileM_def fake_uploadFile_def safeRemoveTemp_def

lemma up_finish:
  obtains r w' where "finish up_env ''upload-id-0'' None up_w3 = (Inr r, w')" and "fr_path r = ''uploads/1970-01-01/upload-id-1-a.bin''"
proof -
  have "\<exists>r w'. finish up_env ''upload-id-0'' None up_w3 = (Inr r, w') \<and> fr_path r = ''uploads/1970-01-01/upload-id-1-a.bin''"
    by (simp add: up_eval up_states up_finish_defs)
  with that show ?thesis by blast
qed

section \<open>Properties\<close>

text \<open>
  C9: end-to-end integrity of an upload. Whatever requests have been served, in whatever order,
  on this session and on others, a \<open>finish\<close> that succeeds has stored exactly the client's file
  under the path it answers, has changed no other object, answers its length and has ended the
  session. The client is trusted to send the chunks of its file, each any number of times and in
  any order; the requests of other clients are arbitrary.
\<close>

theorem upload_integrity:
  assumes "upload_service S ok view held D objects E"
    and "upload_reach E F w0 w" and "ok (uw_now w0) (uw_store w0)" and "view (uw_now w0) (uw_store w0) = Map.empty"
    and "F i = Some f" and "finish E i subdir w = (Inr r, w')"
  shows "objects (uw_remote w') = (objects (uw_remote w))(fr_path r \<mapsto> f) \<and> fr_size r = int (length f) \<and>
    view (uw_now w') (uw_store w') i = None"
  by (rule upload_service.finish_stores [OF assms(1) upload_service.reach_inv [OF assms(1-4)] assms(6, 5)])

theorem upload_integrity_witness:
  "\<exists>r w'. finish up_env ''upload-id-0'' None (upload_runs up_env up_requests up_world) = (Inr r, w') \<and>
    fk_uploaded (uw_remote w') ''uploads/1970-01-01/upload-id-1-a.bin'' = Some [1, 2, 3, 4, 5, 6]"
proof -
  obtain r w' where f: "finish up_env ''upload-id-0'' None up_w3 = (Inr r, w')" and p: "fr_path r = ''uploads/1970-01-01/upload-id-1-a.bin''"
    by (rule up_finish)
  have "up_files ''upload-id-0'' = Some up_file" by (simp add: up_files_def)
  from upload_integrity [OF up.upload_service_axioms up_reach up_start this f] f p show ?thesis
    unfolding up_run up_file_def by simp
qed

text \<open>
  C10: in every state a run reaches, the temporary file of a session that is being received has
  the length of the file, and every chunk counted in \<open>receivedIndexes\<close> is the chunk of the
  file.
\<close>

theorem received_chunks_kept:
  assumes "upload_service S ok view held D objects E"
    and "upload_reach E F w0 w" and "ok (uw_now w0) (uw_store w0)" and "view (uw_now w0) (uw_store w0) = Map.empty"
    and "view (uw_now w) (uw_store w) i = Some s" and "collecting (us_state s)" and "F i = Some f"
  shows "\<exists>c. fs_files (uw_fs w) (us_tempPath s) = Some c \<and> length c = length f \<and>
    (\<forall>k \<in> set (us_receivedIndexes s). chunk_of (c_chunkSize (ue_cfg E)) c k = chunk_of (c_chunkSize (ue_cfg E)) f k)"
  by (rule upload_service.received_bytes [OF assms(1) upload_service.reach_inv [OF assms(1-4)] assms(5-7)])

theorem received_chunks_kept_witness:
  "\<exists>c. fs_files (uw_fs up_w3) ''/tmp/upload-id-0.part'' = Some c \<and> length c = 6"
proof -
  have "mem_view (uw_now up_w3) (uw_store up_w3) ''upload-id-0'' = Some up_st2" by (simp add: up_w3_def mem_view_def)
  moreover have "collecting (us_state up_st2)" "up_files ''upload-id-0'' = Some up_file" "us_tempPath up_st2 = ''/tmp/upload-id-0.part''"
    "length up_file = 6"
    by (simp_all add: up_states collecting_def up_files_def up_file_def)
  ultimately show ?thesis
    using received_chunks_kept [OF up.upload_service_axioms up_reach up_start] by fastforce
qed

text \<open>
  A successful \<open>writeChunk\<close> adds its index to the session's received indexes, moves the
  session to \<open>receiving\<close>, answers what it stored, and changes no other session.
\<close>

theorem chunk_recorded:
  assumes "upload_service S ok view held D objects E"
    and "upload_reach E F w0 w" and "ok (uw_now w0) (uw_store w0)" and "view (uw_now w0) (uw_store w0) = Map.empty"
    and "honest (ue_cfg E) F i k b" and "writeChunk E i k b w = (Inr r, w')" and "view (uw_now w) (uw_store w) i = Some s"
  shows "\<exists>t. us_state t = Receiving \<and> set (us_receivedIndexes t) = insert k (set (us_receivedIndexes s)) \<and>
    us_size t = us_size s \<and> us_tempPath t = us_tempPath s \<and> cr_receivedIndex r = k \<and> cr_receivedBytes r = us_receivedBytes t \<and>
    cr_percent r = percent_of t (us_receivedIndexes t) \<and>
    view (uw_now w') (uw_store w') = (view (uw_now w) (uw_store w))(i \<mapsto> t)"
  using upload_service.chunk_effect [OF assms(1) upload_service.reach_inv [OF assms(1-4)] assms(6, 5, 7)]
  by (auto simp: chunk_counted_def)

theorem chunk_recorded_witness:
  "\<exists>r w'. writeChunk up_env ''upload-id-0'' 0 [1, 2, 3, 4] up_w3 = (Inr r, w') \<and> cr_receivedIndex r = 0"
proof -
  have "\<exists>r w'. writeChunk up_env ''upload-id-0'' 0 [1, 2, 3, 4] up_w3 = (Inr r, w')"
    by (simp add: up_eval up_states)
  then obtain r w' where c: "writeChunk up_env ''upload-id-0'' 0 [1, 2, 3, 4] up_w3 = (Inr r, w')" by blast
  have "honest (ue_cfg up_env) up_files ''upload-id-0'' 0 [1, 2, 3, 4]"
    by (simp add: honest_def up_files_def up_file_def chunk_of_def up_cfg_simps up_env_simps)
  moreover have "mem_view (uw_now up_w3) (uw_store up_w3) ''upload-id-0'' = Some up_st2" by (simp add: up_w3_def mem_view_def)
  ultimately show ?thesis
    using chunk_recorded [OF up.upload_service_axioms up_reach up_start _ c] c by blast
qed



text \<open>The record of a finished upload says what was answered: its path, URL, length and MIME type.\<close>

theorem finish_recorded:
  assumes "upload_service S ok view held D objects E"
    and "upload_reach E F w0 w" and "ok (uw_now w0) (uw_store w0)" and "view (uw_now w0) (uw_store w0) = Map.empty"
    and "finish E i subdir w = (Inr r, w')"
  shows "\<exists>(s::UploadStatus) db0. ue_createFile E \<lparr>cf_userId = us_userId s, cf_filename = us_filename s, cf_mime = fr_mime r,
     cf_size = fr_size r, cf_path = fr_path r, cf_url = buildPublicUrl (ue_cfg E) (fr_path r), cf_status = Some ''uploaded''\<rparr> db0
       = (Inr (fr_id r), uw_db w')"
  by (rule upload_service.finish_records [OF assms(1) upload_service.reach_inv [OF assms(1-4)] assms(5)])

theorem finish_recorded_witness:
  "\<exists>r w' c. finish up_env ''upload-id-0'' None up_w3 = (Inr r, w') \<and> cf_path c = ''uploads/1970-01-01/upload-id-1-a.bin'' \<and>
    last (uw_db w') = c"
proof -
  obtain r w' where f: "finish up_env ''upload-id-0'' None up_w3 = (Inr r, w')" and p: "fr_path r = ''uploads/1970-01-01/upload-id-1-a.bin''"
    by (rule up_finish)
  from finish_recorded [OF up.upload_service_axioms up_reach up_start f] obtain c db0
    where "up_create c db0 = (Inr (fr_id r), uw_db w')" "cf_path c = fr_path r" by (auto simp: up_env_simps)
  then have "last (uw_db w') = c" by (auto simp: up_create_def dest: sym)
  moreover have "cf_path c = ''uploads/1970-01-01/upload-id-1-a.bin''" using p \<open>cf_path c = fr_path r\<close> by simp
  ultimately show ?thesis using f by blast
qed

end
