(* ===== verification/UploadSafety.thy ===== *)
theory UploadSafety
  imports UploadProps
begin

text \<open>
  Further properties of the upload service: the remote path stays below its directory whatever
  the client calls its file, the retry loop is bounded and backs off exponentially, and an
  incomplete upload is refused.
\<close>

section \<open>Remote paths\<close>

lemma join_append: "xs \<noteq> [] \<Longrightarrow> ys \<noteq> [] \<Longrightarrow> join_with sep (xs @ ys) = join_with sep xs @ sep @ join_with sep ys"
proof (induction sep xs rule: join_with.induct)
  case (2 sep x)
  then show ?case by (cases ys) simp_all
qed simp_all

lemma join_nonempty: "x \<in> set xs \<Longrightarrow> x \<noteq> [] \<Longrightarrow> join_with sep xs \<noteq> []"
  by (induction sep xs rule: join_with.induct) auto

lemma join_chars: "c \<in> set (join_with sep xs) \<Longrightarrow> c \<in> set sep \<or> (\<exists>x \<in> set xs. c \<in> set x)"
  by (induction sep xs rule: join_with.induct) auto

lemma split_chars: "p \<in> set (split_on d s) \<Longrightarrow> c \<in> set p \<Longrightarrow> c \<in> set s"
proof (induction s arbitrary: p)
  case (Cons x xs)
  obtain q qs where q: "split_on d xs = q # qs" by (cases "split_on d xs") auto
  then show ?case using Cons.IH [of q] Cons.IH [of p] Cons.prems by (auto split: if_splits)
qed simp

definition safe_segment :: "string \<Rightarrow> bool" where
  "safe_segment s \<longleftrightarrow> s \<noteq> [] \<and> s \<noteq> ''.'' \<and> s \<noteq> ''..'' \<and> slash \<notin> set s"

lemma js_trim_chars: "c \<in> set (js_trim s) \<Longrightarrow> c \<in> set s"
  by (auto simp: js_trim_def dest!: set_dropWhileD)

lemma sanitize_safe: "s \<in> set (sanitizePathSegments input) \<Longrightarrow> safe_segment s"
  by (auto simp: sanitizePathSegments_def safe_segment_def dest!: js_trim_chars split_on_parts)

text \<open>The directory, as its segments.\<close>

lemma relative_dir_segments:
  obtains segs where "segs \<noteq> []" and "list_all safe_segment segs" and "relative_dir cfg subdir now = join_with [slash] segs"
proof -
  define P where "P = sanitizePathSegments (orElse (c_publicSubdir cfg) [])"
  define B where "B = (let s = sanitizePathSegments (orElse (c_baseDir cfg) (orElse subdir ''uploads'')) in if s \<noteq> [] then s else [''uploads''])"
  have safe: "list_all safe_segment (P @ B @ [iso_date now])"
  proof -
    have "list_all safe_segment P" by (auto simp: P_def list_all_iff intro: sanitize_safe)
    moreover have "list_all safe_segment B"
      by (auto simp: B_def Let_def list_all_iff safe_segment_def slash_def dest: sanitize_safe [unfolded safe_segment_def slash_def])
    moreover have "safe_segment (iso_date now)"
      using iso_date_chars [of slash now] iso_date_nonempty [of now] iso_date_chars [of "CHR ''.''" now]
      by (auto simp: safe_segment_def slash_def is_digit_def)
    ultimately show ?thesis by simp
  qed
  have sl: "''/'' = [slash]" by (simp add: slash_def)
  have B: "B \<noteq> []" by (simp add: B_def Let_def)
  have b: "normalizeSubdir (orElse (c_baseDir cfg) (orElse subdir ''uploads'')) = join_with [slash] B"
    by (simp add: normalizeSubdir_def B_def Let_def sl [symmetric])
  have ne: "join_with [slash] B \<noteq> []" "P \<noteq> [] \<Longrightarrow> join_with [slash] P \<noteq> []"
    using B safe join_nonempty [of "hd B" B] join_nonempty [of "hd P" P] by (auto simp: list_all_iff safe_segment_def)
  have "relative_dir cfg subdir now = join_with [slash] (P @ B @ [iso_date now])"
  proof (cases "P = []")
    case True
    then show ?thesis
      using ne B iso_date_nonempty [of now] unfolding relative_dir_def Let_def normalizeOptionalSegment_def P_def [symmetric] b sl
      by (simp add: join_append)
  next
    case False
    then show ?thesis
      using ne B iso_date_nonempty [of now] unfolding relative_dir_def Let_def normalizeOptionalSegment_def P_def [symmetric] b sl
      by (simp add: join_append)
  qed
  with safe B show ?thesis by (intro that [of "P @ B @ [iso_date now]"]) simp_all
qed

lemma strip_ext_chars: "c \<in> set (strip_ext s) \<Longrightarrow> c \<in> set s"
  by (auto simp: strip_ext_def Let_def dest: in_set_takeD split: if_splits)

lemma safeName_chars:
  assumes "c \<in> set (safeName cfg name)"
  shows "name_char c \<or> c \<in> set (case c_filenamePolicy cfg of None \<Rightarrow> ''_'' | Some p \<Rightarrow> orElse (fp_replaceWith p) ''_'')"
proof -
  let ?r = "case c_filenamePolicy cfg of None \<Rightarrow> ''_'' | Some p \<Rightarrow> orElse (fp_replaceWith p) ''_''"
  let ?cl = "concat (map (\<lambda>c. if name_char c then [c] else ?r) name)"
  have cl: "name_char x \<or> x \<in> set ?r" if "x \<in> set ?cl" for x using that by (auto split: if_splits)
  have tok: "name_char x \<or> x \<in> set ?r" if "t \<in> set (split_on (CHR ''.'') ?cl)" "x \<in> set t" for t x
    using split_chars [OF that] cl by blast
  have nc: "name_char x" if "x \<in> set ''file_.''" for x using that by (auto simp: name_char_def is_lower_def)
  have jn: "name_char x \<or> x \<in> set ?r" if "x \<in> set (join_with ''_'' ts)" "set ts \<subseteq> set (split_on (CHR ''.'') ?cl)" for x ts
    using join_chars [OF that(1)] tok that(2) nc by auto
  let ?ok = "\<lambda>t. \<forall>x \<in> set t. name_char x \<or> x \<in> set ?r"
  let ?ts = "split_on (CHR ''.'') ?cl"
  let ?ext = "if length ?ts > 1 then last ?ts else []"
  let ?rest = "if length ?ts > 1 then butlast ?ts else ?ts"
  let ?b0 = "join_with ''_'' ?rest"
  have "last ?ts \<in> set ?ts" by (rule last_in_set) simp
  then have ext: "?ok ?ext" using tok [of "last ?ts"] by simp
  have rest: "set ?rest \<subseteq> set ?ts" by (auto dest: in_set_butlastD)
  have b0: "?ok ?b0" using jn [OF _ rest] by blast
  have tk: "?ok (take n ?b0)" for n using b0 by (meson in_set_takeD)
  have fl: "?ok ''file''" "?ok ''.''" using nc by auto
  have "?ok (safeName cfg name)"
    using ext b0 tk fl unfolding safeName_def Let_def by (simp del: split_on.simps join_with.simps add: ball_Un)
  with assms show ?thesis by blast
qed

lemma mime_ext_no_slash: "MIME_EXTENSION_MAP m = Some e \<Longrightarrow> slash \<notin> set e"
proof -
  assume "MIME_EXTENSION_MAP m = Some e"
  then have "e \<in> set [''jpg'', ''png'', ''webp'', ''svg'', ''mp4'', ''mkv'', ''pdf'', ''zip'', ''rar'']"
    unfolding MIME_EXTENSION_MAP_def by (drule_tac map_of_SomeD) auto
  moreover have "\<forall>x \<in> set [''jpg'', ''png'', ''webp'', ''svg'', ''mp4'', ''mkv'', ''pdf'', ''zip'', ''rar'']. slash \<notin> set x"
    by code_simp
  ultimately show ?thesis by blast
qed

lemma final_name_no_slash:
  assumes "slash \<notin> set (case c_filenamePolicy cfg of None \<Rightarrow> ''_'' | Some p \<Rightarrow> orElse (fp_replaceWith p) ''_'')"
  shows "slash \<notin> set (final_name cfg filename m)"
proof -
  have n: "slash \<notin> set (safeName cfg filename)"
    using safeName_chars [of slash cfg filename] assms by (auto simp: name_char_def slash_def is_lower_def is_upper_def is_digit_def)
  then show ?thesis
    using strip_ext_chars [of slash "safeName cfg filename"] mime_ext_no_slash [of m]
    by (auto simp: final_name_def Let_def slash_def split: option.split)
qed

text \<open>
  C12: whatever the file is called and whatever the configured and requested directories are, the
  path handed to the storage driver is relative and has no segment \<open>.\<close>, \<open>..\<close> or
  empty, so that it stays below the driver's root. The UUID and the replacement text of the file
  name policy must not themselves contain a slash.
\<close>

theorem remote_path_contained:
  assumes "slash \<notin> set uuid"
    and "slash \<notin> set (case c_filenamePolicy cfg of None \<Rightarrow> ''_'' | Some p \<Rightarrow> orElse (fp_replaceWith p) ''_'')"
  shows "list_all safe_segment (split_on slash
    (relative_dir cfg subdir now @ ''/'' @ uuid @ ''-'' @ final_name cfg filename m))"
proof -
  obtain segs where segs: "segs \<noteq> []" "list_all safe_segment segs" "relative_dir cfg subdir now = join_with [slash] segs"
    by (rule relative_dir_segments)
  define g where "g = uuid @ ''-'' @ final_name cfg filename m"
  have g: "safe_segment g"
    using assms(1) final_name_no_slash [OF assms(2)]
    by (auto simp: g_def safe_segment_def slash_def append_eq_Cons_conv)
  have "relative_dir cfg subdir now @ ''/'' @ g = join_with [slash] (segs @ [g])"
    using segs(1, 3) by (simp add: join_append slash_def)
  moreover have "split_on slash (join_with [slash] (segs @ [g])) = segs @ [g]"
    by (rule split_join) (use segs(2) g in \<open>auto simp: list_all_iff safe_segment_def\<close>)
  ultimately show ?thesis using segs(2) g by (simp add: g_def)
qed

theorem remote_path_contained_witness:
  "list_all safe_segment (split_on slash (relative_dir up_cfg (Some ''../../etc/./x'') 0 @ ''/'' @ ''abc'' @ ''-'' @
     final_name up_cfg ''../../passwd'' ''image/png''))"
  by (rule remote_path_contained) (simp_all add: up_cfg_def slash_def)

section \<open>Retries\<close>

text \<open>The delays the loop waits for when every attempt fails.\<close>

definition backoff :: "int \<Rightarrow> nat \<Rightarrow> int list" where
  "backoff d n = map (\<lambda>k. d * 2 ^ k) [0 ..< n - 1]"

lemma retry_exhausted:
  assumes "\<And>w. fn w = (Inl e, w)" and "isTransient e"
  shows "retry_from fn d (Suc k) (Suc n) w = (Inl e, w\<lparr>uw_sleeps := uw_sleeps w @ map (\<lambda>j. d * 2 ^ j) [k ..< k + n]\<rparr>)"
proof (induction n arbitrary: k w)
  case (Suc n)
  show ?case
    using assms Suc.IH [of "Suc k"] by (simp add: exec sleepM_def upt_rec [of k])
qed (simp add: assms exec)

text \<open>
  When every attempt fails with a transient error the loop makes exactly the configured number
  of attempts, waits between them for the base delay doubled each time, and rethrows the error;
  an error that is not transient is rethrown at once.
\<close>

theorem retry_backoff:
  assumes "\<And>w. fn w = (Inl e, w)" and "0 < n"
  shows "uploadWithRetry fn n d w =
    (Inl e, w\<lparr>uw_sleeps := uw_sleeps w @ (if isTransient e then backoff d n else [])\<rparr>)"
proof (cases "isTransient e")
  case True
  obtain m where "n = Suc m" using assms(2) by (cases n) auto
  with True show ?thesis
    using retry_exhausted [OF assms(1) True, of d 0 m w] by (simp add: uploadWithRetry_def backoff_def)
next
  case False
  obtain m where "n = Suc m" using assms(2) by (cases n) auto
  with False show ?thesis by (simp add: uploadWithRetry_def exec assms(1))
qed

theorem retry_backoff_witness:
  "uploadWithRetry (throwM (JsError ''read ECONNRESET'')) 4 800 up_world =
    (Inl (JsError ''read ECONNRESET''), up_world\<lparr>uw_sleeps := [800, 1600, 3200]\<rparr>)"
proof -
  have t: "isTransient (JsError ''read ECONNRESET'')" by code_simp
  have b: "backoff 800 4 = [800, 1600, 3200]" by code_simp
  show ?thesis
    using retry_backoff [of "throwM (JsError ''read ECONNRESET'')" "JsError ''read ECONNRESET''" 4 800 up_world] t b
    by (simp add: throwM_def up_world_def)
qed

section \<open>Refusals\<close>

text \<open>
  C13: \<open>finish\<close> of a session that has not received every chunk is refused with a 400; nothing
  is sent and no session is changed.
\<close>

theorem incomplete_refused:
  assumes "upload_service S ok view held D objects E"
    and "upload_reach E F w0 w" and "ok (uw_now w0) (uw_store w0)" and "view (uw_now w0) (uw_store w0) = Map.empty"
    and "view (uw_now w) (uw_store w) i = Some s" and "uw_now w \<le> us_expiresAt s"
    and "int (length (us_receivedIndexes s)) \<noteq> us_totalChunks s"
  shows "\<exists>w'. finish_run E i subdir w = (Inl (badRequest ''file is incomplete (missing chunks)''), w') \<and>
    uw_remote w' = uw_remote w \<and> uw_fs w' = uw_fs w \<and> view (uw_now w') (uw_store w') = view (uw_now w) (uw_store w)"
proof -
  note inv = upload_service.reach_inv [OF assms(1-4)]
  from upload_service.get_run [OF assms(1) inv, of i]
  obtain w1 where g: "storeM (\<lambda>n. st_get S n i) w = (Inr (upload_service.sessions view w i), w1)"
    "upload_service.sessions view w1 = upload_service.sessions view w" "only_store w w1" by blast
  have se: "upload_service.sessions view w = view (uw_now w) (uw_store w)" "upload_service.sessions view w1 = view (uw_now w1) (uw_store w1)"
    by (simp_all add: upload_service.sessions_def [OF assms(1)])
  have e: "ue_store E = S" by (rule upload_service.env(1) [OF assms(1)])
  have n: "uw_now w1 = uw_now w" "uw_remote w1 = uw_remote w" "uw_fs w1 = uw_fs w" using g(3) by (simp_all add: only_store_def)
  have "finish_run E i subdir w = (Inl (badRequest ''file is incomplete (missing chunks)''), w1\<lparr>uw_s := s\<rparr>)"
    using g(1) assms(5-7) n unfolding se
    by (simp add: finish_run_def mustGetActive_def e assertNotExpired_def nowM_def setS_def assertAllChunksReceived_def exec)
  then show ?thesis using n g(2) unfolding se by auto
qed

theorem incomplete_refused_witness:
  "\<exists>w'. finish_run up_env ''upload-id-0'' None up_w2 = (Inl (badRequest ''file is incomplete (missing chunks)''), w') \<and>
    uw_remote w' = fake_storage_new"
proof -
  have r: "upload_reach up_env up_files up_world up_w2"
    using upload_reach.step [OF upload_reach.step [OF upload_reach.start, of up_env up_files up_world
        "ReqInit \<lparr>ii_filename = ''a.bin'', ii_size = 6, ii_mime = None\<rparr> ''u1''"], of "ReqChunk ''upload-id-0'' 1 [5, 6]"] up_faithful
    unfolding up_requests_def all_faithful.simps up_step1 up_step2 by blast
  have v: "mem_view (uw_now up_w2) (uw_store up_w2) ''upload-id-0'' = Some up_st1" by (simp add: up_w2_def mem_view_def)
  have "uw_now up_w2 \<le> us_expiresAt up_st1" "int (length (us_receivedIndexes up_st1)) \<noteq> us_totalChunks up_st1"
    "uw_remote up_w2 = fake_storage_new"
    by (simp_all add: up_states)
  with incomplete_refused [OF up.upload_service_axioms r up_start v, of None] show ?thesis by auto
qed

end
