(* ===== verification/KvRedis.thy ===== *)
theory KvRedis
  imports AuthWorld
begin

text \<open>
  The Redis commands of the OTP, password and upload-state services, on keys that hold a string
  or a hash. What each command does to the live keys is written out as a pure function
  \<open>c_*\<close> of their map, from the documentation of Redis; the locale \<open>kv_redis\<close> says that a
  client implements these functions, and is interpreted on a server that keeps the map itself.
  The last section shows that a handler over any such client does what it does over that server,
  so that the handlers' properties are proved by running them on maps.
\<close>

section \<open>Keys and values\<close>

datatype rval = RStr string | RHash "(string \<times> string) list"

text \<open>A key holds a value and the time at which it expires, if it does.\<close>

type_synonym kv_map = "string \<Rightarrow> (rval \<times> int option) option"

definition live :: "int \<Rightarrow> kv_map \<Rightarrow> kv_map" where
  "live now V = (\<lambda>k. case V k of
     Some (v, Some e) \<Rightarrow> if e \<le> now then None else V k
   | x \<Rightarrow> x)"

definition all_live :: "int \<Rightarrow> kv_map \<Rightarrow> bool" where
  "all_live now V \<longleftrightarrow> (\<forall>k v e. V k = Some (v, Some e) \<longrightarrow> now < e)"

lemma live_all_live: "all_live now (live now V)"
  by (auto simp: all_live_def live_def split: option.splits prod.splits if_splits)

lemma live_id: "all_live now V \<Longrightarrow> live now V = V"
  by (rule ext) (fastforce simp: all_live_def live_def split: option.splits prod.splits)

lemma live_live: "now \<le> now' \<Longrightarrow> live now' (live now V) = live now' V"
  by (rule ext) (auto simp: live_def split: option.splits prod.splits)

definition wrongtype :: exn where
  "wrongtype = JsError ''WRONGTYPE Operation against a key holding the wrong kind of value''"

definition bad_expire :: exn where
  "bad_expire = JsError ''ERR invalid expire time''"

section \<open>What the commands do\<close>

type_synonym 'a kv_cmd = "kv_map \<Rightarrow> (exn + 'a) \<times> kv_map"

definition c_get :: "string \<Rightarrow> string option kv_cmd" where
  "c_get k V = (case V k of None \<Rightarrow> (Inr None, V) | Some (RStr s, e) \<Rightarrow> (Inr (Some s), V) | Some (RHash h, e) \<Rightarrow> (Inl wrongtype, V))"

text \<open>\<open>SET k x EX t\<close>, and with \<open>NX\<close>; the expiry is given in milliseconds.\<close>

definition c_set :: "int \<Rightarrow> string \<Rightarrow> string \<Rightarrow> int \<Rightarrow> unit kv_cmd" where
  "c_set now k x ms V = (if ms \<le> 0 then (Inl bad_expire, V) else (Inr (), V(k \<mapsto> (RStr x, Some (now + ms)))))"

definition c_set_nx :: "int \<Rightarrow> string \<Rightarrow> string \<Rightarrow> int \<Rightarrow> bool kv_cmd" where
  "c_set_nx now k x ms V =
     (if ms \<le> 0 then (Inl bad_expire, V)
      else if V k \<noteq> None then (Inr False, V) else (Inr True, V(k \<mapsto> (RStr x, Some (now + ms)))))"

definition c_getdel :: "string \<Rightarrow> string option kv_cmd" where
  "c_getdel k V =
     (case V k of None \<Rightarrow> (Inr None, V) | Some (RStr s, e) \<Rightarrow> (Inr (Some s), V(k := None)) | Some (RHash h, e) \<Rightarrow> (Inl wrongtype, V))"

definition c_del :: "string \<Rightarrow> unit kv_cmd" where
  "c_del k V = (Inr (), V(k := None))"

definition c_exists :: "string \<Rightarrow> bool kv_cmd" where
  "c_exists k V = (Inr (V k \<noteq> None), V)"

definition c_incr :: "string \<Rightarrow> int kv_cmd" where
  "c_incr k V =
     (case V k of
        None \<Rightarrow> (Inr 1, V(k \<mapsto> (RStr (int_str 1), None)))
      | Some (RStr s, e) \<Rightarrow>
          (case int_of_str s of
             None \<Rightarrow> (Inl (JsError ''ERR value is not an integer or out of range''), V)
           | Some n \<Rightarrow> (Inr (n + 1), V(k \<mapsto> (RStr (int_str (n + 1)), e))))
      | Some (RHash h, e) \<Rightarrow> (Inl wrongtype, V))"

text \<open>\<open>EXPIRE k t\<close>: 1 if the key exists; a time that is not positive deletes it.\<close>

definition c_expire :: "int \<Rightarrow> string \<Rightarrow> int \<Rightarrow> int kv_cmd" where
  "c_expire now k t V =
     (case V k of None \<Rightarrow> (Inr 0, V)
      | Some (v, e) \<Rightarrow> (Inr 1, if t \<le> 0 then V(k := None) else V(k \<mapsto> (v, Some (now + 1000 * t)))))"

text \<open>\<open>TTL k\<close>: the seconds left, rounded up.\<close>

definition c_ttl :: "int \<Rightarrow> string \<Rightarrow> int kv_cmd" where
  "c_ttl now k V =
     (Inr (case V k of None \<Rightarrow> -2 | Some (v, None) \<Rightarrow> -1 | Some (v, Some e) \<Rightarrow> - ((now - e) div 1000)), V)"

definition c_hgetall :: "string \<Rightarrow> (string \<times> string) list kv_cmd" where
  "c_hgetall k V = (case V k of None \<Rightarrow> (Inr [], V) | Some (RHash h, e) \<Rightarrow> (Inr h, V) | Some (RStr s, e) \<Rightarrow> (Inl wrongtype, V))"

text \<open>Writing one field of a hash.\<close>

fun hput :: "string \<Rightarrow> string \<Rightarrow> (string \<times> string) list \<Rightarrow> (string \<times> string) list" where
  "hput f x [] = [(f, x)]"
| "hput f x ((g, y) # h) = (if f = g then (f, x) # h else (g, y) # hput f x h)"

lemma map_of_hput [simp]: "map_of (hput f x h) g = (if g = f then Some x else map_of h g)"
  by (induction h) auto

definition c_hset :: "string \<Rightarrow> (string \<times> string) list \<Rightarrow> unit kv_cmd" where
  "c_hset k fs V =
     (case V k of
        None \<Rightarrow> (Inr (), V(k \<mapsto> (RHash (fold (\<lambda>(f, x). hput f x) fs []), None)))
      | Some (RHash h, e) \<Rightarrow> (Inr (), V(k \<mapsto> (RHash (fold (\<lambda>(f, x). hput f x) fs h), e)))
      | Some (RStr s, e) \<Rightarrow> (Inl wrongtype, V))"

definition c_hincr :: "string \<Rightarrow> string \<Rightarrow> int \<Rightarrow> int kv_cmd" where
  "c_hincr k f d V =
     (case V k of
        None \<Rightarrow> (Inr d, V(k \<mapsto> (RHash [(f, int_str d)], None)))
      | Some (RHash h, e) \<Rightarrow>
          (case (case map_of h f of None \<Rightarrow> Some 0 | Some s \<Rightarrow> int_of_str s) of
             None \<Rightarrow> (Inl (JsError ''ERR hash value is not an integer''), V)
           | Some n \<Rightarrow> (Inr (n + d), V(k \<mapsto> (RHash (hput f (int_str (n + d)) h), e))))
      | Some (RStr s, e) \<Rightarrow> (Inl wrongtype, V))"

lemmas kv_cmds = c_get_def c_set_def c_set_nx_def c_getdel_def c_del_def c_exists_def c_incr_def c_expire_def c_ttl_def
  c_hgetall_def c_hset_def c_hincr_def

text \<open>No command leaves an expired key.\<close>

lemma all_live_upd: "all_live now V \<Longrightarrow> (case x of Some (v, Some e) \<Rightarrow> now < e | _ \<Rightarrow> True) \<Longrightarrow> all_live now (V(k := x))"
  by (auto simp: all_live_def split: option.splits)

lemma all_live_key: "all_live now V \<Longrightarrow> V k = Some (v, Some e) \<Longrightarrow> now < e"
  by (auto simp: all_live_def)

section \<open>Clients\<close>

text \<open>The commands a client offers; the first argument is the time in milliseconds.\<close>

record 'r kv_ops =
  k_get :: "int \<Rightarrow> string \<Rightarrow> ('r, string option) eff"
  k_set :: "int \<Rightarrow> string \<Rightarrow> string \<Rightarrow> int \<Rightarrow> ('r, unit) eff"
  k_set_nx :: "int \<Rightarrow> string \<Rightarrow> string \<Rightarrow> int \<Rightarrow> ('r, bool) eff"
  k_getdel :: "(int \<Rightarrow> string \<Rightarrow> ('r, string option) eff) option"
  k_del :: "int \<Rightarrow> string \<Rightarrow> ('r, unit) eff"
  k_exists :: "int \<Rightarrow> string \<Rightarrow> ('r, bool) eff"
  k_incr :: "int \<Rightarrow> string \<Rightarrow> ('r, int) eff"
  k_expire :: "int \<Rightarrow> string \<Rightarrow> int \<Rightarrow> ('r, int) eff"
  k_ttl :: "int \<Rightarrow> string \<Rightarrow> ('r, int) eff"
  k_hgetall :: "int \<Rightarrow> string \<Rightarrow> ('r, (string \<times> string) list) eff"
  k_hset :: "int \<Rightarrow> string \<Rightarrow> (string \<times> string) list \<Rightarrow> ('r, unit) eff"
  k_hincr :: "int \<Rightarrow> string \<Rightarrow> string \<Rightarrow> int \<Rightarrow> ('r, int) eff"

definition implements :: "(int \<Rightarrow> 'r \<Rightarrow> bool) \<Rightarrow> (int \<Rightarrow> 'r \<Rightarrow> kv_map) \<Rightarrow> int \<Rightarrow> ('r, 'a) eff \<Rightarrow> 'a kv_cmd \<Rightarrow> bool" where
  "implements ok view now c spec \<longleftrightarrow> (\<forall>r. ok now r \<longrightarrow>
     (\<exists>r'. c r = (fst (spec (view now r)), r') \<and> ok now r' \<and> view now r' = snd (spec (view now r))))"

locale kv_redis =
  fixes K :: "'r kv_ops" and ok :: "int \<Rightarrow> 'r \<Rightarrow> bool" and view :: "int \<Rightarrow> 'r \<Rightarrow> kv_map"
  assumes kv_live: "ok now r \<Longrightarrow> all_live now (view now r)"
    and kv_advance: "ok now r \<Longrightarrow> now \<le> now' \<Longrightarrow> ok now' r \<and> view now' r = live now' (view now r)"
    and kv_get: "implements ok view now (k_get K now k) (c_get k)"
    and kv_set: "implements ok view now (k_set K now k x ms) (c_set now k x ms)"
    and kv_set_nx: "implements ok view now (k_set_nx K now k x ms) (c_set_nx now k x ms)"
    and kv_getdel: "k_getdel K = Some gd \<Longrightarrow> implements ok view now (gd now k) (c_getdel k)"
    and kv_del: "implements ok view now (k_del K now k) (c_del k)"
    and kv_exists: "implements ok view now (k_exists K now k) (c_exists k)"
    and kv_incr: "implements ok view now (k_incr K now k) (c_incr k)"
    and kv_expire: "implements ok view now (k_expire K now k t) (c_expire now k t)"
    and kv_ttl: "implements ok view now (k_ttl K now k) (c_ttl now k)"
    and kv_hgetall: "implements ok view now (k_hgetall K now k) (c_hgetall k)"
    and kv_hset: "implements ok view now (k_hset K now k fs) (c_hset k fs)"
    and kv_hincr: "implements ok view now (k_hincr K now k f d) (c_hincr k f d)"
begin

lemmas kv_laws = kv_get kv_set kv_set_nx kv_getdel kv_del kv_exists kv_incr kv_expire kv_ttl kv_hgetall kv_hset kv_hincr

end

section \<open>The server that keeps the map\<close>

definition ref_run :: "int \<Rightarrow> 'a kv_cmd \<Rightarrow> (kv_map, 'a) eff" where
  "ref_run now c V = c (live now V)"

definition kv_ref :: "kv_map kv_ops" where
  "kv_ref = \<lparr>k_get = (\<lambda>now k. ref_run now (c_get k)), k_set = (\<lambda>now k x ms. ref_run now (c_set now k x ms)),
     k_set_nx = (\<lambda>now k x ms. ref_run now (c_set_nx now k x ms)), k_getdel = Some (\<lambda>now k. ref_run now (c_getdel k)),
     k_del = (\<lambda>now k. ref_run now (c_del k)), k_exists = (\<lambda>now k. ref_run now (c_exists k)),
     k_incr = (\<lambda>now k. ref_run now (c_incr k)), k_expire = (\<lambda>now k t. ref_run now (c_expire now k t)),
     k_ttl = (\<lambda>now k. ref_run now (c_ttl now k)), k_hgetall = (\<lambda>now k. ref_run now (c_hgetall k)),
     k_hset = (\<lambda>now k fs. ref_run now (c_hset k fs)), k_hincr = (\<lambda>now k f d. ref_run now (c_hincr k f d))\<rparr>"

text \<open>A client without \<open>GETDEL\<close>.\<close>

definition kv_ref_old :: "kv_map kv_ops" where
  "kv_ref_old = kv_ref\<lparr>k_getdel := None\<rparr>"

lemma ref_implements:
  assumes "\<And>V. all_live now V \<Longrightarrow> all_live now (snd (c V))"
  shows "implements (\<lambda>now r. True) live now (ref_run now c) c"
  unfolding implements_def
proof (intro allI impI)
  fix r
  have "live now (snd (c (live now r))) = snd (c (live now r))"
    by (rule live_id) (rule assms, rule live_all_live)
  then show "\<exists>r'. ref_run now c r = (fst (c (live now r)), r') \<and> True \<and> live now r' = snd (c (live now r))"
    by (intro exI [of _ "snd (c (live now r))"]) (simp add: ref_run_def)
qed

text \<open>Every command keeps the keys live.\<close>

lemma cmd_live:
  assumes "all_live now V"
  shows "all_live now (snd (c_get k V))" "all_live now (snd (c_set now k x ms V))"
    "all_live now (snd (c_set_nx now k x ms V))" "all_live now (snd (c_getdel k V))" "all_live now (snd (c_del k V))"
    "all_live now (snd (c_exists k V))" "all_live now (snd (c_incr k V))" "all_live now (snd (c_expire now k t V))"
    "all_live now (snd (c_ttl now k V))" "all_live now (snd (c_hgetall k V))" "all_live now (snd (c_hset k fs V))"
    "all_live now (snd (c_hincr k f d V))"
  using assms
  by (auto simp: kv_cmds intro!: all_live_upd split: option.splits rval.splits dest: all_live_key)

interpretation rf: kv_redis kv_ref "\<lambda>now r. True" live
  by unfold_locales (auto simp: live_all_live live_live kv_ref_def intro!: ref_implements cmd_live)

interpretation rfo: kv_redis kv_ref_old "\<lambda>now r. True" live
  by unfold_locales (auto simp: live_all_live live_live kv_ref_old_def kv_ref_def intro!: ref_implements cmd_live)

section \<open>Handlers over a client and over the server that keeps the map\<close>

text \<open>
  Two worlds agree when their clients show the same live keys and the rest is equal. \<open>sims\<close>
  says that a handler in one world returns what the other returns in the other world and that the
  worlds agree again.
\<close>

definition same_keys ::
  "(int \<Rightarrow> 'r \<Rightarrow> bool) \<Rightarrow> (int \<Rightarrow> 'r \<Rightarrow> kv_map) \<Rightarrow> ('r, 'd) auth_world \<Rightarrow> (kv_map, 'd) auth_world \<Rightarrow> bool" where
  "same_keys ok view w v \<longleftrightarrow> ok (w_now w) (w_redis w) \<and> live (w_now w) (w_redis v) = view (w_now w) (w_redis w) \<and>
     w_now v = w_now w \<and> w_db v = w_db w \<and> w_ctr v = w_ctr w"

definition sims :: "('s \<Rightarrow> 't \<Rightarrow> bool) \<Rightarrow> ('s, 'a) eff \<Rightarrow> ('t, 'a) eff \<Rightarrow> bool" where
  "sims R m n \<longleftrightarrow> (\<forall>s t. R s t \<longrightarrow> fst (m s) = fst (n t) \<and> R (snd (m s)) (snd (n t)))"

named_theorems sims_intro "simulation rules"

lemma sims_ret [sims_intro]: "sims R (retM x) (retM x)"
  by (simp add: sims_def retM_def)

lemma sims_throw [sims_intro]: "sims R (throwM e) (throwM e)"
  by (simp add: sims_def throwM_def)

lemma sims_throwIf [sims_intro]: "sims R (throwIfM c e) (throwIfM c e)"
  by (simp add: throwIfM_def sims_intro)

lemma sims_bind [sims_intro]: "sims R m n \<Longrightarrow> (\<And>x. sims R (f x) (g x)) \<Longrightarrow> sims R (bindM m f) (bindM n g)"
  unfolding sims_def bindM_def by (fastforce split: prod.splits sum.splits)

lemma sims_then [sims_intro]: "sims R m n \<Longrightarrow> sims R m' n' \<Longrightarrow> sims R (thenM m m') (thenM n n')"
  by (simp add: thenM_def sims_intro)

lemma sims_catch [sims_intro]: "sims R m n \<Longrightarrow> (\<And>e. sims R (h e) (k e)) \<Longrightarrow> sims R (catchM m h) (catchM n k)"
  unfolding sims_def catchM_def by (fastforce split: prod.splits sum.splits)

lemma sims_finally [sims_intro]: "sims R m n \<Longrightarrow> sims R f g \<Longrightarrow> sims R (finallyM m f) (finallyM n g)"
  unfolding sims_def finallyM_def by (fastforce split: prod.splits sum.splits)

lemma sims_bestEffort [sims_intro]: "sims R m n \<Longrightarrow> sims R (bestEffortM m) (bestEffortM n)"
  by (simp add: bestEffortM_def sims_intro)

lemma sims_attempt [sims_intro]: "sims R m n \<Longrightarrow> sims R (attemptM m) (attemptM n)"
  unfolding sims_def attemptM_def by (fastforce split: prod.splits)

lemma sims_if [sims_intro]: "(c \<Longrightarrow> sims R m n) \<Longrightarrow> (\<not> c \<Longrightarrow> sims R m' n') \<Longrightarrow> sims R (if c then m else m') (if c then n else n')"
  by simp

lemma sims_option [sims_intro]:
  "(v = None \<Longrightarrow> sims R m n) \<Longrightarrow> (\<And>x. v = Some x \<Longrightarrow> sims R (f x) (g x)) \<Longrightarrow>
   sims R (case v of None \<Rightarrow> m | Some x \<Rightarrow> f x) (case v of None \<Rightarrow> n | Some x \<Rightarrow> g x)"
  by (cases v) simp_all

lemma sims_sum [sims_intro]:
  "(\<And>x. v = Inl x \<Longrightarrow> sims R (f x) (g x)) \<Longrightarrow> (\<And>x. v = Inr x \<Longrightarrow> sims R (f' x) (g' x)) \<Longrightarrow>
   sims R (case v of Inl x \<Rightarrow> f x | Inr x \<Rightarrow> f' x) (case v of Inl x \<Rightarrow> g x | Inr x \<Rightarrow> g' x)"
  by (cases v) simp_all

lemma sims_map: "list_all2 (sims R) cs ds \<Longrightarrow> sims R (mapM (\<lambda>m. m) cs) (mapM (\<lambda>m. m) ds)"
  by (induction cs ds rule: list_all2_induct) (auto intro!: sims_intro)

lemma mapM_map: "mapM f xs = mapM (\<lambda>m. m) (map f xs)"
  by (induction xs) simp_all

lemma sims_batch [sims_intro]:
  assumes "list_all2 (sims R) cs ds"
  shows "sims R (batchM cs) (batchM ds)"
proof -
  have "list_all2 (sims R) (map attemptM cs) (map attemptM ds)"
    using assms by (auto simp: list_all2_map1 list_all2_map2 elim!: list_all2_mono intro: sims_intro)
  then have "sims R (pipeline_exec cs) (pipeline_exec ds)"
    unfolding pipeline_exec_def by (subst (1 2) mapM_map) (rule sims_map)
  then show ?thesis unfolding batchM_def by (intro sims_intro)
qed

lemma sims_now [sims_intro]: "sims (same_keys ok view) dateNow dateNow"
  by (simp add: sims_def same_keys_def dateNow_def getsM_def)

lemma sims_uuid [sims_intro]: "sims (same_keys ok view) (randomUUID u) (randomUUID u)"
  by (simp add: sims_def same_keys_def randomUUID_def)

lemma sims_random [sims_intro]: "sims (same_keys ok view) (randomInt u b) (randomInt u b)"
  by (simp add: sims_def same_keys_def randomInt_def)

lemma sims_db [sims_intro]: "sims (same_keys ok view) (dbM m) (dbM m)"
  by (simp add: sims_def same_keys_def dbM_def case_prod_beta)

lemma sims_redis:
  fixes c :: "int \<Rightarrow> ('r, 'a) eff"
  assumes law: "\<And>now. implements ok view now (c now) (spec now)" and live: "\<And>now r. ok now r \<Longrightarrow> all_live now (view now r)"
  shows "sims (same_keys ok view) (redisM c) (redisM (\<lambda>now. ref_run now (spec now)))"
  unfolding sims_def
proof (intro allI impI)
  fix w :: "('r, 'd) auth_world" and v :: "(kv_map, 'd) auth_world"
  assume r: "same_keys ok view w v"
  then obtain r' where "c (w_now w) (w_redis w) = (fst (spec (w_now w) (view (w_now w) (w_redis w))), r')"
    "ok (w_now w) r'" "view (w_now w) r' = snd (spec (w_now w) (view (w_now w) (w_redis w)))"
    using law [of "w_now w"] unfolding implements_def same_keys_def by blast
  moreover have "live (w_now w) (view (w_now w) r') = view (w_now w) r'" using live calculation(2) by (simp add: live_id)
  ultimately show "fst (redisM c w) = fst (redisM (\<lambda>now. ref_run now (spec now)) v) \<and>
      same_keys ok view (snd (redisM c w)) (snd (redisM (\<lambda>now. ref_run now (spec now)) v))"
    using r by (simp add: same_keys_def redisM_def ref_run_def case_prod_beta)
qed

text \<open>The reference server with the commands that the client has.\<close>

definition ref_of :: "'r kv_ops \<Rightarrow> kv_map kv_ops" where
  "ref_of K = (case k_getdel K of None \<Rightarrow> kv_ref_old | Some _ \<Rightarrow> kv_ref)"

lemma ref_of_simps:
  "k_get (ref_of K) = (\<lambda>now k. ref_run now (c_get k))" "k_set (ref_of K) = (\<lambda>now k x ms. ref_run now (c_set now k x ms))"
  "k_set_nx (ref_of K) = (\<lambda>now k x ms. ref_run now (c_set_nx now k x ms))"
  "k_getdel (ref_of K) = map_option (\<lambda>_ now k. ref_run now (c_getdel k)) (k_getdel K)"
  "k_del (ref_of K) = (\<lambda>now k. ref_run now (c_del k))" "k_exists (ref_of K) = (\<lambda>now k. ref_run now (c_exists k))"
  "k_incr (ref_of K) = (\<lambda>now k. ref_run now (c_incr k))" "k_expire (ref_of K) = (\<lambda>now k t. ref_run now (c_expire now k t))"
  "k_ttl (ref_of K) = (\<lambda>now k. ref_run now (c_ttl now k))" "k_hgetall (ref_of K) = (\<lambda>now k. ref_run now (c_hgetall k))"
  "k_hset (ref_of K) = (\<lambda>now k fs. ref_run now (c_hset k fs))" "k_hincr (ref_of K) = (\<lambda>now k f d. ref_run now (c_hincr k f d))"
  by (simp_all add: ref_of_def kv_ref_old_def kv_ref_def split: option.split)

context kv_redis
begin

lemma sims_cmds:
  "sims (same_keys ok view) (redisM (\<lambda>n. k_get K n k)) (redisM (\<lambda>n. k_get (ref_of K) n k))"
  "sims (same_keys ok view) (redisM (\<lambda>n. k_set K n k x ms)) (redisM (\<lambda>n. k_set (ref_of K) n k x ms))"
  "sims (same_keys ok view) (redisM (\<lambda>n. k_set_nx K n k x ms)) (redisM (\<lambda>n. k_set_nx (ref_of K) n k x ms))"
  "sims (same_keys ok view) (redisM (\<lambda>n. k_del K n k)) (redisM (\<lambda>n. k_del (ref_of K) n k))"
  "sims (same_keys ok view) (redisM (\<lambda>n. k_exists K n k)) (redisM (\<lambda>n. k_exists (ref_of K) n k))"
  "sims (same_keys ok view) (redisM (\<lambda>n. k_incr K n k)) (redisM (\<lambda>n. k_incr (ref_of K) n k))"
  "sims (same_keys ok view) (redisM (\<lambda>n. k_expire K n k t)) (redisM (\<lambda>n. k_expire (ref_of K) n k t))"
  "sims (same_keys ok view) (redisM (\<lambda>n. k_ttl K n k)) (redisM (\<lambda>n. k_ttl (ref_of K) n k))"
  "sims (same_keys ok view) (redisM (\<lambda>n. k_hgetall K n k)) (redisM (\<lambda>n. k_hgetall (ref_of K) n k))"
  "sims (same_keys ok view) (redisM (\<lambda>n. k_hset K n k fs)) (redisM (\<lambda>n. k_hset (ref_of K) n k fs))"
  "sims (same_keys ok view) (redisM (\<lambda>n. k_hincr K n k f d)) (redisM (\<lambda>n. k_hincr (ref_of K) n k f d))"
  unfolding ref_of_simps by (rule sims_redis kv_live kv_laws, assumption?)+

lemma sims_getdel: "k_getdel K = Some gd \<Longrightarrow>
    sims (same_keys ok view) (redisM (\<lambda>n. gd n k)) (redisM (\<lambda>n. ref_run n (c_getdel k)))"
  by (rule sims_redis, rule kv_getdel, assumption, rule kv_live)

end

end
