(* ===== verification/OtpLimit.thy ===== *)
theory OtpLimit
  imports KvRedis Token
begin

text \<open>
  The rate limiter of one-time passwords, \<open>core/auth/otp/otp-rate-limit.service.ts\<close>: a fixed
  window per identifier and one per address, for requests and for verifications. The texts of its
  errors, which are Persian, are left out.
\<close>

section \<open>Numbers of the configuration\<close>

text \<open>
  \<open>Number(config.get(k) ?? d)\<close>. The services pass these numbers to Redis and to
  \<open>jsonwebtoken\<close>, which take whole numbers only; \<open>None\<close> is a configuration that has another
  value there, which is not modelled.
\<close>

definition cfg_whole :: "(string \<Rightarrow> string option) \<Rightarrow> string \<Rightarrow> int \<Rightarrow> int option" where
  "cfg_whole cfg k d =
     (case cfg k of
        None \<Rightarrow> Some d
      | Some s \<Rightarrow> (case js_number s of
            Some x \<Rightarrow> if of_int \<lfloor>x\<rfloor> = x then Some \<lfloor>x\<rfloor> else None
          | None \<Rightarrow> None))"

text \<open>What the two public methods read from the configuration.\<close>

record otp_limits =
  ol_reqWindow :: int
  ol_reqMax :: int
  ol_reqIpMax :: int
  ol_verWindow :: int
  ol_verMax :: int
  ol_verIpMax :: int

definition otp_limits_of :: "(string \<Rightarrow> string option) \<Rightarrow> otp_limits option" where
  "otp_limits_of cfg =
     (case those [cfg_whole cfg ''OTP_REQUEST_WINDOW'' 60, cfg_whole cfg ''OTP_REQUEST_MAX'' 3,
                  cfg_whole cfg ''OTP_REQUEST_IP_MAX'' 10, cfg_whole cfg ''OTP_VERIFY_WINDOW'' 120,
                  cfg_whole cfg ''OTP_VERIFY_MAX'' 5, cfg_whole cfg ''OTP_VERIFY_IP_MAX'' 30] of
        Some [a, b, c, d, e, f] \<Rightarrow> Some \<lparr>ol_reqWindow = a, ol_reqMax = b, ol_reqIpMax = c,
          ol_verWindow = d, ol_verMax = e, ol_verIpMax = f\<rparr>
      | _ \<Rightarrow> None)"

section \<open>Keys\<close>

datatype otp_channel = Sms | Email

fun channel_str :: "otp_channel \<Rightarrow> string" where
  "channel_str Sms = ''sms''"
| "channel_str Email = ''email''"

datatype otp_purpose = Signup | Login | Reset

fun purpose_str :: "otp_purpose \<Rightarrow> string" where
  "purpose_str Signup = ''signup''"
| "purpose_str Login = ''login''"
| "purpose_str Reset = ''reset''"

definition otp_h :: "(string \<Rightarrow> string) \<Rightarrow> string \<Rightarrow> string" where
  "otp_h sha v = take 40 (sha v)"

definition otp_rl_key ::
  "(string \<Rightarrow> string) \<Rightarrow> string \<Rightarrow> string \<Rightarrow> string \<Rightarrow> otp_channel option \<Rightarrow> otp_purpose option \<Rightarrow> string" where
  "otp_rl_key sha scope subject v channel purpose =
     join_with '':'' ([''otp'', ''rl'', scope, subject, otp_h sha v]
       @ (case channel of None \<Rightarrow> [] | Some c \<Rightarrow> [channel_str c]) @ (case purpose of None \<Rightarrow> [] | Some p \<Rightarrow> [purpose_str p]))"

section \<open>Counting\<close>

definition otp_bump :: "'r kv_ops \<Rightarrow> string \<Rightarrow> int \<Rightarrow> (('r, 'd) auth_world, int \<times> int) eff" where
  "otp_bump K key windowSec =
     bindM (redisM (\<lambda>n. k_incr K n key)) (\<lambda>count.
     thenM (if count = 1 then bindM (redisM (\<lambda>n. k_expire K n key windowSec)) (\<lambda>_. retM ()) else retM ())
     (bindM (redisM (\<lambda>n. k_ttl K n key)) (\<lambda>ttl.
      retM (count, max ttl 0))))"

definition too_many :: exn where
  "too_many = Http 429 ''TooManyRequests'' []"

text \<open>One bucket: count the attempt and refuse it above the limit.\<close>

definition otp_bucket :: "'r kv_ops \<Rightarrow> string \<Rightarrow> int \<Rightarrow> int \<Rightarrow> (('r, 'd) auth_world, unit) eff" where
  "otp_bucket K key win limit =
     bindM (otp_bump K key win) (\<lambda>(count, ttl). throwIfM (count > limit) too_many)"

definition consumeRequestBucket ::
  "'r kv_ops \<Rightarrow> (string \<Rightarrow> string) \<Rightarrow> otp_limits \<Rightarrow> string \<Rightarrow> string option \<Rightarrow> otp_channel option \<Rightarrow> otp_purpose option
    \<Rightarrow> (('r, 'd) auth_world, unit) eff" where
  "consumeRequestBucket K sha L identifier ip channel purpose =
     thenM (otp_bucket K (otp_rl_key sha ''req'' ''id'' identifier channel purpose) (ol_reqWindow L) (ol_reqMax L))
     (if truthy ip
      then otp_bucket K (otp_rl_key sha ''req'' ''ip'' (the ip) channel purpose) (ol_reqWindow L) (ol_reqIpMax L)
      else retM ())"

definition consumeVerifyBucket ::
  "'r kv_ops \<Rightarrow> (string \<Rightarrow> string) \<Rightarrow> otp_limits \<Rightarrow> string \<Rightarrow> string option \<Rightarrow> otp_channel option \<Rightarrow> otp_purpose option
    \<Rightarrow> (('r, 'd) auth_world, unit) eff" where
  "consumeVerifyBucket K sha L identifier ip channel purpose =
     thenM (otp_bucket K (otp_rl_key sha ''ver'' ''id'' identifier channel purpose) (ol_verWindow L) (ol_verMax L))
     (if truthy ip
      then otp_bucket K (otp_rl_key sha ''ver'' ''ip'' (the ip) channel purpose) (ol_verWindow L) (ol_verIpMax L)
      else retM ())"

section \<open>Over any client\<close>

context kv_redis
begin

lemma sims_bucket: "sims (same_keys ok view) (otp_bucket K key win limit) (otp_bucket (ref_of K) key win limit)"
  unfolding otp_bucket_def otp_bump_def by (auto intro!: sims_intro sims_cmds split: prod.split)

lemma sims_buckets:
  "sims (same_keys ok view) (consumeRequestBucket K sha L i ip c p) (consumeRequestBucket (ref_of K) sha L i ip c p)"
  "sims (same_keys ok view) (consumeVerifyBucket K sha L i ip c p) (consumeVerifyBucket (ref_of K) sha L i ip c p)"
  unfolding consumeRequestBucket_def consumeVerifyBucket_def by (intro sims_intro sims_bucket)+

end

end
