(* ===== verification/Otp.thy ===== *)
theory Otp
  imports OtpLimit
begin

text \<open>
  One-time passwords, \<open>core/auth/otp/otp.service.ts\<close>, and their controller. A code is sent
  by SMS or mail and its hash kept in the active hash of its purpose, channel and identifier;
  verifying it consumes it and issues a signed ticket, whose hash is kept under the ticket's id
  for the password service. SMS, mail, audit and \<open>jsonwebtoken\<close> are parameters.
\<close>

section \<open>Configuration and collaborators\<close>

record otp_cfg =
  oc_ttl :: int
  oc_cooldown :: int
  oc_maxAttempts :: int
  oc_maxResends :: int
  oc_minRegen :: int
  oc_ticketSecret :: string
  oc_ticketTtl :: int
  oc_blockWindow :: int

text \<open>The private \<open>parseDurationToSeconds\<close>: digits and one of \<open>s\<close>, \<open>m\<close>, \<open>h\<close>, otherwise \<open>Number(s) || 600\<close>.\<close>

definition otp_parseDuration :: "string \<Rightarrow> rat" where
  "otp_parseDuration s =
     (let t = js_trim s; ds = takeWhile is_digit t; r = dropWhile is_digit t in
      if ds \<noteq> [] \<and> r \<in> {''s'', ''m'', ''h''}
      then of_nat (digits_val ds) * (if r = ''s'' then 1 else if r = ''m'' then 60 else 3600)
      else (case js_number s of Some x \<Rightarrow> if x = 0 then 600 else x | None \<Rightarrow> 600))"

text \<open>The constructor. \<open>None\<close>: the secret is missing, or a number is not whole.\<close>

definition otp_config :: "(string \<Rightarrow> string option) \<Rightarrow> otp_cfg option" where
  "otp_config cfg =
     (let ticket = otp_parseDuration (case cfg ''SET_PWD_JWT_EXPIRES'' of None \<Rightarrow> ''10m'' | Some s \<Rightarrow> s) in
      case cfg ''SET_PWD_JWT_SECRET'' of
        None \<Rightarrow> None
      | Some secret \<Rightarrow>
          (case those [cfg_whole cfg ''OTP_VERIFY_WINDOW'' 300, cfg_whole cfg ''OTP_REQUEST_WINDOW'' 120,
                       cfg_whole cfg ''OTP_VERIFY_MAX'' 5, cfg_whole cfg ''OTP_MAX_RESENDS_PER_CODE'' 3,
                       cfg_whole cfg ''OTP_MIN_REGEN_IF_REMAINING_SECONDS'' 60,
                       (if of_int \<lfloor>ticket\<rfloor> = ticket then Some \<lfloor>ticket\<rfloor> else None),
                       cfg_whole cfg ''OTP_BLOCK_WINDOW'' 900] of
             Some [a, b, c, d, e, t, f] \<Rightarrow> Some \<lparr>oc_ttl = a, oc_cooldown = b, oc_maxAttempts = c, oc_maxResends = d,
               oc_minRegen = e, oc_ticketSecret = secret, oc_ticketTtl = t, oc_blockWindow = f\<rparr>
           | _ \<Rightarrow> None))"

definition TICKET_ISSUER :: string where
  "TICKET_ISSUER = ''negare-auth''"

definition TICKET_AUDIENCE :: string where
  "TICKET_AUDIENCE = ''negare-core''"

text \<open>\<open>AuditService.log\<close>: the action and its data.\<close>

record audit_entry =
  ae_action :: string
  ae_channel :: otp_channel
  ae_purpose :: otp_purpose
  ae_resend :: bool
  ae_ipHash :: "string option"
  ae_uaHash :: "string option"

record 'd otp_env =
  o_cfg :: otp_cfg
  o_limits :: otp_limits
  o_sha256 :: "string \<Rightarrow> string"
  o_randomInt :: "nat \<Rightarrow> nat \<Rightarrow> nat"
  o_uuid :: "nat \<Rightarrow> string"
  o_jwt :: jwt_lib
  o_sms :: "string \<Rightarrow> string \<Rightarrow> ('d, unit) eff"
  o_mail :: "string \<Rightarrow> string \<Rightarrow> ('d, unit) eff"
  o_audit :: "(audit_entry \<Rightarrow> ('d, unit) eff) option"

section \<open>Helpers\<close>

definition padStart :: "nat \<Rightarrow> char \<Rightarrow> string \<Rightarrow> string" where
  "padStart n c s = replicate (n - length s) c @ s"

definition random6Digits :: "'d otp_env \<Rightarrow> (('r, 'd) auth_world, string) eff" where
  "random6Digits E = bindM (randomInt (o_randomInt E) 1000000) (\<lambda>n. retM (padStart 6 (CHR ''0'') (nat_str n)))"

definition nowEpoch :: "(('r, 'd) auth_world, int) eff" where
  "nowEpoch = bindM dateNow (\<lambda>now. retM (now div 1000))"

definition normalizeIdentifier :: "otp_channel \<Rightarrow> string \<Rightarrow> string" where
  "normalizeIdentifier channel raw =
     (let v = js_trim raw in
      case channel of Sms \<Rightarrow> filter (\<lambda>c. \<not> is_space c) v | Email \<Rightarrow> js_lower v)"

definition keyBase :: "'d otp_env \<Rightarrow> otp_purpose \<Rightarrow> otp_channel \<Rightarrow> string \<Rightarrow> string" where
  "keyBase E purpose channel identifier =
     ''otp:'' @ take 40 (o_sha256 E (purpose_str purpose @ ''|'' @ channel_str channel @ ''|'' @ identifier))"

definition keyActive :: "'d otp_env \<Rightarrow> otp_purpose \<Rightarrow> otp_channel \<Rightarrow> string \<Rightarrow> string" where
  "keyActive E purpose channel identifier = keyBase E purpose channel identifier"

definition keyCooldown :: "'d otp_env \<Rightarrow> otp_purpose \<Rightarrow> otp_channel \<Rightarrow> string \<Rightarrow> string" where
  "keyCooldown E purpose channel identifier = keyBase E purpose channel identifier @ '':cd''"

definition keyBlock :: "'d otp_env \<Rightarrow> otp_purpose \<Rightarrow> otp_channel \<Rightarrow> string \<Rightarrow> string" where
  "keyBlock E purpose channel identifier = keyBase E purpose channel identifier @ '':blk''"

definition keyTicket :: "string \<Rightarrow> string" where
  "keyTicket jti = ''otp:ticket:'' @ jti"

definition maskIp :: "string option \<Rightarrow> string option" where
  "maskIp ip =
     (if \<not> truthy ip then None
      else (case split_on (CHR ''.'') (the ip) of
              [a, b, c, d] \<Rightarrow> Some (a @ ''.'' @ b @ ''.'' @ c @ ''.0/24'')
            | _ \<Rightarrow> ip))"

definition hashUa :: "'d otp_env \<Rightarrow> string option \<Rightarrow> string option" where
  "hashUa E ua = (if truthy ua then Some (take 32 (o_sha256 E (the ua))) else None)"

definition audit_log ::
  "'d otp_env \<Rightarrow> string \<Rightarrow> otp_channel \<Rightarrow> otp_purpose \<Rightarrow> bool \<Rightarrow> string option \<Rightarrow> string option \<Rightarrow> (('r, 'd) auth_world, unit) eff" where
  "audit_log E action channel purpose resend requestIp userAgent =
     (case o_audit E of
        None \<Rightarrow> retM ()
      | Some write_log \<Rightarrow> dbM (write_log \<lparr>ae_action = action, ae_channel = channel, ae_purpose = purpose, ae_resend = resend,
          ae_ipHash = maskIp requestIp, ae_uaHash = hashUa E userAgent\<rparr>))"

text \<open>\<open>Number(hash.f ?? '0')\<close>; \<open>None\<close> is \<open>NaN\<close>, which no comparison holds of.\<close>

definition hash_number :: "string \<Rightarrow> (string \<times> string) list \<Rightarrow> rat option" where
  "hash_number f h = js_number (case map_of h f of None \<Rightarrow> ''0'' | Some s \<Rightarrow> s)"

text \<open>\<open>Math.max(0, x - now)\<close>.\<close>

definition remaining :: "rat option \<Rightarrow> int \<Rightarrow> rat option" where
  "remaining x now = map_option (\<lambda>v. max 0 (v - of_int now)) x"

section \<open>Requesting a code\<close>

record RequestData =
  alreadyActive :: bool
  rd_expiresIn :: "rat option"
  resendAvailableIn :: "rat option"

text \<open>The answer when a code is active and still cooling down.\<close>

definition cooling :: "(string \<times> string) list \<Rightarrow> int \<Rightarrow> RequestData option" where
  "cooling hash now =
     (if hash = [] then None
      else (let resendRemaining = remaining (hash_number ''resendAt'' hash) now;
                expiresIn = remaining (hash_number ''exp'' hash) now
            in case resendRemaining of
                 Some r \<Rightarrow> if r > 0 then Some \<lparr>alreadyActive = True, rd_expiresIn = expiresIn, resendAvailableIn = resendRemaining\<rparr> else None
               | None \<Rightarrow> None))"

text \<open>The fields a new code is stored with.\<close>

definition code_fields ::
  "'d otp_env \<Rightarrow> otp_channel \<Rightarrow> otp_purpose \<Rightarrow> string option \<Rightarrow> int \<Rightarrow> string \<Rightarrow> (string \<times> string) list" where
  "code_fields E channel purpose requestIp now code =
     [(''codeHash'', o_sha256 E code), (''attempts'', ''0''), (''maxAttempts'', int_str (oc_maxAttempts (o_cfg E))),
      (''exp'', int_str (now + oc_ttl (o_cfg E))), (''resendAt'', int_str (now + oc_cooldown (o_cfg E))), (''sendCount'', ''1''),
      (''ip'', nullish (maskIp requestIp) []), (''ch'', channel_str channel), (''pu'', purpose_str purpose)]"

definition issueNewCode ::
  "'r kv_ops \<Rightarrow> 'd otp_env \<Rightarrow> otp_channel \<Rightarrow> string \<Rightarrow> otp_purpose \<Rightarrow> string option \<Rightarrow> string \<Rightarrow> string
    \<Rightarrow> (('r, 'd) auth_world, unit) eff" where
  "issueNewCode K E channel identifier purpose requestIp activeKey cooldownKey =
     bindM nowEpoch (\<lambda>now.
     bindM (random6Digits E) (\<lambda>code.
     thenM (batchM
       [redisM (\<lambda>n. k_hset K n activeKey (code_fields E channel purpose requestIp now code)),
        bindM (redisM (\<lambda>n. k_expire K n activeKey (oc_ttl (o_cfg E)))) (\<lambda>_. retM ()),
        redisM (\<lambda>n. k_set K n cooldownKey ''1'' (1000 * oc_cooldown (o_cfg E)))])
     (case channel of Sms \<Rightarrow> dbM (o_sms E identifier code) | Email \<Rightarrow> dbM (o_mail E identifier code))))"

text \<open>What a request answers once a new code is out.\<close>

definition fresh_data :: "'d otp_env \<Rightarrow> RequestData" where
  "fresh_data E = \<lparr>alreadyActive = False, rd_expiresIn = Some (of_int (oc_ttl (o_cfg E))),
     resendAvailableIn = Some (of_int (oc_cooldown (o_cfg E)))\<rparr>"

definition requestOtp ::
  "'r kv_ops \<Rightarrow> 'd otp_env \<Rightarrow> otp_channel \<Rightarrow> string \<Rightarrow> otp_purpose \<Rightarrow> string option \<Rightarrow> string option
    \<Rightarrow> (('r, 'd) auth_world, RequestData) eff" where
  "requestOtp K E channel rawIdentifier purpose requestIp userAgent =
     (let identifier = normalizeIdentifier channel rawIdentifier in
      thenM (consumeRequestBucket K (o_sha256 E) (o_limits E) identifier requestIp (Some channel) (Some purpose))
      (bindM (redisM (\<lambda>n. k_exists K n (keyBlock E purpose channel identifier))) (\<lambda>blocked.
       thenM (throwIfM blocked (forbidden ''Too many attempts. Try again later.''))
       (let activeKey = keyActive E purpose channel identifier; cooldownKey = keyCooldown E purpose channel identifier in
        bindM nowEpoch (\<lambda>now.
        bindM (redisM (\<lambda>n. k_hgetall K n activeKey)) (\<lambda>hash.
        case cooling hash now of
          Some d \<Rightarrow> retM d
        | None \<Rightarrow>
            thenM (issueNewCode K E channel identifier purpose requestIp activeKey cooldownKey)
            (thenM (audit_log E ''OTP_REQUEST'' channel purpose False requestIp userAgent)
            (retM (fresh_data E)))))))))"

definition resendOtp ::
  "'r kv_ops \<Rightarrow> 'd otp_env \<Rightarrow> otp_channel \<Rightarrow> string \<Rightarrow> otp_purpose \<Rightarrow> string option \<Rightarrow> string option
    \<Rightarrow> (('r, 'd) auth_world, RequestData) eff" where
  "resendOtp K E channel rawIdentifier purpose requestIp userAgent =
     (let identifier = normalizeIdentifier channel rawIdentifier in
      thenM (consumeRequestBucket K (o_sha256 E) (o_limits E) identifier requestIp (Some channel) (Some purpose))
      (let activeKey = keyActive E purpose channel identifier; cooldownKey = keyCooldown E purpose channel identifier in
       bindM nowEpoch (\<lambda>now.
       bindM (redisM (\<lambda>n. k_hgetall K n activeKey)) (\<lambda>hash.
       if hash = [] then requestOtp K E channel identifier purpose requestIp userAgent
       else (case cooling hash now of
          Some d \<Rightarrow> retM d
        | None \<Rightarrow>
            thenM (issueNewCode K E channel identifier purpose requestIp activeKey cooldownKey)
            (thenM (audit_log E ''OTP_REQUEST'' channel purpose True requestIp userAgent)
            (retM (fresh_data E))))))))"

section \<open>Verifying a code\<close>

record VerifyData =
  vd_ticket :: string
  vd_next :: string
  vd_expiresIn :: int

definition ticket_payload :: "otp_purpose \<Rightarrow> otp_channel \<Rightarrow> string \<Rightarrow> (string \<times> json) list" where
  "ticket_payload purpose channel identifier =
     [(''purpose'', JStr (purpose_str purpose)), (''channel'', JStr (channel_str channel)), (''identifier'', JStr identifier)]"

definition ticket_opts :: "'d otp_env \<Rightarrow> string \<Rightarrow> string \<Rightarrow> sign_opts" where
  "ticket_opts E jti identifier =
     \<lparr>so_algorithm = ''HS256'', so_expiresIn = oc_ticketTtl (o_cfg E), so_issuer = Some TICKET_ISSUER,
      so_audience = Some TICKET_AUDIENCE, so_jwtid = Some jti, so_subject = Some identifier\<rparr>"

text \<open>\<open>exp <= now\<close>, false when \<open>exp\<close> is \<open>NaN\<close>.\<close>

definition code_expired :: "(string \<times> string) list \<Rightarrow> int \<Rightarrow> bool" where
  "code_expired hash now = (case hash_number ''exp'' hash of Some x \<Rightarrow> x \<le> of_int now | None \<Rightarrow> False)"

text \<open>\<open>attempts > maxAttempts\<close>, with the limit the code was stored with.\<close>

definition attempts_over :: "'d otp_env \<Rightarrow> (string \<times> string) list \<Rightarrow> int \<Rightarrow> bool" where
  "attempts_over E hash attempts =
     (case (case map_of hash ''maxAttempts'' of None \<Rightarrow> Some (of_int (oc_maxAttempts (o_cfg E))) | Some s \<Rightarrow> js_number s) of
        Some m \<Rightarrow> of_int attempts > m
      | None \<Rightarrow> False)"

text \<open>The ticket of a verified code, and the answer.\<close>

definition issue_ticket ::
  "'r kv_ops \<Rightarrow> 'd otp_env \<Rightarrow> otp_channel \<Rightarrow> string \<Rightarrow> otp_purpose \<Rightarrow> string option \<Rightarrow> string option
    \<Rightarrow> (('r, 'd) auth_world, VerifyData) eff" where
  "issue_ticket K E channel identifier purpose requestIp userAgent =
     bindM (randomUUID (o_uuid E)) (\<lambda>jti.
     bindM dateNow (\<lambda>now.
     let ticket = j_sign (o_jwt E) now (JObj (ticket_payload purpose channel identifier))
           (oc_ticketSecret (o_cfg E)) (ticket_opts E jti identifier) in
     thenM (batchM
       [redisM (\<lambda>n. k_del K n (keyActive E purpose channel identifier)),
        redisM (\<lambda>n. k_del K n (keyCooldown E purpose channel identifier)),
        redisM (\<lambda>n. k_set K n (keyTicket jti) (o_sha256 E ticket) (1000 * oc_ticketTtl (o_cfg E)))])
     (thenM (audit_log E ''OTP_VERIFY_SUCCESS'' channel purpose False requestIp userAgent)
     (retM \<lparr>vd_ticket = ticket, vd_next = (if purpose = Reset then ''reset-password'' else ''set-password''),
            vd_expiresIn = oc_ticketTtl (o_cfg E)\<rparr>))))"

definition verifyOtp ::
  "'r kv_ops \<Rightarrow> 'd otp_env \<Rightarrow> otp_channel \<Rightarrow> string \<Rightarrow> string \<Rightarrow> otp_purpose \<Rightarrow> string option \<Rightarrow> string option
    \<Rightarrow> (('r, 'd) auth_world, VerifyData) eff" where
  "verifyOtp K E channel rawIdentifier code purpose requestIp userAgent =
     (let identifier = normalizeIdentifier channel rawIdentifier in
      thenM (consumeVerifyBucket K (o_sha256 E) (o_limits E) identifier requestIp (Some channel) (Some purpose))
      (let activeKey = keyActive E purpose channel identifier; blockKey = keyBlock E purpose channel identifier in
       bindM (redisM (\<lambda>n. k_exists K n blockKey)) (\<lambda>blocked.
       thenM (throwIfM blocked (forbidden ''Too many attempts. Try again later.''))
       (bindM (redisM (\<lambda>n. k_hgetall K n activeKey)) (\<lambda>hash.
        thenM (throwIfM (hash = []) (badRequest ''Invalid or expired code.''))
        (bindM nowEpoch (\<lambda>now.
         if code_expired hash now
         then thenM (redisM (\<lambda>n. k_del K n activeKey)) (throwM (badRequest ''Invalid or expired code.''))
         else
          bindM (redisM (\<lambda>n. k_hincr K n activeKey ''attempts'' 1)) (\<lambda>attempts.
          if attempts_over E hash attempts
          then thenM (batchM
                 [redisM (\<lambda>n. k_del K n activeKey),
                  redisM (\<lambda>n. k_set K n blockKey ''1'' (1000 * oc_blockWindow (o_cfg E)))])
               (throwM (forbidden ''Too many attempts. Try again later.''))
          else
           thenM (throwIfM (map_of hash ''codeHash'' \<noteq> Some (o_sha256 E code)) (badRequest ''Invalid or expired code.''))
           (issue_ticket K E channel identifier purpose requestIp userAgent)))))))))"

section \<open>The controller\<close>

text \<open>What the controllers read of a request, and the headers a handler sets.\<close>

record http_req =
  rq_headers :: "(string \<times> string) list"
  rq_ips :: "string list"
  rq_ip :: "string option"
  rq_remote :: "string option"

fun first_truthy :: "string option list \<Rightarrow> string option" where
  "first_truthy [] = None"
| "first_truthy (x # xs) = (if truthy x then x else first_truthy xs)"

definition otp_getIp :: "http_req \<Rightarrow> string option" where
  "otp_getIp req =
     first_truthy
       [map_of (rq_headers req) ''cf-connecting-ip'',
        map_of (rq_headers req) ''x-real-ip'',
        (case rq_ips req of [] \<Rightarrow> None | ip # _ \<Rightarrow> Some ip),
        map_option (\<lambda>h. js_trim (hd (split_on (CHR '','') h))) (map_of (rq_headers req) ''x-forwarded-for''),
        rq_ip req,
        rq_remote req]"

text \<open>\<open>String(x)\<close> of a number; only whole numbers occur, others are not modelled.\<close>

definition retry_after :: "RequestData \<Rightarrow> (string \<times> string) list" where
  "retry_after d =
     (case resendAvailableIn d of
        Some r \<Rightarrow> if alreadyActive d \<and> r > 0 then [(''Retry-After'', int_str \<lfloor>r\<rfloor>)] else []
      | None \<Rightarrow> [])"

definition no_store :: "(string \<times> string) list" where
  "no_store = [(''Cache-Control'', ''no-store''), (''Vary'', ''Cookie'')]"

definition otp_request ::
  "'r kv_ops \<Rightarrow> 'd otp_env \<Rightarrow> otp_channel \<Rightarrow> string \<Rightarrow> otp_purpose option \<Rightarrow> http_req \<Rightarrow> string option
    \<Rightarrow> (('r, 'd) auth_world, RequestData \<times> (string \<times> string) list) eff" where
  "otp_request K E channel identifier purpose req ua =
     bindM (requestOtp K E channel identifier (nullish purpose Login) (otp_getIp req) ua) (\<lambda>out.
     retM (out, retry_after out @ no_store))"

definition otp_resend ::
  "'r kv_ops \<Rightarrow> 'd otp_env \<Rightarrow> otp_channel \<Rightarrow> string \<Rightarrow> otp_purpose option \<Rightarrow> http_req \<Rightarrow> string option
    \<Rightarrow> (('r, 'd) auth_world, RequestData \<times> (string \<times> string) list) eff" where
  "otp_resend K E channel identifier purpose req ua =
     bindM (resendOtp K E channel identifier (nullish purpose Login) (otp_getIp req) ua) (\<lambda>out.
     retM (out, retry_after out @ no_store))"

definition otp_verify ::
  "'r kv_ops \<Rightarrow> 'd otp_env \<Rightarrow> otp_channel \<Rightarrow> string \<Rightarrow> string \<Rightarrow> otp_purpose option \<Rightarrow> http_req \<Rightarrow> string option
    \<Rightarrow> (('r, 'd) auth_world, VerifyData \<times> (string \<times> string) list) eff" where
  "otp_verify K E channel identifier code purpose req ua =
     bindM (verifyOtp K E channel identifier code (nullish purpose Login) (otp_getIp req) ua) (\<lambda>out.
     retM (out, no_store))"

section \<open>Over any client\<close>

lemma sims_audit [sims_intro]: "sims (same_keys ok view) (audit_log E a c p b ip ua) (audit_log E a c p b ip ua)"
  unfolding audit_log_def by (intro sims_intro)

lemma sims_epoch [sims_intro]: "sims (same_keys ok view) nowEpoch nowEpoch"
  unfolding nowEpoch_def by (intro sims_intro)

lemma sims_code [sims_intro]: "sims (same_keys ok view) (random6Digits E) (random6Digits E)"
  unfolding random6Digits_def by (intro sims_intro)

context kv_redis
begin

lemma sims_issue: "sims (same_keys ok view) (issueNewCode K E c i p ip a cd) (issueNewCode (ref_of K) E c i p ip a cd)"
  unfolding issueNewCode_def by (cases c) (auto intro!: sims_intro sims_cmds)

lemma sims_request: "sims (same_keys ok view) (requestOtp K E c i p ip ua) (requestOtp (ref_of K) E c i p ip ua)"
  unfolding requestOtp_def Let_def by (intro sims_intro sims_cmds sims_buckets sims_issue)

lemma sims_resend: "sims (same_keys ok view) (resendOtp K E c i p ip ua) (resendOtp (ref_of K) E c i p ip ua)"
  unfolding resendOtp_def Let_def by (intro sims_intro sims_cmds sims_buckets sims_issue sims_request)

lemma sims_ticket: "sims (same_keys ok view) (issue_ticket K E c i p ip ua) (issue_ticket (ref_of K) E c i p ip ua)"
  unfolding issue_ticket_def Let_def by (intro sims_intro sims_cmds list_all2_Cons [THEN iffD2] conjI list_all2_Nil [THEN iffD2, of "[]"]) simp_all

lemma sims_verify: "sims (same_keys ok view) (verifyOtp K E c i code p ip ua) (verifyOtp (ref_of K) E c i code p ip ua)"
  unfolding verifyOtp_def Let_def by (intro sims_intro sims_cmds sims_buckets sims_ticket) (auto intro!: sims_cmds)

end

end
