(* ===== verification/AuthConfig.thy ===== *)
theory AuthConfig
  imports Otp
begin

text \<open>
  The authentication settings, \<open>config/auth.config.ts\<close>: read from the environment, with the
  defaults and checks of its schema. The environment is a map of texts.
\<close>

section \<open>Helpers\<close>

definition booleanLike :: "string option \<Rightarrow> bool option" where
  "booleanLike v =
     (case v of
        None \<Rightarrow> None
      | Some s \<Rightarrow>
          (let normalized = js_lower (js_trim s) in
           if normalized = ''auto'' then None
           else if normalized \<in> {''1'', ''true'', ''yes'', ''on''} then Some True
           else if normalized \<in> {''0'', ''false'', ''no'', ''off''} then Some False
           else None))"

definition ensureLeadingSlash :: "string \<Rightarrow> string" where
  "ensureLeadingSlash v = (if starts_with v ''/'' then v else CHR ''/'' # v)"

text \<open>\<open>replace(/^\/+|\/+$/g, '')\<close>, and the two regular expressions of paths.\<close>

definition strip_slashes :: "string \<Rightarrow> string" where
  "strip_slashes s = rev (dropWhile (\<lambda>c. c = CHR ''/'') (rev (dropWhile (\<lambda>c. c = CHR ''/'') s)))"

definition strip_right_slashes :: "string \<Rightarrow> string" where
  "strip_right_slashes s = rev (dropWhile (\<lambda>c. c = CHR ''/'') (rev s))"

fun collapse_slashes :: "string \<Rightarrow> string" where
  "collapse_slashes (a # b # s) =
     (if a = CHR ''/'' \<and> b = CHR ''/'' then collapse_slashes (b # s) else a # collapse_slashes (b # s))"
| "collapse_slashes s = s"

definition sanitizePrefix :: "string option \<Rightarrow> string" where
  "sanitizePrefix v =
     (if \<not> truthy v then []
      else (let trimmed = strip_slashes (js_trim (the v)) in
            if trimmed = [] then [] else CHR ''/'' # trimmed))"

definition applyPrefixIfNeeded :: "string \<Rightarrow> string \<Rightarrow> string" where
  "applyPrefixIfNeeded path prefix =
     (let normalized = ensureLeadingSlash path in
      if prefix = [] \<or> normalized = ''/'' then normalized
      else if normalized = prefix \<or> starts_with normalized (prefix @ ''/'') \<or> starts_with normalized (prefix @ ''?'') then normalized
      else collapse_slashes (prefix @ ''/'' @ (if starts_with normalized ''/'' then tl normalized else normalized)))"

section \<open>The settings\<close>

record cookie_cfg =
  ck_sameSite :: string
  ck_secure :: bool
  ck_refreshPath :: string
  ck_accessPath :: string

record AuthSettings =
  as_accessSecret :: string
  as_accessExpires :: string
  as_refreshSecret :: string
  as_refreshExpires :: string
  as_cookie :: cookie_cfg

text \<open>\<open>authEnvSchema.parse\<close>: the secrets must not be empty and the policy one of three; \<open>None\<close> throws.\<close>

definition authEnvSchema :: "(string \<Rightarrow> string option) \<Rightarrow> AuthSettings option" where
  "authEnvSchema env =
     (let sameSite = nullish (env ''COOKIE_SAMESITE'') ''none'' in
      if truthy (env ''ACCESS_JWT_SECRET'') \<and> truthy (env ''REFRESH_JWT_SECRET'') \<and> sameSite \<in> {''strict'', ''lax'', ''none''}
      then Some \<lparr>as_accessSecret = the (env ''ACCESS_JWT_SECRET''), as_accessExpires = nullish (env ''ACCESS_JWT_EXPIRES'') ''10m'',
        as_refreshSecret = the (env ''REFRESH_JWT_SECRET''), as_refreshExpires = nullish (env ''REFRESH_JWT_EXPIRES'') ''30d'',
        as_cookie = \<lparr>ck_sameSite = sameSite, ck_secure = False,
          ck_refreshPath = nullish (env ''COOKIE_REFRESH_PATH'') ''/auth/refresh'',
          ck_accessPath = nullish (env ''COOKIE_ACCESS_PATH'') ''/''\<rparr>\<rparr>
      else None)"

definition authConfig :: "(string \<Rightarrow> string option) \<Rightarrow> AuthSettings option" where
  "authConfig env =
     (case authEnvSchema env of
        None \<Rightarrow> None
      | Some raw \<Rightarrow>
          (let nodeEnv = js_lower (nullish (env ''NODE_ENV'') ''development'');
               globalPrefix = sanitizePrefix (Some (nullish (env ''GLOBAL_PREFIX'') ''api''));
               refreshCookiePath = applyPrefixIfNeeded (ck_refreshPath (as_cookie raw)) globalPrefix;
               secure0 = (case booleanLike (env ''COOKIE_SECURE'') of Some b \<Rightarrow> b | None \<Rightarrow> nodeEnv = ''production'');
               secure = (if ck_sameSite (as_cookie raw) = ''none'' \<and> nodeEnv = ''production'' then True else secure0)
           in Some (raw\<lparr>as_cookie := \<lparr>ck_sameSite = ck_sameSite (as_cookie raw), ck_secure = secure,
                ck_refreshPath = (if refreshCookiePath = [] then ''/'' else refreshCookiePath),
                ck_accessPath = applyPrefixIfNeeded (ck_accessPath (as_cookie raw)) globalPrefix\<rparr>\<rparr>)))"

record cookie_opts =
  co_httpOnly :: bool
  co_secure :: bool
  co_sameSite :: string
  co_path :: string
  co_maxAge :: "rat option"

text \<open>\<open>buildCookieOptions\<close> without overrides; its second argument is \<open>'refresh'\<close> or \<open>'access'\<close>.\<close>

definition buildCookieOptions :: "cookie_cfg \<Rightarrow> string \<Rightarrow> cookie_opts" where
  "buildCookieOptions cookie typ =
     \<lparr>co_httpOnly = True, co_secure = ck_secure cookie, co_sameSite = ck_sameSite cookie,
      co_path = (if typ = ''refresh'' then ck_refreshPath cookie
                 else if ck_accessPath cookie = [] then ''/'' else ck_accessPath cookie),
      co_maxAge = None\<rparr>"

end
