(* ===== verification/Password.thy ===== *)
theory Password
  imports Otp
begin

text \<open>
  Passwords, \<open>core/auth/password/password.service.ts\<close>, and their controller. A set-password
  ticket issued by the OTP service is consumed once; the user of its identifier is created or
  updated. bcrypt, mail, \<open>jsonwebtoken\<close> and the Prisma queries are parameters. Log lines
  and the \<open>details\<close> of an error are left out.
\<close>

section \<open>Collaborators\<close>

record PwdUser =
  pu_id :: string
  pu_passwordHash :: "string option"
  pu_email :: "string option"
  pu_phone :: "string option"
  pu_username :: "string option"
  pu_name :: "string option"

datatype user_where = ById string | ByEmail string | ByPhone string | ByUsername string

record UserCreateData =
  uc_username :: string
  uc_phone :: "string option"
  uc_email :: "string option"
  uc_name :: "string option"
  uc_passwordHash :: string

text \<open>The columns an update writes; \<open>None\<close> leaves the column alone.\<close>

record UserUpdateData =
  ud_passwordHash :: string
  ud_phone :: "string option"
  ud_email :: "string option"

text \<open>\<open>pd_isP2002\<close> recognises Prisma's unique-constraint error.\<close>

record 'd pwd_db =
  pd_findFirst :: "user_where list \<Rightarrow> ('d, PwdUser option) eff"
  pd_findUnique :: "user_where \<Rightarrow> ('d, PwdUser option) eff"
  pd_upsert :: "user_where \<Rightarrow> UserCreateData \<Rightarrow> UserUpdateData \<Rightarrow> ('d, PwdUser) eff"
  pd_update :: "user_where \<Rightarrow> UserUpdateData \<Rightarrow> ('d, PwdUser) eff"
  pd_isP2002 :: "exn \<Rightarrow> bool"

record 'd pwd_env =
  p_db :: "'d pwd_db"
  p_secret :: string
  p_rounds :: int
  p_throttleLimit :: int
  p_throttleWindow :: int
  p_dummyHash :: string
  p_ticketTtl :: int
  p_sha256 :: "string \<Rightarrow> string"
  p_jwt :: jwt_lib
  p_hash :: "string \<Rightarrow> int \<Rightarrow> nat \<Rightarrow> string"
  p_compare :: "string \<Rightarrow> string \<Rightarrow> bool"
  p_random :: "nat \<Rightarrow> nat \<Rightarrow> nat"
  p_welcome :: "string \<Rightarrow> string \<Rightarrow> ('d, unit) eff"

text \<open>The numbers and secrets of the constructor; \<open>None\<close> as in \<open>otp_config\<close>.\<close>

definition pwd_config :: "(string \<Rightarrow> string option) \<Rightarrow> 'd pwd_env \<Rightarrow> 'd pwd_env option" where
  "pwd_config cfg E =
     (case cfg ''SET_PWD_JWT_SECRET'' of
        None \<Rightarrow> None
      | Some secret \<Rightarrow>
          (case those [cfg_whole cfg ''BCRYPT_ROUNDS'' 10, cfg_whole cfg ''LOGIN_THROTTLE_LIMIT'' 6,
                       cfg_whole cfg ''LOGIN_THROTTLE_WINDOW_SEC'' 300, cfg_whole cfg ''SET_PWD_JWT_EXPIRES_SEC'' 600] of
             Some [a, b, c, d] \<Rightarrow> Some (E\<lparr>p_secret := secret, p_rounds := a, p_throttleLimit := b, p_throttleWindow := c,
               p_ticketTtl := d,
               p_dummyHash := nullish (cfg ''DUMMY_BCRYPT_HASH'')
                 ''$2b$10$Cj2EoHjE7k0eJw1v1jv7ruo3Y4nH7C3d9xYd1p6kq6nWlYwX0r0uW''\<rparr>)
           | _ \<Rightarrow> None))"

text \<open>\<open>bcrypt.hash\<close>: salted, so it draws from the supply of random numbers.\<close>

definition bcrypt_hash :: "'d pwd_env \<Rightarrow> string \<Rightarrow> (('r, 'd) auth_world, string) eff" where
  "bcrypt_hash E pw w = (Inr (p_hash E pw (p_rounds E) (w_ctr w)), w\<lparr>w_ctr := Suc (w_ctr w)\<rparr>)"

section \<open>Normalizers\<close>

definition digits_only :: "string \<Rightarrow> string" where
  "digits_only v = filter is_digit v"

text \<open>\<open>/^\+\d{7,15}$/\<close>.\<close>

definition e164 :: "string \<Rightarrow> bool" where
  "e164 v \<longleftrightarrow> v \<noteq> [] \<and> hd v = CHR ''+'' \<and> list_all is_digit (tl v) \<and> 7 \<le> length (tl v) \<and> length (tl v) \<le> 15"

definition normalizeEmail :: "string \<Rightarrow> string option" where
  "normalizeEmail raw =
     (let v = js_trim raw in
      if v = [] \<or> CHR ''@'' \<notin> set v then None else Some (js_lower v))"

definition normalizePhone :: "string \<Rightarrow> string option" where
  "normalizePhone raw =
     (let v = js_trim raw; digits = digits_only v in
      if v = [] then None
      else if e164 v then Some v
      else if digits = [] then None
      else if starts_with digits ''0098'' then Some (''+'' @ drop 2 digits)
      else if starts_with digits ''98'' then Some (''+'' @ digits)
      else if starts_with digits ''0'' \<and> length digits = 11 then Some (''+98'' @ drop 1 digits)
      else if length digits = 10 \<and> starts_with digits ''9'' then Some (''+98'' @ digits)
      else None)"

record identifiers =
  id_email :: "string option"
  id_phone :: "string option"
  id_username :: "string option"

definition splitIdentifier :: "string \<Rightarrow> identifiers" where
  "splitIdentifier raw =
     (if truthy (normalizeEmail raw) then \<lparr>id_email = normalizeEmail raw, id_phone = None, id_username = None\<rparr>
      else if truthy (normalizePhone raw) then \<lparr>id_email = None, id_phone = normalizePhone raw, id_username = None\<rparr>
      else (let username = js_lower (js_trim raw) in
            \<lparr>id_email = None, id_phone = None, id_username = (if username \<noteq> [] then Some username else None)\<rparr>))"

section \<open>Comparing digests\<close>

definition hex_value :: "char \<Rightarrow> nat option" where
  "hex_value c =
     (let n = (of_char c :: nat) in
      if is_digit c then Some (n - 48)
      else if 97 \<le> n \<and> n \<le> 102 then Some (n - 87)
      else if 65 \<le> n \<and> n \<le> 70 then Some (n - 55)
      else None)"

text \<open>\<open>Buffer.from(s, 'hex')\<close>: the bytes up to the first pair that is not two hexadecimal digits.\<close>

fun hex_bytes :: "string \<Rightarrow> nat list" where
  "hex_bytes (a # b # s) =
     (case (hex_value a, hex_value b) of (Some x, Some y) \<Rightarrow> (16 * x + y) # hex_bytes s | _ \<Rightarrow> [])"
| "hex_bytes _ = []"

definition safeEqHex :: "string \<Rightarrow> string \<Rightarrow> bool" where
  "safeEqHex a b =
     (let ab = hex_bytes a; bb = hex_bytes b in
      if length ab \<noteq> length bb then False else ab = bb)"

section \<open>Tickets\<close>

definition http_error :: "nat \<Rightarrow> string \<Rightarrow> string \<Rightarrow> ('s, 'a) eff" where
  "http_error st code msg = throwM (Http st code msg)"

definition issueSetPasswordTicket ::
  "'r kv_ops \<Rightarrow> 'd pwd_env \<Rightarrow> string \<Rightarrow> string \<Rightarrow> int option \<Rightarrow> (('r, 'd) auth_world, unit) eff" where
  "issueSetPasswordTicket K E token jti ttlSec =
     catchM (redisM (\<lambda>n. k_set K n (''otp:ticket:'' @ jti) (p_sha256 E token) (1000 * nullish ttlSec (p_ticketTtl E))))
       (\<lambda>_. http_error 500 ''RedisError'' ''Failed to store OTP ticket.'')"

record SetPasswordPayload =
  sp_purpose :: json
  sp_channel :: json
  sp_identifier :: json
  sp_jti :: json

text \<open>The entry of a ticket, taken out: \<open>GETDEL\<close> when the client has it.\<close>

definition take_ticket :: "'r kv_ops \<Rightarrow> string \<Rightarrow> (('r, 'd) auth_world, string option) eff" where
  "take_ticket K key =
     (case k_getdel K of
        Some gd \<Rightarrow> redisM (\<lambda>n. gd n key)
      | None \<Rightarrow>
          bindM (redisM (\<lambda>n. k_get K n key)) (\<lambda>stored.
          thenM (if truthy stored then redisM (\<lambda>n. k_del K n key) else retM ())
          (retM stored)))"

definition ticket_verify_opts :: verify_opts where
  "ticket_verify_opts = \<lparr>vo_algorithms = Some [''HS256''], vo_clockTolerance = 0, vo_ignoreExpiration = False,
     vo_issuer = Some ''negare-auth'', vo_audience = Some ''negare-core''\<rparr>"

definition verifyAndConsumeOtpTicket :: "'r kv_ops \<Rightarrow> 'd pwd_env \<Rightarrow> string \<Rightarrow> (('r, 'd) auth_world, SetPasswordPayload) eff" where
  "verifyAndConsumeOtpTicket K E token =
     bindM dateNow (\<lambda>now.
     bindM (catchM (liftE (j_verify (p_jwt E) now token (p_secret E) ticket_verify_opts))
        (\<lambda>_. http_error 400 ''InvalidOrExpiredToken'' ''Set-password token is invalid or expired.'')) (\<lambda>decoded.
     thenM (throwIfM (\<not> js_truthy (jfield ''jti'' decoded)) (Http 400 ''MissingJti'' ''Token missing its unique ID (jti).''))
     (thenM (throwIfM (\<not> js_truthy (jfield ''identifier'' decoded) \<or> \<not> js_truthy (jfield ''channel'' decoded) \<or> \<not> js_truthy (jfield ''purpose'' decoded))
        (Http 400 ''IncompletePayload'' ''Set-password token payload incomplete.''))
     (bindM (catchM (take_ticket K (''otp:ticket:'' @ tmpl_opt (jfield ''jti'' decoded)))
        (\<lambda>_. http_error 500 ''RedisError'' ''Failed to validate OTP ticket.'')) (\<lambda>storedHex.
      thenM (throwIfM (\<not> truthy storedHex) (Http 400 ''TicketUsedOrMissing'' ''Set-password token already used or missing.''))
      (thenM (throwIfM (\<not> safeEqHex (the storedHex) (p_sha256 E token)) (Http 400 ''TicketIntegrity'' ''Set-password token integrity check failed.''))
      (retM \<lparr>sp_purpose = the (jfield ''purpose'' decoded), sp_channel = the (jfield ''channel'' decoded),
             sp_identifier = the (jfield ''identifier'' decoded), sp_jti = the (jfield ''jti'' decoded)\<rparr>)))))))"

section \<open>Users by channel\<close>

definition alnum_lower :: "char \<Rightarrow> bool" where
  "alnum_lower c \<longleftrightarrow> is_lower c \<or> is_digit c"

text \<open>The part of \<open>generateUsername\<close> before the loop.\<close>

definition username_base :: "string \<Rightarrow> string" where
  "username_base seed =
     (let b = take 20 (filter alnum_lower (js_lower seed)) in if b = [] then ''user'' else b)"

definition candidate :: "string \<Rightarrow> nat \<Rightarrow> string" where
  "candidate base i = (if i = 0 then base else base @ nat_str (i + 1))"

text \<open>The loop from \<open>i\<close>, with \<open>n\<close> rounds left.\<close>

fun username_from :: "'d pwd_env \<Rightarrow> string \<Rightarrow> nat \<Rightarrow> nat \<Rightarrow> (('r, 'd) auth_world, string) eff" where
  "username_from E base i 0 =
     bindM (randomInt (p_random E) 1000000) (\<lambda>n. retM (base @ nat_str n))"
| "username_from E base i (Suc n) =
     bindM (dbM (pd_findUnique (p_db E) (ByUsername (candidate base i)))) (\<lambda>exists.
     if exists = None then retM (candidate base i) else username_from E base (Suc i) n)"

definition generateUsername :: "'d pwd_env \<Rightarrow> string \<Rightarrow> (('r, 'd) auth_world, string) eff" where
  "generateUsername E seed = username_from E (username_base seed) 0 1000"

text \<open>A claim used as a string: \<open>raw.trim()\<close> of anything else is a \<open>TypeError\<close>.\<close>

definition as_string :: "json \<Rightarrow> ('s, string) eff" where
  "as_string v = (case v of JStr s \<Rightarrow> retM s | JNull \<Rightarrow> retM [] | _ \<Rightarrow> throwM (JsError ''TypeError''))"

text \<open>\<open>catch\<close> of the two upserts: after a lost race the existing row is updated.\<close>

definition upsert_failed ::
  "'d pwd_env \<Rightarrow> user_where \<Rightarrow> (PwdUser \<Rightarrow> UserUpdateData) \<Rightarrow> string \<Rightarrow> exn \<Rightarrow> (('r, 'd) auth_world, PwdUser) eff" where
  "upsert_failed E key data msg err =
     (if pd_isP2002 (p_db E) err
      then bindM (dbM (pd_findUnique (p_db E) key)) (\<lambda>existing.
           case existing of
             Some u \<Rightarrow> dbM (pd_update (p_db E) (ById (pu_id u)) (data u))
           | None \<Rightarrow> http_error 500 ''DatabaseError'' msg)
      else http_error 500 ''DatabaseError'' msg)"

definition upsert_sms :: "'d pwd_env \<Rightarrow> string \<Rightarrow> string \<Rightarrow> (('r, 'd) auth_world, PwdUser) eff" where
  "upsert_sms E identifier passwordHash =
     (case normalizePhone identifier of
        None \<Rightarrow> http_error 400 ''InvalidPhone'' ''Invalid phone format.''
      | Some phone \<Rightarrow>
          catchM
            (bindM (generateUsername E phone) (\<lambda>username.
             dbM (pd_upsert (p_db E) (ByPhone phone)
               \<lparr>uc_username = username, uc_phone = Some phone, uc_email = None, uc_name = None, uc_passwordHash = passwordHash\<rparr>
               \<lparr>ud_passwordHash = passwordHash, ud_phone = Some phone, ud_email = None\<rparr>)))
            (upsert_failed E (ByPhone phone)
               (\<lambda>u. \<lparr>ud_passwordHash = passwordHash, ud_phone = Some (nullish (pu_phone u) phone), ud_email = None\<rparr>)
               ''Failed to upsert user (sms).''))"

definition upsert_email :: "'d pwd_env \<Rightarrow> string \<Rightarrow> string \<Rightarrow> (('r, 'd) auth_world, PwdUser) eff" where
  "upsert_email E identifier passwordHash =
     (case normalizeEmail identifier of
        None \<Rightarrow> http_error 400 ''InvalidEmail'' ''Invalid email format.''
      | Some email \<Rightarrow>
          catchM
            (bindM (generateUsername E email) (\<lambda>username.
             dbM (pd_upsert (p_db E) (ByEmail email)
               \<lparr>uc_username = username, uc_phone = None, uc_email = Some email, uc_name = None, uc_passwordHash = passwordHash\<rparr>
               \<lparr>ud_passwordHash = passwordHash, ud_phone = None, ud_email = Some email\<rparr>)))
            (upsert_failed E (ByEmail email)
               (\<lambda>u. \<lparr>ud_passwordHash = passwordHash, ud_phone = None, ud_email = Some (nullish (pu_email u) email)\<rparr>)
               ''Failed to upsert user (email).''))"

definition upsertUserForChannel ::
  "'d pwd_env \<Rightarrow> json \<Rightarrow> json \<Rightarrow> string \<Rightarrow> (('r, 'd) auth_world, PwdUser) eff" where
  "upsertUserForChannel E channel identifier passwordHash =
     bindM (as_string identifier) (\<lambda>i.
     if channel = JStr ''sms'' then upsert_sms E i passwordHash else upsert_email E i passwordHash)"

section \<open>Operations\<close>

definition setPassword :: "'r kv_ops \<Rightarrow> 'd pwd_env \<Rightarrow> string \<Rightarrow> string \<Rightarrow> (('r, 'd) auth_world, string) eff" where
  "setPassword K E token password =
     bindM (verifyAndConsumeOtpTicket K E token) (\<lambda>payload.
     thenM (throwIfM (length password < 8) (Http 400 ''WeakPassword'' ''Password must be at least 8 characters long.''))
     (bindM (bcrypt_hash E password) (\<lambda>passwordHash.
      bindM (upsertUserForChannel E (sp_channel payload) (sp_identifier payload) passwordHash) (\<lambda>persisted.
      thenM (if truthy (pu_email persisted)
             then bestEffortM (dbM (p_welcome E (the (pu_email persisted))
                    (nullish (pu_name persisted) (nullish (pu_username persisted) (tmpl (sp_identifier payload))))))
             else retM ())
      (retM (pu_id persisted))))))"

definition invalid_credentials :: exn where
  "invalid_credentials = Http 401 ''InvalidCredentials'' ''Invalid credentials.''"

definition throttleKey :: "string \<Rightarrow> string option \<Rightarrow> string" where
  "throttleKey idn ip =
     (if truthy ip then ''auth:login:throttle:'' @ idn @ '':'' @ the ip else ''auth:login:throttle:'' @ idn)"

text \<open>The throttle of \<open>login\<close>, with the \<open>try\<close> around it that catches its own exception.\<close>

definition login_throttle :: "'r kv_ops \<Rightarrow> 'd pwd_env \<Rightarrow> string \<Rightarrow> (('r, 'd) auth_world, unit) eff" where
  "login_throttle K E key =
     catchM
       (bindM (redisM (\<lambda>n. k_incr K n key)) (\<lambda>attempts.
        thenM (if attempts = 1 then bindM (redisM (\<lambda>n. k_expire K n key (p_throttleWindow E))) (\<lambda>_. retM ()) else retM ())
        (throwIfM (attempts > p_throttleLimit E) (Http 429 ''TooManyAttempts'' ''Too many login attempts. Try again later.''))))
       (\<lambda>_. retM ())"

definition login_where :: "identifiers \<Rightarrow> user_where list" where
  "login_where x =
     (if truthy (id_email x) then [ByEmail (the (id_email x))] else [])
     @ (if truthy (id_phone x) then [ByPhone (the (id_phone x))] else [])
     @ (if truthy (id_username x) then [ByUsername (the (id_username x))] else [])"

definition pwd_login :: "'r kv_ops \<Rightarrow> 'd pwd_env \<Rightarrow> string \<Rightarrow> string \<Rightarrow> string option \<Rightarrow> (('r, 'd) auth_world, string) eff" where
  "pwd_login K E identifier password ip =
     (let idn = js_trim identifier; key = throttleKey idn ip in
      if idn = [] then throwM invalid_credentials
      else thenM (login_throttle K E key)
       (bindM (catchM (dbM (pd_findFirst (p_db E) (login_where (splitIdentifier idn)))) (\<lambda>_. retM None)) (\<lambda>user.
        let hashToCheck = (case user of None \<Rightarrow> p_dummyHash E | Some u \<Rightarrow> nullish (pu_passwordHash u) (p_dummyHash E));
            okBcrypt = p_compare E password hashToCheck
        in case user of
             Some u \<Rightarrow>
               if pu_id u \<noteq> [] \<and> okBcrypt
               then thenM (bestEffortM (redisM (\<lambda>n. k_del K n key))) (retM (pu_id u))
               else thenM (bestEffortM (redisM (\<lambda>n. k_incr K n key))) (throwM invalid_credentials)
           | None \<Rightarrow> thenM (bestEffortM (redisM (\<lambda>n. k_incr K n key))) (throwM invalid_credentials))))"

definition changePassword :: "'d pwd_env \<Rightarrow> string \<Rightarrow> string \<Rightarrow> string \<Rightarrow> (('r, 'd) auth_world, unit) eff" where
  "changePassword E userId currentPassword newPassword =
     bindM (dbM (pd_findUnique (p_db E) (ById userId))) (\<lambda>user.
     case (case user of None \<Rightarrow> None | Some u \<Rightarrow> pu_passwordHash u) of
       None \<Rightarrow> throwM invalid_credentials
     | Some h \<Rightarrow>
         if h = [] then throwM invalid_credentials
         else
          thenM (throwIfM (\<not> p_compare E currentPassword h) invalid_credentials)
          (thenM (throwIfM (length newPassword < 8) (Http 400 ''WeakPassword'' ''New password is too weak.''))
          (bindM (bcrypt_hash E newPassword) (\<lambda>hash.
           catchM (bindM (dbM (pd_update (p_db E) (ById userId)
                      \<lparr>ud_passwordHash = hash, ud_phone = None, ud_email = None\<rparr>)) (\<lambda>_. retM ()))
             (\<lambda>_. http_error 500 ''DatabaseError'' ''Failed to update password.'')))))"

end
