(* ===== verification/AuthHttp.thy ===== *)
theory AuthHttp
  imports AuthConfig Password Refresh
begin

text \<open>
  The HTTP side of authentication: \<open>core/auth/auth.controller.ts\<close>, \<open>core/auth/auth.service.ts\<close>
  and \<open>core/auth/password/password.controller.ts\<close>. A handler acts on the world and on the
  response it is building, which it keeps when it throws. The URL parser is a parameter.
\<close>

section \<open>Requests and responses\<close>

record web_req = http_req +
  wq_cookies :: "(string \<times> string) list"

datatype cookie_op = SetCookie string string cookie_opts | ClearCookie string cookie_opts

record http_res =
  rs_headers :: "(string \<times> string) list"
  rs_cookies :: "cookie_op list"
  rs_refreshToken :: "string option"

definition header :: "('m) http_req_scheme \<Rightarrow> string \<Rightarrow> string option" where
  "header req k = map_of (rq_headers req) k"

text \<open>An operation on the world, and one on the response.\<close>

definition onWorld :: "('w, 'a) eff \<Rightarrow> ('w \<times> http_res, 'a) eff" where
  "onWorld m s = (case m (fst s) of (x, w') \<Rightarrow> (x, (w', snd s)))"

definition onRes :: "(http_res \<Rightarrow> http_res) \<Rightarrow> ('w \<times> http_res, unit) eff" where
  "onRes f = modifyM (\<lambda>(w, r). (w, f r))"

definition put_header :: "string \<Rightarrow> string \<Rightarrow> http_res \<Rightarrow> http_res" where
  "put_header k v r = r\<lparr>rs_headers := hput k v (rs_headers r)\<rparr>"

definition add_cookie :: "cookie_op \<Rightarrow> http_res \<Rightarrow> http_res" where
  "add_cookie c r = r\<lparr>rs_cookies := rs_cookies r @ [c]\<rparr>"

section \<open>The controller's settings\<close>

record auth_ctl =
  hc_maxAgeMs :: rat
  hc_sameSite :: string
  hc_secure :: bool
  hc_path :: string
  hc_origins :: "string list"

definition REFRESH_COOKIE_NAME :: string where
  "REFRESH_COOKIE_NAME = ''refresh_token''"

text \<open>\<open>url_origin\<close> is \<open>new URL(s).origin\<close>, \<open>None\<close> when the constructor throws.\<close>

definition normalizeOrigin :: "(string \<Rightarrow> string option) \<Rightarrow> string option \<Rightarrow> string" where
  "normalizeOrigin url_origin value =
     (if \<not> truthy value then []
      else (case url_origin (the value) of
              Some origin \<Rightarrow> js_lower (strip_right_slashes origin)
            | None \<Rightarrow> js_lower (strip_right_slashes (the value))))"

text \<open>\<open>cfg\<close> is the configuration service, \<open>env\<close> the process environment.\<close>

definition resolveAllowedOrigins ::
  "(string \<Rightarrow> string option) \<Rightarrow> (string \<Rightarrow> string option) \<Rightarrow> (string \<Rightarrow> string option) \<Rightarrow> string list" where
  "resolveAllowedOrigins url_origin cfg env =
     (let raw = (case cfg ''FRONTEND_URL'' of Some s \<Rightarrow> s | None \<Rightarrow>
                  (case env ''FRONTEND_URL'' of Some s \<Rightarrow> s | None \<Rightarrow> nullish (cfg ''CORS_ORIGIN'') ''http://localhost:3000''))
      in js_unique (filter (\<lambda>o'. o' \<noteq> []) (map (\<lambda>o'. normalizeOrigin url_origin (Some o')) (split_on (CHR '','') raw))))"

definition auth_controller ::
  "(string \<Rightarrow> string option) \<Rightarrow> (string \<Rightarrow> string option) \<Rightarrow> (string \<Rightarrow> string option) \<Rightarrow> AuthSettings \<Rightarrow> auth_ctl" where
  "auth_controller url_origin cfg env auth =
     \<lparr>hc_maxAgeMs = parseDurationToSeconds (Some (as_refreshExpires auth)) (30 * 24 * 3600) * 1000,
      hc_sameSite = ck_sameSite (as_cookie auth), hc_secure = ck_secure (as_cookie auth),
      hc_path = ck_refreshPath (as_cookie auth), hc_origins = resolveAllowedOrigins url_origin cfg env\<rparr>"

section \<open>Helpers\<close>

definition setNoStore :: "('w \<times> http_res, unit) eff" where
  "setNoStore = onRes (\<lambda>r.
     let r1 = put_header ''Cache-Control'' ''no-store'' r; prev = map_of (rs_headers r1) ''Vary''
     in put_header ''Vary'' (if truthy prev then the prev @ '', Cookie'' else ''Cookie'') r1)"

definition setRefreshCookie :: "auth_ctl \<Rightarrow> string \<Rightarrow> ('w \<times> http_res, unit) eff" where
  "setRefreshCookie C token =
     (if token = [] then retM ()
      else onRes (add_cookie (SetCookie REFRESH_COOKIE_NAME token
        \<lparr>co_httpOnly = True, co_secure = hc_secure C, co_sameSite = hc_sameSite C, co_path = hc_path C, co_maxAge = Some (hc_maxAgeMs C)\<rparr>)))"

definition clearRefreshCookie :: "auth_ctl \<Rightarrow> ('w \<times> http_res, unit) eff" where
  "clearRefreshCookie C =
     onRes (add_cookie (ClearCookie REFRESH_COOKIE_NAME
        \<lparr>co_httpOnly = True, co_secure = hc_secure C, co_sameSite = hc_sameSite C, co_path = hc_path C, co_maxAge = None\<rparr>))"

definition getRefreshToken :: "web_req \<Rightarrow> string option \<Rightarrow> string option" where
  "getRefreshToken req fallback =
     (let cookieToken = js_trim (nullish (map_of (wq_cookies req) REFRESH_COOKIE_NAME) []) in
      if cookieToken \<noteq> [] then Some cookieToken
      else (let fb = js_trim (nullish fallback []) in if fb = [] then None else Some fb))"

text \<open>\<open>getIp\<close> of the controllers of this theory and of \<open>AuthService\<close>.\<close>

definition auth_getIp :: "('m) http_req_scheme \<Rightarrow> string option" where
  "auth_getIp req =
     (let xfwd = nullish (header req ''x-forwarded-for'') [];
          forwarded = (case rq_ips req of ip # _ \<Rightarrow> ip | [] \<Rightarrow> js_trim (hd (split_on (CHR '','') xfwd)))
      in first_truthy [Some forwarded, rq_ip req, rq_remote req])"

definition assertAllowedOrigin :: "(string \<Rightarrow> string option) \<Rightarrow> auth_ctl \<Rightarrow> web_req \<Rightarrow> ('s, unit) eff" where
  "assertAllowedOrigin url_origin C req =
     (if hc_origins C = [] then retM ()
      else (let originHeader = normalizeOrigin url_origin (case header req ''origin'' of Some s \<Rightarrow> Some s | None \<Rightarrow> header req ''Origin'');
                refererHeader = normalizeOrigin url_origin (case header req ''referer'' of Some s \<Rightarrow> Some s | None \<Rightarrow> header req ''Referer'')
            in throwIfM (\<not> ((originHeader \<noteq> [] \<and> originHeader \<in> set (hc_origins C)) \<or> (refererHeader \<noteq> [] \<and> refererHeader \<in> set (hc_origins C))))
                 (Http 403 ''OriginNotAllowed'' ''Origin is not allowed for refresh.'')))"

definition assertJsonRequest :: "web_req \<Rightarrow> ('s, unit) eff" where
  "assertJsonRequest req =
     throwIfM (\<not> js_includes (js_lower (nullish (header req ''content-type'') [])) ''application/json'')
       (Http 400 ''InvalidContentType'' ''Content-Type must be application/json.'')"

text \<open>A length that is absent, zero or no number lets the request pass.\<close>

definition assertJsonOrEmpty :: "web_req \<Rightarrow> ('s, unit) eff" where
  "assertJsonOrEmpty req =
     (let ct = js_lower (nullish (header req ''content-type'') []);
          len = (if truthy (header req ''content-length'') then js_number (the (header req ''content-length'')) else Some 0)
      in if len = None \<or> len = Some 0 then retM ()
         else throwIfM (\<not> js_includes ct ''application/json'') (badRequest ''Content-Type must be application/json.''))"

definition getRateLimitKey :: "web_req \<Rightarrow> string" where
  "getRateLimitKey req =
     nullish (auth_getIp req) ''unknown'' @ ''|'' @ nullish (header req ''user-agent'') ''unknown''"

section \<open>AuthController\<close>

definition auth_login ::
  "'r kv_ops \<Rightarrow> 'd pwd_env \<Rightarrow> ('r, 'd, 'm) refresh_env_scheme \<Rightarrow> auth_ctl \<Rightarrow> string \<Rightarrow> string \<Rightarrow> web_req
    \<Rightarrow> (('r, 'd) auth_world \<times> http_res, string) eff" where
  "auth_login K P E C identifier password req =
     thenM setNoStore
     (thenM (throwIfM (identifier = [] \<or> password = []) (Http 400 ''InvalidInput'' ''Identifier and password are required.''))
     (catchM
       (let ip = auth_getIp req in
        bindM (onWorld (pwd_login K P identifier password ip)) (\<lambda>userId.
        bindM (onWorld (session_create E \<lparr>ci_userId = userId, ci_ip = ip, ci_userAgent = header req ''user-agent'', ci_device = None\<rparr>)) (\<lambda>session.
        bindM (onWorld (issueTokensForUserId E userId (Some (s_id session)))) (\<lambda>pair.
        thenM (setRefreshCookie C (refreshToken pair))
        (retM (accessToken pair))))))
       (\<lambda>err. throwM (Http 401 ''InvalidCredentials'' ''Invalid credentials.''))))"

definition auth_refresh ::
  "(string \<Rightarrow> string option) \<Rightarrow> limit_env \<Rightarrow> ('r, 'd, 'm) refresh_env_scheme \<Rightarrow> auth_ctl \<Rightarrow> web_req
    \<Rightarrow> (('r, 'd) auth_world \<times> http_res, string) eff" where
  "auth_refresh url_origin L E C req =
     thenM setNoStore
     (thenM (assertJsonOrEmpty req)
     (thenM (assertAllowedOrigin url_origin C req)
     (thenM (onWorld (limit_consume (e_redis E) L (getRateLimitKey req)))
     (case getRefreshToken req None of
        None \<Rightarrow> throwM (Http 401 ''MissingRefresh'' ''No refresh cookie'')
      | Some token \<Rightarrow>
          catchM
            (bindM (onWorld (refresh_refresh E token)) (\<lambda>pair.
             thenM (setRefreshCookie C (refreshToken pair))
             (retM (accessToken pair))))
            (\<lambda>err. throwM (Http 401 ''InvalidRefresh'' ''Invalid or expired refresh token.''))))))"

definition auth_logout ::
  "('r, 'd, 'm) refresh_env_scheme \<Rightarrow> auth_ctl \<Rightarrow> web_req \<Rightarrow> string option \<Rightarrow> (('r, 'd) auth_world \<times> http_res, unit) eff" where
  "auth_logout E C req bodyToken =
     thenM setNoStore
     (let own = js_trim (nullish bodyToken []);
          token = (if own \<noteq> [] then Some own else getRefreshToken req None)
      in thenM (clearRefreshCookie C)
         (case token of
            None \<Rightarrow> retM ()
          | Some t \<Rightarrow> catchM (onWorld (refresh_revoke E t)) (\<lambda>_. retM ())))"

section \<open>AuthService\<close>

record LoginOutput =
  lo_accessToken :: string
  lo_id :: string
  lo_username :: "string option"
  lo_email :: "string option"

definition service_login ::
  "'r kv_ops \<Rightarrow> 'd pwd_env \<Rightarrow> ('r, 'd, 'm) refresh_env_scheme \<Rightarrow> string \<Rightarrow> string \<Rightarrow> web_req
    \<Rightarrow> (('r, 'd) auth_world \<times> http_res, LoginOutput) eff" where
  "service_login K P E identifier password req =
     thenM (throwIfM (identifier = [] \<or> password = []) (Http 400 ''InvalidInput'' ''Identifier and password are required.''))
     (catchM
       (bindM (onWorld (pwd_login K P identifier password (auth_getIp req))) (\<lambda>userId.
        bindM (onWorld (session_create E \<lparr>ci_userId = userId, ci_ip = auth_getIp req,
                 ci_userAgent = truthy_opt (header req ''user-agent''), ci_device = None\<rparr>)) (\<lambda>session.
        bindM (onWorld (issueTokensForUserId E userId (Some (s_id session)))) (\<lambda>pair.
        thenM (onRes (\<lambda>r. r\<lparr>rs_refreshToken := Some (refreshToken pair)\<rparr>))
        (bindM (onWorld (catchM (users_findById (f_users E) userId) (\<lambda>_. retM None))) (\<lambda>me.
         retM (case me of
            Some u \<Rightarrow> \<lparr>lo_accessToken = accessToken pair, lo_id = u_id u, lo_username = Some (u_username u), lo_email = u_email u\<rparr>
          | None \<Rightarrow> \<lparr>lo_accessToken = accessToken pair, lo_id = userId, lo_username = None, lo_email = None\<rparr>)))))))
       (\<lambda>err. if err_status err \<noteq> None \<and> err_status err \<noteq> Some 0 \<and> err_has_code err then throwM err
              else throwM (Http 500 ''AuthLoginFailed'' ''Login failed due to an internal error.'')))"

text \<open>\<open>payload?.sub && payload?.sid\<close>, then \<open>payload?.jti\<close>: the session a refresh token belongs to.\<close>

definition onSessionOf ::
  "('r, 'd, 'm) refresh_env_scheme \<Rightarrow> json option \<Rightarrow> (string \<Rightarrow> string \<Rightarrow> (('r, 'd) auth_world, 'a) eff) \<Rightarrow> (('r, 'd) auth_world, unit) eff" where
  "onSessionOf E payload act =
     (let field = (\<lambda>k. case payload of None \<Rightarrow> None | Some p \<Rightarrow> jfield k p) in
      if js_truthy (field ''sub'') \<and> js_truthy (field ''sid'')
      then bestEffortM (act (tmpl_opt (field ''sub'')) (tmpl_opt (field ''sid'')))
      else if js_truthy (field ''jti'')
      then bindM (catchM (findSessionByJti E (tmpl_opt (field ''jti''))) (\<lambda>_. retM None)) (\<lambda>loc.
           case loc of
             None \<Rightarrow> retM ()
           | Some (u, s) \<Rightarrow> bestEffortM (act u (nullish s ''undefined'')))
      else retM ())"

definition service_failed :: "string \<Rightarrow> string \<Rightarrow> exn \<Rightarrow> ('s, 'a) eff" where
  "service_failed code msg err =
     (if err_status err = Some 401 then throwM (Http 401 ''InvalidRefresh'' ''Invalid or expired refresh token.'')
      else throwM (Http 500 code msg))"

definition service_logout :: "('r, 'd, 'm) refresh_env_scheme \<Rightarrow> string \<Rightarrow> (('r, 'd) auth_world, unit) eff" where
  "service_logout E token =
     thenM (throwIfM (token = []) (Http 400 ''MissingRefresh'' ''Refresh token is required.''))
     (catchM
       (bindM (peekPayload E token True) (\<lambda>payload.
        thenM (refresh_revoke E token)
        (onSessionOf E payload (session_revoke E))))
       (service_failed ''LogoutFailed'' ''Logout failed due to an internal error.''))"

definition service_rotate :: "('r, 'd, 'm) refresh_env_scheme \<Rightarrow> string \<Rightarrow> (('r, 'd) auth_world, TokenPair) eff" where
  "service_rotate E token =
     thenM (throwIfM (token = []) (Http 400 ''MissingRefresh'' ''Refresh token is required.''))
     (catchM
       (bindM (peekPayload E token False) (\<lambda>payload.
        bindM (refresh_refresh E token) (\<lambda>pair.
        thenM (onSessionOf E payload (session_touch E))
        (retM pair))))
       (service_failed ''RotateFailed'' ''Token rotation failed due to an internal error.''))"

section \<open>PasswordController\<close>

text \<open>The two answers of a code request: a waiting time, if it is truthy, becomes a header.\<close>

definition pwd_retry_after :: "RequestData \<Rightarrow> http_res \<Rightarrow> http_res" where
  "pwd_retry_after d r =
     (case resendAvailableIn d of
        Some x \<Rightarrow> if alreadyActive d \<and> x \<noteq> 0 then put_header ''Retry-After'' (int_str \<lfloor>x\<rfloor>) r else r
      | None \<Rightarrow> r)"

definition pwd_forgot ::
  "'r kv_ops \<Rightarrow> 'd otp_env \<Rightarrow> otp_channel \<Rightarrow> string \<Rightarrow> web_req \<Rightarrow> (('r, 'd) auth_world \<times> http_res, RequestData) eff" where
  "pwd_forgot K Q channel identifier req =
     bindM (onWorld (requestOtp K Q channel identifier Reset (auth_getIp req) (truthy_opt (header req ''user-agent'')))) (\<lambda>out.
     thenM (onRes (\<lambda>r. put_header ''Vary'' ''Cookie'' (pwd_retry_after out r)))
     (retM out))"

definition pwd_forgotResend ::
  "'r kv_ops \<Rightarrow> 'd otp_env \<Rightarrow> otp_channel \<Rightarrow> string \<Rightarrow> web_req \<Rightarrow> (('r, 'd) auth_world \<times> http_res, RequestData) eff" where
  "pwd_forgotResend K Q channel identifier req =
     bindM (onWorld (resendOtp K Q channel identifier Reset (auth_getIp req) (truthy_opt (header req ''user-agent'')))) (\<lambda>out.
     thenM (onRes (\<lambda>r. put_header ''Vary'' ''Cookie'' (pwd_retry_after out r)))
     (retM out))"

definition pwd_forgotVerify ::
  "'r kv_ops \<Rightarrow> 'd otp_env \<Rightarrow> otp_channel \<Rightarrow> string \<Rightarrow> string \<Rightarrow> web_req \<Rightarrow> (('r, 'd) auth_world \<times> http_res, VerifyData) eff" where
  "pwd_forgotVerify K Q channel identifier code req =
     bindM (onWorld (verifyOtp K Q channel identifier code Reset (auth_getIp req) (truthy_opt (header req ''user-agent'')))) (\<lambda>out.
     thenM (onRes (put_header ''Vary'' ''Cookie''))
     (retM out))"

definition missing_bearer :: "string \<Rightarrow> exn" where
  "missing_bearer msg = Http 400 ''MissingBearer'' msg"

text \<open>\<open>reset\<close> and \<open>set\<close>, which have the same body.\<close>

definition pwd_reset :: "'r kv_ops \<Rightarrow> 'd pwd_env \<Rightarrow> string option \<Rightarrow> string \<Rightarrow> (('r, 'd) auth_world, string) eff" where
  "pwd_reset K P authHeader password =
     (case extractBearer authHeader of
        None \<Rightarrow> throwM (missing_bearer ''Bearer ticket missing.'')
      | Some token \<Rightarrow> setPassword K P token password)"

definition pwd_set :: "'r kv_ops \<Rightarrow> 'd pwd_env \<Rightarrow> string option \<Rightarrow> string \<Rightarrow> (('r, 'd) auth_world, string) eff" where
  "pwd_set K P authHeader password =
     (case extractBearer authHeader of
        None \<Rightarrow> throwM (missing_bearer ''Bearer ticket missing.'')
      | Some token \<Rightarrow> setPassword K P token password)"

definition pwd_change :: "'d pwd_env \<Rightarrow> string option \<Rightarrow> string \<Rightarrow> string \<Rightarrow> (('r, 'd) auth_world, unit) eff" where
  "pwd_change P currentUserId currentPassword newPassword =
     (if \<not> truthy currentUserId then throwM (Http 400 ''Unauthorized'' ''Unauthorized context.'')
      else changePassword P (the currentUserId) currentPassword newPassword)"

definition estimateStrength :: "string \<Rightarrow> nat" where
  "estimateStrength pwd =
     (if pwd = [] then 0
      else (if length pwd \<ge> 8 then 1 else 0)
         + (if list_ex is_lower pwd \<and> list_ex is_upper pwd then 1 else 0)
         + (if list_ex is_digit pwd then 1 else 0)
         + (if list_ex (\<lambda>c. \<not> is_lower c \<and> \<not> is_upper c \<and> \<not> is_digit c) pwd then 1 else 0))"

definition pwd_strength :: "string \<Rightarrow> ('s, nat) eff" where
  "pwd_strength password = retM (estimateStrength password)"

record password_policy =
  pp_minLength :: nat
  pp_requireNumber :: bool
  pp_requireLower :: bool
  pp_requireUpper :: bool
  pp_requireSymbol :: bool

definition pwd_policy :: password_policy where
  "pwd_policy = \<lparr>pp_minLength = 8, pp_requireNumber = True, pp_requireLower = True, pp_requireUpper = False, pp_requireSymbol = False\<rparr>"

definition pwd_debugInspect :: "('r, 'm) token_env_scheme \<Rightarrow> string option \<Rightarrow> ('s, json option) eff" where
  "pwd_debugInspect E authHeader =
     (case extractBearer authHeader of
        None \<Rightarrow> throwM (missing_bearer ''Bearer token missing.'')
      | Some token \<Rightarrow> retM (decodeUnsafe E token))"

end
