(* ===== verification/Guards.thy ===== *)
theory Guards
  imports AuthHttp
begin

text \<open>
  Who may call a route: \<open>core/auth/guards/jwt-auth.guard.ts\<close>,
  \<open>core/auth/guards/hybrid-auth.guard.ts\<close>, \<open>common/guards/roles.guard.ts\<close> and
  \<open>catalog/policies/catalog.policies.ts\<close>. A guard answers the user it attaches to the request,
  or throws. The texts of the hybrid guard's errors, which are Persian, are left out. The metadata
  of a route (public, roles) is an argument.
\<close>

record CurrentUser =
  cu_id :: json
  cu_roles :: "string list"
  cu_name :: "json option"

section \<open>The claims of an access token\<close>

text \<open>\<open>Array.isArray(roles) ? roles.map(String) : []\<close>.\<close>

definition role_strings :: "json option \<Rightarrow> string list" where
  "role_strings v = (case js_array v of Some xs \<Rightarrow> map tmpl xs | None \<Rightarrow> [])"

definition user_of_claims :: "json \<Rightarrow> CurrentUser" where
  "user_of_claims payload =
     \<lparr>cu_id = the (jfield ''sub'' payload), cu_roles = role_strings (jfield ''roles'' payload), cu_name = jfield ''username'' payload\<rparr>"

text \<open>A header or a cookie that may come as a list of values.\<close>

datatype header_value = HStr string | HList "string list"

record guard_req =
  gq_authorization :: "header_value option"
  gq_mock :: "header_value option"
  gq_cookie :: "string option"
  gq_path :: string

section \<open>JwtAuthGuard\<close>

text \<open>\<open>const [scheme, token] = h.split(' ')\<close>.\<close>

definition split_scheme :: "string \<Rightarrow> string \<times> string option" where
  "split_scheme h = (case split_on (CHR '' '') h of s # t # _ \<Rightarrow> (s, Some t) | [s] \<Rightarrow> (s, None) | [] \<Rightarrow> ([], None))"

text \<open>\<open>onModuleInit\<close>: the secret of the settings, else of the environment, else a fixed one.\<close>

definition guard_secret :: "string option \<Rightarrow> (string \<Rightarrow> string option) \<Rightarrow> string" where
  "guard_secret settingsSecret env =
     (if truthy settingsSecret then the settingsSecret
      else if truthy (env ''AUTH_ACCESS_SECRET'') then the (env ''AUTH_ACCESS_SECRET'')
      else nullish (env ''AUTH_ACCESS_SECRET'') ''dev_access_secret_for_tests'')"

definition no_token :: exn where
  "no_token = unauthorized ''Authorization token not found''"

definition extractBearerToken :: "guard_req \<Rightarrow> exn + string option" where
  "extractBearerToken req =
     (case gq_authorization req of
        Some (HStr h) \<Rightarrow>
          if h = [] then Inr None
          else (case split_scheme h of (scheme, token) \<Rightarrow>
            if js_lower scheme \<noteq> ''bearer'' then Inl no_token
            else if \<not> truthy token then Inl no_token
            else Inr token)
      | _ \<Rightarrow> Inr None)"

definition extractCookieToken :: "guard_req \<Rightarrow> string option" where
  "extractCookieToken req = truthy_opt (gq_cookie req)"

definition verifyToken :: "jwt_lib \<Rightarrow> string \<Rightarrow> int \<Rightarrow> string \<Rightarrow> exn + json" where
  "verifyToken J secret now token =
     (case j_verify J now token secret default_verify of
        Inr payload \<Rightarrow> if js_truthy (jfield ''sub'' payload) then Inr payload else Inl (unauthorized ''Invalid or expired access token'')
      | Inl _ \<Rightarrow> Inl (unauthorized ''Invalid or expired access token''))"

definition jwt_canActivate :: "jwt_lib \<Rightarrow> string \<Rightarrow> int \<Rightarrow> guard_req \<Rightarrow> exn + CurrentUser" where
  "jwt_canActivate J secret now req =
     (case extractBearerToken req of
        Inl e \<Rightarrow> Inl e
      | Inr bearer \<Rightarrow>
          (case (case bearer of Some t \<Rightarrow> Some t | None \<Rightarrow> extractCookieToken req) of
             None \<Rightarrow> Inl no_token
           | Some token \<Rightarrow>
               if token = [] then Inl no_token
               else (case verifyToken J secret now token of Inl e \<Rightarrow> Inl e | Inr payload \<Rightarrow> Inr (user_of_claims payload))))"

section \<open>HybridAuthGuard\<close>

definition hybrid_denied :: exn where
  "hybrid_denied = unauthorized []"

definition tryAuthenticateWithBearer :: "jwt_lib \<Rightarrow> string \<Rightarrow> int \<Rightarrow> guard_req \<Rightarrow> exn + CurrentUser option" where
  "tryAuthenticateWithBearer J secret now req =
     (case gq_authorization req of
        Some (HStr h) \<Rightarrow>
          if h = [] then Inr None
          else (case split_scheme h of (scheme, token) \<Rightarrow>
            if \<not> truthy token then Inr None
            else if js_lower scheme \<noteq> ''bearer'' then Inl hybrid_denied
            else (case j_verify J now (the token) secret default_verify of
                    Inl _ \<Rightarrow> Inl hybrid_denied
                  | Inr payload \<Rightarrow>
                      if js_truthy (jfield ''sub'' payload) then Inr (Some (user_of_claims payload)) else Inl hybrid_denied))
      | _ \<Rightarrow> Inr None)"

text \<open>\<open>JSON.parse\<close> of the mock header: an id that is a text, and roles that are a list if they are truthy.\<close>

definition mock_user :: "json \<Rightarrow> CurrentUser option" where
  "mock_user parsed =
     (case jfield ''id'' parsed of
        Some (JStr i) \<Rightarrow>
          if i = [] then None
          else if js_truthy (jfield ''roles'' parsed) \<and> js_array (jfield ''roles'' parsed) = None then None
          else (case jfield ''roles'' parsed of
                  None \<Rightarrow> Some \<lparr>cu_id = JStr i, cu_roles = [], cu_name = None\<rparr>
                | Some JNull \<Rightarrow> Some \<lparr>cu_id = JStr i, cu_roles = [], cu_name = None\<rparr>
                | Some (JArr xs) \<Rightarrow> Some \<lparr>cu_id = JStr i, cu_roles = js_unique (map tmpl xs), cu_name = None\<rparr>
                | Some _ \<Rightarrow> None)
      | _ \<Rightarrow> None)"

definition authenticateWithMockHeader :: "guard_req \<Rightarrow> exn + CurrentUser" where
  "authenticateWithMockHeader req =
     (case (case gq_mock req of Some (HStr s) \<Rightarrow> truthy_opt (Some s) | Some (HList (s # _)) \<Rightarrow> Some s | _ \<Rightarrow> None) of
        None \<Rightarrow> Inl hybrid_denied
      | Some serialized \<Rightarrow>
          (case json_parse serialized of
             None \<Rightarrow> Inl hybrid_denied
           | Some parsed \<Rightarrow> (case mock_user parsed of None \<Rightarrow> Inl hybrid_denied | Some u \<Rightarrow> Inr u)))"

definition isPublicPath :: "guard_req \<Rightarrow> bool" where
  "isPublicPath req \<longleftrightarrow> starts_with (gq_path req) ''/api/docs'' \<or> starts_with (gq_path req) ''/docs''
     \<or> starts_with (gq_path req) ''/swagger-ui'' \<or> starts_with (gq_path req) ''/health''"

definition isMockEnabled :: "(string \<Rightarrow> string option) \<Rightarrow> (string \<Rightarrow> string option) \<Rightarrow> bool" where
  "isMockEnabled cfg env =
     (case cfg ''MOCK_AUTH_ENABLED'' of
        Some flag \<Rightarrow> js_lower flag \<in> {''1'', ''true'', ''yes'', ''on''}
      | None \<Rightarrow> (case cfg ''NODE_ENV'' of Some e \<Rightarrow> e | None \<Rightarrow> nullish (env ''NODE_ENV'') ''development'') \<noteq> ''production'')"

text \<open>\<open>Inr None\<close> lets a public route through without a user.\<close>

definition hybrid_canActivate ::
  "(string \<Rightarrow> string option) \<Rightarrow> (string \<Rightarrow> string option) \<Rightarrow> jwt_lib \<Rightarrow> string \<Rightarrow> int \<Rightarrow> bool \<Rightarrow> guard_req \<Rightarrow> exn + CurrentUser option" where
  "hybrid_canActivate cfg env J secret now isPublic req =
     (if isPublic \<or> isPublicPath req then Inr None
      else (case tryAuthenticateWithBearer J secret now req of
              Inl e \<Rightarrow> Inl e
            | Inr (Some u) \<Rightarrow> Inr (Some u)
            | Inr None \<Rightarrow>
                if \<not> isMockEnabled cfg env then Inl hybrid_denied
                else (case authenticateWithMockHeader req of Inl e \<Rightarrow> Inl e | Inr u \<Rightarrow> Inr (Some u))))"

section \<open>Roles\<close>

definition roles_denied :: exn where
  "roles_denied = forbidden []"

definition roles_canActivate :: "string list option \<Rightarrow> CurrentUser option \<Rightarrow> exn + unit" where
  "roles_canActivate requiredRoles user =
     (case requiredRoles of
        None \<Rightarrow> Inr ()
      | Some roles \<Rightarrow>
          if roles = [] then Inr ()
          else (case user of
                  None \<Rightarrow> Inl roles_denied
                | Some u \<Rightarrow> if list_ex (\<lambda>r. r \<in> set roles) (cu_roles u) then Inr () else Inl roles_denied))"

definition hasRole :: "CurrentUser option \<Rightarrow> string \<Rightarrow> bool" where
  "hasRole user role \<longleftrightarrow> (case user of None \<Rightarrow> False | Some u \<Rightarrow> role \<in> set (cu_roles u))"

definition isAdmin :: "CurrentUser option \<Rightarrow> bool" where
  "isAdmin user = hasRole user ''admin''"

definition isSupplier :: "CurrentUser option \<Rightarrow> bool" where
  "isSupplier user = hasRole user ''supplier''"

definition canManageProduct :: "CurrentUser option \<Rightarrow> bool" where
  "canManageProduct user \<longleftrightarrow> isAdmin user \<or> isSupplier user"

section \<open>SupplierOwnershipGuard\<close>

text \<open>\<open>/^\d+$/\<close>, then \<open>BigInt\<close>.\<close>

definition ensureNumericId :: "string \<Rightarrow> exn + nat" where
  "ensureNumericId productId =
     (if productId \<noteq> [] \<and> list_all is_digit productId then Inr (digits_val productId)
      else Inl (badRequest ''Product id must be numeric''))"

text \<open>\<open>owns i u\<close> is the query for a link between product \<open>i\<close> and user \<open>u\<close>.\<close>

definition supplier_canActivate ::
  "(nat \<Rightarrow> json \<Rightarrow> ('d, bool) eff) \<Rightarrow> CurrentUser option \<Rightarrow> string option \<Rightarrow> ('d, unit) eff" where
  "supplier_canActivate owns user productId =
     (if user = None then throwM (forbidden ''Authentication required'')
      else if isAdmin user then retM ()
      else if \<not> isSupplier user then throwM (forbidden ''Only suppliers may manage products'')
      else if \<not> truthy productId then throwM (badRequest ''Product id param is required'')
      else (case ensureNumericId (the productId) of
              Inl e \<Rightarrow> throwM e
            | Inr n \<Rightarrow> bindM (owns n (cu_id (the user))) (\<lambda>b.
                       throwIfM (\<not> b) (forbidden ''Supplier does not own this product''))))"

section \<open>ParseBigIntPipe\<close>

definition parseBigInt :: "string option \<Rightarrow> exn + int" where
  "parseBigInt v =
     (if \<not> truthy v then Inl (badRequest ''Value must be a bigint compatible string'')
      else (case int_of_str (the v) of
              None \<Rightarrow> Inl (badRequest ''Validation failed (bigint string expected)'')
            | Some n \<Rightarrow> Inr n))"

end
