(* ===== verification/OtpFacts.thy ===== *)
theory OtpFacts
  imports Otp Hoare
begin

text \<open>
  What the one-time passwords keep in Redis. \<open>otp_inv\<close> is the invariant of the stored keys:
  counters are numbers, the active hash of an identifier is the hash of a code that was sent to
  it, and a ticket entry is the hash of a ticket issued for such a code. Every handler keeps it.
\<close>

section \<open>Numbers and text\<close>

lemma js_decimal_digits: "list_all is_digit ds \<Longrightarrow> ds \<noteq> [] \<Longrightarrow> js_decimal ds = Some (of_nat (digits_val ds))"
proof -
  assume d: "list_all is_digit ds" "ds \<noteq> []"
  then have "takeWhile is_digit ds = ds" "dropWhile is_digit ds = []" using span_digits [of ds "[]"] by auto
  then show ?thesis unfolding js_decimal_def Let_def by (simp only: d if_False simp_thms) (simp add: js_exponent_def)
qed

lemma digits_no_radix:
  assumes "list_all is_digit ds" and "\<not> is_digit c"
  shows "\<not> starts_with ds [d, c]"
  using assms by (auto simp: starts_with_iff)

lemma js_number_digits:
  assumes "list_all is_digit ds" and "ds \<noteq> []"
  shows "js_number ds = Some (of_nat (digits_val ds))"
proof -
  have "js_trim ds = ds"
    using assms by (intro js_trim_trimmed) (simp add: list_all_iff digit_not_space)
  moreover have "\<not> starts_with ds ''0x''" "\<not> starts_with ds ''0X''" "\<not> starts_with ds ''0o''" "\<not> starts_with ds ''0O''"
    "\<not> starts_with ds ''0b''" "\<not> starts_with ds ''0B''"
    by (rule digits_no_radix [OF assms(1)], simp add: is_digit_def)+
  moreover have "hd ds \<noteq> CHR ''-''" "hd ds \<noteq> CHR ''+''"
    using hd_digits [OF assms] by (auto simp: is_digit_def)
  ultimately show ?thesis
    using assms by (simp add: js_number_def js_decimal_digits del: starts_with.simps)
qed

lemma js_number_int [simp]: "js_number (int_str n) = Some (of_int n)"
proof (cases "n < 0")
  case False
  then show ?thesis by (simp add: int_str_def js_number_digits nat_str_digits)
next
  case True
  let ?d = "nat_str (nat (- n))"
  have "last (CHR ''-'' # ?d) = last ?d" by simp
  then have "js_trim (CHR ''-'' # ?d) = CHR ''-'' # ?d"
    by (intro js_trim_trimmed) (simp add: nat_str_ends is_space_def [of "CHR ''-''"])
  with True show ?thesis
    by (simp add: int_str_def js_number_def js_decimal_digits nat_str_digits)
qed

section \<open>Keys\<close>

definition hex_char :: "char \<Rightarrow> bool" where
  "hex_char c \<longleftrightarrow> is_digit c \<or> c \<in> set ''abcdef''"

text \<open>A digest in hexadecimal: what \<open>createHash('sha256').digest('hex')\<close> returns.\<close>

definition hex_digest :: "(string \<Rightarrow> string) \<Rightarrow> bool" where
  "hex_digest sha \<longleftrightarrow> (\<forall>x. length (sha x) = 64 \<and> list_all hex_char (sha x))"

lemma keyBase_shape:
  assumes "hex_digest (o_sha256 E)"
  obtains s where "keyBase E p c i = ''otp:'' @ s" and "length s = 40" and "list_all hex_char s"
proof
  show "keyBase E p c i = ''otp:'' @ take 40 (o_sha256 E (purpose_str p @ ''|'' @ channel_str c @ ''|'' @ i))"
    by (simp add: keyBase_def)
qed (use assms in \<open>auto simp: hex_digest_def list_all_iff dest: in_set_takeD\<close>)

lemma keys_apart:
  assumes "hex_digest (o_sha256 E)"
  shows "keyCooldown E p c i \<noteq> keyActive E p' c' i'" "keyBlock E p c i \<noteq> keyActive E p' c' i'"
    "keyTicket j \<noteq> keyActive E p c i" "otp_rl_key sha sc sub v ch pu \<noteq> keyActive E p c i"
    "keyTicket j \<noteq> keyCooldown E p c i" "keyTicket j \<noteq> keyBlock E p c i"
    "otp_rl_key sha sc sub v ch pu \<noteq> keyCooldown E p c i" "otp_rl_key sha sc sub v ch pu \<noteq> keyBlock E p c i"
    "otp_rl_key sha sc sub v ch pu \<noteq> keyTicket j"
    "keyCooldown E p c i \<noteq> keyBlock E p' c' i'"
proof -
  obtain s where s: "keyBase E p c i = ''otp:'' @ s" "length s = 40" "list_all hex_char s"
    by (rule keyBase_shape [OF assms])
  obtain s' where s': "keyBase E p' c' i' = ''otp:'' @ s'" "length s' = 40" "list_all hex_char s'"
    by (rule keyBase_shape [OF assms])
  have h: "\<not> hex_char (CHR ''t'')" "\<not> hex_char (CHR ''r'')" by (simp_all add: hex_char_def is_digit_def)
  obtain x y where x: "s = x # y" using s(2) by (cases s) auto
  with s(3) h have ne: "x \<noteq> CHR ''t''" "x \<noteq> CHR ''r''" by auto
  have "length (keyBase E p c i @ '':cd'') \<noteq> length (keyBase E p' c' i')" using s s' by simp
  then show "keyCooldown E p c i \<noteq> keyActive E p' c' i'" by (metis keyCooldown_def keyActive_def)
  have "length (keyBase E p c i @ '':blk'') \<noteq> length (keyBase E p' c' i')" using s s' by simp
  then show "keyBlock E p c i \<noteq> keyActive E p' c' i'" by (metis keyBlock_def keyActive_def)
  have "length (keyBase E p c i @ '':cd'') \<noteq> length (keyBase E p' c' i' @ '':blk'')" using s s' by simp
  then show "keyCooldown E p c i \<noteq> keyBlock E p' c' i'" by (metis keyCooldown_def keyBlock_def)
  show "keyTicket j \<noteq> keyActive E p c i" "keyTicket j \<noteq> keyCooldown E p c i" "keyTicket j \<noteq> keyBlock E p c i"
    "otp_rl_key sha sc sub v ch pu \<noteq> keyActive E p c i" "otp_rl_key sha sc sub v ch pu \<noteq> keyCooldown E p c i"
    "otp_rl_key sha sc sub v ch pu \<noteq> keyBlock E p c i"
    using s(1) x ne by (simp_all add: keyTicket_def keyActive_def keyCooldown_def keyBlock_def otp_rl_key_def)
  show "otp_rl_key sha sc sub v ch pu \<noteq> keyTicket j"
    by (simp add: keyTicket_def otp_rl_key_def)
qed

definition limit_shaped :: "string \<Rightarrow> bool" where
  "limit_shaped k \<longleftrightarrow> starts_with k ''otp:rl:'' \<or> starts_with k ''auth:login:throttle:''"

lemma limit_shaped_key: "limit_shaped (otp_rl_key sha sc sub v ch pu)"
  by (simp add: limit_shaped_def otp_rl_key_def)

lemma limit_shaped_apart:
  assumes "hex_digest (o_sha256 E)"
  shows "\<not> limit_shaped (keyActive E p c i)" "\<not> limit_shaped (keyCooldown E p c i)" "\<not> limit_shaped (keyBlock E p c i)"
    "\<not> limit_shaped (keyTicket j)"
proof -
  obtain s where s: "keyBase E p c i = ''otp:'' @ s" "length s = 40" "list_all hex_char s"
    by (rule keyBase_shape [OF assms])
  have h: "\<not> hex_char (CHR ''r'')" by (simp add: hex_char_def is_digit_def)
  obtain x y where x: "s = x # y" using s(2) by (cases s) auto
  with s(3) h have "x \<noteq> CHR ''r''" by auto
  with s(1) x show "\<not> limit_shaped (keyActive E p c i)" "\<not> limit_shaped (keyCooldown E p c i)" "\<not> limit_shaped (keyBlock E p c i)"
    by (simp_all add: limit_shaped_def keyActive_def keyCooldown_def keyBlock_def)
  show "\<not> limit_shaped (keyTicket j)" by (simp add: limit_shaped_def keyTicket_def)
qed

section \<open>The invariant\<close>

text \<open>A ticket, issued at \<open>t\<close> with the id \<open>u\<close>.\<close>

definition ticket :: "'d otp_env \<Rightarrow> int \<Rightarrow> otp_purpose \<Rightarrow> otp_channel \<Rightarrow> string \<Rightarrow> string \<Rightarrow> string" where
  "ticket E t p c i u = j_sign (o_jwt E) t (JObj (ticket_payload p c i)) (oc_ticketSecret (o_cfg E)) (ticket_opts E u i)"

text \<open>The hash of a code that has been sent; \<open>S\<close> are the messages sent so far.\<close>

type_synonym messages = "(otp_channel \<times> string \<times> string) set"

definition wf_code :: "'d otp_env \<Rightarrow> messages \<Rightarrow> otp_channel \<Rightarrow> string \<Rightarrow> (string \<times> string) list \<Rightarrow> bool" where
  "wf_code E S c i h \<longleftrightarrow> (\<exists>code t n. (c, i, code) \<in> S \<and> map_of h ''codeHash'' = Some (o_sha256 E code) \<and>
     map_of h ''attempts'' = Some (int_str n) \<and> 0 \<le> n \<and> map_of h ''maxAttempts'' = Some (int_str (oc_maxAttempts (o_cfg E))) \<and>
     map_of h ''exp'' = Some (int_str (t + oc_ttl (o_cfg E))) \<and> map_of h ''resendAt'' = Some (int_str (t + oc_cooldown (o_cfg E))))"

definition key_ok :: "'d otp_env \<Rightarrow> string set \<Rightarrow> messages \<Rightarrow> string \<Rightarrow> rval \<Rightarrow> bool" where
  "key_ok E Ids S k v \<longleftrightarrow>
     (limit_shaped k \<longrightarrow> (\<exists>n. v = RStr (int_str n))) \<and>
     (\<forall>p c i. i \<in> Ids \<and> k = keyActive E p c i \<longrightarrow> (\<exists>h. v = RHash h \<and> wf_code E S c i h)) \<and>
     (\<forall>j. k = keyTicket j \<longrightarrow> (\<exists>t p c i u code. i \<in> Ids \<and> v = RStr (o_sha256 E (ticket E t p c i u)) \<and> (c, i, code) \<in> S))"

definition kv_all :: "(string \<Rightarrow> rval \<Rightarrow> bool) \<Rightarrow> kv_map \<Rightarrow> bool" where
  "kv_all P V \<longleftrightarrow> (\<forall>k v e. V k = Some (v, e) \<longrightarrow> P k v)"

lemma kv_allD: "kv_all P V \<Longrightarrow> V k = Some (v, e) \<Longrightarrow> P k v"
  by (auto simp: kv_all_def)

lemma kv_all_live: "kv_all P V \<Longrightarrow> kv_all P (live now V)"
  by (auto simp: kv_all_def live_def split: option.splits prod.splits if_splits)

lemma kv_all_upd: "kv_all P V \<Longrightarrow> (\<And>v e. x = Some (v, e) \<Longrightarrow> P k v) \<Longrightarrow> kv_all P (V(k := x))"
  by (auto simp: kv_all_def)

text \<open>What the invariant says of a world: the keys are well formed for \<open>S\<close>, and \<open>T\<close> are the messages sent.\<close>

definition otp_at :: "'d otp_env \<Rightarrow> string set \<Rightarrow> ('d \<Rightarrow> messages) \<Rightarrow> messages \<Rightarrow> messages \<Rightarrow> (kv_map, 'd) auth_world \<Rightarrow> bool" where
  "otp_at E Ids sent S T w \<longleftrightarrow> kv_all (key_ok E Ids S) (w_redis w) \<and> sent (w_db w) = T"

lemma keeps_ref:
  assumes "\<And>now V. kv_all (key_ok E Ids S) V \<Longrightarrow> kv_all (key_ok E Ids S) (snd (spec now V))"
  shows "keeps (otp_at E Ids sent S T) (redisM (\<lambda>now. ref_run now (spec now)))"
  using assms [OF kv_all_live] by (auto simp: keeps_def otp_at_def redisM_def ref_run_def case_prod_beta)

lemma keeps_reads [keeps_intro]:
  "keeps (otp_at E Ids sent S T) (redisM (\<lambda>n. k_get (ref_of K) n k))"
  "keeps (otp_at E Ids sent S T) (redisM (\<lambda>n. k_del (ref_of K) n k))"
  "keeps (otp_at E Ids sent S T) (redisM (\<lambda>n. k_exists (ref_of K) n k))"
  "keeps (otp_at E Ids sent S T) (redisM (\<lambda>n. k_expire (ref_of K) n k t))"
  "keeps (otp_at E Ids sent S T) (redisM (\<lambda>n. k_ttl (ref_of K) n k))"
  "keeps (otp_at E Ids sent S T) (redisM (\<lambda>n. k_hgetall (ref_of K) n k))"
  "keeps (otp_at E Ids sent S T) (redisM (\<lambda>n. ref_run n (c_getdel k)))"
  unfolding ref_of_simps
  by (rule keeps_ref; auto simp: kv_cmds intro!: kv_all_upd dest: kv_allD split: option.splits rval.splits)+

lemma keeps_set [keeps_intro]:
  "key_ok E Ids S k (RStr x) \<Longrightarrow> keeps (otp_at E Ids sent S T) (redisM (\<lambda>n. k_set (ref_of K) n k x ms))"
  unfolding ref_of_simps by (rule keeps_ref) (auto simp: kv_cmds intro!: kv_all_upd)

lemma keeps_incr:
  assumes "limit_shaped k" and "hex_digest (o_sha256 E)"
  shows "keeps (otp_at E Ids sent S T) (redisM (\<lambda>n. k_incr (ref_of K) n k))"
proof -
  have "key_ok E Ids S k (RStr (int_str n))" for n
    using assms limit_shaped_apart [OF assms(2)] unfolding key_ok_def by metis
  then show ?thesis
    unfolding ref_of_simps by (intro keeps_ref) (auto simp: kv_cmds intro!: kv_all_upd split: option.splits rval.splits)
qed

text \<open>Writing to the active hash.\<close>

lemma key_ok_active:
  assumes "hex_digest (o_sha256 E)" and "inj_on (\<lambda>(p, c, i). keyActive E p c i) (UNIV \<times> UNIV \<times> Ids)" and "i \<in> Ids"
  shows "key_ok E Ids S (keyActive E p c i) (RHash h) \<longleftrightarrow> wf_code E S c i h"
proof -
  have "(p', c', i') = (p, c, i)" if "i' \<in> Ids" "keyActive E p' c' i' = keyActive E p c i" for p' c' i'
    using inj_onD [OF assms(2), of "(p', c', i')" "(p, c, i)"] that assms(3) by simp
  then show ?thesis
    using limit_shaped_apart [OF assms(1)] keys_apart [OF assms(1)] assms(3)
    unfolding key_ok_def by (metis prod.inject rval.inject(2))
qed

lemma wf_attempts:
  assumes "wf_code E S c i h"
  obtains n where "map_of h ''attempts'' = Some (int_str n)" and "0 \<le> n" and "wf_code E S c i (hput ''attempts'' (int_str (n + 1)) h)"
proof -
  from assms obtain code t n where w: "(c, i, code) \<in> S" "map_of h ''codeHash'' = Some (o_sha256 E code)"
    "map_of h ''attempts'' = Some (int_str n)" "0 \<le> n" "map_of h ''maxAttempts'' = Some (int_str (oc_maxAttempts (o_cfg E)))"
    "map_of h ''exp'' = Some (int_str (t + oc_ttl (o_cfg E)))" "map_of h ''resendAt'' = Some (int_str (t + oc_cooldown (o_cfg E)))"
    unfolding wf_code_def by blast
  then have "wf_code E S c i (hput ''attempts'' (int_str (n + 1)) h)"
    unfolding wf_code_def by (intro exI [of _ code] exI [of _ t] exI [of _ "n + 1"]) simp
  with w show thesis by (intro that)
qed

lemma keeps_hincr:
  fixes E :: "'d otp_env"
  assumes "hex_digest (o_sha256 E)" and "inj_on (\<lambda>(p, c, i). keyActive E p c i) (UNIV \<times> UNIV \<times> Ids)" and "i \<in> Ids"
  shows "hoare (\<lambda>w. otp_at E Ids sent S T w \<and> live (w_now w) (w_redis w) (keyActive E p c i) \<noteq> None)
    (redisM (\<lambda>n. k_hincr (ref_of K) n (keyActive E p c i) ''attempts'' 1)) (\<lambda>_. otp_at E Ids sent S T) R"
proof (rule hoare_run)
  fix w :: "(kv_map, 'd) auth_world"
  let ?V = "live (w_now w) (w_redis w)" and ?k = "keyActive E p c i"
  assume w: "otp_at E Ids sent S T w \<and> ?V ?k \<noteq> None"
  then have V: "kv_all (key_ok E Ids S) ?V" by (simp add: otp_at_def kv_all_live)
  from w obtain v e where k: "?V ?k = Some (v, e)" by auto
  from kv_allD [OF V this] assms(3) obtain h where v: "v = RHash h" "wf_code E S c i h" unfolding key_ok_def by metis
  from wf_attempts [OF this(2)] obtain n where n: "map_of h ''attempts'' = Some (int_str n)"
    and wf: "wf_code E S c i (hput ''attempts'' (int_str (n + 1)) h)" by metis
  then have "c_hincr ?k ''attempts'' 1 ?V = (Inr (n + 1), ?V(?k \<mapsto> (RHash (hput ''attempts'' (int_str (n + 1)) h), e)))"
    using k v by (simp add: c_hincr_def)
  moreover have "kv_all (key_ok E Ids S) (?V(?k \<mapsto> (RHash (hput ''attempts'' (int_str (n + 1)) h), e)))"
    using V wf by (intro kv_all_upd) (auto simp: key_ok_active [OF assms])
  ultimately show "\<exists>x s'. redisM (\<lambda>n. k_hincr (ref_of K) n ?k ''attempts'' 1) w = (Inr x, s') \<and> otp_at E Ids sent S T s'"
    using w by (simp add: ref_of_simps redisM_def ref_run_def otp_at_def)
qed

section \<open>The handlers keep the invariant\<close>

lemma hoare_keeps: "keeps I m \<Longrightarrow> hoare I m (\<lambda>_. I) (\<lambda>_. I)"
  by (rule hoareI) (auto dest: keepsD)

lemma hoare_fails: "keeps I m \<Longrightarrow> (\<And>s. P s \<Longrightarrow> I s) \<Longrightarrow> hoare P (thenM m (throwM e)) Q (\<lambda>_. I)"
  by (rule hoare_then [OF hoare_pre [OF hoare_conseq [OF hoare_keeps]] hoare_throw])

text \<open>The collaborators: SMS and mail record the message even when they fail, audit sends nothing.\<close>

definition otp_env_ok :: "'d otp_env \<Rightarrow> string set \<Rightarrow> ('d \<Rightarrow> messages) \<Rightarrow> bool" where
  "otp_env_ok E Ids sent \<longleftrightarrow> hex_digest (o_sha256 E) \<and>
     inj_on (\<lambda>(p, c, i). keyActive E p c i) (UNIV \<times> UNIV \<times> Ids) \<and>
     (\<forall>i c d. sent (snd (o_sms E i c d)) = insert (Sms, i, c) (sent d)) \<and>
     (\<forall>i c d. sent (snd (o_mail E i c d)) = insert (Email, i, c) (sent d)) \<and>
     (\<forall>lg a d. o_audit E = Some lg \<longrightarrow> sent (snd (lg a d)) = sent d)"

lemma env_okD:
  assumes "otp_env_ok E Ids sent"
  shows "hex_digest (o_sha256 E)" "inj_on (\<lambda>(p, c, i). keyActive E p c i) (UNIV \<times> UNIV \<times> Ids)"
    "sent (snd (o_sms E i c d)) = insert (Sms, i, c) (sent d)" "sent (snd (o_mail E i c d)) = insert (Email, i, c) (sent d)"
    "o_audit E = Some lg \<Longrightarrow> sent (snd (lg a d)) = sent d"
  using assms unfolding otp_env_ok_def by blast+

lemma keeps_db: "(\<And>d. sent (snd (m d)) = sent d) \<Longrightarrow> keeps (otp_at E Ids sent S T) (dbM m)"
  by (auto simp: keeps_def otp_at_def dbM_def case_prod_beta)

lemma keeps_audit: "otp_env_ok E Ids sent \<Longrightarrow> keeps (otp_at E Ids sent S T) (audit_log E a c p b ip ua)"
  unfolding audit_log_def by (auto intro!: keeps_intro keeps_db split: option.split dest: env_okD(5))

lemma keeps_now [keeps_intro]: "keeps (otp_at E Ids sent S T) dateNow"
  unfolding dateNow_def by (rule keeps_intro)

lemma keeps_epoch [keeps_intro]: "keeps (otp_at E Ids sent S T) nowEpoch"
  unfolding nowEpoch_def by (intro keeps_intro)

lemma keeps_uuid [keeps_intro]: "keeps (otp_at E Ids sent S T) (randomUUID u)"
  by (simp add: keeps_def otp_at_def randomUUID_def)

lemma keeps_random [keeps_intro]: "keeps (otp_at E Ids sent S T) (randomInt u b)"
  by (simp add: keeps_def otp_at_def randomInt_def)

lemma keeps_code [keeps_intro]: "keeps (otp_at E Ids sent S T) (random6Digits E')"
  unfolding random6Digits_def by (intro keeps_intro)

lemma keeps_attempt [keeps_intro]: "keeps I m \<Longrightarrow> keeps I (attemptM m)"
  by (auto simp: keeps_def attemptM_def case_prod_beta)

lemma keeps_batch [keeps_intro]: "(\<And>m. m \<in> set cs \<Longrightarrow> keeps I m) \<Longrightarrow> keeps I (batchM cs)"
  unfolding batchM_def pipeline_exec_def by (intro keeps_intro) auto

lemma keeps_bucket:
  "hex_digest (o_sha256 E) \<Longrightarrow> limit_shaped k \<Longrightarrow> keeps (otp_at E Ids sent S T) (otp_bucket (ref_of K) k win limit)"
  unfolding otp_bucket_def otp_bump_def by (intro keeps_intro keeps_incr) (auto split: prod.split intro: keeps_intro)

lemma keeps_buckets:
  assumes "hex_digest (o_sha256 E)"
  shows "keeps (otp_at E Ids sent S T) (consumeRequestBucket (ref_of K) sha L i ip c p)"
    and "keeps (otp_at E Ids sent S T) (consumeVerifyBucket (ref_of K) sha L i ip c p)"
  unfolding consumeRequestBucket_def consumeVerifyBucket_def
  using assms by (intro keeps_intro keeps_bucket limit_shaped_key; simp)+

text \<open>More messages sent leave the keys well formed.\<close>

lemma wf_code_mono: "wf_code E S c i h \<Longrightarrow> S \<subseteq> S' \<Longrightarrow> wf_code E S' c i h"
  unfolding wf_code_def by blast

lemma key_ok_mono: "key_ok E Ids S k v \<Longrightarrow> S \<subseteq> S' \<Longrightarrow> key_ok E Ids S' k v"
  unfolding key_ok_def by (elim conjE, intro conjI) (assumption, blast intro: wf_code_mono, blast)

lemma otp_at_mono: "otp_at E Ids sent S T w \<Longrightarrow> S \<subseteq> S' \<Longrightarrow> otp_at E Ids sent S' T w"
  unfolding otp_at_def kv_all_def by (blast intro: key_ok_mono)

text \<open>The keys whose content the invariant leaves open.\<close>

lemma key_ok_flag:
  assumes "hex_digest (o_sha256 E)"
  shows "key_ok E Ids S (keyCooldown E p c i) v" "key_ok E Ids S (keyBlock E p c i) v"
  using limit_shaped_apart [OF assms] keys_apart [OF assms] unfolding key_ok_def by metis+

lemma int_str_0: "int_str 0 = ''0''"
  by (simp add: int_str_def nat_str.simps digit_char_def char_of_def bit_iff_odd)

lemma fields_wf:
  "(c, i, code) \<in> S \<Longrightarrow> wf_code E S c i (fold (\<lambda>(f, x). hput f x) (code_fields E c p ip t code) h)"
  unfolding wf_code_def code_fields_def by (intro exI [of _ code] exI [of _ t] exI [of _ 0]) (simp add: int_str_0)

lemma keeps_new_code:
  assumes "otp_env_ok E Ids sent" and "i \<in> Ids" and "(c, i, code) \<in> S"
  shows "keeps (otp_at E Ids sent S T) (redisM (\<lambda>n. k_hset (ref_of K) n (keyActive E p c i) (code_fields E c p ip t code)))"
  unfolding ref_of_simps using assms(3)
  by (intro keeps_ref)
     (auto simp: kv_cmds key_ok_active [OF env_okD(1, 2) [OF assms(1)] assms(2)] intro!: kv_all_upd fields_wf split: option.splits rval.splits)

text \<open>The invariant: every active code has been sent.\<close>

definition otp_inv :: "'d otp_env \<Rightarrow> string set \<Rightarrow> ('d \<Rightarrow> messages) \<Rightarrow> (kv_map, 'd) auth_world \<Rightarrow> bool" where
  "otp_inv E Ids sent w \<longleftrightarrow> otp_at E Ids sent (sent (w_db w)) (sent (w_db w)) w"

lemma keeps_inv: "(\<And>S T. keeps (otp_at E Ids sent S T) m) \<Longrightarrow> keeps (otp_inv E Ids sent) m"
  unfolding keeps_def otp_inv_def by (metis otp_at_def)

lemma inv_at: "otp_inv E Ids sent w \<Longrightarrow> otp_at E Ids sent (sent (w_db w)) (sent (w_db w)) w"
  by (simp add: otp_inv_def)

lemma inv_issue:
  fixes E :: "'d otp_env"
  assumes ok: "otp_env_ok E Ids sent" and i: "i \<in> Ids"
  shows "keeps (otp_inv E Ids sent) (issueNewCode (ref_of K) E c i p ip (keyActive E p c i) (keyCooldown E p c i))"
proof -
  define send :: "string \<Rightarrow> ((kv_map, 'd) auth_world, unit) eff" where "send code = (case c of Sms \<Rightarrow> dbM (o_sms E i code) | Email \<Rightarrow> dbM (o_mail E i code))" for code
  define store :: "int \<Rightarrow> string \<Rightarrow> ((kv_map, 'd) auth_world, unit) eff" where "store t code = batchM
       [redisM (\<lambda>n. k_hset (ref_of K) n (keyActive E p c i) (code_fields E c p ip t code)),
        bindM (redisM (\<lambda>n. k_expire (ref_of K) n (keyActive E p c i) (oc_ttl (o_cfg E)))) (\<lambda>_. retM ()),
        redisM (\<lambda>n. k_set (ref_of K) n (keyCooldown E p c i) ''1'' (1000 * oc_cooldown (o_cfg E)))]" for t code
  have "keeps (otp_inv E Ids sent) (thenM (store t code) (send code))" for t code
  proof (rule keepsI)
    fix w s' :: "(kv_map, 'd) auth_world" and r
    assume w: "otp_inv E Ids sent w" and run: "thenM (store t code) (send code) w = (r, s')"
    let ?S = "insert (c, i, code) (sent (w_db w))"
    have "otp_at E Ids sent ?S (sent (w_db w)) w" using inv_at [OF w] by (rule otp_at_mono) auto
    moreover have "keeps (otp_at E Ids sent ?S (sent (w_db w))) (store t code)"
      unfolding store_def using keeps_new_code [OF ok i, of c code ?S] key_ok_flag [OF env_okD(1) [OF ok]]
      by (intro keeps_intro) (auto intro: keeps_intro)
    ultimately have st: "otp_at E Ids sent ?S (sent (w_db w)) (snd (store t code w))" by (simp add: keeps_def)
    have ret: "\<exists>w1. store t code w = (Inr (), w1)" unfolding store_def batchM_def pipeline_exec_def
      by (simp add: attemptM_def exec case_prod_beta)
    then obtain w1 where w1: "store t code w = (Inr (), w1)" by blast
    have "sent (w_db (snd (send code w1))) = insert (c, i, code) (sent (w_db w1)) \<and> w_redis (snd (send code w1)) = w_redis w1"
      by (cases c) (simp_all add: send_def dbM_def case_prod_beta env_okD(3, 4) [OF ok])
    moreover have "s' = snd (send code w1)" using run w1 by (simp add: thenM_def bindM_def)
    ultimately show "otp_inv E Ids sent s'" using st w1 by (simp add: otp_inv_def otp_at_def)
  qed
  note main = this
  show ?thesis unfolding issueNewCode_def
    by (intro keeps_bindM keeps_inv [OF keeps_epoch] keeps_inv [OF keeps_code] main [unfolded store_def send_def])
qed

lemma inv_request:
  assumes ok: "otp_env_ok E Ids sent" and i: "normalizeIdentifier c raw \<in> Ids"
  shows "keeps (otp_inv E Ids sent) (requestOtp (ref_of K) E c raw p ip ua)"
  unfolding requestOtp_def Let_def
  by (intro keeps_thenM keeps_bindM keeps_inv [OF keeps_buckets(1) [OF env_okD(1) [OF ok]]] keeps_inv [OF keeps_reads(3)]
        keeps_throwIfM keeps_inv [OF keeps_epoch] keeps_inv [OF keeps_reads(6)])
     (auto intro!: keeps_thenM keeps_retM inv_issue [OF ok i] keeps_inv [OF keeps_audit [OF ok]] split: option.split)

lemma normalize_idem [simp]: "normalizeIdentifier c (normalizeIdentifier c raw) = normalizeIdentifier c raw"
proof (cases c)
  case Sms
  have "js_trim (filter (\<lambda>c. \<not> is_space c) (js_trim raw)) = filter (\<lambda>c. \<not> is_space c) (js_trim raw)" (is "js_trim ?f = ?f")
  proof (rule js_trim_trimmed)
    assume "?f \<noteq> []"
    then have "hd ?f \<in> set ?f" "last ?f \<in> set ?f" by (rule hd_in_set, rule last_in_set)
    then show "\<not> is_space (hd ?f) \<and> \<not> is_space (last ?f)" by (metis (lifting) mem_Collect_eq set_filter)
  qed
  with Sms show ?thesis by (simp add: normalizeIdentifier_def Let_def)
next
  case Email
  have sp: "is_space (lower_char d) = is_space d" for d
    using of_char_less [of d] by (auto simp: is_space_def lower_char_def Let_def)
  have "dropWhile is_space (map lower_char x) = map lower_char (dropWhile is_space x)" for x
    by (induction x) (simp_all add: sp)
  then have "js_trim (js_lower x) = js_lower (js_trim x)" for x
    by (simp add: js_trim_def js_lower_def rev_map)
  with Email show ?thesis by (simp add: normalizeIdentifier_def Let_def)
qed

lemma inv_resend:
  assumes ok: "otp_env_ok E Ids sent" and i: "normalizeIdentifier c raw \<in> Ids"
  shows "keeps (otp_inv E Ids sent) (resendOtp (ref_of K) E c raw p ip ua)"
  unfolding resendOtp_def Let_def
  by (intro keeps_thenM keeps_bindM keeps_if keeps_inv [OF keeps_buckets(1) [OF env_okD(1) [OF ok]]]
        keeps_inv [OF keeps_epoch] keeps_inv [OF keeps_reads(6)] inv_request [OF ok])
     (auto intro!: keeps_thenM keeps_retM inv_issue [OF ok i] keeps_inv [OF keeps_audit [OF ok]] simp: i split: option.split)

section \<open>Verifying\<close>

lemma hoare_hgetall:
  assumes "hex_digest (o_sha256 E)" and "inj_on (\<lambda>(p, c, i). keyActive E p c i) (UNIV \<times> UNIV \<times> Ids)" and "i \<in> Ids"
  shows "hoare (otp_at E Ids sent S T) (redisM (\<lambda>n. k_hgetall (ref_of K) n (keyActive E p c i)))
    (\<lambda>h w. otp_at E Ids sent S T w \<and> (h = [] \<or> wf_code E S c i h \<and> live (w_now w) (w_redis w) (keyActive E p c i) \<noteq> None)) R"
proof (rule hoare_run)
  fix w :: "(kv_map, 'a) auth_world"
  let ?V = "live (w_now w) (w_redis w)" and ?k = "keyActive E p c i"
  assume w: "otp_at E Ids sent S T w"
  then have V: "kv_all (key_ok E Ids S) ?V" by (simp add: otp_at_def kv_all_live)
  have l: "live (w_now w) ?V = ?V" by (rule live_live) simp
  show "\<exists>h w'. redisM (\<lambda>n. k_hgetall (ref_of K) n ?k) w = (Inr h, w') \<and>
     otp_at E Ids sent S T w' \<and> (h = [] \<or> wf_code E S c i h \<and> live (w_now w') (w_redis w') ?k \<noteq> None)"
  proof (cases "?V ?k")
    case None
    with w V show ?thesis by (simp add: ref_of_simps redisM_def ref_run_def c_hgetall_def otp_at_def)
  next
    case (Some x)
    then obtain v e where x: "?V ?k = Some (v, e)" by (cases x) auto
    from kv_allD [OF V this] assms(3) obtain h where "v = RHash h" "wf_code E S c i h" unfolding key_ok_def by metis
    with x w V l show ?thesis by (simp add: ref_of_simps redisM_def ref_run_def c_hgetall_def otp_at_def)
  qed
qed

lemma ticket_key_ok:
  assumes "hex_digest (o_sha256 E)" and "i \<in> Ids" and "(c, i, code) \<in> S"
  shows "key_ok E Ids S (keyTicket j) (RStr (o_sha256 E (ticket E t p c i u)))"
proof -
  have "\<not> limit_shaped (keyTicket j)" "keyTicket j \<noteq> keyActive E p' c' i'" for p' c' i'
    by (rule limit_shaped_apart [OF assms(1)], rule keys_apart [OF assms(1)])
  then show ?thesis using assms(2, 3) unfolding key_ok_def by blast
qed

lemma keeps_ticket:
  assumes ok: "otp_env_ok E Ids sent" and i: "i \<in> Ids" and s: "(c, i, code) \<in> S"
  shows "keeps (otp_at E Ids sent S T) (issue_ticket (ref_of K) E c i p ip ua)"
  unfolding issue_ticket_def Let_def ticket_def [symmetric]
  using ticket_key_ok [OF env_okD(1) [OF ok] i s]
  by (intro keeps_intro keeps_audit [OF ok]) (auto intro: keeps_intro)

lemma hoare_verify:
  assumes ok: "otp_env_ok E Ids sent" and i: "normalizeIdentifier c raw \<in> Ids"
  shows "hoare (otp_at E Ids sent S T) (verifyOtp (ref_of K) E c raw code p ip ua)
    (\<lambda>d w. otp_at E Ids sent S T w \<and> (\<exists>x. (c, normalizeIdentifier c raw, x) \<in> S \<and> o_sha256 E x = o_sha256 E code))
    (\<lambda>e. otp_at E Ids sent S T)"
proof -
  let ?i = "normalizeIdentifier c raw" and ?I = "otp_at E Ids sent S T"
  let ?k = "keyActive E p c ?i"
  note d = env_okD [OF ok]
  let ?G = "\<lambda>h w. ?I w \<and> wf_code E S c ?i h \<and> live (w_now w) (w_redis w) ?k \<noteq> None"
  have now: "hoare (?G h) nowEpoch (\<lambda>_. ?G h) (\<lambda>_. ?I)" for h
    unfolding nowEpoch_def dateNow_def by (rule hoare_bind, rule hoare_gets, assumption, rule hoare_ret)
  have incr: "hoare (?G h) (redisM (\<lambda>n. k_hincr (ref_of K) n ?k ''attempts'' 1)) (\<lambda>_ w. wf_code E S c ?i h \<and> ?I w) (\<lambda>_. ?I)" for h
    using keeps_hincr [OF d(1, 2) i, where sent = sent and S = S and T = T and K = K and p = p and c = c and R = "\<lambda>_. ?I"] unfolding hoare_def by (fastforce split: prod.splits sum.splits)
  have lock: "keeps ?I (batchM [redisM (\<lambda>n. k_del (ref_of K) n ?k),
      redisM (\<lambda>n. k_set (ref_of K) n (keyBlock E p c ?i) ''1'' ms)])" for ms
    using key_ok_flag [OF d(1)] by (intro keeps_intro) (auto intro: keeps_intro)
  have guard: "hoare (\<lambda>w. wf_code E S c ?i h \<and> ?I w)
     (thenM (throwIfM (map_of h ''codeHash'' \<noteq> Some (o_sha256 E code)) e) (issue_ticket (ref_of K) E c ?i p ip ua))
     (\<lambda>d w. ?I w \<and> (\<exists>x. (c, ?i, x) \<in> S \<and> o_sha256 E x = o_sha256 E code)) (\<lambda>_. ?I)" for h e
  proof (rule hoare_pure)
    assume "wf_code E S c ?i h"
    then obtain x where x: "(c, ?i, x) \<in> S" "map_of h ''codeHash'' = Some (o_sha256 E x)" unfolding wf_code_def by blast
    show "hoare ?I (thenM (throwIfM (map_of h ''codeHash'' \<noteq> Some (o_sha256 E code)) e) (issue_ticket (ref_of K) E c ?i p ip ua))
     (\<lambda>d w. ?I w \<and> (\<exists>x. (c, ?i, x) \<in> S \<and> o_sha256 E x = o_sha256 E code)) (\<lambda>_. ?I)"
      by (rule hoare_guard, assumption, rule hoare_conseq [OF hoare_keeps [OF keeps_ticket [OF ok i x(1)]]]) (use x in auto)
  qed
  have body: "hoare (?G h) (bindM nowEpoch (\<lambda>now.
         if code_expired h now
         then thenM (redisM (\<lambda>n. k_del (ref_of K) n ?k)) (throwM (badRequest ''Invalid or expired code.''))
         else
          bindM (redisM (\<lambda>n. k_hincr (ref_of K) n ?k ''attempts'' 1)) (\<lambda>attempts.
          if attempts_over E h attempts
          then thenM (batchM [redisM (\<lambda>n. k_del (ref_of K) n ?k),
                  redisM (\<lambda>n. k_set (ref_of K) n (keyBlock E p c ?i) ''1'' (1000 * oc_blockWindow (o_cfg E)))])
               (throwM (forbidden ''Too many attempts. Try again later.''))
          else
           thenM (throwIfM (map_of h ''codeHash'' \<noteq> Some (o_sha256 E code)) (badRequest ''Invalid or expired code.''))
           (issue_ticket (ref_of K) E c ?i p ip ua))))
     (\<lambda>d w. ?I w \<and> (\<exists>x. (c, ?i, x) \<in> S \<and> o_sha256 E x = o_sha256 E code)) (\<lambda>_. ?I)" for h
  proof (rule hoare_bind, rule now, rule hoare_if)
    show "hoare (?G h) (thenM (redisM (\<lambda>n. k_del (ref_of K) n ?k)) (throwM (badRequest ''Invalid or expired code.''))) Q (\<lambda>_. ?I)" for Q
      by (rule hoare_fails [OF keeps_reads(2)]) simp
  next
    show "hoare (?G h) (bindM (redisM (\<lambda>n. k_hincr (ref_of K) n ?k ''attempts'' 1)) (\<lambda>attempts.
          if attempts_over E h attempts
          then thenM (batchM [redisM (\<lambda>n. k_del (ref_of K) n ?k),
                  redisM (\<lambda>n. k_set (ref_of K) n (keyBlock E p c ?i) ''1'' (1000 * oc_blockWindow (o_cfg E)))])
               (throwM (forbidden ''Too many attempts. Try again later.''))
          else
           thenM (throwIfM (map_of h ''codeHash'' \<noteq> Some (o_sha256 E code)) (badRequest ''Invalid or expired code.''))
           (issue_ticket (ref_of K) E c ?i p ip ua)))
     (\<lambda>d w. ?I w \<and> (\<exists>x. (c, ?i, x) \<in> S \<and> o_sha256 E x = o_sha256 E code)) (\<lambda>_. ?I)"
      by (rule hoare_bind, rule incr, rule hoare_if, rule hoare_fails [OF lock], simp, rule guard)
  qed
  show ?thesis unfolding verifyOtp_def Let_def
    by (rule hoare_then, rule hoare_keeps [OF keeps_buckets(2) [OF d(1)]], rule hoare_bind, rule hoare_keeps [OF keeps_reads(3)],
        rule hoare_guard, assumption, rule hoare_bind, rule hoare_hgetall [OF d(1, 2) i], rule hoare_guard, simp,
        rule hoare_pre [OF body]) auto
qed

text \<open>A successful verification used a code that was sent to the identifier.\<close>

lemma verify_sent:
  assumes ok: "otp_env_ok E Ids sent" and i: "normalizeIdentifier c raw \<in> Ids" and w: "otp_inv E Ids sent w"
    and v: "verifyOtp (ref_of K) E c raw code p ip ua w = (Inr d, w')"
  shows "\<exists>x. (c, normalizeIdentifier c raw, x) \<in> sent (w_db w) \<and> o_sha256 E x = o_sha256 E code"
  using hoare_ok [OF hoare_verify [OF ok i] inv_at [OF w] v] by blast

lemma inv_verify:
  assumes ok: "otp_env_ok E Ids sent" and i: "normalizeIdentifier c raw \<in> Ids"
  shows "keeps (otp_inv E Ids sent) (verifyOtp (ref_of K) E c raw code p ip ua)"
proof (rule keeps_inv)
  fix S T
  show "keeps (otp_at E Ids sent S T) (verifyOtp (ref_of K) E c raw code p ip ua)"
    using hoare_verify [OF ok i, where S = S and T = T and K = K and p = p and code = code and ip = ip and ua = ua]
    unfolding hoare_def keeps_def by (fastforce split: prod.splits sum.splits)
qed

end
