(* ===== verification/PasswordFacts.thy ===== *)
theory PasswordFacts
  imports Password OtpFacts
begin

text \<open>
  The password service over any client, the invariant of \<open>OtpFacts\<close> through its operations, and
  what a consumed ticket says: it was issued for an identifier to which a code was sent, and its
  entry is gone.
\<close>

section \<open>Over any client\<close>

lemma sims_bcrypt [sims_intro]: "sims (same_keys ok view) (bcrypt_hash E pw) (bcrypt_hash E pw)"
  by (simp add: sims_def same_keys_def bcrypt_hash_def)

lemma sims_lift [sims_intro]: "sims R (liftE x) (liftE x)"
  unfolding liftE_def by (intro sims_intro)

lemma sims_error [sims_intro]: "sims R (http_error st c m) (http_error st c m)"
  unfolding http_error_def by (intro sims_intro)

lemma sims_as_string [sims_intro]: "sims R (as_string v) (as_string v)"
  unfolding as_string_def by (cases v) (auto intro: sims_intro)

lemma sims_username: "sims (same_keys ok view) (username_from E b i n) (username_from E b i n)"
  by (induction E b i n rule: username_from.induct) (auto intro!: sims_intro)

lemma sims_upsert: "sims (same_keys ok view) (upsertUserForChannel E c i h) (upsertUserForChannel E c i h)"
  unfolding upsertUserForChannel_def upsert_sms_def upsert_email_def upsert_failed_def generateUsername_def
  by (intro sims_intro sims_username)

context kv_redis
begin

lemma sims_take: "sims (same_keys ok view) (take_ticket K k) (take_ticket (ref_of K) k)"
proof (cases "k_getdel K")
  case None
  then show ?thesis unfolding take_ticket_def by (simp add: ref_of_simps(4)) (intro sims_intro sims_cmds)
next
  case (Some gd)
  then show ?thesis unfolding take_ticket_def by (simp add: ref_of_simps(4) sims_getdel)
qed

lemma sims_consume: "sims (same_keys ok view) (verifyAndConsumeOtpTicket K E token) (verifyAndConsumeOtpTicket (ref_of K) E token)"
  unfolding verifyAndConsumeOtpTicket_def by (intro sims_intro sims_take)

lemma sims_setPassword: "sims (same_keys ok view) (setPassword K E token pw) (setPassword (ref_of K) E token pw)"
  unfolding setPassword_def by (intro sims_intro sims_consume sims_upsert)

lemma sims_login: "sims (same_keys ok view) (pwd_login K E i pw ip) (pwd_login (ref_of K) E i pw ip)"
  unfolding pwd_login_def login_throttle_def Let_def by (intro sims_intro sims_cmds)

end

lemma sims_change [sims_intro]: "sims (same_keys ok view) (changePassword E i a b) (changePassword E i a b)"
  unfolding changePassword_def by (intro sims_intro)

section \<open>The invariant\<close>

text \<open>The queries of the password service send no code.\<close>

definition pwd_silent :: "'d pwd_env \<Rightarrow> ('d \<Rightarrow> messages) \<Rightarrow> bool" where
  "pwd_silent E sent \<longleftrightarrow>
     (\<forall>x d. sent (snd (pd_findFirst (p_db E) x d)) = sent d) \<and> (\<forall>x d. sent (snd (pd_findUnique (p_db E) x d)) = sent d) \<and>
     (\<forall>x y z d. sent (snd (pd_upsert (p_db E) x y z d)) = sent d) \<and> (\<forall>x y d. sent (snd (pd_update (p_db E) x y d)) = sent d) \<and>
     (\<forall>x y d. sent (snd (p_welcome E x y d)) = sent d)"

lemma silentD:
  assumes "pwd_silent E sent"
  shows "sent (snd (pd_findFirst (p_db E) x d)) = sent d" "sent (snd (pd_findUnique (p_db E) y d)) = sent d"
    "sent (snd (pd_upsert (p_db E) y a b d)) = sent d" "sent (snd (pd_update (p_db E) y b d)) = sent d"
    "sent (snd (p_welcome E s t d)) = sent d"
  using assms by (simp_all add: pwd_silent_def)

lemma keeps_queries:
  assumes "pwd_silent E sent"
  shows "keeps (otp_at Q Ids sent S T) (dbM (pd_findFirst (p_db E) x))" "keeps (otp_at Q Ids sent S T) (dbM (pd_findUnique (p_db E) y))"
    "keeps (otp_at Q Ids sent S T) (dbM (pd_upsert (p_db E) y a b))" "keeps (otp_at Q Ids sent S T) (dbM (pd_update (p_db E) y b))"
    "keeps (otp_at Q Ids sent S T) (dbM (p_welcome E s t))"
  by (rule keeps_db, simp only: silentD [OF assms])+

lemma keeps_bcrypt [keeps_intro]: "keeps (otp_at Q Ids sent S T) (bcrypt_hash E pw)"
  by (simp add: keeps_def otp_at_def bcrypt_hash_def)

lemma keeps_lift [keeps_intro]: "keeps I (liftE x)"
  unfolding liftE_def by (auto intro: keeps_intro split: sum.split)

lemma keeps_error [keeps_intro]: "keeps I (http_error st c m)"
  unfolding http_error_def by (rule keeps_intro)

lemma keeps_as_string [keeps_intro]: "keeps I (as_string v)"
  unfolding as_string_def by (cases v) (auto intro: keeps_intro)

lemma keeps_take: "keeps (otp_at Q Ids sent S T) (take_ticket (ref_of K) k)"
  unfolding take_ticket_def
  by (cases "k_getdel K") (auto simp: ref_of_simps(4) intro!: keeps_intro)

lemma keeps_consume: "keeps (otp_at Q Ids sent S T) (verifyAndConsumeOtpTicket (ref_of K) E token)"
  unfolding verifyAndConsumeOtpTicket_def by (intro keeps_intro keeps_take)

lemma keeps_username: "pwd_silent E sent \<Longrightarrow> keeps (otp_at Q Ids sent S T) (username_from E b i n)"
  by (induction E b i n rule: username_from.induct) (auto intro!: keeps_intro keeps_queries)

lemma keeps_upsert: "pwd_silent E sent \<Longrightarrow> keeps (otp_at Q Ids sent S T) (upsertUserForChannel E c i h)"
  unfolding upsertUserForChannel_def upsert_sms_def upsert_email_def upsert_failed_def generateUsername_def
  by (auto intro!: keeps_intro keeps_queries keeps_username split: option.split)

lemma keeps_setPassword: "pwd_silent E sent \<Longrightarrow> keeps (otp_at Q Ids sent S T) (setPassword (ref_of K) E token pw)"
  unfolding setPassword_def by (auto intro!: keeps_intro keeps_consume keeps_upsert keeps_queries)

lemma keeps_login:
  assumes "pwd_silent E sent" and "hex_digest (o_sha256 Q)"
  shows "keeps (otp_at Q Ids sent S T) (pwd_login (ref_of K) E i pw ip)"
proof -
  have "limit_shaped (throttleKey j ip)" for j by (simp add: limit_shaped_def throttleKey_def)
  then show ?thesis unfolding pwd_login_def login_throttle_def Let_def
    by (auto intro!: keeps_intro keeps_incr keeps_queries [OF assms(1)] assms(2) split: option.split)
qed

lemma keeps_change: "pwd_silent E sent \<Longrightarrow> keeps (otp_at Q Ids sent S T) (changePassword E i a b)"
  unfolding changePassword_def by (auto intro!: keeps_intro keeps_queries split: option.split)

section \<open>A ticket is taken once\<close>

lemma take_run:
  fixes w :: "(kv_map, 'd) auth_world"
  obtains x V where "take_ticket (ref_of K) k w = (x, w\<lparr>w_redis := V\<rparr>)"
    and "\<And>w2 :: (kv_map, 'd) auth_world. w_redis w2 = V \<Longrightarrow> w_now w2 = w_now w \<Longrightarrow> \<not> (\<exists>v w3. take_ticket (ref_of K) k w2 = (Inr v, w3) \<and> truthy v)"
proof -
  let ?V = "live (w_now w) (w_redis w)"
  have l: "live (w_now w) ?V = ?V" by (rule live_live) simp
  have ld: "live (w_now w) (?V(k := None)) = ?V(k := None)" by (rule live_id) (auto intro: all_live_upd live_all_live)
  show thesis
  proof (cases "k_getdel K")
    case (Some gd)
    then have run: "take_ticket (ref_of K) k u = redisM (\<lambda>n. ref_run n (c_getdel k)) u" for u :: "(kv_map, 'd) auth_world"
      by (simp add: take_ticket_def ref_of_simps(4))
    show ?thesis
    proof (rule that)
      show "take_ticket (ref_of K) k w = (fst (c_getdel k ?V), w\<lparr>w_redis := snd (c_getdel k ?V)\<rparr>)"
        by (simp add: run redisM_def ref_run_def case_prod_beta)
      fix w2 :: "(kv_map, 'd) auth_world" assume "w_redis w2 = snd (c_getdel k ?V)" "w_now w2 = w_now w"
      then show "\<not> (\<exists>v w3. take_ticket (ref_of K) k w2 = (Inr v, w3) \<and> truthy v)"
        using l ld by (auto simp: run redisM_def ref_run_def c_getdel_def truthy_def split: option.splits rval.splits prod.splits)
    qed
  next
    case None
    define V where "V = (case ?V k of Some (RStr s, e) \<Rightarrow> if s \<noteq> [] then ?V(k := None) else ?V | _ \<Rightarrow> ?V)"
    have run: "\<exists>x. take_ticket (ref_of K) k u = (x, u\<lparr>w_redis := (case live (w_now u) (w_redis u) k of Some (RStr s, e) \<Rightarrow>
          if s \<noteq> [] then (live (w_now u) (w_redis u))(k := None) else live (w_now u) (w_redis u) | _ \<Rightarrow> live (w_now u) (w_redis u))\<rparr>) \<and>
        (\<forall>v. x = Inr v \<and> truthy v \<longrightarrow> (\<exists>s e. live (w_now u) (w_redis u) k = Some (RStr s, e) \<and> s \<noteq> []))"
      for u :: "(kv_map, 'd) auth_world"
      using None live_live [of "w_now u" "w_now u" "w_redis u"]
      by (auto simp: take_ticket_def ref_of_simps redisM_def ref_run_def c_get_def c_del_def exec truthy_def split: option.splits rval.splits)
    from run [of w] obtain x where x: "take_ticket (ref_of K) k w = (x, w\<lparr>w_redis := V\<rparr>)" unfolding V_def by blast
    have lv: "live (w_now w) V = V \<and> (\<forall>s e. V k = Some (RStr s, e) \<longrightarrow> s = [])"
      using l ld by (auto simp: V_def split: option.splits rval.splits)
    show ?thesis
    proof (rule that [OF x])
      fix w2 :: "(kv_map, 'd) auth_world" assume w2: "w_redis w2 = V" "w_now w2 = w_now w"
      from run [of w2] lv w2 show "\<not> (\<exists>v w3. take_ticket (ref_of K) k w2 = (Inr v, w3) \<and> truthy v)" by auto
    qed
  qed
qed

text \<open>Whatever the first presentation of a token did, a second one at the same time is refused.\<close>

lemma consume_run:
  fixes w :: "(kv_map, 'd) auth_world"
  obtains x V where "verifyAndConsumeOtpTicket (ref_of K) E token w = (x, w\<lparr>w_redis := V\<rparr>)"
    and "\<And>w2 :: (kv_map, 'd) auth_world. w_redis w2 = V \<Longrightarrow> w_now w2 = w_now w \<Longrightarrow> \<exists>e. fst (verifyAndConsumeOtpTicket (ref_of K) E token w2) = Inl e"
proof (cases "j_verify (p_jwt E) (w_now w) token (p_secret E) ticket_verify_opts")
  case (Inl e)
  have "verifyAndConsumeOtpTicket (ref_of K) E token w = (Inl (Http 400 ''InvalidOrExpiredToken'' ''Set-password token is invalid or expired.''), w\<lparr>w_redis := w_redis w\<rparr>)"
    using Inl by (simp add: verifyAndConsumeOtpTicket_def exec dateNow_def liftE_def http_error_def)
  moreover have "\<exists>e. fst (verifyAndConsumeOtpTicket (ref_of K) E token w2) = Inl e" if "w_now w2 = w_now w" for w2 :: "(kv_map, 'd) auth_world"
    using Inl that by (simp add: verifyAndConsumeOtpTicket_def exec dateNow_def liftE_def http_error_def)
  ultimately show ?thesis by (rule that)
next
  case (Inr decoded)
  let ?key = "''otp:ticket:'' @ tmpl_opt (jfield ''jti'' decoded)"
  obtain x V where t: "take_ticket (ref_of K) ?key w = (x, w\<lparr>w_redis := V\<rparr>)"
    and spent: "\<And>w2 :: (kv_map, 'd) auth_world. w_redis w2 = V \<Longrightarrow> w_now w2 = w_now w \<Longrightarrow> \<not> (\<exists>v w3. take_ticket (ref_of K) ?key w2 = (Inr v, w3) \<and> truthy v)"
    by (rule take_run [where K = K and k = ?key and w = w]) blast
  note run = verifyAndConsumeOtpTicket_def dateNow_def liftE_def http_error_def
  show ?thesis
  proof (cases "js_truthy (jfield ''jti'' decoded) \<and> js_truthy (jfield ''identifier'' decoded) \<and> js_truthy (jfield ''channel'' decoded) \<and> js_truthy (jfield ''purpose'' decoded)")
    case False
    then have bad: "\<exists>e. verifyAndConsumeOtpTicket (ref_of K) E token u = (Inl e, u)" if "w_now u = w_now w" for u :: "(kv_map, 'd) auth_world"
      using Inr that by (auto simp: run exec)
    then obtain e where e: "verifyAndConsumeOtpTicket (ref_of K) E token w = (Inl e, w)" by blast
    show ?thesis
    proof (rule that)
      show "verifyAndConsumeOtpTicket (ref_of K) E token w = (Inl e, w\<lparr>w_redis := w_redis w\<rparr>)" using e by simp
      show "\<exists>e. fst (verifyAndConsumeOtpTicket (ref_of K) E token w2) = Inl e" if "w_now w2 = w_now w" for w2 :: "(kv_map, 'd) auth_world"
        using bad [OF that] by auto
    qed
  next
    case True
    have "\<exists>y. verifyAndConsumeOtpTicket (ref_of K) E token w = (y, w\<lparr>w_redis := V\<rparr>)"
      using Inr True t by (cases x) (auto simp: run exec)
    moreover have "\<exists>e. fst (verifyAndConsumeOtpTicket (ref_of K) E token w2) = Inl e"
      if "w_redis w2 = V" "w_now w2 = w_now w" for w2 :: "(kv_map, 'd) auth_world"
      using Inr True spent [OF that] that
      by (cases "take_ticket (ref_of K) ?key w2"; cases "fst (take_ticket (ref_of K) ?key w2)") (auto simp: run exec)
    ultimately show ?thesis using that by blast
  qed
qed

text \<open>What follows the consumption of the ticket does not touch the keys.\<close>

definition keysafe :: "(('r, 'd) auth_world, 'a) eff \<Rightarrow> bool" where
  "keysafe m \<longleftrightarrow> (\<forall>w. w_redis (snd (m w)) = w_redis w \<and> w_now (snd (m w)) = w_now w)"

lemma keysafe_keeps: "(\<And>r t. keeps (\<lambda>w. w_redis w = r \<and> w_now w = t) m) \<Longrightarrow> keysafe m"
  unfolding keysafe_def keeps_def by blast

lemma keeps_keys [keeps_intro]:
  "keeps (\<lambda>w. w_redis w = r \<and> w_now w = t) (dbM m)" "keeps (\<lambda>w. w_redis w = r \<and> w_now w = t) (randomInt u b)"
  "keeps (\<lambda>w. w_redis w = r \<and> w_now w = t) (bcrypt_hash E pw)"
  by (simp_all add: keeps_def dbM_def randomInt_def bcrypt_hash_def case_prod_beta)

lemma keys_username: "keeps (\<lambda>w. w_redis w = r \<and> w_now w = t) (username_from E b i n)"
  by (induction E b i n rule: username_from.induct) (auto intro!: keeps_intro)

lemma keys_upsert: "keeps (\<lambda>w. w_redis w = r \<and> w_now w = t) (upsertUserForChannel E c i h)"
  unfolding upsertUserForChannel_def upsert_sms_def upsert_email_def upsert_failed_def generateUsername_def
  by (auto intro!: keeps_intro keys_username split: option.split)

lemma setPassword_twice:
  fixes w :: "(kv_map, 'd) auth_world"
  assumes "setPassword (ref_of K) E token pw w = (x, w1)"
  shows "\<exists>e. fst (setPassword (ref_of K) E token pw' w1) = Inl e"
proof -
  obtain y V where c: "verifyAndConsumeOtpTicket (ref_of K) E token w = (y, w\<lparr>w_redis := V\<rparr>)"
    and spent: "\<And>w2 :: (kv_map, 'd) auth_world. w_redis w2 = V \<Longrightarrow> w_now w2 = w_now w \<Longrightarrow> \<exists>e. fst (verifyAndConsumeOtpTicket (ref_of K) E token w2) = Inl e"
    by (rule consume_run [where K = K and E = E and token = token and w = w]) blast
  define rest :: "SetPasswordPayload \<Rightarrow> ((kv_map, 'd) auth_world, string) eff" where "rest payload = thenM (throwIfM (length pw < 8) (Http 400 ''WeakPassword'' ''Password must be at least 8 characters long.''))
     (bindM (bcrypt_hash E pw) (\<lambda>passwordHash.
      bindM (upsertUserForChannel E (sp_channel payload) (sp_identifier payload) passwordHash) (\<lambda>persisted.
      thenM (if truthy (pu_email persisted)
             then bestEffortM (dbM (p_welcome E (the (pu_email persisted))
                    (nullish (pu_name persisted) (nullish (pu_username persisted) (tmpl (sp_identifier payload))))))
             else retM ())
      (retM (pu_id persisted)))))" for payload
  have "keeps (\<lambda>u::(kv_map, 'd) auth_world. w_redis u = V \<and> w_now u = w_now w) (rest payload)" for payload
    unfolding rest_def by (intro keeps_intro keys_upsert)
  then have "w_redis (snd (rest payload (w\<lparr>w_redis := V\<rparr>))) = V \<and> w_now (snd (rest payload (w\<lparr>w_redis := V\<rparr>))) = w_now w" for payload
    by (simp add: keeps_def)
  moreover have "setPassword (ref_of K) E token pw w = (case y of Inl e \<Rightarrow> (Inl e, w\<lparr>w_redis := V\<rparr>) | Inr b \<Rightarrow> rest b (w\<lparr>w_redis := V\<rparr>))"
    using c unfolding setPassword_def rest_def [symmetric] bindM_def by simp
  ultimately have "w_redis w1 = V \<and> w_now w1 = w_now w" using assms by (cases y) (auto, (metis snd_conv)+)
  from spent [of w1] this show ?thesis
    by (auto simp: setPassword_def bindM_def split: prod.split sum.split)
qed

section \<open>What an accepted ticket says\<close>

lemma hex_value_hex: "hex_char c \<Longrightarrow> \<exists>x < 16. hex_value c = Some x"
  by (auto simp: hex_char_def hex_value_def is_digit_def Let_def)

lemma hex_value_inj: "hex_char c \<Longrightarrow> hex_char d \<Longrightarrow> hex_value c = hex_value d \<Longrightarrow> c = d"
proof -
  assume c: "hex_char c" and d: "hex_char d" and v: "hex_value c = hex_value d"
  have b: "of_char c = (if is_digit c then the (hex_value c) + 48 else the (hex_value c) + 87 :: nat) \<and>
      (is_digit c \<longleftrightarrow> the (hex_value c) < 10)" if "hex_char c" for c
    using that by (auto simp: hex_char_def hex_value_def is_digit_def Let_def)
  from b [OF c] b [OF d] v have "(of_char c :: nat) = of_char d" by (metis (full_types))
  then show "c = d" by (metis char_of_char)
qed

lemma hex_bytes_inj: "list_all hex_char s \<Longrightarrow> list_all hex_char t \<Longrightarrow> length s = length t \<Longrightarrow> even (length s) \<Longrightarrow>
    hex_bytes s = hex_bytes t \<Longrightarrow> s = t"
proof (induction s arbitrary: t rule: hex_bytes.induct)
  case (1 a b s)
  then obtain c d u where t: "t = c # d # u" by (cases t; cases "tl t") auto
  with 1 obtain x y z v where h: "hex_value a = Some x" "hex_value b = Some y" "hex_value c = Some z" "hex_value d = Some v"
    "x < 16" "y < 16" "z < 16" "v < 16"
    using hex_value_hex [of a] hex_value_hex [of b] hex_value_hex [of c] hex_value_hex [of d] by auto
  have eq: "16 * x + y = 16 * z + v" and rest: "hex_bytes s = hex_bytes u" using 1(6) unfolding t by (simp_all add: h(1-4))
  have "(16 * x + y) div 16 = x" "(16 * z + v) div 16 = z" using h(6, 8) by simp_all
  with eq have xz: "x = z \<and> y = v" by simp
  have hc: "hex_char a" "hex_char b" "hex_char c" "hex_char d" "list_all hex_char s" "list_all hex_char u" using 1 t by simp_all
  have "a = c" by (rule hex_value_inj [OF hc(1, 3)]) (simp add: h xz)
  moreover have "b = d" by (rule hex_value_inj [OF hc(2, 4)]) (simp add: h xz)
  moreover have "s = u" using 1(1) [OF refl h(1, 2) hc(5, 6) _ _ rest] 1(4, 5) t by simp
  ultimately show ?case using t by simp
qed auto

lemma safeEqHex_digest:
  assumes "hex_digest sha"
  shows "safeEqHex (sha x) (sha y) \<longleftrightarrow> sha x = sha y"
proof
  assume "safeEqHex (sha x) (sha y)"
  moreover have "length (sha z) = 64" "list_all hex_char (sha z)" for z using assms by (auto simp: hex_digest_def)
  ultimately show "sha x = sha y" by (intro hex_bytes_inj) (auto simp: safeEqHex_def Let_def split: if_splits)
qed (simp add: safeEqHex_def)

text \<open>The claims of a ticket.\<close>

definition ticket_claims :: "'d otp_env \<Rightarrow> int \<Rightarrow> otp_purpose \<Rightarrow> otp_channel \<Rightarrow> string \<Rightarrow> string \<Rightarrow> json" where
  "ticket_claims E t p c i u = JObj (ticket_payload p c i @ signed_claims t (ticket_opts E u i))"

lemma ticket_fields [simp]:
  "jfield ''jti'' (ticket_claims E t p c i u) = Some (JStr u)" "jfield ''identifier'' (ticket_claims E t p c i u) = Some (JStr i)"
  "jfield ''channel'' (ticket_claims E t p c i u) = Some (JStr (channel_str c))"
  "jfield ''purpose'' (ticket_claims E t p c i u) = Some (JStr (purpose_str p))"
  by (simp_all add: ticket_claims_def ticket_payload_def signed_claims_def ticket_opts_def opt_member_def)

lemma ticket_signable: "signable (ticket_payload p c i) (ticket_opts E u i)"
  by (auto simp: signable_def plain_payload_def ticket_payload_def)

text \<open>The two services share the digest, the secret and the token package.\<close>

definition shared_env :: "'d otp_env \<Rightarrow> 'd pwd_env \<Rightarrow> bool" where
  "shared_env Q E \<longleftrightarrow> p_sha256 E = o_sha256 Q \<and> p_jwt E = o_jwt Q \<and> p_secret E = oc_ticketSecret (o_cfg Q) \<and> jwt_lib_ok (o_jwt Q)"

lemma ticket_verify:
  assumes "shared_env Q E"
  shows "0 < oc_ticketTtl (o_cfg Q) \<Longrightarrow> now' div 1000 < t div 1000 + oc_ticketTtl (o_cfg Q) \<Longrightarrow>
      j_verify (p_jwt E) now' (ticket Q t p c i u) (p_secret E) ticket_verify_opts = Inr (ticket_claims Q t p c i u)"
    and "j_verify (p_jwt E) now' (ticket Q t p c i u) (p_secret E) ticket_verify_opts = Inr x \<Longrightarrow> x = ticket_claims Q t p c i u"
proof -
  have s: "jwt_lib_ok (p_jwt E)" "p_secret E = oc_ticketSecret (o_cfg Q)" "p_jwt E = o_jwt Q"
    using assms by (simp_all add: shared_env_def)
  note v = jwt_signable [OF s(1) ticket_signable]
  have ok: "j_verify (p_jwt E) now' (ticket Q t p c i u) (p_secret E) ticket_verify_opts = Inr (ticket_claims Q t p c i u)"
    if "accepts t (ticket_opts Q u i) now' ticket_verify_opts"
    using v(1) [OF that] s by (simp add: ticket_def ticket_claims_def)
  have no: "\<exists>e. j_verify (p_jwt E) now' (j_sign (p_jwt E) t (JObj (ticket_payload p c i)) (p_secret E) (ticket_opts Q u i))
      (p_secret E) ticket_verify_opts = Inl e" if "\<not> accepts t (ticket_opts Q u i) now' ticket_verify_opts"
    by (rule v(2)) (simp add: that)
  from ok show "0 < oc_ticketTtl (o_cfg Q) \<Longrightarrow> now' div 1000 < t div 1000 + oc_ticketTtl (o_cfg Q) \<Longrightarrow>
      j_verify (p_jwt E) now' (ticket Q t p c i u) (p_secret E) ticket_verify_opts = Inr (ticket_claims Q t p c i u)"
    by (simp add: accepts_def ticket_opts_def ticket_verify_opts_def TICKET_ISSUER_def TICKET_AUDIENCE_def)
  show "j_verify (p_jwt E) now' (ticket Q t p c i u) (p_secret E) ticket_verify_opts = Inr x \<Longrightarrow> x = ticket_claims Q t p c i u"
    using ok no s by (cases "accepts t (ticket_opts Q u i) now' ticket_verify_opts") (auto simp: ticket_def)
qed

end
