(* ===== verification/AuthFlow.thy ===== *)
theory AuthFlow
  imports PasswordFacts
begin

text \<open>
  One-time passwords and passwords together: the requests of a client, in any order, over any
  Redis client, with time passing between them. A run over any client does what it does over the
  reference server, and there it keeps the invariant of \<open>OtpFacts\<close>; so a password is set only
  with a ticket issued for an identifier to which a code was sent.
\<close>

section \<open>An accepted ticket\<close>

lemma take_found:
  assumes "take_ticket (ref_of K) k w = (Inr v, w')" and "truthy v"
  shows "\<exists>x e. v = Some x \<and> live (w_now w) (w_redis w) k = Some (RStr x, e)"
  using assms
  by (cases "k_getdel K")
     (auto simp: take_ticket_def ref_of_simps redisM_def ref_run_def c_get_def c_getdel_def c_del_def exec truthy_def
       split: option.splits rval.splits if_splits prod.splits)

lemma consume_accepts:
  assumes sh: "shared_env Q E" and hex: "hex_digest (o_sha256 Q)" and inv: "otp_inv Q Ids sent w"
    and unique: "\<And>t p c i u. i \<in> Ids \<Longrightarrow> o_sha256 Q (ticket Q t p c i u) = o_sha256 Q token \<Longrightarrow> ticket Q t p c i u = token"
    and c: "verifyAndConsumeOtpTicket (ref_of K) E token w = (Inr pl, w')"
  shows "\<exists>t p c i u code. i \<in> Ids \<and> token = ticket Q t p c i u \<and> (c, i, code) \<in> sent (w_db w) \<and>
    sp_channel pl = JStr (channel_str c) \<and> sp_identifier pl = JStr i"
proof -
  obtain decoded where d: "j_verify (p_jwt E) (w_now w) token (p_secret E) ticket_verify_opts = Inr decoded"
    using c by (cases "j_verify (p_jwt E) (w_now w) token (p_secret E) ticket_verify_opts")
      (auto simp: verifyAndConsumeOtpTicket_def exec dateNow_def liftE_def http_error_def)
  define key where "key = ''otp:ticket:'' @ tmpl_opt (jfield ''jti'' decoded)"
  from c d obtain v w1 where v: "take_ticket (ref_of K) key w = (Inr v, w1)" "truthy v" "safeEqHex (the v) (p_sha256 E token)"
    and pl: "sp_channel pl = the (jfield ''channel'' decoded)" "sp_identifier pl = the (jfield ''identifier'' decoded)"
    by (auto simp: verifyAndConsumeOtpTicket_def exec dateNow_def liftE_def http_error_def key_def
        split: sum.splits prod.splits if_splits)
  from take_found [OF v(1, 2)] obtain x e where x: "v = Some x" "live (w_now w) (w_redis w) key = Some (RStr x, e)" by blast
  have "kv_all (key_ok Q Ids (sent (w_db w))) (live (w_now w) (w_redis w))"
    using inv by (simp add: otp_inv_def otp_at_def kv_all_live)
  from kv_allD [OF this x(2)] have "key_ok Q Ids (sent (w_db w)) key (RStr x)" .
  then obtain t p c i u code where t: "i \<in> Ids" "x = o_sha256 Q (ticket Q t p c i u)" "(c, i, code) \<in> sent (w_db w)"
    unfolding key_ok_def key_def keyTicket_def by blast
  have "safeEqHex (o_sha256 Q (ticket Q t p c i u)) (o_sha256 Q token)"
    using v(3) x(1) t(2) sh by (simp add: shared_env_def)
  then have tok: "ticket Q t p c i u = token" using unique t(1) by (simp add: safeEqHex_digest [OF hex])
  then have "decoded = ticket_claims Q t p c i u" using ticket_verify(2) [OF sh] d by blast
  with pl t tok show ?thesis by auto
qed

section \<open>Requests\<close>

datatype auth_request =
    ReqOtp otp_channel string otp_purpose "string option" "string option"
  | ReqResend otp_channel string otp_purpose "string option" "string option"
  | ReqVerify otp_channel string string otp_purpose "string option" "string option"
  | ReqSetPassword string string
  | ReqLogin string string "string option"
  | ReqChange string string string
  | ReqWait nat

definition wait :: "nat \<Rightarrow> ('r, 'd) auth_world \<Rightarrow> ('r, 'd) auth_world" where
  "wait ms w = w\<lparr>w_now := w_now w + int ms\<rparr>"

fun auth_exec :: "'r kv_ops \<Rightarrow> 'd otp_env \<Rightarrow> 'd pwd_env \<Rightarrow> auth_request \<Rightarrow> ('r, 'd) auth_world \<Rightarrow> ('r, 'd) auth_world" where
  "auth_exec K Q E (ReqOtp c raw p ip ua) w = snd (requestOtp K Q c raw p ip ua w)"
| "auth_exec K Q E (ReqResend c raw p ip ua) w = snd (resendOtp K Q c raw p ip ua w)"
| "auth_exec K Q E (ReqVerify c raw code p ip ua) w = snd (verifyOtp K Q c raw code p ip ua w)"
| "auth_exec K Q E (ReqSetPassword token pw) w = snd (setPassword K E token pw w)"
| "auth_exec K Q E (ReqLogin i pw ip) w = snd (pwd_login K E i pw ip w)"
| "auth_exec K Q E (ReqChange i a b) w = snd (changePassword E i a b w)"
| "auth_exec K Q E (ReqWait ms) w = wait ms w"

definition auth_runs :: "'r kv_ops \<Rightarrow> 'd otp_env \<Rightarrow> 'd pwd_env \<Rightarrow> auth_request list \<Rightarrow> ('r, 'd) auth_world \<Rightarrow> ('r, 'd) auth_world" where
  "auth_runs K Q E reqs w = fold (auth_exec K Q E) reqs w"

text \<open>The identifier a request is about, normalized.\<close>

fun request_ids :: "auth_request \<Rightarrow> string set" where
  "request_ids (ReqOtp c raw p ip ua) = {normalizeIdentifier c raw}"
| "request_ids (ReqResend c raw p ip ua) = {normalizeIdentifier c raw}"
| "request_ids (ReqVerify c raw code p ip ua) = {normalizeIdentifier c raw}"
| "request_ids _ = {}"

section \<open>Runs over any client\<close>

text \<open>The same world over the server that keeps the map.\<close>

definition ref_world :: "(int \<Rightarrow> 'r \<Rightarrow> kv_map) \<Rightarrow> ('r, 'd) auth_world \<Rightarrow> (kv_map, 'd) auth_world" where
  "ref_world view w = \<lparr>w_redis = view (w_now w) (w_redis w), w_db = w_db w, w_now = w_now w, w_ctr = w_ctr w\<rparr>"

lemma sims_snd: "sims R m n \<Longrightarrow> R s t \<Longrightarrow> R (snd (m s)) (snd (n t))"
  by (simp add: sims_def)

lemma sims_fst: "sims R m n \<Longrightarrow> R s t \<Longrightarrow> fst (m s) = fst (n t)"
  by (simp add: sims_def)

context kv_redis
begin

lemma wait_same: "same_keys ok view w v \<Longrightarrow> same_keys ok view (wait ms w) (wait ms v)"
  using kv_advance [of "w_now w" "w_redis w" "w_now w + int ms"] live_live [of "w_now w" "w_now w + int ms" "w_redis v"]
  by (simp add: same_keys_def wait_def)

lemma auth_exec_same: "same_keys ok view w v \<Longrightarrow> same_keys ok view (auth_exec K Q E r w) (auth_exec (ref_of K) Q E r v)"
  by (cases r) (simp_all add: sims_snd [OF sims_request] sims_snd [OF sims_resend] sims_snd [OF sims_verify]
    sims_snd [OF sims_setPassword] sims_snd [OF sims_login] sims_snd [OF sims_change] wait_same)

lemma auth_runs_same: "same_keys ok view w v \<Longrightarrow> same_keys ok view (auth_runs K Q E rs w) (auth_runs (ref_of K) Q E rs v)"
  unfolding auth_runs_def by (induction rs arbitrary: w v) (simp_all add: auth_exec_same)

lemma same_start: "ok (w_now w) (w_redis w) \<Longrightarrow> same_keys ok view w (ref_world view w)"
  using kv_live [of "w_now w" "w_redis w"] by (simp add: same_keys_def ref_world_def live_id)

end

section \<open>Runs keep the invariant\<close>

lemma inv_wait: "otp_inv Q Ids sent w \<Longrightarrow> otp_inv Q Ids sent (wait ms w)"
  by (simp add: wait_def otp_inv_def otp_at_def)

lemma auth_exec_inv:
  assumes "otp_env_ok Q Ids sent" and "pwd_silent E sent" and "request_ids r \<subseteq> Ids" and "otp_inv Q Ids sent w"
  shows "otp_inv Q Ids sent (auth_exec (ref_of K) Q E r w)"
proof -
  have k: "otp_inv Q Ids sent (snd (m w))" if "keeps (otp_inv Q Ids sent) m" for m :: "(kv_map, 'a) auth_world \<Rightarrow> _"
    using that assms(4) by (simp add: keeps_def)
  show ?thesis
    using assms(3) keeps_inv [OF keeps_setPassword [OF assms(2)]] keeps_inv [OF keeps_change [OF assms(2)]]
      keeps_inv [OF keeps_login [OF assms(2) env_okD(1) [OF assms(1)]]] inv_request [OF assms(1)] inv_resend [OF assms(1)]
      inv_verify [OF assms(1)] assms(4)
    by (cases r) (auto intro!: k intro: inv_wait)
qed

lemma auth_runs_inv:
  assumes "otp_env_ok Q Ids sent" and "pwd_silent E sent" and "\<And>r. r \<in> set rs \<Longrightarrow> request_ids r \<subseteq> Ids" and "otp_inv Q Ids sent w"
  shows "otp_inv Q Ids sent (auth_runs (ref_of K) Q E rs w)"
  using assms(3, 4) unfolding auth_runs_def
  by (induction rs arbitrary: w) (simp_all add: auth_exec_inv [OF assms(1, 2)])

end
