(* ===== verification/AuthFlowFacts.thy ===== *)
theory AuthFlowFacts
  imports AuthFlow
begin

text \<open>
  The branches of \<open>verifyOtp\<close> on the reference server, the way of a ticket from its issue to the
  password service, the outcome of a login, and the loop that makes usernames.
\<close>

section \<open>Commands on the reference server\<close>

lemma ref_cmd: "redisM (\<lambda>n. ref_run n (spec n)) w =
    (fst (spec (w_now w) (live (w_now w) (w_redis w))), w\<lparr>w_redis := snd (spec (w_now w) (live (w_now w) (w_redis w)))\<rparr>)"
  by (simp add: redisM_def ref_run_def case_prod_beta)

lemma live_twice [simp]: "live now (live now V) = live now V"
  by (rule live_live) simp

lemma live_upd: "live now ((live now V)(k := x)) = (live now V)(k := (case x of Some (v, Some e) \<Rightarrow> if e \<le> now then None else x | _ \<Rightarrow> x))"
  by (rule ext) (auto simp: live_def split: option.splits prod.splits)

lemma batch_run: "batchM [] w = (Inr (), w)" "c w = (r, w1) \<Longrightarrow> batchM (c # cs) w = batchM cs w1"
  by (simp_all add: batchM_Nil batchM_Cons exec attemptM_def)

section \<open>From a ticket to its acceptance\<close>

text \<open>The keys after a ticket has been issued.\<close>

definition ticketed :: "'d otp_env \<Rightarrow> otp_purpose \<Rightarrow> otp_channel \<Rightarrow> string \<Rightarrow> string \<Rightarrow> int \<Rightarrow> kv_map \<Rightarrow> kv_map" where
  "ticketed Q p c i u now V = V(keyActive Q p c i := None, keyCooldown Q p c i := None,
     keyTicket u \<mapsto> (RStr (o_sha256 Q (ticket Q now p c i u)), Some (now + 1000 * oc_ticketTtl (o_cfg Q))))"

lemma issue_ticket_run:
  assumes "0 < oc_ticketTtl (o_cfg Q)" and "issue_ticket (ref_of K) Q c i p ip ua w = (Inr d, w1)"
  shows "vd_ticket d = ticket Q (w_now w) p c i (o_uuid Q (w_ctr w))" and "w_now w1 = w_now w"
    and "live (w_now w) (w_redis w1) = ticketed Q p c i (o_uuid Q (w_ctr w)) (w_now w) (live (w_now w) (w_redis w))"
proof -
  let ?V = "live (w_now w) (w_redis w)" and ?u = "o_uuid Q (w_ctr w)"
  let ?w1 = "w\<lparr>w_ctr := Suc (w_ctr w), w_redis := ticketed Q p c i ?u (w_now w) ?V\<rparr>"
  have l: "live (w_now w) (?V(a := None)) = ?V(a := None)" "live (w_now w) (?V(a := None, b := None)) = ?V(a := None, b := None)" for a b
    by (simp_all add: live_id all_live_upd live_all_live)
  have b: "batchM
       [redisM (\<lambda>n. k_del (ref_of K) n (keyActive Q p c i)), redisM (\<lambda>n. k_del (ref_of K) n (keyCooldown Q p c i)),
        redisM (\<lambda>n. k_set (ref_of K) n (keyTicket ?u) (o_sha256 Q (ticket Q (w_now w) p c i ?u)) (1000 * oc_ticketTtl (o_cfg Q)))]
       (w\<lparr>w_ctr := Suc (w_ctr w)\<rparr>) = (Inr (), ?w1)"
    using assms(1) l
    by (simp add: ref_of_simps ref_cmd [where spec = "\<lambda>n. c_del k" for k, simplified] ref_cmd batch_run c_del_def c_set_def ticketed_def)
  have "issue_ticket (ref_of K) Q c i p ip ua w =
      (thenM (audit_log Q ''OTP_VERIFY_SUCCESS'' c p False ip ua)
       (retM \<lparr>vd_ticket = ticket Q (w_now w) p c i ?u, vd_next = (if p = Reset then ''reset-password'' else ''set-password''),
              vd_expiresIn = oc_ticketTtl (o_cfg Q)\<rparr>)) ?w1"
    using b by (simp add: issue_ticket_def randomUUID_def dateNow_def Let_def ticket_def exec)
  with assms(2) have "thenM (audit_log Q ''OTP_VERIFY_SUCCESS'' c p False ip ua)
       (retM \<lparr>vd_ticket = ticket Q (w_now w) p c i ?u, vd_next = (if p = Reset then ''reset-password'' else ''set-password''),
              vd_expiresIn = oc_ticketTtl (o_cfg Q)\<rparr>) ?w1 = (Inr d, w1)" by simp
  then have r: "vd_ticket d = ticket Q (w_now w) p c i ?u \<and> w_now w1 = w_now w \<and> w_redis w1 = w_redis ?w1"
    by (auto simp: audit_log_def dbM_def exec split: option.splits prod.splits sum.splits)
  have "live (w_now w) (ticketed Q p c i ?u (w_now w) ?V) = ticketed Q p c i ?u (w_now w) ?V"
    unfolding ticketed_def using assms(1) by (intro live_id all_live_upd live_all_live) simp_all
  with r show "vd_ticket d = ticket Q (w_now w) p c i ?u" "w_now w1 = w_now w"
    "live (w_now w) (w_redis w1) = ticketed Q p c i ?u (w_now w) ?V" by simp_all
qed

text \<open>A stored ticket that has not expired is accepted, and taken out.\<close>

lemma accept_stored:
  assumes "shared_env Q E" and "hex_digest (o_sha256 Q)" and "0 < oc_ticketTtl (o_cfg Q)"
    and "w_now w div 1000 < t div 1000 + oc_ticketTtl (o_cfg Q)" and "u \<noteq> []" and "i \<noteq> []"
    and "live (w_now w) (w_redis w) (keyTicket u) = Some (RStr (o_sha256 Q (ticket Q t p c i u)), e)"
  shows "\<exists>V. verifyAndConsumeOtpTicket (ref_of K) E (ticket Q t p c i u) w =
    (Inr \<lparr>sp_purpose = JStr (purpose_str p), sp_channel = JStr (channel_str c), sp_identifier = JStr i, sp_jti = JStr u\<rparr>, w\<lparr>w_redis := V\<rparr>)"
proof -
  let ?t = "ticket Q t p c i u"
  have v: "j_verify (p_jwt E) (w_now w) ?t (p_secret E) ticket_verify_opts = Inr (ticket_claims Q t p c i u)"
    by (rule ticket_verify(1) [OF assms(1, 3, 4)])
  have sha: "p_sha256 E = o_sha256 Q" using assms(1) by (simp add: shared_env_def)
  have ne: "o_sha256 Q ?t \<noteq> []" using assms(2) unfolding hex_digest_def by (metis list.size(3) zero_neq_numeral)
  have names: "channel_str c \<noteq> []" "purpose_str p \<noteq> []" by (cases c; simp) (cases p; simp)
  have "\<exists>V. take_ticket (ref_of K) (keyTicket u) w = (Inr (Some (o_sha256 Q ?t)), w\<lparr>w_redis := V\<rparr>)"
    using assms(7) ne live_twice
    by (cases "k_getdel K")
       (auto simp: take_ticket_def ref_of_simps redisM_def ref_run_def c_get_def c_getdel_def c_del_def exec truthy_def)
  then obtain V where "take_ticket (ref_of K) (keyTicket u) w = (Inr (Some (o_sha256 Q ?t)), w\<lparr>w_redis := V\<rparr>)" by blast
  then show ?thesis
    using v names assms(5, 6) ne
    by (auto simp: verifyAndConsumeOtpTicket_def dateNow_def liftE_def exec keyTicket_def tmpl_opt_def truthy_def
        sha safeEqHex_digest [OF assms(2)])
qed

section \<open>What a verification decides\<close>

text \<open>
  The decision of \<open>verifyOtp\<close> for a code, from the live keys: what is stored is \<open>h\<close>, and
  \<open>n\<close> attempts have been made before.
\<close>

datatype verdict = Blocked | NoCode | Expired | Exhausted | Wrong | Accepted

definition stored_code :: "'d otp_env \<Rightarrow> otp_purpose \<Rightarrow> otp_channel \<Rightarrow> string \<Rightarrow> kv_map \<Rightarrow> (string \<times> string) list" where
  "stored_code Q p c i V = (case V (keyActive Q p c i) of Some (RHash h, e) \<Rightarrow> h | _ \<Rightarrow> [])"

definition stored_attempts :: "(string \<times> string) list \<Rightarrow> int" where
  "stored_attempts h = (case map_of h ''attempts'' of Some s \<Rightarrow> nullish (int_of_str s) 0 | None \<Rightarrow> 0)"

definition verdict_of :: "'d otp_env \<Rightarrow> otp_purpose \<Rightarrow> otp_channel \<Rightarrow> string \<Rightarrow> string \<Rightarrow> int \<Rightarrow> kv_map \<Rightarrow> verdict" where
  "verdict_of Q p c i code now V =
     (let h = stored_code Q p c i V in
      if V (keyBlock Q p c i) \<noteq> None then Blocked
      else if h = [] then NoCode
      else if code_expired h (now div 1000) then Expired
      else if oc_maxAttempts (o_cfg Q) \<le> stored_attempts h then Exhausted
      else if map_of h ''codeHash'' \<noteq> Some (o_sha256 Q code) then Wrong
      else Accepted)"

text \<open>The keys afterwards, and the answer when there is one already.\<close>

definition counted :: "'d otp_env \<Rightarrow> otp_purpose \<Rightarrow> otp_channel \<Rightarrow> string \<Rightarrow> kv_map \<Rightarrow> kv_map" where
  "counted Q p c i V = (let h = stored_code Q p c i V; k = keyActive Q p c i in
     V(k := map_option (\<lambda>(v, e). (RHash (hput ''attempts'' (int_str (stored_attempts h + 1)) h), e)) (V k)))"

fun verdict_keys :: "'d otp_env \<Rightarrow> otp_purpose \<Rightarrow> otp_channel \<Rightarrow> string \<Rightarrow> int \<Rightarrow> verdict \<Rightarrow> kv_map \<Rightarrow> kv_map" where
  "verdict_keys Q p c i now Expired V = V(keyActive Q p c i := None)"
| "verdict_keys Q p c i now Exhausted V = V(keyActive Q p c i := None,
     keyBlock Q p c i \<mapsto> (RStr ''1'', Some (now + 1000 * oc_blockWindow (o_cfg Q))))"
| "verdict_keys Q p c i now Wrong V = counted Q p c i V"
| "verdict_keys Q p c i now Accepted V = counted Q p c i V"
| "verdict_keys Q p c i now _ V = V"

fun verdict_error :: "verdict \<Rightarrow> exn option" where
  "verdict_error Blocked = Some (forbidden ''Too many attempts. Try again later.'')"
| "verdict_error NoCode = Some (badRequest ''Invalid or expired code.'')"
| "verdict_error Expired = Some (badRequest ''Invalid or expired code.'')"
| "verdict_error Exhausted = Some (forbidden ''Too many attempts. Try again later.'')"
| "verdict_error Wrong = Some (badRequest ''Invalid or expired code.'')"
| "verdict_error Accepted = None"

lemma stored_wf:
  assumes "otp_inv Q Ids sent w" and "i \<in> Ids" and "live (w_now w) (w_redis w) (keyActive Q p c i) = Some (v, e)"
  obtains h where "v = RHash h" and "wf_code Q (sent (w_db w)) c i h" and "h \<noteq> []"
proof -
  have "kv_all (key_ok Q Ids (sent (w_db w))) (live (w_now w) (w_redis w))"
    using assms(1) by (simp add: otp_inv_def otp_at_def kv_all_live)
  from kv_allD [OF this assms(3)] assms(2) obtain h where h: "v = RHash h" "wf_code Q (sent (w_db w)) c i h"
    unfolding key_ok_def by metis
  moreover have "h \<noteq> []" using h(2) by (auto simp: wf_code_def)
  ultimately show thesis by (rule that)
qed

lemma wf_over:
  assumes "wf_code Q S c i h"
  shows "attempts_over Q h (stored_attempts h + 1) \<longleftrightarrow> oc_maxAttempts (o_cfg Q) \<le> stored_attempts h"
    and "\<exists>n. map_of h ''attempts'' = Some (int_str n) \<and> stored_attempts h = n"
  using assms by (auto simp: wf_code_def attempts_over_def stored_attempts_def nullish_def)

lemma verify_run:
  assumes inv: "otp_inv Q Ids sent w1" and i: "normalizeIdentifier c raw \<in> Ids" and bw: "0 < oc_blockWindow (o_cfg Q)"
    and b: "consumeVerifyBucket (ref_of K) (o_sha256 Q) (o_limits Q) (normalizeIdentifier c raw) ip (Some c) (Some p) w = (Inr (), w1)"
  shows "verifyOtp (ref_of K) Q c raw code p ip ua w =
    (let j = normalizeIdentifier c raw; V = live (w_now w1) (w_redis w1); d = verdict_of Q p c j code (w_now w1) V;
         w2 = w1\<lparr>w_redis := verdict_keys Q p c j (w_now w1) d V\<rparr>
     in case verdict_error d of Some e \<Rightarrow> (Inl e, w2) | None \<Rightarrow> issue_ticket (ref_of K) Q c j p ip ua w2)"
proof -
  let ?j = "normalizeIdentifier c raw" and ?V = "live (w_now w1) (w_redis w1)"
  let ?k = "keyActive Q p c ?j" and ?b = "keyBlock Q p c ?j"
  have lu: "live (w_now w1) (?V(?k := None)) = ?V(?k := None)"
    by (simp add: live_id all_live_upd live_all_live)
  have rd: "ref_run n spec = (\<lambda>V. spec (live n V))" for n and spec :: "'z kv_cmd" by (rule ext) (simp add: ref_run_def)
  note run = verifyOtp_def Let_def b exec redisM_def ref_of_simps ref_run_def nowEpoch_def dateNow_def
  show ?thesis
  proof (cases "?V ?b = None")
    case False
    then show ?thesis by (simp add: run c_exists_def verdict_of_def)
  next
    case nb: True
    show ?thesis
    proof (cases "?V ?k")
      case None
      then show ?thesis using nb by (simp add: run c_exists_def c_hgetall_def verdict_of_def stored_code_def)
    next
      case (Some x)
      obtain v e where x: "x = (v, e)" by (cases x)
      obtain h where h: "v = RHash h" "wf_code Q (sent (w_db w1)) c ?j h" "h \<noteq> []"
        using stored_wf [OF inv i, of p c v e] Some x by metis
      note V = Some [unfolded x h(1)]
      have sc: "stored_code Q p c ?j ?V = h" using V by (simp add: stored_code_def)
      obtain n where n: "map_of h ''attempts'' = Some (int_str n)" "stored_attempts h = n" using wf_over(2) [OF h(2)] by blast
      have lk: "live (w_now w1) (?V(?k \<mapsto> (RHash g, e))) = ?V(?k \<mapsto> (RHash g, e))" for g
        using all_live_key [OF live_all_live] V
        by (intro live_id all_live_upd live_all_live) (auto split: option.split)
      note facts = lk V nb sc h(3) n(1) wf_over(1) [OF h(2), unfolded n(2)] lu
      show ?thesis
        using facts n(2) bw
        by (simp add: run c_exists_def c_hgetall_def c_del_def c_hincr_def c_set_def verdict_of_def counted_def batch_run attemptM_def
            batchM_Cons batchM_Nil)
    qed
  qed
qed

section \<open>The steps of a set password\<close>

lemma setPassword_parts:
  fixes w :: "('r, 'd) auth_world"
  assumes "setPassword K E token pw w = (Inr uid, w')"
  obtains pl u1 h row and w1 w2 :: "('r, 'd) auth_world" where "verifyAndConsumeOtpTicket K E token w = (Inr pl, u1)" and "8 \<le> length pw"
    and "upsertUserForChannel E (sp_channel pl) (sp_identifier pl) h w1 = (Inr row, w2)" and "pu_id row = uid"
proof -
  from assms obtain pl u1 where c: "verifyAndConsumeOtpTicket K E token w = (Inr pl, u1)"
    and r: "thenM (throwIfM (length pw < 8) (Http 400 ''WeakPassword'' ''Password must be at least 8 characters long.''))
     (bindM (bcrypt_hash E pw) (\<lambda>passwordHash.
      bindM (upsertUserForChannel E (sp_channel pl) (sp_identifier pl) passwordHash) (\<lambda>persisted.
      thenM (if truthy (pu_email persisted)
             then bestEffortM (dbM (p_welcome E (the (pu_email persisted))
                    (nullish (pu_name persisted) (nullish (pu_username persisted) (tmpl (sp_identifier pl))))))
             else retM ())
      (retM (pu_id persisted))))) u1 = (Inr uid, w')" unfolding setPassword_def by (rule bindM_InrE)
  have l: "8 \<le> length pw" using r by (cases "length pw < 8") (simp_all add: exec)
  obtain h u2 where "bcrypt_hash E pw u1 = (Inr h, u2)" by (simp add: bcrypt_hash_def)
  with r l have "bindM (upsertUserForChannel E (sp_channel pl) (sp_identifier pl) h) (\<lambda>persisted.
      thenM (if truthy (pu_email persisted)
             then bestEffortM (dbM (p_welcome E (the (pu_email persisted))
                    (nullish (pu_name persisted) (nullish (pu_username persisted) (tmpl (sp_identifier pl))))))
             else retM ())
      (retM (pu_id persisted))) u2 = (Inr uid, w')" by (simp add: thenM_def throwIfM_def retM_def bindM_def)
  then obtain row w2 where up: "upsertUserForChannel E (sp_channel pl) (sp_identifier pl) h u2 = (Inr row, w2)"
    and last: "thenM (if truthy (pu_email row)
             then bestEffortM (dbM (p_welcome E (the (pu_email row))
                    (nullish (pu_name row) (nullish (pu_username row) (tmpl (sp_identifier pl))))))
             else retM ()) (retM (pu_id row)) w2 = (Inr uid, w')" by (rule bindM_InrE)
  have "pu_id row = uid" using last by (simp add: thenM_def retM_def bindM_def split: prod.splits sum.splits)
  with c l up show thesis by (intro that)
qed

end
