(* ===== verification/AuthProps.thy ===== *)
theory AuthProps
  imports AuthFlowFacts
begin

text \<open>The properties of one-time passwords and passwords, with their witnesses.\<close>

section \<open>A demonstration environment\<close>

definition demo_cfg :: otp_cfg where
  "demo_cfg = \<lparr>oc_ttl = 300, oc_cooldown = 120, oc_maxAttempts = 5, oc_maxResends = 3, oc_minRegen = 60,
     oc_ticketSecret = ''secret'', oc_ticketTtl = 600, oc_blockWindow = 900\<rparr>"

definition demo_limits :: otp_limits where
  "demo_limits = \<lparr>ol_reqWindow = 60, ol_reqMax = 3, ol_reqIpMax = 10, ol_verWindow = 120, ol_verMax = 5, ol_verIpMax = 30\<rparr>"

definition demo_id :: string where
  "demo_id = ''09121234567''"

definition demo_opts :: sign_opts where
  "demo_opts = \<lparr>so_algorithm = ''HS256'', so_expiresIn = 600, so_issuer = Some TICKET_ISSUER, so_audience = Some TICKET_AUDIENCE,
     so_jwtid = Some ''u0'', so_subject = Some demo_id\<rparr>"

text \<open>The ticket the demonstration issues at time 0 for a password reset by SMS.\<close>

definition demo_token :: string where
  "demo_token = clear_sign 0 (JObj (ticket_payload Reset Sms demo_id)) ''secret'' demo_opts"

text \<open>A digest with no collision among the texts of the demonstration.\<close>

definition demo_texts :: "(string \<times> char) list" where
  "demo_texts = [(''signup|sms|09121234567'', CHR ''1''), (''signup|email|09121234567'', CHR ''2''),
     (''login|sms|09121234567'', CHR ''3''), (''login|email|09121234567'', CHR ''4''),
     (''reset|sms|09121234567'', CHR ''5''), (''reset|email|09121234567'', CHR ''6''), (''000042'', CHR ''7'')]"

definition demo_sha :: "string \<Rightarrow> string" where
  "demo_sha x = (if x = demo_token then replicate 64 (CHR ''f'')
     else (case map_of demo_texts x of Some d \<Rightarrow> d | None \<Rightarrow> CHR ''0'') # replicate 63 (CHR ''0''))"

type_synonym demo_db = "(otp_channel \<times> string \<times> string) list \<times> PwdUser list"

definition demo_otp :: "demo_db otp_env" where
  "demo_otp = \<lparr>o_cfg = demo_cfg, o_limits = demo_limits, o_sha256 = demo_sha, o_randomInt = (\<lambda>b n. 42), o_uuid = (\<lambda>n. ''u'' @ nat_str n),
     o_jwt = clear_jwt, o_sms = (\<lambda>i c (ms, us). (Inr (), ((Sms, i, c) # ms, us))), o_mail = (\<lambda>i c (ms, us). (Inr (), ((Email, i, c) # ms, us))),
     o_audit = None\<rparr>"

definition demo_sent :: "demo_db \<Rightarrow> messages" where
  "demo_sent d = set (fst d)"

text \<open>A user table, with the queries of the password service.\<close>

fun matches :: "user_where \<Rightarrow> PwdUser \<Rightarrow> bool" where
  "matches (ById i) u \<longleftrightarrow> pu_id u = i"
| "matches (ByEmail e) u \<longleftrightarrow> pu_email u = Some e"
| "matches (ByPhone p) u \<longleftrightarrow> pu_phone u = Some p"
| "matches (ByUsername n) u \<longleftrightarrow> pu_username u = Some n"

definition created :: "UserCreateData \<Rightarrow> string \<Rightarrow> PwdUser" where
  "created c i = \<lparr>pu_id = i, pu_passwordHash = Some (uc_passwordHash c), pu_email = uc_email c, pu_phone = uc_phone c,
     pu_username = Some (uc_username c), pu_name = uc_name c\<rparr>"

definition demo_pdb :: "demo_db pwd_db" where
  "demo_pdb = \<lparr>pd_findFirst = (\<lambda>ws (ms, us). (Inr (find (\<lambda>u. \<exists>x \<in> set ws. matches x u) us), (ms, us))),
     pd_findUnique = (\<lambda>x (ms, us). (Inr (find (matches x) us), (ms, us))),
     pd_upsert = (\<lambda>x c u (ms, us). (case find (matches x) us of
         Some v \<Rightarrow> (Inr v, (ms, us)) | None \<Rightarrow> (Inr (created c (''id'' @ nat_str (length us))), (ms, created c (''id'' @ nat_str (length us)) # us)))),
     pd_update = (\<lambda>x u (ms, us). (case find (matches x) us of
         Some v \<Rightarrow> (Inr v, (ms, us)) | None \<Rightarrow> (Inl (JsError ''P2025''), (ms, us)))),
     pd_isP2002 = (\<lambda>e. e = JsError ''P2002'')\<rparr>"

definition demo_pwd :: "demo_db pwd_env" where
  "demo_pwd = \<lparr>p_db = demo_pdb, p_secret = ''secret'', p_rounds = 10, p_throttleLimit = 6, p_throttleWindow = 300,
     p_dummyHash = ''dummy'', p_ticketTtl = 600, p_sha256 = demo_sha, p_jwt = clear_jwt, p_hash = (\<lambda>pw r n. pw), p_compare = (\<lambda>pw h. pw = h),
     p_random = (\<lambda>b n. n), p_welcome = (\<lambda>e n d. (Inr (), d))\<rparr>"

lemma demo_otp_simps [simp]:
  "o_cfg demo_otp = demo_cfg" "o_limits demo_otp = demo_limits" "o_sha256 demo_otp = demo_sha" "o_uuid demo_otp n = ''u'' @ nat_str n"
  "o_jwt demo_otp = clear_jwt" "o_audit demo_otp = None" "o_randomInt demo_otp b n = 42"
  "oc_ttl demo_cfg = 300" "oc_cooldown demo_cfg = 120" "oc_maxAttempts demo_cfg = 5" "oc_ticketSecret demo_cfg = ''secret''"
  "oc_ticketTtl demo_cfg = 600" "oc_blockWindow demo_cfg = 900"
  by (simp_all add: demo_otp_def demo_cfg_def)

lemma demo_token_ne: "demo_token \<noteq> c # x" if "c \<noteq> CHR ''[''"
  using that by (simp add: demo_token_def clear_sign_def)

lemma demo_hex: "hex_digest demo_sha"
  by (auto simp: hex_digest_def demo_sha_def demo_texts_def hex_char_def is_digit_def list_all_iff split: option.splits if_splits)

lemma demo_sha_token: "demo_sha x = demo_sha demo_token \<longleftrightarrow> x = demo_token"
proof -
  have "(case map_of demo_texts x of Some d \<Rightarrow> d | None \<Rightarrow> CHR ''0'') \<noteq> CHR ''f''"
    by (auto simp: demo_texts_def split: option.splits if_splits)
  moreover have "replicate 64 (CHR ''f'') = CHR ''f'' # replicate 63 (CHR ''f'')" by (simp add: eval_nat_numeral)
  ultimately show ?thesis by (simp add: demo_sha_def)
qed

lemma demo_inj: "inj_on (\<lambda>(p, c, i). keyActive demo_otp p c i) (UNIV \<times> UNIV \<times> {demo_id})"
proof -
  have sha: "demo_sha x = d # replicate 63 (CHR ''0'')" if "map_of demo_texts x = Some d" "x \<noteq> demo_token" for x d
    using that by (simp add: demo_sha_def)
  have key: "keyActive demo_otp p c demo_id = ''otp:'' @ (case p of Signup \<Rightarrow> (case c of Sms \<Rightarrow> CHR ''1'' | Email \<Rightarrow> CHR ''2'')
      | Login \<Rightarrow> (case c of Sms \<Rightarrow> CHR ''3'' | Email \<Rightarrow> CHR ''4'') | Reset \<Rightarrow> (case c of Sms \<Rightarrow> CHR ''5'' | Email \<Rightarrow> CHR ''6'')) # replicate 39 (CHR ''0'')" for p c
  proof -
    have "take 40 (d # replicate 63 (CHR ''0'')) = d # replicate 39 (CHR ''0'')" for d by (simp add: take_Cons')
    then show ?thesis
      by (cases p; cases c) (simp_all add: keyActive_def keyBase_def demo_id_def sha demo_texts_def demo_token_ne [symmetric])
  qed
  show ?thesis
    by (rule inj_onI) (auto simp: key split: otp_purpose.splits otp_channel.splits)
qed

lemma demo_env_ok: "otp_env_ok demo_otp {demo_id} demo_sent"
  by (auto simp: otp_env_ok_def demo_hex demo_inj demo_sent_def) (auto simp: demo_otp_def)

lemma demo_silent: "pwd_silent demo_pwd demo_sent"
  by (auto simp: pwd_silent_def demo_pwd_def demo_pdb_def demo_sent_def split: option.split)

lemma demo_shared: "shared_env demo_otp demo_pwd"
  by (simp add: shared_env_def demo_pwd_def clear_jwt_ok)

lemma demo_ticket: "ticket demo_otp 0 Reset Sms demo_id ''u0'' = demo_token"
  by (simp add: ticket_def demo_token_def ticket_opts_def demo_opts_def clear_jwt_def)

text \<open>A world in which a code has been sent to the demonstration's identifier and its ticket is stored.\<close>

definition demo_world :: "(kv_map, demo_db) auth_world" where
  "demo_world = \<lparr>w_redis = [keyTicket ''u0'' \<mapsto> (RStr (demo_sha demo_token), Some 600000)],
     w_db = ([(Sms, demo_id, ''000042'')], []), w_now = 0, w_ctr = 1\<rparr>"

lemma demo_live: "live 0 (w_redis demo_world) = w_redis demo_world"
  by (rule live_id) (simp add: all_live_def demo_world_def)

lemma demo_inv: "otp_inv demo_otp {demo_id} demo_sent (ref_world live demo_world)"
proof -
  have "key_ok demo_otp {demo_id} {(Sms, demo_id, ''000042'')} (keyTicket ''u0'') (RStr (demo_sha demo_token))"
    using ticket_key_ok [where E = demo_otp and Ids = "{demo_id}" and c = Sms and i = demo_id and code = "''000042''" and t = 0
        and p = Reset and u = "''u0''" and j = "''u0''" and S = "{(Sms, demo_id, ''000042'')}"]
    by (simp add: demo_hex demo_ticket)
  then show ?thesis using demo_live
    by (auto simp: otp_inv_def otp_at_def ref_world_def demo_world_def demo_sent_def kv_all_def split: if_splits)
qed

lemma demo_consume:
  "\<exists>V. verifyAndConsumeOtpTicket (ref_of kv_ref) demo_pwd demo_token demo_world =
    (Inr \<lparr>sp_purpose = JStr ''reset'', sp_channel = JStr ''sms'', sp_identifier = JStr demo_id, sp_jti = JStr ''u0''\<rparr>, demo_world\<lparr>w_redis := V\<rparr>)"
proof -
  have "live (w_now demo_world) (w_redis demo_world) (keyTicket ''u0'') = Some (RStr (o_sha256 demo_otp (ticket demo_otp 0 Reset Sms demo_id ''u0'')), Some 600000)"
    using demo_live by (simp add: demo_ticket) (simp add: demo_world_def)
  moreover have "w_now demo_world div 1000 < 0 div 1000 + oc_ticketTtl (o_cfg demo_otp)" "demo_id \<noteq> []" "0 < oc_ticketTtl (o_cfg demo_otp)"
    by (simp_all add: demo_world_def demo_id_def)
  moreover have "hex_digest (o_sha256 demo_otp)" by (simp add: demo_hex)
  ultimately show ?thesis using accept_stored [OF demo_shared, of demo_world 0 "''u0''" demo_id Reset Sms "Some 600000" kv_ref]
    by (simp only: demo_ticket purpose_str.simps channel_str.simps) blast
qed

lemma username_first: "generateUsername E seed = bindM (dbM (pd_findUnique (p_db E) (ByUsername (candidate (username_base seed) 0)))) (\<lambda>exists.
     if exists = None then retM (candidate (username_base seed) 0) else username_from E (username_base seed) (Suc 0) 999)"
  unfolding generateUsername_def by (rule username_from.simps(2) [of _ _ 0 999, simplified])

lemma demo_set: "\<exists>w'. setPassword (ref_of kv_ref) demo_pwd demo_token ''correct horse'' demo_world = (Inr ''id0'', w')"
proof -
  obtain V where "verifyAndConsumeOtpTicket (ref_of kv_ref) demo_pwd demo_token demo_world =
    (Inr \<lparr>sp_purpose = JStr ''reset'', sp_channel = JStr ''sms'', sp_identifier = JStr demo_id, sp_jti = JStr ''u0''\<rparr>, demo_world\<lparr>w_redis := V\<rparr>)"
    using demo_consume by blast
  moreover have "normalizePhone demo_id = Some ''+989121234567''"
    by (simp add: demo_id_def normalizePhone_def js_trim_def is_space_def digits_only_def is_digit_def e164_def)
  moreover have "nat_str 0 = ''0''" by (simp add: nat_str.simps digit_char_def char_of_def bit_iff_odd)
  ultimately show ?thesis
    by (simp add: setPassword_def exec bcrypt_hash_def upsertUserForChannel_def as_string_def upsert_sms_def username_first
        demo_pwd_def demo_pdb_def dbM_def demo_world_def created_def truthy_def)
qed

lemma ref_kv: "ref_of kv_ref = kv_ref"
  by (simp add: ref_of_def kv_ref_def)

section \<open>Properties\<close>



text \<open>
  C14: a password is set only with a ticket issued for an identifier to which a code was sent. In
  whatever order requests come, when \<open>setPassword\<close> accepts a token, that token is a ticket of the
  OTP service for a channel and an identifier to which a code has been sent, the password has at
  least 8 characters, and the account it answers is the one of that channel and identifier.
  Different keys and tickets are assumed to have different digests.
\<close>

theorem password_needs_code:
  fixes w :: "('r, 'd) auth_world"
  assumes "kv_redis K ok view" and "ok (w_now w) (w_redis w)" and "otp_inv Q Ids sent (ref_world view w)"
    and "otp_env_ok Q Ids sent" and "pwd_silent E sent" and "shared_env Q E"
    and "\<And>r. r \<in> set rs \<Longrightarrow> request_ids r \<subseteq> Ids"
    and "\<And>t p c i u. i \<in> Ids \<Longrightarrow> o_sha256 Q (ticket Q t p c i u) = o_sha256 Q token \<Longrightarrow> ticket Q t p c i u = token"
    and "setPassword K E token pw (auth_runs K Q E rs w) = (Inr uid, w')"
  shows "\<exists>t p c i u code h (w1 :: ('r, 'd) auth_world) row w2.
    token = ticket Q t p c i u \<and> (c, i, code) \<in> sent (w_db (auth_runs K Q E rs w)) \<and> 8 \<le> length pw \<and>
    upsertUserForChannel E (JStr (channel_str c)) (JStr i) h w1 = (Inr row, w2) \<and> pu_id row = uid"
proof -
  let ?u = "auth_runs K Q E rs w" and ?v = "auth_runs (ref_of K) Q E rs (ref_world view w)"
  have r: "same_keys ok view ?u ?v"
    by (rule kv_redis.auth_runs_same [OF assms(1) kv_redis.same_start [OF assms(1, 2)]])
  have inv: "otp_inv Q Ids sent ?v" by (rule auth_runs_inv [OF assms(4, 5, 7, 3)])
  obtain pl u1 h row and w1 w2 :: "('r, 'd) auth_world" where c: "verifyAndConsumeOtpTicket K E token ?u = (Inr pl, u1)" and pw: "8 \<le> length pw"
    and up: "upsertUserForChannel E (sp_channel pl) (sp_identifier pl) h w1 = (Inr row, w2)" and uid: "pu_id row = uid"
    by (rule setPassword_parts [OF assms(9)])
  have "fst (verifyAndConsumeOtpTicket (ref_of K) E token ?v) = Inr pl"
    using sims_fst [OF kv_redis.sims_consume [OF assms(1)] r, of E token] c by simp
  then obtain v1 where "verifyAndConsumeOtpTicket (ref_of K) E token ?v = (Inr pl, v1)" by (metis prod.collapse)
  from consume_accepts [OF assms(6) env_okD(1) [OF assms(4)] inv assms(8) this]
  obtain t p c i u code where "token = ticket Q t p c i u" "(c, i, code) \<in> sent (w_db ?v)"
    "sp_channel pl = JStr (channel_str c)" "sp_identifier pl = JStr i" by blast
  moreover have "w_db ?v = w_db ?u" using r by (simp add: same_keys_def)
  ultimately show ?thesis using pw up uid by metis
qed

theorem password_needs_code_witness:
  "\<exists>t p c i u code. demo_token = ticket demo_otp t p c i u \<and> (c, i, code) \<in> demo_sent (w_db demo_world)"
proof -
  obtain w' where s: "setPassword kv_ref demo_pwd demo_token ''correct horse'' (auth_runs kv_ref demo_otp demo_pwd [] demo_world) = (Inr ''id0'', w')"
    using demo_set by (auto simp: ref_kv auth_runs_def)
  have sha: "\<And>t p c i u. i \<in> {demo_id} \<Longrightarrow> o_sha256 demo_otp (ticket demo_otp t p c i u) = o_sha256 demo_otp demo_token \<Longrightarrow>
      ticket demo_otp t p c i u = demo_token" by (simp add: demo_sha_token)
  from password_needs_code [OF rf.kv_redis_axioms TrueI demo_inv demo_env_ok demo_silent demo_shared _ sha s]
  obtain t p c i u code where "demo_token = ticket demo_otp t p c i u" "(c, i, code) \<in> demo_sent (w_db demo_world)"
    by (auto simp: auth_runs_def)
  then show ?thesis by blast
qed

text \<open>
  C15: a token is presented once. Whatever became of a call of \<open>setPassword\<close>, accepted or refused,
  even for a weak password, a second call with the same token is refused.
\<close>

theorem ticket_single_use:
  assumes "kv_redis K ok view" and "ok (w_now w) (w_redis w)" and "setPassword K E token pw w = (x, w')"
  shows "\<exists>e. fst (setPassword K E token pw' w') = Inl e"
proof -
  have r: "same_keys ok view w (ref_world view w)" by (rule kv_redis.same_start [OF assms(1, 2)])
  obtain y v' where v: "setPassword (ref_of K) E token pw (ref_world view w) = (y, v')" by fastforce
  have "same_keys ok view w' v'"
    using sims_snd [OF kv_redis.sims_setPassword [OF assms(1)] r, of E token pw] assms(3) v by simp
  from sims_fst [OF kv_redis.sims_setPassword [OF assms(1)] this] setPassword_twice [OF v] show ?thesis by simp
qed

theorem ticket_single_use_witness:
  "\<exists>x w' e. setPassword kv_ref demo_pwd demo_token ''correct horse'' demo_world = (Inr x, w') \<and>
    fst (setPassword kv_ref demo_pwd demo_token ''another one'' w') = Inl e"
proof -
  obtain w' where s: "setPassword kv_ref demo_pwd demo_token ''correct horse'' demo_world = (Inr ''id0'', w')"
    using demo_set by (auto simp: ref_kv)
  from ticket_single_use [OF rf.kv_redis_axioms TrueI this] s show ?thesis by blast
qed

end
