(* ===== verification/LoginProps.thy ===== *)
theory LoginProps
  imports AuthProps
begin

text \<open>Further properties of one-time passwords and passwords: decisions, logins, user names and normal forms.\<close>

section \<open>A world with a code\<close>

definition demo_hash :: "(string \<times> string) list" where
  "demo_hash = fold (\<lambda>(f, x). hput f x) (code_fields demo_otp Sms Reset None 0 ''000042'') []"

definition demo_key :: string where
  "demo_key = keyActive demo_otp Reset Sms demo_id"

definition demo_bucket :: string where
  "demo_bucket = otp_rl_key demo_sha ''ver'' ''id'' demo_id (Some Sms) (Some Reset)"

definition demo_code_keys :: kv_map where
  "demo_code_keys = [demo_key \<mapsto> (RHash demo_hash, Some 300000)]"

definition code_world :: "kv_map \<Rightarrow> (kv_map, demo_db) auth_world" where
  "code_world V = \<lparr>w_redis = V, w_db = ([(Sms, demo_id, ''000042'')], []), w_now = 0, w_ctr = 1\<rparr>"

definition demo_counted :: kv_map where
  "demo_counted = demo_code_keys(demo_bucket \<mapsto> (RStr ''1'', Some 120000))"

lemma demo_normal: "normalizeIdentifier Sms demo_id = demo_id"
  by (simp add: demo_id_def normalizeIdentifier_def js_trim_def is_space_def)

lemma demo_bucket_ne [simp]: "demo_bucket \<noteq> demo_key" "demo_key \<noteq> demo_bucket"
  "keyBlock demo_otp Reset Sms demo_id \<noteq> demo_key" "demo_bucket \<noteq> keyBlock demo_otp Reset Sms demo_id"
  using keys_apart [of demo_otp] demo_hex unfolding demo_bucket_def demo_key_def by (metis demo_otp_simps(3))+

lemma code_live: "live 0 demo_code_keys = demo_code_keys" "live 0 demo_counted = demo_counted"
  by (rule live_id, simp add: all_live_def demo_code_keys_def demo_counted_def)+

lemma int_str_1: "int_str 1 = ''1''"
  by (simp add: int_str_def nat_str.simps digit_char_def char_of_def bit_iff_odd)

lemma demo_limit: "ol_verWindow demo_limits = 120" "ol_verMax demo_limits = 5"
  by (simp_all add: demo_limits_def)

lemma demo_counting: "consumeVerifyBucket (ref_of kv_ref) (o_sha256 demo_otp) (o_limits demo_otp) (normalizeIdentifier Sms demo_id) None (Some Sms) (Some Reset)
    (code_world demo_code_keys) = (Inr (), code_world demo_counted)"
proof -
  have b: "otp_rl_key demo_sha ''ver'' ''id'' demo_id (Some Sms) (Some Reset) = demo_bucket" by (simp add: demo_bucket_def)
  have n: "demo_code_keys demo_bucket = None" by (simp add: demo_code_keys_def)
  have l: "live 0 (demo_code_keys(demo_bucket \<mapsto> (RStr ''1'', e))) = demo_code_keys(demo_bucket \<mapsto> (RStr ''1'', e))"
    if "e = None \<or> e = Some 120000" for e
    using that code_live(1) by (intro live_id all_live_upd) (auto simp: all_live_def demo_code_keys_def)
  show ?thesis
    by (simp add: consumeVerifyBucket_def otp_bucket_def otp_bump_def demo_normal b ref_of_simps redisM_def ref_run_def exec truthy_def
        code_world_def code_live c_incr_def c_expire_def c_ttl_def n l int_str_1 demo_limit demo_counted_def)
qed

lemma code_inv: "otp_inv demo_otp {demo_id} demo_sent (code_world demo_counted)"
proof -
  have wf: "wf_code demo_otp {(Sms, demo_id, ''000042'')} Sms demo_id demo_hash"
    unfolding demo_hash_def by (rule fields_wf) simp
  have "key_ok demo_otp {demo_id} {(Sms, demo_id, ''000042'')} demo_key (RHash demo_hash)"
    using key_ok_active [OF env_okD(1, 2) [OF demo_env_ok], of demo_id] wf unfolding demo_key_def by simp
  moreover have "key_ok demo_otp {demo_id} {(Sms, demo_id, ''000042'')} demo_bucket (RStr ''1'')"
    using keys_apart [of demo_otp] demo_hex unfolding key_ok_def demo_bucket_def by (metis demo_otp_simps(3) int_str_1)
  ultimately show ?thesis
    by (auto simp: otp_inv_def otp_at_def code_world_def demo_sent_def kv_all_def demo_counted_def demo_code_keys_def split: if_splits)
qed

lemma code_verdict: "verdict_of demo_otp Reset Sms demo_id ''000042'' 0 demo_counted = Accepted"
proof -
  have h: "stored_code demo_otp Reset Sms demo_id demo_counted = demo_hash"
    by (simp add: stored_code_def demo_counted_def demo_code_keys_def demo_key_def [symmetric])
  have f: "map_of demo_hash ''exp'' = Some (int_str 300)" "map_of demo_hash ''attempts'' = Some (int_str 0)"
    "map_of demo_hash ''codeHash'' = Some (demo_sha ''000042'')"
    by (simp_all add: demo_hash_def code_fields_def int_str_0)
  then have ne: "demo_hash \<noteq> []" by auto
  have "demo_counted (keyBlock demo_otp Reset Sms demo_id) = None"
    using demo_bucket_ne demo_bucket_ne(4) [symmetric] by (simp add: demo_counted_def demo_code_keys_def)
  with h f ne show ?thesis
    by (simp add: verdict_of_def Let_def code_expired_def hash_number_def stored_attempts_def nullish_def)
qed

lemma demo_issue: "\<exists>d w1. issue_ticket (ref_of kv_ref) demo_otp Sms demo_id Reset None None w = (Inr d, w1)"
  for w :: "(kv_map, demo_db) auth_world"
  by (auto simp: issue_ticket_def Let_def exec dateNow_def randomUUID_def audit_log_def batchM_def pipeline_exec_def attemptM_def split: prod.split)

section \<open>A verified code opens the account\<close>

lemma verify_issues:
  assumes "verifyOtp K Q c raw code p ip ua w = (Inr d, w1)"
  obtains w0 where "issue_ticket K Q c (normalizeIdentifier c raw) p ip ua w0 = (Inr d, w1)"
  using assms
  by (auto simp: verifyOtp_def Let_def thenM_def throwIfM_def throwM_def retM_def elim!: bindM_InrE split: if_splits)

lemma live_still: "live now V k = Some (v, Some e) \<Longrightarrow> now' < e \<Longrightarrow> live now' (live now V) k = Some (v, Some e)"
  by (simp add: live_def [of now'])

lemma now_cmd [keeps_intro]: "keeps (\<lambda>w. w_now w = t) (redisM c)" "keeps (\<lambda>w. w_now w = t) (dbM m)"
  "keeps (\<lambda>w. w_now w = t) (randomUUID u)" "keeps (\<lambda>w. w_now w = t) dateNow"
  by (simp_all add: keeps_def redisM_def dbM_def randomUUID_def dateNow_def getsM_def case_prod_beta)

lemma now_verify: "keeps (\<lambda>w. w_now w = t) (verifyOtp K Q c raw code p ip ua)"
  unfolding verifyOtp_def consumeVerifyBucket_def otp_bucket_def otp_bump_def nowEpoch_def issue_ticket_def audit_log_def Let_def
  by (intro keeps_intro) (auto intro!: keeps_intro split: prod.split option.split)

text \<open>
  C18: a verified code opens the account. While the ticket of a successful \<open>verifyOtp\<close> lives, the
  password service accepts it, for the purpose, channel and identifier that were verified, over any
  client.
\<close>

theorem code_opens_account:
  assumes "kv_redis K ok view" and "ok (w_now w) (w_redis w)" and "shared_env Q E" and "hex_digest (o_sha256 Q)"
    and "0 < oc_ticketTtl (o_cfg Q)" and "\<And>n. o_uuid Q n \<noteq> []" and "normalizeIdentifier c raw \<noteq> []"
    and "verifyOtp K Q c raw code p ip ua w = (Inr d, w1)"
    and "(w_now w + int ms) div 1000 < w_now w div 1000 + oc_ticketTtl (o_cfg Q)"
  shows "\<exists>j. fst (verifyAndConsumeOtpTicket K E (vd_ticket d) (wait ms w1)) = Inr \<lparr>sp_purpose = JStr (purpose_str p),
    sp_channel = JStr (channel_str c), sp_identifier = JStr (normalizeIdentifier c raw), sp_jti = JStr j\<rparr>"
proof -
  let ?i = "normalizeIdentifier c raw"
  have r: "same_keys ok view w (ref_world view w)" by (rule kv_redis.same_start [OF assms(1, 2)])
  from sims_fst [OF kv_redis.sims_verify [OF assms(1)] r, of Q c raw code p ip ua] assms(8)
  obtain v1 where v: "verifyOtp (ref_of K) Q c raw code p ip ua (ref_world view w) = (Inr d, v1)" by (metis fst_conv prod.collapse)
  have r1: "same_keys ok view w1 v1"
    using sims_snd [OF kv_redis.sims_verify [OF assms(1)] r, of Q c raw code p ip ua] assms(8) v by simp
  obtain v0 where i: "issue_ticket (ref_of K) Q c ?i p ip ua v0 = (Inr d, v1)" by (rule verify_issues [OF v])
  note t = issue_ticket_run [OF assms(5) i]
  have n: "w_now v1 = w_now w" using keepsD [OF now_verify _ v, of "w_now w"] by (simp add: ref_world_def)
  let ?u = "o_uuid Q (w_ctr v0)" and ?w2 = "wait ms v1"
  have late: "w_now w + int ms < w_now w + 1000 * oc_ticketTtl (o_cfg Q)" using assms(9) by linarith
  have k1: "live (w_now w) (w_redis v1) (keyTicket ?u) =
      Some (RStr (o_sha256 Q (ticket Q (w_now w) p c ?i ?u)), Some (w_now w + 1000 * oc_ticketTtl (o_cfg Q)))"
    using t(2, 3) n by (simp add: ticketed_def)
  have "live (w_now ?w2) (w_redis ?w2) = live (w_now w + int ms) (live (w_now w) (w_redis v1))"
    using n by (simp add: wait_def live_live)
  then have "live (w_now ?w2) (w_redis ?w2) (keyTicket ?u) =
      Some (RStr (o_sha256 Q (ticket Q (w_now w) p c ?i ?u)), Some (w_now w + 1000 * oc_ticketTtl (o_cfg Q)))"
    using live_still [OF k1, of "w_now w + int ms"] late by simp
  moreover have "w_now ?w2 div 1000 < w_now w div 1000 + oc_ticketTtl (o_cfg Q)" using n assms(9) by (simp add: wait_def)
  moreover have "vd_ticket d = ticket Q (w_now w) p c ?i ?u" using t(1, 2) n by simp
  ultimately obtain V where "verifyAndConsumeOtpTicket (ref_of K) E (vd_ticket d) ?w2 =
    (Inr \<lparr>sp_purpose = JStr (purpose_str p), sp_channel = JStr (channel_str c), sp_identifier = JStr ?i, sp_jti = JStr ?u\<rparr>, ?w2\<lparr>w_redis := V\<rparr>)"
    using accept_stored [OF assms(3, 4, 5) _ assms(6, 7), of ?w2 "w_now w" "w_ctr v0" p c "Some (w_now w + 1000 * oc_ticketTtl (o_cfg Q))" K]
    by auto
  then show ?thesis
    using sims_fst [OF kv_redis.sims_consume [OF assms(1)] kv_redis.wait_same [OF assms(1) r1], of E "vd_ticket d" ms] by simp
qed

theorem code_opens_account_witness:
  "\<exists>d w1 j. verifyOtp kv_ref demo_otp Sms demo_id ''000042'' Reset None None (code_world demo_code_keys) = (Inr d, w1) \<and>
    fst (verifyAndConsumeOtpTicket kv_ref demo_pwd (vd_ticket d) (wait 1000 w1)) =
      Inr \<lparr>sp_purpose = JStr ''reset'', sp_channel = JStr ''sms'', sp_identifier = JStr demo_id, sp_jti = JStr j\<rparr>"
proof -
  have i: "normalizeIdentifier Sms demo_id \<in> {demo_id}" by (simp add: demo_normal)
  have "verifyOtp (ref_of kv_ref) demo_otp Sms demo_id ''000042'' Reset None None (code_world demo_code_keys) =
      issue_ticket (ref_of kv_ref) demo_otp Sms demo_id Reset None None (code_world (counted demo_otp Reset Sms demo_id demo_counted))"
    using verify_run [OF code_inv i _ demo_counting, of "''000042''" None] code_verdict
    by (simp add: demo_normal code_world_def code_live)
  with demo_issue obtain d w1 where v: "verifyOtp kv_ref demo_otp Sms demo_id ''000042'' Reset None None (code_world demo_code_keys) = (Inr d, w1)"
    by (metis ref_kv)
  have "demo_id \<noteq> []" by (simp add: demo_id_def)
  from code_opens_account [OF rf.kv_redis_axioms TrueI demo_shared _ _ _ _ v, of 1000] this v show ?thesis
    by (auto simp: demo_hex demo_normal code_world_def)
qed

section \<open>Decisions\<close>

text \<open>
  C17: what \<open>verifyOtp\<close> decides. Once the rate limit lets an attempt through, the outcome is that of
  the abstract decision on the live keys: blocked, no code, expired, too many attempts, wrong, or
  accepted; every refusal has its error and its effect on the keys, an attempt is counted before
  the code is compared, and the attempt after the last one allowed removes the code and blocks.
\<close>

theorem verify_decides:
  assumes "otp_inv Q Ids sent w1" and "normalizeIdentifier c raw \<in> Ids" and "0 < oc_blockWindow (o_cfg Q)"
    and "consumeVerifyBucket (ref_of K) (o_sha256 Q) (o_limits Q) (normalizeIdentifier c raw) ip (Some c) (Some p) w = (Inr (), w1)"
  shows "verifyOtp (ref_of K) Q c raw code p ip ua w =
    (let j = normalizeIdentifier c raw; V = live (w_now w1) (w_redis w1); d = verdict_of Q p c j code (w_now w1) V;
         w2 = w1\<lparr>w_redis := verdict_keys Q p c j (w_now w1) d V\<rparr>
     in case verdict_error d of Some e \<Rightarrow> (Inl e, w2) | None \<Rightarrow> issue_ticket (ref_of K) Q c j p ip ua w2)"
  by (rule verify_run [OF assms])

theorem verify_decides_witness:
  "\<exists>d w1. verifyOtp (ref_of kv_ref) demo_otp Sms demo_id ''000042'' Reset None None (code_world demo_code_keys) = (Inr d, w1)"
proof -
  have i: "normalizeIdentifier Sms demo_id \<in> {demo_id}" by (simp add: demo_normal)
  have "verifyOtp (ref_of kv_ref) demo_otp Sms demo_id ''000042'' Reset None None (code_world demo_code_keys) =
      issue_ticket (ref_of kv_ref) demo_otp Sms demo_id Reset None None (code_world (counted demo_otp Reset Sms demo_id demo_counted))"
    using verify_decides [OF code_inv i _ demo_counting, of "''000042''" None] code_verdict
    by (simp add: demo_normal code_world_def code_live)
  with demo_issue show ?thesis by metis
qed

section \<open>Logins\<close>

definition login_row :: "'d pwd_env \<Rightarrow> string \<Rightarrow> 'd \<Rightarrow> PwdUser option" where
  "login_row E idn d = (case fst (pd_findFirst (p_db E) (login_where (splitIdentifier idn)) d) of Inr u \<Rightarrow> u | Inl _ \<Rightarrow> None)"

lemma login_answer:
  "fst (pwd_login K E identifier pw ip w) =
     (case (if js_trim identifier = [] then None else login_row E (js_trim identifier) (w_db w)) of
        None \<Rightarrow> Inl invalid_credentials
      | Some u \<Rightarrow> if pu_id u \<noteq> [] \<and> p_compare E pw (nullish (pu_passwordHash u) (p_dummyHash E)) then Inr (pu_id u)
                  else Inl invalid_credentials)"
proof -
  have t: "\<exists>w1. login_throttle K E key w = (Inr (), w1) \<and> w_db w1 = w_db w" for key
    by (auto simp: login_throttle_def redisM_def exec split: prod.split sum.split)
  have b: "\<exists>w1. bestEffortM (redisM c) x = (Inr (), w1)" for c :: "int \<Rightarrow> ('a, 'z) eff" and x :: "('a, 'b) auth_world"
    by (auto simp: redisM_def exec split: prod.split sum.split)
  show ?thesis
  proof (cases "js_trim identifier = []")
    case True
    then show ?thesis by (simp add: pwd_login_def exec)
  next
    case False
    obtain w1 where w1: "login_throttle K E (throttleKey (js_trim identifier) ip) w = (Inr (), w1)" "w_db w1 = w_db w"
      using t by blast
    obtain r d where r: "pd_findFirst (p_db E) (login_where (splitIdentifier (js_trim identifier))) (w_db w) = (r, d)" by fastforce
    have cont: "fst (thenM (bestEffortM (redisM c)) m x) = fst (m (snd (bestEffortM (redisM c) x)))"
      for c :: "int \<Rightarrow> ('a, 'z) eff" and m :: "(('a, 'b) auth_world, 'y) eff" and x
      using b [of c x] by (auto simp: thenM_def bindM_def)
    show ?thesis
      using False w1 r
      by (cases r; cases "projr r")
         (auto simp: pwd_login_def Let_def thenM_def [of "login_throttle K E _"] bindM_def catchM_def dbM_def retM_def throwM_def
            login_row_def cont split: option.split)
  qed
qed

text \<open>
  C19: the outcome of a login depends on the database and the password alone. Whatever the client
  and its counters, whether its commands fail or not and however many attempts were made, a login
  answers the id of the row whose hash matches, and every other login is the same 401; it is never
  refused for too many attempts.
\<close>

theorem login_outcome:
  "fst (pwd_login K E identifier pw ip w) =
     (case (if js_trim identifier = [] then None else login_row E (js_trim identifier) (w_db w)) of
        None \<Rightarrow> Inl invalid_credentials
      | Some u \<Rightarrow> if pu_id u \<noteq> [] \<and> p_compare E pw (nullish (pu_passwordHash u) (p_dummyHash E)) then Inr (pu_id u)
                  else Inl invalid_credentials)"
  by (rule login_answer)

section \<open>User names\<close>

text \<open>The loop from \<open>i\<close> with \<open>n\<close> rounds left.\<close>

lemma username_loop:
  assumes "\<And>x d. pd_findUnique (p_db E) x d = (Inr (row x d), d)"
  shows "\<exists>name. fst (username_from E b i n w) = Inr name \<and>
     ((\<exists>k. i \<le> k \<and> k < i + n \<and> name = candidate b k \<and> row (ByUsername name) (w_db w) = None \<and>
         (\<forall>j. i \<le> j \<and> j < k \<longrightarrow> row (ByUsername (candidate b j)) (w_db w) \<noteq> None)) \<or>
      (\<forall>k. i \<le> k \<and> k < i + n \<longrightarrow> row (ByUsername (candidate b k)) (w_db w) \<noteq> None))"
proof (induction n arbitrary: i)
  case 0
  show ?case by (auto simp: exec randomInt_def)
next
  case (Suc n)
  show ?case
  proof (cases "row (ByUsername (candidate b i)) (w_db w)")
    case None
    then show ?thesis using assms by (intro exI [of _ "candidate b i"]) (auto simp: exec dbM_def intro!: exI [of _ i])
  next
    case (Some u)
    have step: "username_from E b i (Suc n) w = username_from E b (Suc i) n w"
      using Some assms by (simp add: exec dbM_def)
    from Suc [of "Suc i"] obtain name where name: "fst (username_from E b (Suc i) n w) = Inr name"
      and c: "(\<exists>k. Suc i \<le> k \<and> k < Suc i + n \<and> name = candidate b k \<and> row (ByUsername name) (w_db w) = None \<and>
       (\<forall>j. Suc i \<le> j \<and> j < k \<longrightarrow> row (ByUsername (candidate b j)) (w_db w) \<noteq> None)) \<or>
    (\<forall>k. Suc i \<le> k \<and> k < Suc i + n \<longrightarrow> row (ByUsername (candidate b k)) (w_db w) \<noteq> None)" by blast
    have le: "i \<le> j \<longleftrightarrow> j = i \<or> Suc i \<le> j" for j by auto
    show ?thesis
      using c
    proof
      assume "\<exists>k. Suc i \<le> k \<and> k < Suc i + n \<and> name = candidate b k \<and> row (ByUsername name) (w_db w) = None \<and>
       (\<forall>j. Suc i \<le> j \<and> j < k \<longrightarrow> row (ByUsername (candidate b j)) (w_db w) \<noteq> None)"
      then obtain k where k: "Suc i \<le> k" "k < Suc i + n" "name = candidate b k" "row (ByUsername name) (w_db w) = None"
        "\<forall>j. Suc i \<le> j \<and> j < k \<longrightarrow> row (ByUsername (candidate b j)) (w_db w) \<noteq> None" by blast
      then have "\<forall>j. i \<le> j \<and> j < k \<longrightarrow> row (ByUsername (candidate b j)) (w_db w) \<noteq> None"
        using Some by (auto simp: le)
      with k name step show ?thesis by (intro exI [of _ name]) (auto intro!: exI [of _ k])
    next
      assume "\<forall>k. Suc i \<le> k \<and> k < Suc i + n \<longrightarrow> row (ByUsername (candidate b k)) (w_db w) \<noteq> None"
      then have "\<forall>k. i \<le> k \<and> k < i + Suc n \<longrightarrow> row (ByUsername (candidate b k)) (w_db w) \<noteq> None"
        using Some by (auto simp: le)
      with name step show ?thesis by (intro exI [of _ name]) simp
    qed
  qed
qed

text \<open>
  \<open>generateUsername\<close> returns. Over a table that lookups do not change, it answers the first of
  its candidates that is free, and the random name only when all thousand are taken.
\<close>

theorem username_fresh:
  assumes "\<And>x d. pd_findUnique (p_db E) x d = (Inr (row x d), d)"
  shows "\<exists>name. fst (generateUsername E seed w) = Inr name \<and>
    ((\<exists>k < 1000. name = candidate (username_base seed) k \<and> row (ByUsername name) (w_db w) = None \<and>
        (\<forall>j < k. row (ByUsername (candidate (username_base seed) j)) (w_db w) \<noteq> None)) \<or>
     (\<forall>k < 1000. row (ByUsername (candidate (username_base seed) k)) (w_db w) \<noteq> None))"
  using username_loop [where E = E and row = row and b = "username_base seed" and i = 0 and n = 1000 and w = w, OF assms]
  unfolding generateUsername_def by auto

theorem username_fresh_witness:
  "\<exists>name. fst (generateUsername demo_pwd ''+989121234567'' demo_world) = Inr name"
  using username_fresh [of demo_pwd "\<lambda>x d. find (matches x) (snd d)"]
  by (fastforce simp: demo_pwd_def demo_pdb_def)

section \<open>Normal forms\<close>

lemma digits_only_digits: "list_all is_digit ds \<Longrightarrow> digits_only ds = ds"
  by (simp add: digits_only_def list_all_iff)

lemma normalizePhone_98:
  assumes "list_all is_digit ds" and "starts_with ds ''98''"
  shows "normalizePhone (CHR ''+'' # ds) = Some (CHR ''+'' # ds)"
proof -
  obtain r where ds: "ds = ''98'' @ r" using assms(2) by (auto simp: starts_with_iff)
  have "\<not> is_space (last (CHR ''+'' # ds))"
    using assms(1) ds by (metis append_Cons digit_not_space last_ConsR last_in_set list.distinct(1) list_all_iff)
  then have "js_trim (CHR ''+'' # ds) = CHR ''+'' # ds"
    by (intro js_trim_trimmed) (simp add: is_space_def)
  moreover have "digits_only (CHR ''+'' # ds) = ds"
    using digits_only_digits [OF assms(1)] by (simp add: digits_only_def is_digit_def)
  ultimately show ?thesis using ds by (simp add: normalizePhone_def Let_def)
qed

text \<open>
  C26: what is stored of an identifier is canonical: a phone number is a plus sign and digits, and
  normalizing it again changes nothing; a mail address is in lower case, contains an at sign, and
  normalizing it again changes nothing.
\<close>

theorem normal_forms:
  "(normalizePhone raw = Some p \<longrightarrow> (\<exists>ds. p = CHR ''+'' # ds \<and> list_all is_digit ds) \<and> normalizePhone p = Some p) \<and>
   (normalizeEmail raw = Some e \<longrightarrow> js_lower e = e \<and> CHR ''@'' \<in> set e \<and> normalizeEmail e = Some e)"
proof (intro conjI impI)
  let ?d = "digits_only (js_trim raw)"
  assume p: "normalizePhone raw = Some p"
  have ld: "list_all is_digit ?d" by (simp add: digits_only_def list_all_iff)
  have "(e164 p \<and> js_trim p = p) \<or> (\<exists>ds. p = CHR ''+'' # ds \<and> list_all is_digit ds \<and> starts_with ds ''98'')"
  proof (cases "e164 (js_trim raw)")
    case True
    then show ?thesis using p by (auto simp: normalizePhone_def Let_def split: if_splits)
  next
    case False
    with p consider "p = CHR ''+'' # drop 2 ?d" "starts_with ?d ''0098''" | "p = CHR ''+'' # ?d" "starts_with ?d ''98''"
      | "p = ''+98'' @ drop 1 ?d" | "p = ''+98'' @ ?d"
      by (auto simp: normalizePhone_def Let_def split: if_splits)
    then show ?thesis
    proof cases
      case 1
      then have "starts_with (drop 2 ?d) ''98''" by (auto simp: starts_with_iff)
      moreover have "list_all is_digit (drop 2 ?d)" using ld by (auto simp: list_all_iff dest: in_set_dropD)
      ultimately show ?thesis using 1(1) by blast
    next
      case 2
      with ld show ?thesis by blast
    next
      case 3
      moreover have "list_all is_digit (''98'' @ drop 1 ?d)" using ld by (auto simp: list_all_iff is_digit_def dest: in_set_dropD)
      ultimately show ?thesis by (intro disjI2 exI [of _ "''98'' @ drop 1 ?d"]) simp
    next
      case 4
      moreover have "list_all is_digit (''98'' @ ?d)" using ld by (auto simp: list_all_iff is_digit_def)
      ultimately show ?thesis by (intro disjI2 exI [of _ "''98'' @ ?d"]) simp
    qed
  qed
  then show "\<exists>ds. p = CHR ''+'' # ds \<and> list_all is_digit ds" and "normalizePhone p = Some p"
    by (auto simp: e164_def neq_Nil_conv normalizePhone_98) (auto simp: normalizePhone_def Let_def e164_def)
next
  assume e: "normalizeEmail raw = Some e"
  have sp: "is_space (lower_char d) = is_space d" for d
    using of_char_less [of d] by (auto simp: is_space_def lower_char_def Let_def)
  have e': "e = js_lower (js_trim raw)" "CHR ''@'' \<in> set (js_trim raw)" "js_trim raw \<noteq> []"
    using e by (auto simp: normalizeEmail_def Let_def split: if_splits)
  have "lower_char (CHR ''@'') = CHR ''@''" by (simp add: lower_char_def)
  then have at: "CHR ''@'' \<in> set e" using e'(2) by (auto simp: e'(1) js_lower_def image_iff intro!: bexI [of _ "CHR ''@''"])
  have "js_trim e = e"
    using e'(3) js_trim_hd [of raw] js_trim_last [of raw]
    by (intro js_trim_trimmed) (simp add: e'(1) js_lower_def hd_map last_map sp)
  with at show "CHR ''@'' \<in> set e" "normalizeEmail e = Some e" "js_lower e = e"
    by (auto simp: normalizeEmail_def Let_def e'(1))
qed

theorem normal_forms_witness:
  "normalizePhone ''+989121234567'' = Some ''+989121234567''"
proof -
  have "normalizePhone ''0912 123 4567'' = Some ''+989121234567''"
    by (simp add: normalizePhone_def js_trim_def is_space_def digits_only_def is_digit_def e164_def)
  then show ?thesis using normal_forms [of "''0912 123 4567''" "''+989121234567''"] by blast
qed

end
