(* ===== verification/HttpFacts.thy ===== *)
theory HttpFacts
  imports Guards RefreshProps LoginProps
begin

text \<open>
  What the HTTP handlers of authentication do, from the effects of the services they call. The
  password service and the refresh service are given the same Redis client, each with the commands
  it uses; the locale \<open>one_client\<close> states what the two views of the client have in common: a
  command of the password service on one key leaves everything else alone.
\<close>

section \<open>Handlers and responses\<close>

lemma onWorld_run: "onWorld m (w, r) = (fst (m w), (snd (m w), r))"
  by (simp add: onWorld_def case_prod_beta)

lemma onRes_run: "onRes f (w, r) = (Inr (), (w, f r))"
  by (simp add: onRes_def modifyM_def)

definition noStore :: "http_res \<Rightarrow> http_res" where
  "noStore r = snd (snd (setNoStore ((), r)))"

lemma setNoStore_run: "setNoStore (w, r) = (Inr (), (w, noStore r))"
  by (simp add: noStore_def setNoStore_def onRes_run)

lemma noStore_cookies [simp]: "rs_cookies (noStore r) = rs_cookies r"
  by (simp add: noStore_def setNoStore_def onRes_run put_header_def Let_def)

lemma noStore_header: "map_of (rs_headers (noStore r)) ''Cache-Control'' = Some ''no-store''"
  by (simp add: noStore_def setNoStore_def onRes_run put_header_def Let_def)

definition refresh_cookie :: "auth_ctl \<Rightarrow> string \<Rightarrow> cookie_op" where
  "refresh_cookie C token = SetCookie ''refresh_token'' token
     \<lparr>co_httpOnly = True, co_secure = hc_secure C, co_sameSite = hc_sameSite C, co_path = hc_path C, co_maxAge = Some (hc_maxAgeMs C)\<rparr>"

lemma setRefreshCookie_run:
  "token \<noteq> [] \<Longrightarrow> setRefreshCookie C token (w, r) = (Inr (), (w, add_cookie (refresh_cookie C token) r))"
  by (simp add: setRefreshCookie_def onRes_run refresh_cookie_def REFRESH_COOKIE_NAME_def)

lemma add_cookie_cookies [simp]: "rs_cookies (add_cookie c r) = rs_cookies r @ [c]"
  by (simp add: add_cookie_def)

section \<open>One client, two services\<close>

definition only_key :: "(int \<Rightarrow> 'r \<Rightarrow> bool) \<Rightarrow> (int \<Rightarrow> 'r \<Rightarrow> rview) \<Rightarrow> string \<Rightarrow> (int \<Rightarrow> ('r, 'a) eff) \<Rightarrow> bool" where
  "only_key ok view k c \<longleftrightarrow> (\<forall>now r. ok now r \<longrightarrow> ok now (snd (c now r)) \<and>
     (\<forall>k'. k' \<noteq> k \<longrightarrow> strs (view now (snd (c now r))) k' = strs (view now r) k' \<and>
        rsets (view now (snd (c now r))) k' = rsets (view now r) k' \<and>
        zscores (view now (snd (c now r))) k' = zscores (view now r) k'))"

locale one_client = redis_api R ok view slist zlist
  for R :: "'r redis_ops" and ok view slist zlist +
  fixes K :: "'r kv_ops"
  assumes incr_only: "only_key ok view k (\<lambda>n. k_incr K n k)"
    and expire_only: "only_key ok view k (\<lambda>n. k_expire K n k t)"
    and del_only: "only_key ok view k (\<lambda>n. k_del K n k)"

text \<open>The state has changed at most at keys of \<open>T\<close>.\<close>

definition beside :: "(int \<Rightarrow> 'r \<Rightarrow> bool) \<Rightarrow> (int \<Rightarrow> 'r \<Rightarrow> rview) \<Rightarrow> string set \<Rightarrow> ('r, 'd) auth_world \<Rightarrow> ('r, 'd) auth_world \<Rightarrow> bool" where
  "beside ok view T w0 w \<longleftrightarrow> wok ok w \<and> w_now w = w_now w0 \<and> w_ctr w = w_ctr w0 \<and> w_db w = w_db w0 \<and>
     (\<forall>k. k \<notin> T \<longrightarrow> strs (wview view w) k = strs (wview view w0) k \<and> rsets (wview view w) k = rsets (wview view w0) k \<and>
        zscores (wview view w) k = zscores (wview view w0) k)"

lemma keeps_only_key:
  "only_key ok view k c \<Longrightarrow> k \<in> T \<Longrightarrow> keeps (beside ok view T w0) (redisM c)"
  unfolding keeps_def
proof (intro allI impI)
  fix s
  assume c: "only_key ok view k c" and k: "k \<in> T" and s: "beside ok view T w0 s"
  have ok: "ok (w_now s) (w_redis s)" using s unfolding beside_def wok_def by blast
  show "beside ok view T w0 (snd (redisM c s))"
    using s c [unfolded only_key_def, rule_format, OF ok] k
    by (simp add: beside_def redisM_def wok_def wview_def case_prod_beta) metis
qed

definition reads_users :: "'d pwd_db \<Rightarrow> bool" where
  "reads_users D \<longleftrightarrow> (\<forall>ws d. snd (pd_findFirst D ws d) = d)"

definition throttle_keys :: "string set" where
  "throttle_keys = {k. \<exists>s. k = ''auth:login:throttle:'' @ s}"

lemma throttle_key: "throttleKey i ip \<in> throttle_keys"
  by (simp add: throttleKey_def throttle_keys_def)

lemma not_throttle [simp]:
  "keySession u s \<notin> throttle_keys" "refreshAllowKey j \<notin> throttle_keys" "keyRefreshBlacklist j \<notin> throttle_keys"
  "keySessionJtis u s \<notin> throttle_keys" "keyJtiIndex j \<notin> throttle_keys"
  by (simp_all add: throttle_keys_def key_defs keyRefreshBlacklist_def)

text \<open>The keys of the refresh service: allow-list, blacklist and limiter.\<close>

definition refresh_keys :: "string set" where
  "refresh_keys = range refreshAllowKey \<union> range keyRefreshBlacklist \<union> {limit_key L i |L i. True}"

lemma refresh_keys_apart:
  "k \<in> refresh_keys \<Longrightarrow> k \<notin> throttle_keys \<and> k \<noteq> keySession u s \<and> k \<noteq> keyJtiIndex j"
  by (auto simp: refresh_keys_def throttle_keys_def key_defs keyRefreshBlacklist_def limit_key_def)

lemma refresh_key [simp]: "refreshAllowKey j \<in> refresh_keys" "keyRefreshBlacklist j \<in> refresh_keys" "limit_key L i \<in> refresh_keys"
  by (auto simp: refresh_keys_def)

lemma limit_key_apart [simp]:
  "limit_key L i \<noteq> refreshAllowKey j" "limit_key L i \<noteq> keyRefreshBlacklist j" "refreshAllowKey j \<noteq> limit_key L i"
  "keyRefreshBlacklist j \<noteq> limit_key L i" "limit_key L i \<noteq> keyJtiIndex j" "keyJtiIndex j \<noteq> limit_key L i"
  by (simp_all add: limit_key_def key_defs keyRefreshBlacklist_def)

context one_client
begin

lemma login_beside:
  assumes "reads_users (p_db P)"
  shows "keeps (beside ok view throttle_keys w0) (pwd_login K P i p ip)"
proof -
  have db: "keeps (beside ok view throttle_keys w0) (dbM (pd_findFirst (p_db P) ws))" for ws
    using assms by (auto simp: keeps_def beside_def dbM_def reads_users_def case_prod_beta wok_def wview_def)
  note cmds = keeps_only_key [OF incr_only throttle_key] keeps_only_key [OF expire_only throttle_key] keeps_only_key [OF del_only throttle_key]
  show ?thesis
    unfolding pwd_login_def login_throttle_def Let_def
    by (auto intro!: keeps_intro db cmds split: option.split)
qed

text \<open>A login that answers: what it answered, and what is on the server afterwards.\<close>

lemma login_effect:
  assumes E: "e_redis E = R" "jwt_lib_ok (t_jwt E)" "users_db_ok (f_users E) rows" "0 < e_sessionTtlSec E"
    and "reads_users (p_db P)" and "wok ok w" and ne: "idn \<noteq> []" "pw \<noteq> []"
    and login: "fst (pwd_login K P idn pw (auth_getIp req) w) = Inr uid" and user: "rows (w_db w) uid = Some user"
  obtains w1 r1 where "auth_login K P E C idn pw req (w, r) = (Inr (access_token E (w_now w) uid (roleNames user)), (w1, r1))"
    and "rs_cookies r1 = rs_cookies r @ [refresh_cookie C (refresh_token E (w_now w) uid (e_uuid E (w_ctr w)) (e_uuid E (Suc (w_ctr w))))]"
    and "map_of (rs_headers r1) ''Cache-Control'' = Some ''no-store''"
    and "wok ok w1" and "w_now w1 = w_now w" and "w_db w1 = w_db w" and "w_ctr w1 = Suc (Suc (w_ctr w))"
    and "e_uuid E (w_ctr w) \<noteq> [] \<Longrightarrow> sget (wview view w1) (refreshAllowKey (e_uuid E (Suc (w_ctr w)))) = Some (allow_text uid (Some (e_uuid E (w_ctr w))))"
    and "sget (wview view w1) (keySession uid (e_uuid E (w_ctr w))) \<noteq> None"
    and "e_uuid E (w_ctr w) \<noteq> [] \<Longrightarrow> e_uuid E (Suc (w_ctr w)) \<in> rsets (wview view w1) (keySessionJtis uid (e_uuid E (w_ctr w)))"
    and "\<And>k. k \<in> refresh_keys \<Longrightarrow> k \<noteq> refreshAllowKey (e_uuid E (Suc (w_ctr w))) \<Longrightarrow> strs (wview view w1) k = strs (wview view w) k"
proof -
  let ?ip = "auth_getIp req"
  let ?sid = "e_uuid E (w_ctr w)" and ?jti = "e_uuid E (Suc (w_ctr w))"
  obtain wa where a: "pwd_login K P idn pw ?ip w = (Inr uid, wa)" using login by (metis prod.collapse)
  have "beside ok view throttle_keys w w" using assms(6) by (simp add: beside_def)
  from keepsD [OF login_beside [OF assms(5)] this a] have ba: "beside ok view throttle_keys w wa" .
  then have wa: "wok ok wa" "w_now wa = w_now w" "w_ctr wa = w_ctr w" "w_db wa = w_db w" by (simp_all add: beside_def)
  let ?ci = "\<lparr>ci_userId = uid, ci_ip = ?ip, ci_userAgent = header req ''user-agent'', ci_device = None\<rparr>"
  obtain wb where b: "session_create E ?ci wa = (Inr \<lparr>s_id = ?sid, s_userId = uid, s_ip = ?ip, s_userAgent = header req ''user-agent'',
      s_device = None, s_createdAt = w_now w, s_lastUsedAt = w_now w, s_revokedAt = None\<rparr>, wb)"
    "wok ok wb" "w_now wb = w_now w" "w_db wb = w_db w" "w_ctr wb = Suc (w_ctr w)"
    "\<exists>t. wview view wb = v_zadd (keyIndexZ uid) (w_now w) ?sid (v_sadd (keyIndex uid) ?sid (v_set (keySession uid ?sid) t
        (Some (w_now w + 1000 * e_sessionTtlSec E)) (wview view wa)))"
    using create_effect [OF E(1) wa(1) E(4), of ?ci] wa(2-4) by auto
  have idu: "u_id user = uid" using E(3) user unfolding users_db_ok_def by blast
  obtain wc where c: "buildPair E user (Some ?sid) wb =
      (Inr \<lparr>accessToken = access_token E (w_now wb) (u_id user) (roleNames user),
            refreshToken = refresh_token E (w_now wb) (u_id user) (nullish (Some ?sid) (e_uuid E (w_ctr wb))) (e_uuid E (w_ctr wb))\<rparr>, wc)"
    "wok ok wc" "wview view wc = v_issue E (w_now wb) (u_id user) (Some ?sid) (e_uuid E (w_ctr wb)) (wview view wb)"
    "w_now wc = w_now wb" "w_db wc = w_db wb" "w_ctr wc = Suc (w_ctr wb)"
    by (rule build_effect [OF E(1) b(2) E(4)])
  let ?rt = "refresh_token E (w_now w) uid ?sid ?jti" and ?r1 = "\<lambda>t. add_cookie (refresh_cookie C t) (noStore r)"
  have rt: "?rt \<noteq> []"
    unfolding refresh_token_def by (rule jwt_token_nonempty [OF E(2) refresh_payload_plain]) simp
  have run: "auth_login K P E C idn pw req (w, r) = (Inr (access_token E (w_now w) uid (roleNames user)), (wc, ?r1 ?rt))"
    using setRefreshCookie_run [OF rt, of C wc "noStore r"]
    by (simp add: auth_login_def Let_def thenM_def bindM_def throwIfM_def throwM_def retM_def catchM_def setNoStore_run onWorld_run a
        ne b issueTokensForUserId_def ensureActive_run [OF E(3)] user c(1) idu nullish_def)
  have frame: "strs (wview view wa) k = strs (wview view w) k" if "k \<in> refresh_keys" for k
    using ba refresh_keys_apart [OF that] by (simp add: beside_def)
  show thesis
  proof (rule that [OF run])
    show "map_of (rs_headers (?r1 ?rt)) ''Cache-Control'' = Some ''no-store''"
      using noStore_header [of r] by (simp add: add_cookie_def)
    show "sget (wview view wc) (refreshAllowKey ?jti) = Some (allow_text uid (Some ?sid))" "?jti \<in> rsets (wview view wc) (keySessionJtis uid ?sid)"
      if "?sid \<noteq> []"
      using b(6) that by (auto simp: c(3) b(5) idu v_issue_def Let_def rview_simps truthy_def)
    show "sget (wview view wc) (keySession uid ?sid) \<noteq> None"
      using b(6) by (auto simp: c(3) b(5) idu v_issue_def Let_def rview_simps)
    show "strs (wview view wc) k = strs (wview view w) k" if "k \<in> refresh_keys" "k \<noteq> refreshAllowKey ?jti" for k
      using b(6) refresh_keys_apart [OF that(1)] frame [OF that(1)] that(2)
      by (auto simp: c(3) b(5) v_issue_def Let_def rview_simps)
  qed (simp_all add: b c)
qed

end

section \<open>The refresh route\<close>

definition json_or_empty :: "web_req \<Rightarrow> bool" where
  "json_or_empty req \<longleftrightarrow> fst (assertJsonOrEmpty req ()) = Inr ()"

text \<open>The normalized \<open>Origin\<close> or \<open>Referer\<close> of a request; the empty text if it has none.\<close>

definition site :: "(string \<Rightarrow> string option) \<Rightarrow> web_req \<Rightarrow> string \<Rightarrow> string \<Rightarrow> string" where
  "site uo req lower upper = normalizeOrigin uo (case header req lower of Some s \<Rightarrow> Some s | None \<Rightarrow> header req upper)"

definition origin_allowed :: "(string \<Rightarrow> string option) \<Rightarrow> auth_ctl \<Rightarrow> web_req \<Rightarrow> bool" where
  "origin_allowed uo C req \<longleftrightarrow> hc_origins C = [] \<or>
     (\<exists>x \<in> {site uo req ''origin'' ''Origin'', site uo req ''referer'' ''Referer''}. x \<noteq> [] \<and> x \<in> set (hc_origins C))"

lemma assertJsonOrEmpty_run: "assertJsonOrEmpty req s =
    (if json_or_empty req then Inr () else Inl (badRequest ''Content-Type must be application/json.''), s)"
  by (simp add: json_or_empty_def assertJsonOrEmpty_def Let_def throwIfM_def throwM_def retM_def)

lemma assertAllowedOrigin_run: "assertAllowedOrigin uo C req s =
    (if origin_allowed uo C req then Inr () else Inl (Http 403 ''OriginNotAllowed'' ''Origin is not allowed for refresh.''), s)"
  by (auto simp: origin_allowed_def site_def assertAllowedOrigin_def Let_def throwIfM_def throwM_def retM_def)

text \<open>The key a client's attempts are counted under.\<close>

definition attempts_key :: "limit_env \<Rightarrow> web_req \<Rightarrow> string" where
  "attempts_key L req = limit_key L (if getRateLimitKey req = [] then ''anonymous'' else getRateLimitKey req)"

lemma attempts_key [simp]: "attempts_key L req \<in> refresh_keys"
  by (simp add: attempts_key_def)

lemma attempts_key_apart [simp]:
  "attempts_key L req \<noteq> refreshAllowKey j" "attempts_key L req \<noteq> keyRefreshBlacklist j" "refreshAllowKey j \<noteq> attempts_key L req"
  "keyRefreshBlacklist j \<noteq> attempts_key L req" "attempts_key L req \<noteq> keyJtiIndex j" "keyJtiIndex j \<noteq> attempts_key L req"
  by (simp_all add: attempts_key_def)

lemma auth_refresh_run:
  assumes "json_or_empty req" and "origin_allowed uo C req"
    and "limit_consume (e_redis E) L (getRateLimitKey req) w = (x, w')"
  shows "auth_refresh uo L E C req (w, r) =
    (case x of Inl e \<Rightarrow> (Inl e, (w', noStore r))
     | Inr _ \<Rightarrow> (case getRefreshToken req None of
         None \<Rightarrow> (Inl (Http 401 ''MissingRefresh'' ''No refresh cookie''), (w', noStore r))
       | Some token \<Rightarrow> (case refresh_refresh E token w' of
           (Inl e, w2) \<Rightarrow> (Inl (Http 401 ''InvalidRefresh'' ''Invalid or expired refresh token.''), (w2, noStore r))
         | (Inr pair, w2) \<Rightarrow> (Inr (accessToken pair), (w2,
             (if refreshToken pair = [] then id else add_cookie (refresh_cookie C (refreshToken pair))) (noStore r))))))"
  using assms(3)
  by (auto simp: auth_refresh_def thenM_def bindM_def setNoStore_run assertJsonOrEmpty_run assertAllowedOrigin_run assms(1, 2)
      onWorld_run catchM_def throwM_def retM_def setRefreshCookie_def onRes_run refresh_cookie_def REFRESH_COOKIE_NAME_def
      split: sum.split option.split prod.split)

context redis_api
begin

text \<open>A live token in the cookie of an allowed request within the limit.\<close>

lemma refresh_served:
  assumes E: "e_redis E = R" "jwt_lib_ok (t_jwt E)" "users_db_ok (f_users E) rows" "0 < e_sessionTtlSec E" "0 < f_refreshTtlSeconds E"
    and w: "wok ok w" "rows (w_db w) sub = Some user" "fresh_at E t0 (w_now w)"
    and ids: "sub \<noteq> []" "sid \<noteq> []" "jti \<noteq> []" "e_uuid E (w_ctr w) \<noteq> jti"
    and live: "sget (wview view w) (keyRefreshBlacklist jti) \<noteq> Some ''1''"
      "sget (wview view w) (refreshAllowKey jti) = Some (allow_text sub (Some sid))"
    and req: "json_or_empty req" "origin_allowed uo C req" "getRefreshToken req None = Some (refresh_token E t0 sub sid jti)"
    and L: "0 < l_windowSec L" "counter (wview view w) (attempts_key L req) = Some n" "n + 1 \<le> l_maxHits L"
      "n \<noteq> 0 \<or> strs (wview view w) (attempts_key L req) = None"
  obtains w' r' where "auth_refresh uo L E C req (w, r) = (Inr (access_token E (w_now w) sub (roleNames user)), (w', r'))"
    and "rs_cookies r' = rs_cookies r @ [refresh_cookie C (refresh_token E (w_now w) sub sid (e_uuid E (w_ctr w)))]"
    and "wok ok w'" and "w_now w' = w_now w" and "w_db w' = w_db w" and "w_ctr w' = Suc (w_ctr w)"
    and "sget (wview view w') (refreshAllowKey (e_uuid E (w_ctr w))) = Some (allow_text sub (Some sid))"
    and "sget (wview view w') (refreshAllowKey jti) = None"
    and "sget (wview view w') (keyRefreshBlacklist jti) = Some ''1''"
    and "counter (wview view w') (attempts_key L req) = Some (n + 1)"
proof -
  obtain wl where l: "limit_consume R L (getRateLimitKey req) w =
      (if n + 1 > l_maxHits L
       then Inl (tooManyRequests ''TooManyRefreshRequests'' ''Too many refresh attempts. Please try again later.'')
       else Inr (), wl)"
    "wok ok wl" "wview view wl = v_set (attempts_key L req) (int_str (n + 1))
      (if n = 0 then Some (w_now w + 1000 * l_windowSec L) else expiry (wview view w) (attempts_key L req)) (wview view w)"
    "w_now wl = w_now w" "w_db wl = w_db w" "w_ctr wl = w_ctr w"
    by (rule limit_effect [OF w(1) L(1) attempts_key_def L(2, 4)])
  have row: "rows (w_db wl) sub = Some user" using w(2) l(5) by simp
  have fr: "fresh_at E t0 (w_now wl)" using w(3) l(4) by simp
  have lv: "sget (wview view wl) (keyRefreshBlacklist jti) \<noteq> Some ''1''"
    "sget (wview view wl) (refreshAllowKey jti) = Some (allow_text sub (Some sid))" "Some sid \<in> {None, Some sid}"
    using live by (simp_all add: l(3) rview_simps)
  obtain w' where r: "refresh_refresh E (refresh_token E t0 sub sid jti) wl =
      (Inr \<lparr>accessToken = access_token E (w_now wl) sub (roleNames user),
            refreshToken = refresh_token E (w_now wl) sub sid (e_uuid E (w_ctr wl))\<rparr>, w')"
    "wok ok w'" "wview view w' = v_issue E (w_now wl) sub (Some sid) (e_uuid E (w_ctr wl))
      (v_consume E (w_now wl) sub (Some sid) jti (wview view wl))"
    "w_now w' = w_now wl" "w_db w' = w_db wl" "w_ctr w' = Suc (w_ctr wl)"
    by (rule refresh_effect [OF E(1) l(2) E(2) fr ids(1-3) E(3) row E(4, 5) lv])
  have ne: "refresh_token E t sub sid j \<noteq> []" for t j
    unfolding refresh_token_def by (rule jwt_token_nonempty [OF E(2) refresh_payload_plain]) simp
  have c: "strs (wview view w') (attempts_key L req) = strs (wview view wl) (attempts_key L req)"
    using ids(2) by (simp add: r(3) v_issue_def v_consume_def Let_def rview_simps)
  have x: "limit_consume (e_redis E) L (getRateLimitKey req) w = (Inr (), wl)" using l(1) L(3) E(1) by simp
  show thesis
  proof (rule that)
    show "auth_refresh uo L E C req (w, r) = (Inr (access_token E (w_now w) sub (roleNames user)),
        (w', add_cookie (refresh_cookie C (refresh_token E (w_now w) sub sid (e_uuid E (w_ctr w)))) (noStore r)))"
      using auth_refresh_run [OF req(1, 2) x, of r] ne by (simp add: req(3) r(1) l(4, 6))
    show "counter (wview view w') (attempts_key L req) = Some (n + 1)"
      by (simp add: counter_def c l(3) rview_simps)
  qed (use r l ids in \<open>simp_all add: sget_v_issue sget_v_consume\<close>)
qed

text \<open>A token that is no longer live.\<close>

lemma refresh_replay:
  assumes E: "e_redis E = R" "jwt_lib_ok (t_jwt E)"
    and w: "wok ok w" "fresh_at E t0 (w_now w)" and ids: "sub \<noteq> []" "sid \<noteq> []" "jti \<noteq> []"
    and dead: "sget (wview view w) (keyRefreshBlacklist jti) = Some ''1'' \<or> sget (wview view w) (refreshAllowKey jti) = None"
    and req: "json_or_empty req" "origin_allowed uo C req" "getRefreshToken req None = Some (refresh_token E t0 sub sid jti)"
    and L: "0 < l_windowSec L" "counter (wview view w) (attempts_key L req) = Some n" "n + 1 \<le> l_maxHits L"
      "n \<noteq> 0 \<or> strs (wview view w) (attempts_key L req) = None"
  shows "\<exists>w'. auth_refresh uo L E C req (w, r) =
    (Inl (Http 401 ''InvalidRefresh'' ''Invalid or expired refresh token.''), (w', noStore r))"
proof -
  obtain wl where l: "limit_consume R L (getRateLimitKey req) w =
      (if n + 1 > l_maxHits L
       then Inl (tooManyRequests ''TooManyRefreshRequests'' ''Too many refresh attempts. Please try again later.'')
       else Inr (), wl)"
    "wok ok wl" "wview view wl = v_set (attempts_key L req) (int_str (n + 1))
      (if n = 0 then Some (w_now w + 1000 * l_windowSec L) else expiry (wview view w) (attempts_key L req)) (wview view w)"
    "w_now wl = w_now w"
    by (rule limit_effect [OF w(1) L(1) attempts_key_def L(2, 4)])
  have x: "limit_consume (e_redis E) L (getRateLimitKey req) w = (Inr (), wl)" using l(1) L(3) E(1) by simp
  have d: "sget (wview view wl) (keyRefreshBlacklist jti) = Some ''1'' \<or> sget (wview view wl) (refreshAllowKey jti) = None"
    using dead by (simp add: l(3) rview_simps)
  have fr: "fresh_at E t0 (w_now wl)" using w(2) l(4) by simp
  obtain m where "fst (refresh_refresh E (refresh_token E t0 sub sid jti) wl) = Inl (unauthorized m)"
    using refresh_denied [OF E(1) l(2) E(2) fr ids d] by blast
  then obtain w2 where "refresh_refresh E (refresh_token E t0 sub sid jti) wl = (Inl (unauthorized m), w2)" by (metis prod.collapse)
  then show ?thesis using auth_refresh_run [OF req(1, 2) x, of r] by (simp add: req(3))
qed

end

section \<open>Guards\<close>

lemma split_bearer: "CHR '' '' \<notin> set tok \<Longrightarrow> split_scheme (''Bearer '' @ tok) = (''Bearer'', Some tok)"
  using split_on_append [of "CHR '' ''" "''Bearer''" tok] by (simp add: split_scheme_def split_on_free)

definition user_of :: "string \<Rightarrow> string list \<Rightarrow> CurrentUser" where
  "user_of uid roles = \<lparr>cu_id = JStr uid, cu_roles = roles, cu_name = None\<rparr>"

lemma access_verified:
  assumes "jwt_lib_ok (t_jwt E)" and "now div 1000 < t0 div 1000 + t_accessTtlSec E"
  shows "j_verify (t_jwt E) now (access_token E t0 uid roles) (t_accessSecret E) default_verify = Inr (access_claims E t0 uid roles)"
  unfolding access_token_def access_claims_def
  using assms(2) by (intro jwt_verify_own [OF assms(1) access_payload_plain])
    (simp_all add: accepts_def access_opts_def default_verify_def)

lemma user_of_access: "user_of_claims (access_claims E t0 uid roles) = user_of uid roles"
proof -
  have "jfield ''username'' (access_claims E t0 uid roles) = None"
    by (auto simp: access_claims_def access_payload_def signed_claims_def access_opts_def opt_member_def split: option.split)
  then show ?thesis by (simp add: user_of_claims_def user_of_def role_strings_def js_array_def comp_def)
qed

text \<open>Both guards admit an access token of the service that has not expired.\<close>

lemma guards_admit:
  assumes J: "jwt_lib_ok (t_jwt E)" "now div 1000 < t0 div 1000 + t_accessTtlSec E" and "uid \<noteq> []"
    and tok: "tok = access_token E t0 uid roles" "CHR '' '' \<notin> set tok" and req: "gq_authorization req = Some (HStr (''Bearer '' @ tok))"
  shows "jwt_canActivate (t_jwt E) (t_accessSecret E) now req = Inr (user_of uid roles)"
    and "\<not> isPublicPath req \<Longrightarrow> hybrid_canActivate cfg env (t_jwt E) (t_accessSecret E) now False req = Inr (Some (user_of uid roles))"
proof -
  have lower: "js_lower ''Bearer'' = ''bearer''" by code_simp
  have ne: "tok \<noteq> []" unfolding tok(1) access_token_def by (rule jwt_token_nonempty [OF J(1) access_payload_plain]) simp
  note v = access_verified [OF J, of uid roles, folded tok(1)]
  note sp = split_bearer [OF tok(2), simplified]
  show "jwt_canActivate (t_jwt E) (t_accessSecret E) now req = Inr (user_of uid roles)"
    using ne assms(3) by (simp add: jwt_canActivate_def extractBearerToken_def req sp lower [simplified] truthy_def verifyToken_def v user_of_access)
  show "\<not> isPublicPath req \<Longrightarrow> hybrid_canActivate cfg env (t_jwt E) (t_accessSecret E) now False req = Inr (Some (user_of uid roles))"
    using ne assms(3) by (simp add: hybrid_canActivate_def tryAuthenticateWithBearer_def req sp lower [simplified] truthy_def v user_of_access)
qed

section \<open>The in-memory client\<close>

text \<open>
  The commands of the password service on the client of the tests; it has neither hashes nor
  \<open>EXISTS\<close>, so calling those throws.
\<close>

definition fake_kv :: "fake_redis kv_ops" where
  "fake_kv = \<lparr>k_get = fake_get, k_set = (\<lambda>n k x ms. fake_set_ex n k x (ms div 1000)),
     k_set_nx = (\<lambda>n k x ms. bindM (fake_set_ex n k x (ms div 1000)) (\<lambda>_. retM True)), k_getdel = Some fake_getdel, k_del = fake_del,
     k_exists = (\<lambda>n k. throwM (JsError ''TypeError'')), k_incr = fake_incr, k_expire = fake_expire, k_ttl = fake_ttl,
     k_hgetall = (\<lambda>n k. throwM (JsError ''TypeError'')), k_hset = (\<lambda>n k fs. throwM (JsError ''TypeError'')),
     k_hincr = (\<lambda>n k f d. throwM (JsError ''TypeError''))\<rparr>"

lemma fake_del_only: "only_key fake_ok fake_view k (\<lambda>n. fake_del n k)"
  by (simp add: only_key_def fake_del_ok fake_del_view rview_simps)

lemma fake_incr_only: "only_key fake_ok fake_view k (\<lambda>n. fake_incr n k)"
  unfolding only_key_def
proof (intro allI impI)
  fix now r
  assume r: "fake_ok now r"
  obtain x where "snd (fake_incr now k r) = r\<lparr>fvalues := (fvalues r)(k := Some x)\<rparr>"
    by (cases "int_of_str (case fvalues r k of None \<Rightarrow> ''0'' | Some s \<Rightarrow> s)") (auto simp: fake_incr_def isExpired_ok [OF r] Let_def)
  then show "fake_ok now (snd (fake_incr now k r)) \<and> (\<forall>k'. k' \<noteq> k \<longrightarrow>
      strs (fake_view now (snd (fake_incr now k r))) k' = strs (fake_view now r) k' \<and>
      rsets (fake_view now (snd (fake_incr now k r))) k' = rsets (fake_view now r) k' \<and>
      zscores (fake_view now (snd (fake_incr now k r))) k' = zscores (fake_view now r) k')"
    by (simp add: fake_put_ok [OF r] fake_put_view rview_simps)
qed

lemma fake_expire_only: "only_key fake_ok fake_view k (\<lambda>n. fake_expire n k t)"
  unfolding only_key_def
proof (intro allI impI)
  fix now r
  assume r: "fake_ok now r"
  show "fake_ok now (snd (fake_expire now k t r)) \<and> (\<forall>k'. k' \<noteq> k \<longrightarrow>
      strs (fake_view now (snd (fake_expire now k t r))) k' = strs (fake_view now r) k' \<and>
      rsets (fake_view now (snd (fake_expire now k t r))) k' = rsets (fake_view now r) k' \<and>
      zscores (fake_view now (snd (fake_expire now k t r))) k' = zscores (fake_view now r) k')"
    using r by (cases "fvalues r k")
      (simp_all add: fake_expire_def fake_del_ok fake_del_view fake_schedule_ok fake_schedule_view rview_simps)
qed

interpretation oc: one_client fake_ops fake_ok fake_view fake_slist fake_zlist fake_kv
  by unfold_locales (simp_all add: fake_kv_def fake_incr_only fake_expire_only fake_del_only)

end
