(* ===== verification/HttpProps.thy ===== *)
theory HttpProps
  imports HttpFacts
begin

text \<open>
  The properties of the HTTP side of authentication: what a login opens, who may refresh and
  with which cookie, what a logout ends, which cookies the settings allow and whom the guards admit.
\<close>

section \<open>A concrete world for the witnesses\<close>

definition web_row :: PwdUser where
  "web_row = \<lparr>pu_id = ''u1'', pu_passwordHash = Some ''longsecret'', pu_email = None, pu_phone = None, pu_username = Some ''ann'', pu_name = None\<rparr>"

definition web_pdb :: "(string \<Rightarrow> UserWithRelations option) pwd_db" where
  "web_pdb = \<lparr>pd_findFirst = (\<lambda>ws t. (Inr (if ByUsername ''ann'' \<in> set ws then Some web_row else None), t)),
     pd_findUnique = (\<lambda>x t. (Inr None, t)), pd_upsert = (\<lambda>x c u t. (Inl (JsError ''P2025''), t)),
     pd_update = (\<lambda>x u t. (Inl (JsError ''P2025''), t)), pd_isP2002 = (\<lambda>e. False)\<rparr>"

definition web_pwd :: "(string \<Rightarrow> UserWithRelations option) pwd_env" where
  "web_pwd = \<lparr>p_db = web_pdb, p_secret = ''secret'', p_rounds = 10, p_throttleLimit = 6, p_throttleWindow = 300,
     p_dummyHash = ''dummy'', p_ticketTtl = 600, p_sha256 = (\<lambda>s. s), p_jwt = clear_jwt, p_hash = (\<lambda>pw r n. pw), p_compare = (\<lambda>pw h. pw = h),
     p_random = (\<lambda>b n. n), p_welcome = (\<lambda>e n d. (Inr (), d))\<rparr>"

definition web_ctl :: auth_ctl where
  "web_ctl = \<lparr>hc_maxAgeMs = 1000, hc_sameSite = ''lax'', hc_secure = False, hc_path = ''/api/auth/refresh'', hc_origins = [''http://web'']\<rparr>"

definition web_limit :: limit_env where
  "web_limit = \<lparr>l_windowSec = 10, l_maxHits = 5, l_sha256 = (\<lambda>s. s)\<rparr>"

definition web_res :: http_res where
  "web_res = \<lparr>rs_headers = [], rs_cookies = [], rs_refreshToken = None\<rparr>"

text \<open>A request from a site, with a refresh cookie.\<close>

definition web_request :: "string \<Rightarrow> string \<Rightarrow> web_req" where
  "web_request origin cookie = \<lparr>rq_headers = [(''origin'', origin)], rq_ips = [], rq_ip = Some ''10.0.0.1'', rq_remote = None,
     wq_cookies = [(''refresh_token'', cookie)]\<rparr>"

lemma web_login: "js_trim ''ann'' = ''ann''" "login_row web_pwd ''ann'' t = Some web_row" "reads_users (p_db web_pwd)"
proof -
  show "js_trim ''ann'' = ''ann''" by code_simp
  have "ByUsername ''ann'' \<in> set (login_where (splitIdentifier ''ann''))" by code_simp
  then show "login_row web_pwd ''ann'' t = Some web_row" by (simp add: login_row_def web_pwd_def web_pdb_def)
  show "reads_users (p_db web_pwd)" by (simp add: reads_users_def web_pwd_def web_pdb_def)
qed

lemma web_token: "CHR '' '' \<notin> set (access_token fake_renv 1000 ''u1'' [''USER''])" by code_simp

lemma web_roles: "roleNames fake_user = [''USER'']" by code_simp

lemma web_origin: "origin_allowed Some web_ctl (web_request ''http://web'' c)" "\<not> origin_allowed Some web_ctl (web_request ''http://evil'' c)"
  "json_or_empty (web_request o' c)"
proof -
  have "normalizeOrigin Some (Some ''http://web'') = ''http://web''" "normalizeOrigin Some (Some ''http://evil'') = ''http://evil''"
    "normalizeOrigin Some None = []" by code_simp+
  then show "origin_allowed Some web_ctl (web_request ''http://web'' c)" "\<not> origin_allowed Some web_ctl (web_request ''http://evil'' c)"
    by (simp_all add: origin_allowed_def site_def header_def web_request_def web_ctl_def)
  show "json_or_empty (web_request o' c)"
    by (simp add: json_or_empty_def assertJsonOrEmpty_def header_def web_request_def truthy_def Let_def retM_def)
qed

section \<open>Logging in\<close>

text \<open>
  C20: a login opens a session. With the right password the answer carries an access token
  for the account, which both guards admit with the roles of the account for as long as it lives,
  the response sets the refresh token in an HttpOnly cookie on the refresh path and must not be
  cached, and the new session is stored with that token linked to it.
\<close>

theorem login_opens_session:
  assumes "one_client R ok view slist zlist K" and "e_redis E = R" and "jwt_lib_ok (t_jwt E)" and "users_db_ok (f_users E) rows"
    and "0 < e_sessionTtlSec E" and "reads_users (p_db P)" and "wok ok w" and "\<And>n. e_uuid E n \<noteq> []"
    and "js_trim identifier \<noteq> []" and "pw \<noteq> []"
    and "login_row P (js_trim identifier) (w_db w) = Some u" and "pu_id u \<noteq> []"
    and "p_compare P pw (nullish (pu_passwordHash u) (p_dummyHash P))" and "rows (w_db w) (pu_id u) = Some user"
    and "tok = access_token E (w_now w) (pu_id u) (roleNames user)" and "CHR '' '' \<notin> set tok"
    and "now div 1000 < w_now w div 1000 + t_accessTtlSec E" and "gq_authorization greq = Some (HStr (''Bearer '' @ tok))"
    and "\<not> isPublicPath greq"
  shows "\<exists>w1 r1 sid jti. auth_login K P E C identifier pw req (w, r) = (Inr tok, (w1, r1)) \<and>
    rs_cookies r1 = rs_cookies r @ [SetCookie ''refresh_token'' (refresh_token E (w_now w) (pu_id u) sid jti)
      \<lparr>co_httpOnly = True, co_secure = hc_secure C, co_sameSite = hc_sameSite C, co_path = hc_path C, co_maxAge = Some (hc_maxAgeMs C)\<rparr>] \<and>
    map_of (rs_headers r1) ''Cache-Control'' = Some ''no-store'' \<and>
    sget (wview view w1) (keySession (pu_id u) sid) \<noteq> None \<and> jti \<in> rsets (wview view w1) (keySessionJtis (pu_id u) sid) \<and>
    jwt_canActivate (t_jwt E) (t_accessSecret E) now greq = Inr (user_of (pu_id u) (roleNames user)) \<and>
    hybrid_canActivate cfg env (t_jwt E) (t_accessSecret E) now False greq = Inr (Some (user_of (pu_id u) (roleNames user)))"
proof -
  have ne: "identifier \<noteq> []" using assms(9) by (auto simp: js_trim_def)
  have "fst (pwd_login K P identifier pw (auth_getIp req) w) = Inr (pu_id u)"
    using assms(9, 11-13) by (simp add: login_answer)
  note log = this
  obtain w1 r1 where l: "auth_login K P E C identifier pw req (w, r) = (Inr (access_token E (w_now w) (pu_id u) (roleNames user)), (w1, r1))"
    "rs_cookies r1 = rs_cookies r @ [refresh_cookie C (refresh_token E (w_now w) (pu_id u) (e_uuid E (w_ctr w)) (e_uuid E (Suc (w_ctr w))))]"
    "map_of (rs_headers r1) ''Cache-Control'' = Some ''no-store''"
    "sget (wview view w1) (keySession (pu_id u) (e_uuid E (w_ctr w))) \<noteq> None"
    "e_uuid E (w_ctr w) \<noteq> [] \<Longrightarrow> e_uuid E (Suc (w_ctr w)) \<in> rsets (wview view w1) (keySessionJtis (pu_id u) (e_uuid E (w_ctr w)))"
    by (rule one_client.login_effect [OF assms(1-6, 7) ne assms(10) log assms(14), of C r]) (rule that)
  show ?thesis
    by (intro exI conjI guards_admit [OF assms(3, 17, 12, 15, 16, 18)] assms(19); (rule l [folded assms(15), unfolded refresh_cookie_def])?)
       (rule assms(8))
qed

lemma web_facts: "\<And>n. e_uuid fake_renv n \<noteq> []" "js_trim ''ann'' \<noteq> []" "''longsecret'' \<noteq> []"
  "login_row web_pwd (js_trim ''ann'') (w_db fake_rworld) = Some web_row" "pu_id web_row \<noteq> []"
  "p_compare web_pwd ''longsecret'' (nullish (pu_passwordHash web_row) (p_dummyHash web_pwd))"
  "table_rows (w_db fake_rworld) (pu_id web_row) = Some fake_user"
proof -
  show "login_row web_pwd (js_trim ''ann'') (w_db fake_rworld) = Some web_row" by (simp only: web_login(1, 2))
  show "js_trim ''ann'' \<noteq> []" by (simp only: web_login(1)) simp
qed (simp_all add: fake_renv_def fake_uuid_def web_row_def web_pwd_def nullish_def fake_rworld_ok(7))

lemma web_now: "w_now fake_rworld = 1000" "pu_id web_row = ''u1''"
  by (simp_all add: fake_rworld_def web_row_def)

lemmas web_login_facts = oc.one_client_axioms fake_rworld_ok(2, 3, 4, 5) web_login(3) fake_rworld_ok(1) web_facts

theorem login_opens_session_witness:
  "\<exists>w1 r1. auth_login fake_kv web_pwd fake_renv web_ctl ''ann'' ''longsecret'' (web_request ''http://web'' []) (fake_rworld, web_res)
     = (Inr (access_token fake_renv 1000 ''u1'' [''USER'']), (w1, r1)) \<and> length (rs_cookies r1) = 1"
proof -
  let ?tok = "access_token fake_renv 1000 ''u1'' [''USER'']"
  let ?g = "\<lparr>gq_authorization = Some (HStr (''Bearer '' @ ?tok)), gq_mock = None, gq_cookie = None, gq_path = ''/api/me''\<rparr>"
  have t: "?tok = access_token fake_renv (w_now fake_rworld) (pu_id web_row) (roleNames fake_user)" by (simp only: web_now web_roles)
  have n: "1500 div 1000 < w_now fake_rworld div 1000 + t_accessTtlSec fake_renv" by (simp add: fake_rworld_def fake_renv_def)
  have g: "gq_authorization ?g = Some (HStr (''Bearer '' @ ?tok))" by simp
  have p: "\<not> isPublicPath ?g" by (simp add: isPublicPath_def)
  from login_opens_session [OF web_login_facts t web_token n g p, of web_ctl "web_request ''http://web'' []" web_res]
  obtain w1 r1 sid jti where l: "auth_login fake_kv web_pwd fake_renv web_ctl ''ann'' ''longsecret'' (web_request ''http://web'' []) (fake_rworld, web_res)
      = (Inr ?tok, (w1, r1))"
    "rs_cookies r1 = rs_cookies web_res @ [SetCookie ''refresh_token'' (refresh_token fake_renv (w_now fake_rworld) (pu_id web_row) sid jti)
      \<lparr>co_httpOnly = True, co_secure = hc_secure web_ctl, co_sameSite = hc_sameSite web_ctl, co_path = hc_path web_ctl, co_maxAge = Some (hc_maxAgeMs web_ctl)\<rparr>]"
    by metis
  then have "length (rs_cookies r1) = 1" by (simp add: web_res_def)
  with l(1) show ?thesis by blast
qed

section \<open>Refreshing\<close>

text \<open>
  C21: the cookie of a login can be used once. Sent to the refresh route by an allowed site
  within the limit, it is exchanged for a new access token of the same account and a new refresh
  token of the same session, which replaces the cookie; sent again, it is refused with 401 and no
  cookie is set.
\<close>

theorem cookie_rotates:
  assumes "one_client R ok view slist zlist K" and "e_redis E = R" and "jwt_lib_ok (t_jwt E)" and "users_db_ok (f_users E) rows"
    and "0 < e_sessionTtlSec E" and "reads_users (p_db P)" and "wok ok w" and "\<And>n. e_uuid E n \<noteq> []"
    and "js_trim identifier \<noteq> []" and "pw \<noteq> []"
    and "login_row P (js_trim identifier) (w_db w) = Some u" and "pu_id u \<noteq> []"
    and "p_compare P pw (nullish (pu_passwordHash u) (p_dummyHash P))" and "rows (w_db w) (pu_id u) = Some user"
    and ttl: "0 < f_refreshTtlSeconds E" "0 \<le> t_refreshTtlSec E" and "e_uuid E (Suc (Suc (w_ctr w))) \<noteq> e_uuid E (Suc (w_ctr w))"
    and "sget (wview view w) (keyRefreshBlacklist (e_uuid E (Suc (w_ctr w)))) \<noteq> Some ''1''"
    and L: "0 < l_windowSec L" "2 \<le> l_maxHits L" "strs (wview view w) (attempts_key L req2) = None"
    and req: "json_or_empty req2" "origin_allowed uo C req2"
    and cookie: "rt = refresh_token E (w_now w) (pu_id u) (e_uuid E (w_ctr w)) (e_uuid E (Suc (w_ctr w)))" "getRefreshToken req2 None = Some rt"
  shows "\<exists>w1 r1 w2 r2 w3 r3. auth_login K P E C identifier pw req (w, r) = (Inr (access_token E (w_now w) (pu_id u) (roleNames user)), (w1, r1)) \<and>
    rs_cookies r1 = rs_cookies r @ [refresh_cookie C rt] \<and>
    auth_refresh uo L E C req2 (w1, r) = (Inr (access_token E (w_now w) (pu_id u) (roleNames user)), (w2, r2)) \<and>
    rs_cookies r2 = rs_cookies r @ [refresh_cookie C (refresh_token E (w_now w) (pu_id u) (e_uuid E (w_ctr w)) (e_uuid E (Suc (Suc (w_ctr w)))))] \<and>
    auth_refresh uo L E C req2 (w2, r) = (Inl (Http 401 ''InvalidRefresh'' ''Invalid or expired refresh token.''), (w3, r3)) \<and>
    rs_cookies r3 = rs_cookies r"
proof -
  let ?sid = "e_uuid E (w_ctr w)" and ?jti = "e_uuid E (Suc (w_ctr w))"
  have ne: "identifier \<noteq> []" using assms(9) by (auto simp: js_trim_def)
  have log: "fst (pwd_login K P identifier pw (auth_getIp req) w) = Inr (pu_id u)"
    using assms(9, 11-13) by (simp add: login_answer)
  have R: "redis_api R ok view slist zlist" using assms(1) by (simp add: one_client_def)
  obtain w1 r1 where l: "auth_login K P E C identifier pw req (w, r) = (Inr (access_token E (w_now w) (pu_id u) (roleNames user)), (w1, r1))"
    "rs_cookies r1 = rs_cookies r @ [refresh_cookie C (refresh_token E (w_now w) (pu_id u) ?sid ?jti)]" "wok ok w1" "w_now w1 = w_now w" "w_db w1 = w_db w" "w_ctr w1 = Suc (Suc (w_ctr w))"
    "?sid \<noteq> [] \<Longrightarrow> sget (wview view w1) (refreshAllowKey ?jti) = Some (allow_text (pu_id u) (Some ?sid))"
    "\<And>k. k \<in> refresh_keys \<Longrightarrow> k \<noteq> refreshAllowKey ?jti \<Longrightarrow> strs (wview view w1) k = strs (wview view w) k"
    by (rule one_client.login_effect [OF assms(1-6, 7) ne assms(10) log assms(14), of C r]) (rule that)
  have row: "rows (w_db w1) (pu_id u) = Some user" using assms(14) l(5) by simp
  have fr: "fresh_at E (w_now w) (w_now w1)" using ttl(2) by (simp add: fresh_at_def l(4))
  have new: "e_uuid E (w_ctr w1) \<noteq> ?jti" using assms(17) by (simp add: l(6))
  have bl: "sget (wview view w1) (keyRefreshBlacklist ?jti) \<noteq> Some ''1''" using assms(18) l(8) by (simp add: sget_def)
  have lim: "strs (wview view w1) (attempts_key L req2) = None" using L(3) l(8) by simp
  then have cnt: "counter (wview view w1) (attempts_key L req2) = Some 0" by (simp add: counter_def)
  have max: "0 + 1 \<le> l_maxHits L" using L(2) by simp
  obtain w2 r2 where s: "auth_refresh uo L E C req2 (w1, r) = (Inr (access_token E (w_now w1) (pu_id u) (roleNames user)), (w2, r2))"
    "rs_cookies r2 = rs_cookies r @ [refresh_cookie C (refresh_token E (w_now w1) (pu_id u) ?sid (e_uuid E (w_ctr w1)))]"
    "wok ok w2" "w_now w2 = w_now w1" "sget (wview view w2) (keyRefreshBlacklist ?jti) = Some ''1''"
    "counter (wview view w2) (attempts_key L req2) = Some (0 + 1)"
    by (rule redis_api.refresh_served [OF R assms(2, 3, 4, 5) ttl(1) l(3) row fr assms(12) assms(8) assms(8) new bl l(7) req
          cookie(2) [unfolded cookie(1)] L(1) cnt max disjI2 [OF lim], of r]) (use assms(8) in \<open>auto intro: that\<close>)
  have fr2: "fresh_at E (w_now w) (w_now w2)" using fr s(4) by simp
  have max2: "0 + 1 + 1 \<le> l_maxHits L" using L(2) by simp
  obtain w3 where "auth_refresh uo L E C req2 (w2, r) = (Inl (Http 401 ''InvalidRefresh'' ''Invalid or expired refresh token.''), (w3, noStore r))"
    using redis_api.refresh_replay [OF R assms(2, 3) s(3) fr2 assms(12) assms(8) assms(8) disjI1 [OF s(5)] req
        cookie(2) [unfolded cookie(1)] L(1) s(6) max2] by force
  moreover have "rs_cookies (noStore r) = rs_cookies r" by (rule noStore_cookies)
  ultimately show ?thesis
    using l(1, 2) s(1, 2) unfolding l(4, 6) cookie(1) by blast
qed

lemma web_cookie: "getRefreshToken (web_request ''http://web'' (refresh_token fake_renv 1000 ''u1'' (fake_uuid 0) (fake_uuid 1))) None
    = Some (refresh_token fake_renv 1000 ''u1'' (fake_uuid 0) (fake_uuid 1))"
proof -
  let ?t = "refresh_token fake_renv 1000 ''u1'' (fake_uuid 0) (fake_uuid 1)"
  have "js_trim (json_print (JArr xs)) = json_print (JArr xs) \<and> json_print (JArr xs) \<noteq> []" for xs
    by (auto intro!: js_trim_trimmed simp: is_space_def)
  moreover have "\<exists>xs. ?t = json_print (JArr xs)"
    by (auto simp: refresh_token_def fake_renv_def clear_jwt_def clear_sign_def simp del: json_print.simps)
  ultimately have "js_trim ?t = ?t" "?t \<noteq> []" by metis+
  then show ?thesis by (simp add: getRefreshToken_def web_request_def REFRESH_COOKIE_NAME_def nullish_def)
qed

theorem cookie_rotates_witness:
  "\<exists>w1 r1 w2 r2 w3 r3. auth_login fake_kv web_pwd fake_renv web_ctl ''ann'' ''longsecret'' (web_request ''http://web'' []) (fake_rworld, web_res)
      = (Inr (access_token fake_renv 1000 ''u1'' [''USER'']), (w1, r1)) \<and>
    auth_refresh Some web_limit fake_renv web_ctl (web_request ''http://web'' (refresh_token fake_renv 1000 ''u1'' (fake_uuid 0) (fake_uuid 1))) (w1, web_res)
      = (Inr (access_token fake_renv 1000 ''u1'' [''USER'']), (w2, r2)) \<and> length (rs_cookies r2) = 1 \<and>
    auth_refresh Some web_limit fake_renv web_ctl (web_request ''http://web'' (refresh_token fake_renv 1000 ''u1'' (fake_uuid 0) (fake_uuid 1))) (w2, web_res)
      = (Inl (Http 401 ''InvalidRefresh'' ''Invalid or expired refresh token.''), (w3, r3))"
proof -
  let ?t = "refresh_token fake_renv 1000 ''u1'' (fake_uuid 0) (fake_uuid 1)" and ?w = fake_rworld
  have u: "e_uuid fake_renv = fake_uuid" "w_ctr ?w = 0" by (simp_all add: fake_renv_def fake_rworld_def)
  have t: "?t = refresh_token fake_renv (w_now ?w) (pu_id web_row) (e_uuid fake_renv (w_ctr ?w)) (e_uuid fake_renv (Suc (w_ctr ?w)))"
    by (simp only: web_now u One_nat_def)
  have a: "0 < f_refreshTtlSeconds fake_renv" "0 \<le> t_refreshTtlSec fake_renv"
    "e_uuid fake_renv (Suc (Suc (w_ctr ?w))) \<noteq> e_uuid fake_renv (Suc (w_ctr ?w))"
    "sget (wview fake_view ?w) (keyRefreshBlacklist (e_uuid fake_renv (Suc (w_ctr ?w)))) \<noteq> Some ''1''"
    "0 < l_windowSec web_limit" "2 \<le> l_maxHits web_limit"
    "strs (wview fake_view ?w) (attempts_key web_limit (web_request ''http://web'' ?t)) = None"
    by (simp_all add: fake_rview u fake_uuid_inj web_limit_def) (simp_all add: fake_renv_def)
  from cookie_rotates [OF web_login_facts a web_origin(3, 1) t web_cookie, of "web_request ''http://web'' []" web_res]
  obtain w1 r1 w2 r2 w3 r3 where l:
    "auth_login fake_kv web_pwd fake_renv web_ctl ''ann'' ''longsecret'' (web_request ''http://web'' []) (fake_rworld, web_res)
      = (Inr (access_token fake_renv (w_now ?w) (pu_id web_row) (roleNames fake_user)), (w1, r1))"
    "auth_refresh Some web_limit fake_renv web_ctl (web_request ''http://web'' ?t) (w1, web_res)
      = (Inr (access_token fake_renv (w_now ?w) (pu_id web_row) (roleNames fake_user)), (w2, r2))"
    "rs_cookies r2 = rs_cookies web_res @ [refresh_cookie web_ctl (refresh_token fake_renv (w_now ?w) (pu_id web_row)
        (e_uuid fake_renv (w_ctr ?w)) (e_uuid fake_renv (Suc (Suc (w_ctr ?w)))))]"
    "auth_refresh Some web_limit fake_renv web_ctl (web_request ''http://web'' ?t) (w2, web_res)
      = (Inl (Http 401 ''InvalidRefresh'' ''Invalid or expired refresh token.''), (w3, r3))"
    by metis
  have "length (rs_cookies r2) = 1" by (simp add: l(3) web_res_def)
  with l(1, 2, 4) show ?thesis unfolding web_now web_roles by blast
qed



section \<open>Logging out\<close>

text \<open>
  C23: a logout always succeeds, whatever token is presented, and clears the cookie. When
  the cookie holds a refresh token of the service, expired or not, the token is blacklisted, has
  lost its entry and is refused from then on; the record of its session stays.
\<close>

theorem logout_final:
  assumes "redis_api R ok view slist zlist" and "e_redis E = R" and "wok ok w" and "jwt_lib_ok (t_jwt E)"
    and "0 < f_refreshTtlSeconds E" and "sub \<noteq> []" and "sid \<noteq> []" and "jti \<noteq> []"
    and "getRefreshToken req None = Some (refresh_token E t0 sub sid jti)" and "plain_id sub"
  shows "\<exists>w' r'. auth_logout E C req None (w, r) = (Inr (), (w', r')) \<and>
    rs_cookies r' = rs_cookies r @ [ClearCookie ''refresh_token''
      \<lparr>co_httpOnly = True, co_secure = hc_secure C, co_sameSite = hc_sameSite C, co_path = hc_path C, co_maxAge = None\<rparr>] \<and>
    sget (wview view w') (refreshAllowKey jti) = None \<and> sget (wview view w') (keyRefreshBlacklist jti) = Some ''1'' \<and>
    (fresh_at E t0 (w_now w) \<longrightarrow> (\<exists>m. fst (refresh_refresh E (refresh_token E t0 sub sid jti) w') = Inl (unauthorized m))) \<and>
    strs (wview view w') (keySession sub sid) = strs (wview view w) (keySession sub sid) \<and>
    (\<forall>req2 body w2. fst (auth_logout E C req2 body (w2, r)) = Inr ())"
proof -
  have run: "auth_logout E C q b (v, r) = (case (if js_trim (nullish b []) \<noteq> [] then Some (js_trim (nullish b [])) else getRefreshToken q None) of
      None \<Rightarrow> (Inr (), (v, add_cookie (ClearCookie REFRESH_COOKIE_NAME
        \<lparr>co_httpOnly = True, co_secure = hc_secure C, co_sameSite = hc_sameSite C, co_path = hc_path C, co_maxAge = None\<rparr>) (noStore r)))
    | Some t \<Rightarrow> (Inr (), (snd (refresh_revoke E t v), add_cookie (ClearCookie REFRESH_COOKIE_NAME
        \<lparr>co_httpOnly = True, co_secure = hc_secure C, co_sameSite = hc_sameSite C, co_path = hc_path C, co_maxAge = None\<rparr>) (noStore r))))" for q b v
  proof -
    have c: "catchM (onWorld (refresh_revoke E t)) (\<lambda>_. retM ()) (v, x) = (Inr (), (snd (refresh_revoke E t v), x))" for t and x :: http_res
      by (cases "refresh_revoke E t v"; cases "fst (refresh_revoke E t v)") (auto simp: catchM_def onWorld_run retM_def)
    show ?thesis
      by (simp add: auth_logout_def thenM_def bindM_def setNoStore_run clearRefreshCookie_def onRes_run Let_def c retM_def split: option.split)
  qed
  obtain w' where r: "refresh_revoke E (refresh_token E t0 sub sid jti) w = (Inr (), w')" "wok ok w'"
    "wview view w' = v_consume E (w_now w) sub (Some sid) jti (wview view w)" "w_now w' = w_now w"
    by (rule redis_api.revoke_token_effect [OF assms(1-4, 6-8, 5)])
  have gone: "sget (wview view w') (keyRefreshBlacklist jti) = Some ''1''" "sget (wview view w') (refreshAllowKey jti) = None"
    by (simp_all add: r(3) sget_v_consume)
  have denied: "\<exists>m. fst (refresh_refresh E (refresh_token E t0 sub sid jti) w') = Inl (unauthorized m)" if "fresh_at E t0 (w_now w)"
    using that gone by (intro redis_api.refresh_denied [OF assms(1, 2) r(2) assms(4) _ assms(6-8)]) (simp_all add: r(4))
  have kept: "strs (wview view w') (keySession sub sid) = strs (wview view w) (keySession sub sid)"
  proof -
    have "keySession sub sid \<noteq> keyRefreshBlacklist jti" by (simp add: keyRefreshBlacklist_def keySession_def)
    then show ?thesis using keySession_disjoint(4) [OF assms(10)] by (simp add: r(3) v_consume_def Let_def rview_simps)
  qed
  have own: "js_trim (nullish None []) = []" by (simp add: nullish_def js_trim_def)
  have all: "\<forall>q b v. fst (auth_logout E C q b (v, r)) = Inr ()" by (simp add: run split: option.split)
  show ?thesis
    using run [of req None w] gone denied kept all
    by (intro exI [of _ w'] exI [of _ "add_cookie (ClearCookie REFRESH_COOKIE_NAME
        \<lparr>co_httpOnly = True, co_secure = hc_secure C, co_sameSite = hc_sameSite C, co_path = hc_path C, co_maxAge = None\<rparr>) (noStore r)"])
       (simp add: own assms(9) r(1) REFRESH_COOKIE_NAME_def)
qed

theorem logout_final_witness:
  "\<exists>w' r'. auth_logout fake_renv web_ctl (web_request ''http://web'' (refresh_token fake_renv 1000 ''u1'' (fake_uuid 0) (fake_uuid 1))) None (fake_rworld, web_res)
     = (Inr (), (w', r')) \<and> sget (wview fake_view w') (keyRefreshBlacklist (fake_uuid 1)) = Some ''1''"
proof -
  have "0 < f_refreshTtlSeconds fake_renv" "''u1'' \<noteq> []" "fake_uuid 0 \<noteq> []" "fake_uuid 1 \<noteq> []"
    by (simp_all add: fake_renv_def fake_uuid_def)
  moreover have "plain_id ''u1''" by (simp add: plain_id_def)
  ultimately show ?thesis
    using logout_final [OF fr.redis_api_axioms fake_rworld_ok(2, 1, 3) _ _ _ _ web_cookie, of web_ctl web_res] by blast
qed

text \<open>
  \<open>AuthService.logout\<close> ends the whole session: after it the record of the session is
  gone and every refresh token that was linked to it, not only the one presented, is refused.
\<close>

theorem service_logout_closes:
  assumes "redis_api R ok view slist zlist" and "e_redis E = R" and "wok ok w" and "jwt_lib_ok (t_jwt E)"
    and "0 < f_refreshTtlSeconds E" and "sub \<noteq> []" and "sid \<noteq> []" and "jti \<noteq> []"
    and "j \<noteq> []" and "j \<in> rsets (wview view w) (keySessionJtis sub sid)" and "fresh_at E t1 (w_now w)"
  shows "\<exists>w'. service_logout E (refresh_token E t0 sub sid jti) w = (Inr (), w') \<and>
    strs (wview view w') (keySession sub sid) = None \<and>
    (\<exists>m. fst (refresh_refresh E (refresh_token E t1 sub sid j) w') = Inl (unauthorized m))"
proof -
  let ?t = "refresh_token E t0 sub sid jti"
  have ne: "?t \<noteq> []" unfolding refresh_token_def by (rule jwt_token_nonempty [OF assms(4) refresh_payload_plain]) simp
  have "\<not> refresh_claims_missing (refresh_claims E t0 sub sid jti)"
    using assms(7, 8) by (simp add: refresh_claims_missing_def)
  then have p: "peekPayload E ?t True w = (Inr (Some (refresh_claims E t0 sub sid jti)), w)"
    using safeVerify_own [OF assms(4), of True t0 w] by (simp add: peekPayload_def peekRefresh_def catchM_def bindM_def retM_def)
  obtain w1 where r: "refresh_revoke E ?t w = (Inr (), w1)" "wok ok w1"
    "wview view w1 = v_consume E (w_now w) sub (Some sid) jti (wview view w)" "w_now w1 = w_now w"
    by (rule redis_api.revoke_token_effect [OF assms(1-4, 6-8, 5)])
  obtain w2 where c: "session_revoke E sub sid w1 = (Inr (), w2)" "wok ok w2"
    "wview view w2 = v_revoke sub sid (rsets (wview view w1) (keySessionJtis sub sid)) (wview view w1)" "w_now w2 = w_now w1"
    by (rule redis_api.revoke_effect [OF assms(1, 2) r(2)])
  have run: "service_logout E ?t w = (Inr (), w2)"
    using assms(6, 7) by (simp add: service_logout_def thenM_def bindM_def throwIfM_def retM_def ne catchM_def p r(1) onSessionOf_def Let_def
        bestEffortM_def c(1))
  have gone: "strs (wview view w2) (keySession sub sid) = None" by (simp add: c(3) v_revoke_def revoked_keys_def)
  have dead: "sget (wview view w2) (keyRefreshBlacklist j) = Some ''1'' \<or> sget (wview view w2) (refreshAllowKey j) = None"
  proof (cases "j = jti")
    case True
    then show ?thesis by (simp add: c(3) v_revoke_def r(3) v_consume_def Let_def sget_def rview_simps)
  next
    case False
    then have "j \<in> rsets (wview view w1) (keySessionJtis sub sid)"
      using assms(10) by (simp add: r(3) v_consume_def Let_def rview_simps keyRefreshBlacklist_def key_defs)
    then show ?thesis by (simp add: c(3) v_revoke_def sget_def revoked_keys_def)
  qed
  have "fresh_at E t1 (w_now w2)" using assms(11) c(4) r(4) by simp
  from redis_api.refresh_denied [OF assms(1, 2) c(2) assms(4) this assms(6, 7, 9) dead] run gone show ?thesis by blast
qed

theorem service_logout_closes_witness:
  "\<exists>w w'. service_logout fake_renv (refresh_token fake_renv 1000 ''u1'' ''s1'' ''j1'') w = (Inr (), w') \<and>
    (\<exists>m. fst (refresh_refresh fake_renv (refresh_token fake_renv 1000 ''u1'' ''s1'' ''j2'') w') = Inl (unauthorized m))"
proof -
  obtain w1 where l: "linkRefreshJti fake_renv ''u1'' ''s1'' ''j2'' fake_rworld = (Inr (), w1)" "wok fake_ok w1"
    "wview fake_view w1 = v_set (keyJtiIndex ''j2'') (''u1'' @ '':'' @ ''s1'') (Some (w_now fake_rworld + 1000 * e_sessionTtlSec fake_renv))
       (v_sadd (keySessionJtis ''u1'' ''s1'') ''j2'' (wview fake_view fake_rworld))" "w_now w1 = w_now fake_rworld"
    by (rule actsE [OF redis_api.acts_link [OF fr.redis_api_axioms fake_rworld_ok(2, 5)] fake_rworld_ok(1)])
  have "''j2'' \<in> rsets (wview fake_view w1) (keySessionJtis ''u1'' ''s1'')" by (simp add: l(3) rview_simps)
  moreover have "fresh_at fake_renv 1000 (w_now w1)" by (simp add: l(4) fresh_at_def fake_renv_def fake_rworld_def)
  ultimately show ?thesis
    using service_logout_closes [OF fr.redis_api_axioms fake_rworld_ok(2) l(2) fake_rworld_ok(3, 6), of "''u1''" "''s1''" "''j1''" "''j2''" 1000 1000]
    by blast
qed

end
