(* ===== verification/AccessProps.thy ===== *)
theory AccessProps
  imports Guards
begin

text \<open>
  The properties of the settings and of the guards: the path and the flags of the refresh cookie,
  and where the user of an admitted request comes from.
\<close>

section \<open>Paths\<close>

lemma collapse_length: "length (collapse_slashes s) \<le> length s"
  by (induction s rule: collapse_slashes.induct) auto

text \<open>A path without a double slash.\<close>

definition single_slashes :: "string \<Rightarrow> bool" where
  "single_slashes s \<longleftrightarrow> collapse_slashes s = s"

lemma single_simps [simp]:
  "single_slashes []" "single_slashes [a]"
  "single_slashes (a # b # s) \<longleftrightarrow> \<not> (a = CHR ''/'' \<and> b = CHR ''/'') \<and> single_slashes (b # s)"
  using collapse_length [of "b # s"] by (auto simp: single_slashes_def)

lemma single_append:
  "single_slashes p \<Longrightarrow> single_slashes s \<Longrightarrow> (p \<noteq> [] \<Longrightarrow> last p \<noteq> CHR ''/'') \<Longrightarrow> single_slashes (p @ s)"
proof (induction p)
  case (Cons a p)
  then show ?case by (cases p; cases s) auto
qed simp

lemma strip_last:
  assumes "strip_slashes s \<noteq> []"
  shows "last (strip_slashes s) \<noteq> CHR ''/''"
proof -
  let ?d = "dropWhile (\<lambda>c. c = CHR ''/'') (rev (dropWhile (\<lambda>c. c = CHR ''/'') s))"
  have "?d \<noteq> []" using assms unfolding strip_slashes_def by blast
  then have "hd ?d \<noteq> CHR ''/''" by (rule hd_dropWhile)
  then show ?thesis using \<open>?d \<noteq> []\<close> by (simp add: strip_slashes_def last_rev)
qed

lemma prefix_last: "sanitizePrefix v \<noteq> [] \<Longrightarrow> last (sanitizePrefix v) \<noteq> CHR ''/''"
  using strip_last by (auto simp: sanitizePrefix_def Let_def split: if_splits)

lemma prefix_hd: "sanitizePrefix v = [] \<or> hd (sanitizePrefix v) = CHR ''/''"
  by (simp add: sanitizePrefix_def Let_def)

text \<open>Prefixing the default path, unless the prefix looks like a part of it.\<close>

lemma apply_default:
  assumes "p = [] \<or> hd p = CHR ''/''" and "p \<noteq> [] \<Longrightarrow> last p \<noteq> CHR ''/''" and "single_slashes p" and "p \<notin> {''/auth'', ''/auth/refresh''}"
  shows "applyPrefixIfNeeded ''/auth/refresh'' p = p @ ''/auth/refresh''"
proof (cases "p = []")
  case True
  then show ?thesis by (simp add: applyPrefixIfNeeded_def ensureLeadingSlash_def)
next
  case False
  have "single_slashes (p @ ''/auth/refresh'')"
    by (rule single_append [OF assms(3) _ assms(2)]) simp_all
  moreover have "''/auth/refresh'' \<noteq> p" by (rule not_sym) (use assms(4) in simp)
  moreover have "\<not> starts_with ''/auth/refresh'' (p @ ''/'')" "\<not> starts_with ''/auth/refresh'' (p @ ''?'')"
    using False assms(4) by (auto simp: starts_with_iff append_eq_Cons_conv Cons_eq_append_conv)
  ultimately show ?thesis
    using False
    by (simp add: applyPrefixIfNeeded_def ensureLeadingSlash_def Let_def single_slashes_def)
qed

section \<open>The refresh cookie\<close>

text \<open>
  C24: the settings of the refresh cookie. With the default cookie path the cookie is sent to
  the refresh route and nowhere else: its path is the global prefix followed by
  \<open>/auth/refresh\<close>, whatever slashes or blanks surround the prefix. The cookie is never
  readable by scripts, and a cookie that other sites may send (\<open>SameSite=None\<close>) is always
  \<open>Secure\<close> in production.
\<close>

theorem cookie_settings:
  assumes "authConfig env = Some A" and "env ''COOKIE_REFRESH_PATH'' = None"
    and "p = sanitizePrefix (Some (nullish (env ''GLOBAL_PREFIX'') ''api''))"
    and "single_slashes p" and "p \<notin> {''/auth'', ''/auth/refresh''}"
  shows "co_path (buildCookieOptions (as_cookie A) ''refresh'') = p @ ''/auth/refresh'' \<and>
    co_httpOnly (buildCookieOptions (as_cookie A) ''refresh'') \<and>
    (co_sameSite (buildCookieOptions (as_cookie A) ''refresh'') = ''none'' \<and> js_lower (nullish (env ''NODE_ENV'') ''development'') = ''production''
      \<longrightarrow> co_secure (buildCookieOptions (as_cookie A) ''refresh''))"
proof -
  have "applyPrefixIfNeeded ''/auth/refresh'' p = p @ ''/auth/refresh''"
    using assms(3-5) prefix_hd prefix_last by (intro apply_default) auto
  note path = this [unfolded assms(3)]
  obtain raw where raw: "authEnvSchema env = Some raw" using assms(1) by (cases "authEnvSchema env") (simp_all add: authConfig_def)
  then have "ck_refreshPath (as_cookie raw) = ''/auth/refresh''"
    using assms(2) by (auto simp: authEnvSchema_def Let_def nullish_def simp del: truthy_def split: if_splits)
  then show ?thesis
    using assms(1) path by (auto simp: authConfig_def raw Let_def buildCookieOptions_def assms(3))
qed

definition demo_env :: "string \<Rightarrow> string option" where
  "demo_env k = map_of [(''ACCESS_JWT_SECRET'', ''a''), (''REFRESH_JWT_SECRET'', ''r''), (''NODE_ENV'', ''Production''), (''GLOBAL_PREFIX'', '' /v1/ '')] k"

theorem cookie_settings_witness:
  "\<exists>A. authConfig demo_env = Some A \<and> co_path (buildCookieOptions (as_cookie A) ''refresh'') = ''/v1/auth/refresh'' \<and>
     co_secure (buildCookieOptions (as_cookie A) ''refresh'')"
proof -
  have "authConfig demo_env \<noteq> None" "ck_sameSite (as_cookie (the (authConfig demo_env))) = ''none''" by code_simp+
  then obtain A where A: "authConfig demo_env = Some A" and "ck_sameSite (as_cookie A) = ''none''" by auto
  then have n: "co_sameSite (buildCookieOptions (as_cookie A) ''refresh'') = ''none''" by (simp add: buildCookieOptions_def)
  have p: "sanitizePrefix (Some (nullish (demo_env ''GLOBAL_PREFIX'') ''api'')) = ''/v1''" "js_lower (nullish (demo_env ''NODE_ENV'') ''development'') = ''production''"
    by code_simp+
  have d: "demo_env ''COOKIE_REFRESH_PATH'' = None" by code_simp
  from cookie_settings [OF A d p(1) [symmetric]] A n p(2) show ?thesis by auto
qed

section \<open>Admitted users\<close>

text \<open>
  C25: nobody is admitted without a verified token, mock users apart. The user the hybrid
  guard attaches is made of the claims of a bearer token that verifies, or comes from the mock
  header, which is read only when no bearer token was given and mock users are enabled; in
  production, without the flag, they are not. The user of the JWT guard is always made of
  verified claims.
\<close>

theorem hybrid_user_genuine:
  assumes "hybrid_canActivate cfg env J secret now isPublic req = Inr (Some u)"
  shows "((\<exists>h s tok claims. gq_authorization req = Some (HStr h) \<and> split_scheme h = (s, Some tok) \<and> js_lower s = ''bearer'' \<and>
        j_verify J now tok secret default_verify = Inr claims \<and> js_truthy (jfield ''sub'' claims) \<and> u = user_of_claims claims) \<or>
      isMockEnabled cfg env \<and> authenticateWithMockHeader req = Inr u \<and> tryAuthenticateWithBearer J secret now req = Inr None) \<and>
    (cfg ''MOCK_AUTH_ENABLED'' = None \<and> cfg ''NODE_ENV'' = Some ''production'' \<longrightarrow> \<not> isMockEnabled cfg env) \<and>
    (\<forall>v. jwt_canActivate J secret now req = Inr v \<longrightarrow>
      (\<exists>tok claims. j_verify J now tok secret default_verify = Inr claims \<and> js_truthy (jfield ''sub'' claims) \<and> v = user_of_claims claims))"
proof (intro conjI allI impI)
  have bearer: "\<exists>h s tok claims. gq_authorization req = Some (HStr h) \<and> split_scheme h = (s, Some tok) \<and> js_lower s = ''bearer'' \<and>
        j_verify J now tok secret default_verify = Inr claims \<and> js_truthy (jfield ''sub'' claims) \<and> v = user_of_claims claims"
    if "tryAuthenticateWithBearer J secret now req = Inr (Some v)" for v
    using that by (auto simp: tryAuthenticateWithBearer_def truthy_def split: option.splits header_value.splits if_splits prod.splits sum.splits)
  show "(\<exists>h s tok claims. gq_authorization req = Some (HStr h) \<and> split_scheme h = (s, Some tok) \<and> js_lower s = ''bearer'' \<and>
        j_verify J now tok secret default_verify = Inr claims \<and> js_truthy (jfield ''sub'' claims) \<and> u = user_of_claims claims) \<or>
      isMockEnabled cfg env \<and> authenticateWithMockHeader req = Inr u \<and> tryAuthenticateWithBearer J secret now req = Inr None"
    using assms bearer by (auto simp: hybrid_canActivate_def split: if_splits sum.splits option.splits)
  fix v
  assume "jwt_canActivate J secret now req = Inr v"
  then show "\<exists>tok claims. j_verify J now tok secret default_verify = Inr claims \<and> js_truthy (jfield ''sub'' claims) \<and> v = user_of_claims claims"
    by (auto simp: jwt_canActivate_def verifyToken_def split: sum.splits option.splits if_splits)
qed (auto simp: isMockEnabled_def)

theorem hybrid_user_genuine_witness:
  "\<not> isMockEnabled (\<lambda>k. if k = ''NODE_ENV'' then Some ''production'' else None) (\<lambda>k. None) \<and>
   (\<exists>u. hybrid_canActivate (\<lambda>k. Some ''1'') (\<lambda>k. None) clear_jwt ''a'' 0 False
     \<lparr>gq_authorization = None, gq_mock = Some (HStr ''{\"id\":\"u1\"}''), gq_cookie = None, gq_path = ''/x''\<rparr> = Inr (Some u) \<and> cu_id u = JStr ''u1'')"
proof -
  let ?req = "\<lparr>gq_authorization = None, gq_mock = Some (HStr ''{\"id\":\"u1\"}''), gq_cookie = None, gq_path = ''/x''\<rparr>"
  have "json_parse ''{\"id\":\"u1\"}'' = Some (JObj [(''id'', JStr ''u1'')])" by code_simp
  moreover have "js_lower ''1'' = ''1''" by code_simp
  ultimately have h: "hybrid_canActivate cfg env clear_jwt ''a'' 0 False ?req = Inr (Some \<lparr>cu_id = JStr ''u1'', cu_roles = [], cu_name = None\<rparr>)"
    if "isMockEnabled cfg env" for cfg env
    using that by (simp add: hybrid_canActivate_def isPublicPath_def tryAuthenticateWithBearer_def authenticateWithMockHeader_def truthy_opt_def truthy_def
        mock_user_def js_array_def)
  have m: "isMockEnabled (\<lambda>k. Some ''1'') (\<lambda>k. None)" using \<open>js_lower ''1'' = ''1''\<close> by (simp add: isMockEnabled_def)
  let ?p = "\<lambda>k. if k = ''NODE_ENV'' then Some ''production'' else (None :: string option)"
  have "?p ''MOCK_AUTH_ENABLED'' = None \<and> ?p ''NODE_ENV'' = Some ''production''" by simp
  moreover have "isMockEnabled ?p (\<lambda>k. None) \<Longrightarrow> False"
    using hybrid_user_genuine [OF h [of ?p "\<lambda>k. None"]] by simp
  ultimately show ?thesis using h [OF m] by auto
qed

end
