(* ===== verification/UploadRedis.thy ===== *)
theory UploadRedis
  imports UploadStore KvRedis JwtLib Session
begin

text \<open>
  The Redis implementation of the upload state store, \<open>core/upload/upload.state.redis.ts\<close>, over
  a client of \<open>KvRedis\<close>: a status is a JSON text under \<open>upload:<id>\<close>, a lock a text under
  \<open>upload:lock:<id>\<close>. The store is shown to keep the contract \<open>upload_store\<close> over every client
  that implements the Redis commands, so what is proved of the upload service over that contract
  holds with Redis. A record that is JSON but not a status, which the store never writes, makes
  an operation throw.
\<close>

section \<open>Records\<close>

fun state_of_str :: "string \<Rightarrow> UploadState option" where
  "state_of_str x =
     (if x = ''init'' then Some Init else if x = ''receiving'' then Some Receiving
      else if x = ''ready-to-upload'' then Some ReadyToUpload else if x = ''uploading'' then Some Uploading
      else if x = ''uploaded'' then Some Uploaded else if x = ''error'' then Some Error else None)"

text \<open>\<open>JSON.stringify\<close> of a status.\<close>

definition status_json :: "UploadStatus \<Rightarrow> json" where
  "status_json s = JObj
     ([(''uploadId'', JStr (us_uploadId s)), (''userId'', JStr (us_userId s)), (''filename'', JStr (us_filename s)),
       (''mime'', JStr (us_mime s)), (''size'', JNum (us_size s)), (''chunkSize'', JNum (us_chunkSize s)),
       (''totalChunks'', JNum (us_totalChunks s)), (''receivedBytes'', JNum (us_receivedBytes s)),
       (''receivedIndexes'', JArr (map JNum (us_receivedIndexes s))), (''state'', JStr (state_str (us_state s))),
       (''createdAt'', JNum (us_createdAt s)), (''expiresAt'', JNum (us_expiresAt s)), (''version'', JNum (us_version s)),
       (''tempPath'', JStr (us_tempPath s))] @ opt_member ''remoteRelativePath'' (us_remoteRelativePath s))"

fun as_str :: "json option \<Rightarrow> string option" where
  "as_str (Some (JStr s)) = Some s"
| "as_str _ = None"

fun as_num :: "json option \<Rightarrow> int option" where
  "as_num (Some (JNum n)) = Some n"
| "as_num _ = None"

text \<open>\<open>receivedIndexes ?? []\<close>, \<open>receivedBytes ?? 0\<close> and \<open>version ?? 1\<close>.\<close>

fun as_nums :: "json option \<Rightarrow> int list option" where
  "as_nums None = Some []"
| "as_nums (Some JNull) = Some []"
| "as_nums (Some (JArr xs)) = (if list_all (\<lambda>x. as_num (Some x) \<noteq> None) xs then Some (map (\<lambda>x. the (as_num (Some x))) xs) else None)"
| "as_nums _ = None"

definition num_or :: "int \<Rightarrow> json option \<Rightarrow> int option" where
  "num_or d v = (if v = None \<or> v = Some JNull then Some d else as_num v)"

text \<open>The status a JSON value stands for, if it has its members.\<close>

definition status_of_json :: "json \<Rightarrow> UploadStatus option" where
  "status_of_json j =
     (case (as_str (jfield ''uploadId'' j), as_str (jfield ''userId'' j), as_str (jfield ''filename'' j), as_str (jfield ''mime'' j),
            as_num (jfield ''size'' j), as_num (jfield ''chunkSize'' j), as_num (jfield ''totalChunks'' j)) of
        (Some i, Some u, Some f, Some m, Some sz, Some cs, Some tc) \<Rightarrow>
          (case (num_or 0 (jfield ''receivedBytes'' j), as_nums (jfield ''receivedIndexes'' j), as_str (jfield ''state'' j),
                 as_num (jfield ''createdAt'' j), as_num (jfield ''expiresAt'' j), num_or 1 (jfield ''version'' j), as_str (jfield ''tempPath'' j)) of
             (Some rb, Some ri, Some st, Some ca, Some ea, Some v, Some tp) \<Rightarrow>
               map_option (\<lambda>st. \<lparr>us_uploadId = i, us_userId = u, us_filename = f, us_mime = m, us_size = sz, us_chunkSize = cs,
                 us_totalChunks = tc, us_receivedBytes = rb, us_receivedIndexes = ri, us_state = st, us_createdAt = ca,
                 us_expiresAt = ea, us_version = v, us_tempPath = tp, us_remoteRelativePath = as_str (jfield ''remoteRelativePath'' j)\<rparr>)
                 (state_of_str st)
           | _ \<Rightarrow> None)
      | _ \<Rightarrow> None)"

lemma state_round [simp]: "state_of_str (state_str s) = Some s"
  by (cases s) simp_all

lemma nums_round [simp]: "as_nums (Some (JArr (map JNum xs))) = Some xs"
  by (simp add: list_all_iff comp_def)

lemma status_json_fields [simp]:
  "jfield ''uploadId'' (status_json s) = Some (JStr (us_uploadId s))" "jfield ''userId'' (status_json s) = Some (JStr (us_userId s))"
  "jfield ''filename'' (status_json s) = Some (JStr (us_filename s))" "jfield ''mime'' (status_json s) = Some (JStr (us_mime s))"
  "jfield ''size'' (status_json s) = Some (JNum (us_size s))" "jfield ''chunkSize'' (status_json s) = Some (JNum (us_chunkSize s))"
  "jfield ''totalChunks'' (status_json s) = Some (JNum (us_totalChunks s))" "jfield ''receivedBytes'' (status_json s) = Some (JNum (us_receivedBytes s))"
  "jfield ''receivedIndexes'' (status_json s) = Some (JArr (map JNum (us_receivedIndexes s)))" "jfield ''state'' (status_json s) = Some (JStr (state_str (us_state s)))"
  "jfield ''createdAt'' (status_json s) = Some (JNum (us_createdAt s))" "jfield ''expiresAt'' (status_json s) = Some (JNum (us_expiresAt s))"
  "jfield ''version'' (status_json s) = Some (JNum (us_version s))" "jfield ''tempPath'' (status_json s) = Some (JStr (us_tempPath s))"
  "jfield ''remoteRelativePath'' (status_json s) = map_option JStr (us_remoteRelativePath s)"
  by (simp_all add: status_json_def opt_member_def split: option.split)

lemma status_round [simp]: "status_of_json (status_json s) = Some s"
  by (cases s; cases "us_remoteRelativePath s") (simp_all add: status_of_json_def num_or_def del: state_of_str.simps as_nums.simps)

lemma status_json_plain [simp]: "json_plain (status_json s)"
  by (auto simp: status_json_def opt_member_def split: option.splits)

lemma status_text [simp]: "json_parse (json_print (status_json s)) = Some (status_json s)" "json_print (status_json s) \<noteq> []"
  using json_print_length [of "status_json s"] by (auto simp: json_roundtrip)

section \<open>Operations\<close>

definition keyOf :: "string \<Rightarrow> string" where
  "keyOf i = ''upload:'' @ i"

definition lockKeyOf :: "string \<Rightarrow> string" where
  "lockKeyOf i = ''upload:lock:'' @ i"

text \<open>The members of a \<open>UploadStatus\<close> with a default are always set.\<close>

definition rs_create :: "'r kv_ops \<Rightarrow> int \<Rightarrow> UploadStatus \<Rightarrow> int \<Rightarrow> ('r, unit) eff" where
  "rs_create K now status ttlSec =
     thenM (throwIfM (us_uploadId status = []) (JsError ''create(): uploadId is required''))
     (thenM (throwIfM (us_userId status = []) (JsError ''create(): userId is required''))
     (let clone = status\<lparr>us_receivedIndexes := ensureSortedUnique (us_receivedIndexes status)\<rparr>
      in bindM (k_set_nx K now (keyOf (us_uploadId clone)) (json_print (status_json clone)) (1000 * ttlSec)) (\<lambda>ok.
         throwIfM (\<not> ok) (JsError ''create(): key already exists''))))"

definition rs_ill_shaped :: exn where
  "rs_ill_shaped = JsError ''TypeError''"

definition rs_get :: "'r kv_ops \<Rightarrow> int \<Rightarrow> string \<Rightarrow> ('r, UploadStatus option) eff" where
  "rs_get K now uploadId =
     bindM (k_get K now (keyOf uploadId)) (\<lambda>raw.
     if \<not> truthy raw then retM None
     else (case json_parse (the raw) of
             None \<Rightarrow> retM None
           | Some obj \<Rightarrow>
               if \<not> js_truthy (jfield ''uploadId'' obj) \<or> \<not> js_truthy (jfield ''userId'' obj) then retM None
               else (case status_of_json obj of
                       Some s \<Rightarrow> retM (Some (s\<lparr>us_receivedIndexes := ensureSortedUnique (us_receivedIndexes s)\<rparr>))
                     | None \<Rightarrow> throwM rs_ill_shaped)))"

text \<open>The spread of the update over the status, then the members with a rule of their own.\<close>

definition mergeStatus :: "UploadStatus \<Rightarrow> UploadPatch \<Rightarrow> UploadStatus" where
  "mergeStatus cur p =
     (spread cur p)\<lparr>
       us_receivedIndexes := (case p_receivedIndexes p of
           Some xs \<Rightarrow> ensureSortedUnique (us_receivedIndexes cur @ xs) | None \<Rightarrow> ensureSortedUnique (us_receivedIndexes cur)),
       us_receivedBytes := (case p_receivedBytes p of Some n \<Rightarrow> max (us_receivedBytes cur) n | None \<Rightarrow> us_receivedBytes cur),
       us_expiresAt := orElse (p_expiresAt p) (us_expiresAt cur),
       us_userId := orElse (p_userId p) (us_userId cur),
       us_createdAt := us_createdAt cur,
       us_state := orElse (p_state p) (us_state cur)\<rparr>"

text \<open>
  The requests of a handler run one after another, so no other client writes between \<open>WATCH\<close>
  and \<open>EXEC\<close>, which then commits; the commands of several calls interleave in \<open>UploadCas\<close>.
\<close>

definition rs_patchCAS :: "'r kv_ops \<Rightarrow> int \<Rightarrow> int \<Rightarrow> string \<Rightarrow> int \<Rightarrow> UploadPatch \<Rightarrow> ('r, bool) eff" where
  "rs_patchCAS K defaultTtlSeconds now uploadId expectedVersion p =
     (let key = keyOf uploadId in
      bindM (k_get K now key) (\<lambda>raw.
      if \<not> truthy raw then retM False
      else (case json_parse (the raw) of
              None \<Rightarrow> retM False
            | Some obj \<Rightarrow>
                (case status_of_json obj of
                   None \<Rightarrow> throwM rs_ill_shaped
                 | Some cur \<Rightarrow>
                     if us_version cur \<noteq> expectedVersion then retM False
                     else (let merged = (mergeStatus cur p)\<lparr>us_version := us_version cur + 1\<rparr> in
                           bindM (k_ttl K now key) (\<lambda>ttl.
                           let ex = (if ttl > 0 then ttl else defaultTtlSeconds) in
                           thenM (k_set K now key (json_print (status_json merged)) (1000 * ex)) (retM True)))))))"

text \<open>
  \<open>withLock\<close>: the lock is tried, and tried again every 50 ms until the deadline. \<open>tries\<close> bounds
  the attempts, \<open>t\<close> is the time of the current one, and the result is \<open>None\<close> when the bound is
  reached first.
\<close>

definition lock_failed :: exn where
  "lock_failed = JsError ''withLock(): failed to acquire lock''"

fun lock_spin :: "'r kv_ops \<Rightarrow> string \<Rightarrow> string \<Rightarrow> int \<Rightarrow> int \<Rightarrow> nat \<Rightarrow> int \<Rightarrow> ('r, (string \<times> int) option) eff" where
  "lock_spin K key lockId ttlMs deadline 0 t = retM None"
| "lock_spin K key lockId ttlMs deadline (Suc tries) t =
     bindM (k_set_nx K t key lockId ttlMs) (\<lambda>ok.
     if ok then retM (Some (lockId, t))
     else if t > deadline then throwM lock_failed
     else lock_spin K key lockId ttlMs deadline tries (t + 50))"

definition rs_lock :: "'r kv_ops \<Rightarrow> (int \<Rightarrow> string \<Rightarrow> string) \<Rightarrow> nat \<Rightarrow> int \<Rightarrow> string \<Rightarrow> int \<Rightarrow> ('r, (string \<times> int) option) eff" where
  "rs_lock K tok tries now uploadId ttlMs =
     lock_spin K (lockKeyOf uploadId) (tok now uploadId) ttlMs (now + max ttlMs 1000) tries now"

text \<open>
  A handler of the upload service is one step of its world, at one time: that of the round in which
  it gets the lock or gives up. This is that round; \<open>lock_spin_round\<close> says that the loop ends
  with one.
\<close>

definition rs_acquire :: "'r kv_ops \<Rightarrow> (int \<Rightarrow> string \<Rightarrow> string) \<Rightarrow> int \<Rightarrow> string \<Rightarrow> int \<Rightarrow> ('r, string) eff" where
  "rs_acquire K tok now uploadId ttlMs =
     bindM (k_set_nx K now (lockKeyOf uploadId) (tok now uploadId) ttlMs) (\<lambda>ok.
     if ok then retM (tok now uploadId) else throwM lock_failed)"

definition rs_release :: "'r kv_ops \<Rightarrow> int \<Rightarrow> string \<Rightarrow> string \<Rightarrow> ('r, unit) eff" where
  "rs_release K now uploadId lockId =
     catchM (bindM (k_get K now (lockKeyOf uploadId)) (\<lambda>val.
        if val = Some lockId then k_del K now (lockKeyOf uploadId) else retM ()))
       (\<lambda>_. retM ())"

definition rs_touch :: "'r kv_ops \<Rightarrow> int \<Rightarrow> string \<Rightarrow> int \<Rightarrow> ('r, unit) eff" where
  "rs_touch K now uploadId ttlSec =
     bindM (k_expire K now (keyOf uploadId) (max 1 ttlSec)) (\<lambda>ok. throwIfM (ok \<noteq> 1) (JsError ''touch(): key not found''))"

definition rs_delete :: "'r kv_ops \<Rightarrow> int \<Rightarrow> string \<Rightarrow> ('r, unit) eff" where
  "rs_delete K now uploadId = k_del K now (keyOf uploadId)"

definition redis_store :: "'r kv_ops \<Rightarrow> int \<Rightarrow> (int \<Rightarrow> string \<Rightarrow> string) \<Rightarrow> 'r store_ops" where
  "redis_store K defaultTtlSeconds tok =
     \<lparr>st_create = rs_create K, st_get = rs_get K, st_patchCAS = Some (rs_patchCAS K defaultTtlSeconds),
      st_acquire = Some (rs_acquire K tok), st_release = rs_release K, st_touch = Some (rs_touch K), st_delete = rs_delete K\<rparr>"

section \<open>The contract\<close>

text \<open>What the keys of the store hold, and what they mean.\<close>

definition key_value_ok :: "string \<Rightarrow> rval \<Rightarrow> bool" where
  "key_value_ok i v \<longleftrightarrow>
     (if plain_upload i then \<exists>s. v = RStr (json_print (status_json s)) \<and> storable s \<and> us_uploadId s = i
      else \<exists>x. v = RStr x \<and> x \<noteq> [] \<and> json_parse x = None)"

definition keys_ok :: "kv_map \<Rightarrow> bool" where
  "keys_ok V \<longleftrightarrow> (\<forall>i v e. V (keyOf i) = Some (v, e) \<longrightarrow> key_value_ok i v)"

definition status_at :: "kv_map \<Rightarrow> string \<Rightarrow> UploadStatus option" where
  "status_at V i = (case V (keyOf i) of Some (RStr x, e) \<Rightarrow> (case json_parse x of Some j \<Rightarrow> status_of_json j | None \<Rightarrow> None) | _ \<Rightarrow> None)"

definition lock_at :: "kv_map \<Rightarrow> string \<Rightarrow> string option" where
  "lock_at V i = (case V (lockKeyOf i) of Some (RStr x, e) \<Rightarrow> Some x | _ \<Rightarrow> None)"

lemma keyOf_inj [simp]: "keyOf i = keyOf j \<longleftrightarrow> i = j" "lockKeyOf i = lockKeyOf j \<longleftrightarrow> i = j"
  by (simp_all add: keyOf_def lockKeyOf_def)

lemma lockKey: "lockKeyOf i = keyOf (''lock:'' @ i)" "\<not> plain_upload (''lock:'' @ i)"
  by (simp_all add: keyOf_def lockKeyOf_def plain_upload_def)

lemma plain_not_lock: "plain_upload i \<Longrightarrow> keyOf i \<noteq> lockKeyOf j" "plain_upload i \<Longrightarrow> lockKeyOf j \<noteq> keyOf i"
  using lockKey by auto

lemma status_key:
  assumes "keys_ok V" and "status_at V i = Some s"
  obtains e where "V (keyOf i) = Some (RStr (json_print (status_json s)), e)" and "storable s" and "us_uploadId s = i" and "plain_upload i"
proof -
  from assms(2) obtain x e j where x: "V (keyOf i) = Some (RStr x, e)" "json_parse x = Some j" "status_of_json j = Some s"
    by (auto simp: status_at_def split: option.splits prod.splits rval.splits)
  with assms(1) have "key_value_ok i (RStr x)" by (simp add: keys_ok_def)
  with x that show thesis by (auto simp: key_value_ok_def split: if_splits)
qed

lemma status_none:
  assumes "keys_ok V" and "status_at V i = None"
  shows "V (keyOf i) = None \<or> (\<exists>x e. V (keyOf i) = Some (RStr x, e) \<and> x \<noteq> [] \<and> json_parse x = None \<and> \<not> plain_upload i)"
proof (cases "V (keyOf i)")
  case (Some p)
  obtain v e where p: "p = (v, e)" by (cases p)
  from assms(1) Some p have "key_value_ok i v" by (simp add: keys_ok_def)
  with assms(2) Some p show ?thesis by (auto simp: key_value_ok_def status_at_def split: if_splits)
qed simp

lemma lock_none:
  assumes "keys_ok V" and "lock_at V i = None"
  shows "V (lockKeyOf i) = None"
proof (cases "V (lockKeyOf i)")
  case (Some p)
  obtain v e where p: "p = (v, e)" by (cases p)
  from assms(1) Some p have "key_value_ok (''lock:'' @ i) v" by (simp add: keys_ok_def lockKey(1))
  with assms(2) Some p lockKey(2) show ?thesis by (auto simp: key_value_ok_def lock_at_def)
qed simp

lemma at_some:
  "status_at V i \<noteq> None \<Longrightarrow> V (keyOf i) \<noteq> None" "lock_at V i \<noteq> None \<Longrightarrow> V (lockKeyOf i) \<noteq> None"
  "lock_at V i = Some x \<Longrightarrow> \<exists>e. V (lockKeyOf i) = Some (RStr x, e)"
  by (auto simp: status_at_def lock_at_def split: option.splits prod.splits rval.splits)

lemma mergeStatus_merge: "(mergeStatus cur p)\<lparr>us_version := us_version cur + 1\<rparr> = merge cur p"
  by (intro UploadStatus.equality) (auto simp: mergeStatus_def merge_def spread_def orElse_def split: option.split)

lemma keys_ok_upd: "keys_ok V \<Longrightarrow> (\<And>v e. x = Some (v, e) \<Longrightarrow> key_value_ok i v) \<Longrightarrow> keys_ok (V(keyOf i := x))"
  by (auto simp: keys_ok_def)

lemma at_upd:
  "status_at (V(keyOf i := x)) = (status_at V)(i := (case x of Some (RStr t, e) \<Rightarrow> (case json_parse t of Some j \<Rightarrow> status_of_json j | None \<Rightarrow> None) | _ \<Rightarrow> None))"
  "plain_upload i \<Longrightarrow> lock_at (V(keyOf i := x)) = lock_at V"
  "lock_at (V(lockKeyOf i := y)) = (lock_at V)(i := (case y of Some (RStr t, e) \<Rightarrow> Some t | _ \<Rightarrow> None))"
  by (rule ext, simp add: status_at_def lock_at_def plain_not_lock)+

definition red_ok :: "(int \<Rightarrow> 'r \<Rightarrow> bool) \<Rightarrow> (int \<Rightarrow> 'r \<Rightarrow> kv_map) \<Rightarrow> int \<Rightarrow> 'r \<Rightarrow> bool" where
  "red_ok ok view now r \<longleftrightarrow> ok now r \<and> keys_ok (view now r)"

definition red_view :: "(int \<Rightarrow> 'r \<Rightarrow> kv_map) \<Rightarrow> int \<Rightarrow> 'r \<Rightarrow> string \<Rightarrow> UploadStatus option" where
  "red_view view now r = status_at (view now r)"

definition red_held :: "(int \<Rightarrow> 'r \<Rightarrow> kv_map) \<Rightarrow> int \<Rightarrow> 'r \<Rightarrow> string \<Rightarrow> string option" where
  "red_held view now r = lock_at (view now r)"

lemma live_part: "keys_ok V \<Longrightarrow> keys_ok (live now V)" "status_at (live now V) \<subseteq>\<^sub>m status_at V"
  by (auto simp: keys_ok_def status_at_def map_le_def live_def split: option.splits prod.splits if_splits)

text \<open>A client of \<open>kv_redis\<close>, with the settings of the store.\<close>

locale redis_upload = kv_redis K ok view
  for K :: "'r kv_ops" and ok view +
  fixes defaultTtlSeconds :: int and tok :: "int \<Rightarrow> string \<Rightarrow> string"
  assumes ttl: "0 < defaultTtlSeconds"
    and tok: "tok now i \<noteq> []" "json_parse (tok now i) = None"
begin

abbreviation rok :: "int \<Rightarrow> 'r \<Rightarrow> bool" where
  "rok \<equiv> red_ok ok view"

abbreviation rview :: "int \<Rightarrow> 'r \<Rightarrow> string \<Rightarrow> UploadStatus option" where
  "rview \<equiv> red_view view"

abbreviation rheld :: "int \<Rightarrow> 'r \<Rightarrow> string \<Rightarrow> string option" where
  "rheld \<equiv> red_held view"

lemma run: "implements ok view now c spec \<Longrightarrow> ok now r \<Longrightarrow>
    \<exists>r'. c r = (fst (spec (view now r)), r') \<and> ok now r' \<and> view now r' = snd (spec (view now r))"
  by (simp add: implements_def)

lemma stepI:
  assumes "\<exists>r'. c r = (Inr x, r') \<and> ok now r' \<and> view now r' = V" and "keys_ok V" and "status_at V = W" and "lock_at V = H"
  shows "store_step rok rview rheld now c r x W H"
  using assms by (auto simp: store_step_def red_ok_def red_view_def red_held_def)

lemma create_step:
  assumes r: "rok now r" and s: "storable s" and t: "0 < t" and n: "rview now r (us_uploadId s) = None"
  shows "store_step rok rview rheld now (rs_create K now s t) r () ((rview now r)(us_uploadId s \<mapsto> s)) (rheld now r)"
proof -
  let ?V = "view now r" and ?i = "us_uploadId s"
  have k: "ok now r" "keys_ok ?V" using r by (simp_all add: red_ok_def)
  have p: "plain_upload ?i" "?i \<noteq> []" "us_userId s \<noteq> []" "ensureSortedUnique (us_receivedIndexes s) = us_receivedIndexes s"
    using s by (auto simp: storable_def plain_upload_def ensureSortedUnique_id)
  have free: "?V (keyOf ?i) = None" using status_none [OF k(2)] n p(1) by (auto simp: red_view_def)
  obtain r' where x: "k_set_nx K now (keyOf ?i) (json_print (status_json s)) (1000 * t) r = (Inr True, r')" "ok now r'"
    "view now r' = ?V(keyOf ?i \<mapsto> (RStr (json_print (status_json s)), Some (now + 1000 * t)))"
    using run [OF kv_set_nx [of now "keyOf ?i" "json_print (status_json s)" "1000 * t"] k(1)] t free by (auto simp: c_set_nx_def)
  show ?thesis
  proof (rule stepI)
    show "\<exists>r'. rs_create K now s t r = (Inr (), r') \<and> ok now r' \<and>
        view now r' = ?V(keyOf ?i \<mapsto> (RStr (json_print (status_json s)), Some (now + 1000 * t)))"
      using x p by (simp add: rs_create_def exec Let_def)
    show "keys_ok (?V(keyOf ?i \<mapsto> (RStr (json_print (status_json s)), Some (now + 1000 * t))))"
      using k(2) s p(1) by (intro keys_ok_upd) (auto simp: key_value_ok_def)
  qed (simp_all add: at_upd p(1) red_view_def red_held_def)
qed

lemma create_taken:
  assumes r: "rok now r" and s: "storable s" and t: "0 < t" and n: "rview now r (us_uploadId s) \<noteq> None"
  shows "\<exists>e. fst (rs_create K now s t r) = Inl e"
proof -
  let ?V = "view now r" and ?i = "us_uploadId s"
  have k: "ok now r" "keys_ok ?V" using r by (simp_all add: red_ok_def)
  have p: "?i \<noteq> []" "us_userId s \<noteq> []" "ensureSortedUnique (us_receivedIndexes s) = us_receivedIndexes s"
    using s by (auto simp: storable_def plain_upload_def ensureSortedUnique_id)
  have "?V (keyOf ?i) \<noteq> None" using n at_some(1) by (simp add: red_view_def)
  then obtain r' where "k_set_nx K now (keyOf ?i) (json_print (status_json s)) (1000 * t) r = (Inr False, r')"
    using run [OF kv_set_nx [of now "keyOf ?i" "json_print (status_json s)" "1000 * t"] k(1)] t by (auto simp: c_set_nx_def)
  then show ?thesis using p by (simp add: rs_create_def exec Let_def)
qed

lemma get_step: "rok now r \<Longrightarrow> store_step rok rview rheld now (rs_get K now i) r (rview now r i) (rview now r) (rheld now r)"
proof (rule stepI)
  assume r: "rok now r"
  then have k: "ok now r" "keys_ok (view now r)" by (simp_all add: red_ok_def)
  note g = run [OF kv_get [of now "keyOf i"] k(1)]
  show "\<exists>r'. rs_get K now i r = (Inr (rview now r i), r') \<and> ok now r' \<and> view now r' = view now r"
  proof (cases "rview now r i")
    case None
    with status_none [OF k(2), of i] g show ?thesis
      by (auto simp: red_view_def rs_get_def c_get_def exec truthy_def)
  next
    case (Some s)
    then obtain e where s: "view now r (keyOf i) = Some (RStr (json_print (status_json s)), e)" "storable s"
      using status_key [OF k(2)] unfolding red_view_def by metis
    then have "us_uploadId s \<noteq> []" "us_userId s \<noteq> []" "ensureSortedUnique (us_receivedIndexes s) = us_receivedIndexes s"
      by (auto simp: storable_def plain_upload_def ensureSortedUnique_id)
    with s g Some show ?thesis by (auto simp: rs_get_def c_get_def exec truthy_def)
  qed
qed (simp_all add: red_ok_def red_view_def red_held_def)

lemma patch_step:
  assumes r: "rok now r" and u: "orElse (p_userId p) ''u'' \<noteq> []"
  shows "store_step rok rview rheld now (rs_patchCAS K defaultTtlSeconds now i v p) r (cas_result i v (rview now r))
    (cas_view i v p (rview now r)) (rheld now r)"
proof -
  let ?V = "view now r"
  have k: "ok now r" "keys_ok ?V" using r by (simp_all add: red_ok_def)
  obtain r1 where g: "k_get K now (keyOf i) r = (fst (c_get (keyOf i) ?V), r1)" "ok now r1" "view now r1 = snd (c_get (keyOf i) ?V)"
    using run [OF kv_get [of now "keyOf i"] k(1)] by blast
  show ?thesis
  proof (cases "rview now r i")
    case None
    have "\<exists>r'. rs_patchCAS K defaultTtlSeconds now i v p r = (Inr False, r') \<and> ok now r' \<and> view now r' = ?V"
      using status_none [OF k(2), of i] None g by (auto simp: red_view_def rs_patchCAS_def c_get_def exec truthy_def Let_def)
    then show ?thesis
      using k(2) None by (intro stepI [where V = ?V]) (simp_all add: cas_result_def cas_view_def red_view_def red_held_def)
  next
    case (Some s)
    then obtain e where s: "?V (keyOf i) = Some (RStr (json_print (status_json s)), e)" "storable s" "us_uploadId s = i" "plain_upload i"
      using status_key [OF k(2)] unfolding red_view_def by metis
    have g1: "k_get K now (keyOf i) r = (Inr (Some (json_print (status_json s))), r1)" "view now r1 = ?V"
      using g s(1) by (simp_all add: c_get_def)
    show ?thesis
    proof (cases "us_version s = v")
      case False
      then have "\<exists>r'. rs_patchCAS K defaultTtlSeconds now i v p r = (Inr False, r') \<and> ok now r' \<and> view now r' = ?V"
        using g1 g(2) by (simp add: rs_patchCAS_def exec truthy_def Let_def)
      then show ?thesis
        using k(2) Some False by (intro stepI [where V = ?V]) (simp_all add: cas_result_def cas_view_def red_view_def red_held_def)
    next
      case True
      let ?m = "merge s p"
      obtain r2 where t: "k_ttl K now (keyOf i) r1 = (fst (c_ttl now (keyOf i) ?V), r2)" "ok now r2" "view now r2 = ?V"
        using run [OF kv_ttl [of now "keyOf i"] g(2)] by (auto simp: g1(2) c_ttl_def)
      obtain tt where tt: "fst (c_ttl now (keyOf i) ?V) = Inr tt" by (simp add: c_ttl_def)
      let ?ex = "if tt > 0 then tt else defaultTtlSeconds"
      have ex: "0 < ?ex" using ttl by simp
      obtain r3 where st: "k_set K now (keyOf i) (json_print (status_json ?m)) (1000 * ?ex) r2 = (Inr (), r3)" "ok now r3"
        "view now r3 = ?V(keyOf i \<mapsto> (RStr (json_print (status_json ?m)), Some (now + 1000 * ?ex)))"
        using run [OF kv_set [of now "keyOf i" "json_print (status_json ?m)" "1000 * ?ex"] t(2)] ex
        by (auto simp: c_set_def t(3) split: if_splits)
      have "rs_patchCAS K defaultTtlSeconds now i v p r = (Inr True, r3)"
        using g1 t(1) st(1) True unfolding tt
        by (simp add: rs_patchCAS_def exec truthy_def Let_def mergeStatus_merge [of s p, unfolded True])
      moreover have "keys_ok (?V(keyOf i \<mapsto> (RStr (json_print (status_json ?m)), Some (now + 1000 * ?ex))))"
        using k(2) s storable_merge [OF s(2) u] by (intro keys_ok_upd) (auto simp: key_value_ok_def)
      ultimately show ?thesis
        using st(2, 3) True Some
        by (intro stepI [where V = "?V(keyOf i \<mapsto> (RStr (json_print (status_json ?m)), Some (now + 1000 * ?ex)))"])
           (simp_all add: at_upd s(4) cas_result_def cas_view_def red_view_def red_held_def)
    qed
  qed
qed

lemma touch_step:
  assumes r: "rok now r" and t: "0 < t" and s: "rview now r i = Some s"
  shows "store_step rok rview rheld now (rs_touch K now i t) r () ((rview now r)(i \<mapsto> s)) (rheld now r)"
proof -
  let ?V = "view now r"
  have k: "ok now r" "keys_ok ?V" using r by (simp_all add: red_ok_def)
  obtain e where v: "?V (keyOf i) = Some (RStr (json_print (status_json s)), e)" "storable s" "us_uploadId s = i" "plain_upload i"
    using status_key [OF k(2)] s unfolding red_view_def by metis
  obtain r1 where x: "k_expire K now (keyOf i) (max 1 t) r = (Inr 1, r1)" "ok now r1"
    "view now r1 = ?V(keyOf i \<mapsto> (RStr (json_print (status_json s)), Some (now + 1000 * max 1 t)))"
    using run [OF kv_expire [of now "keyOf i" "max 1 t"] k(1)] v(1) by (auto simp: c_expire_def)
  have "keys_ok (?V(keyOf i \<mapsto> (RStr (json_print (status_json s)), Some (now + 1000 * max 1 t))))"
    using k(2) v by (intro keys_ok_upd) (auto simp: key_value_ok_def)
  then show ?thesis
    using x by (intro stepI [where V = "?V(keyOf i \<mapsto> (RStr (json_print (status_json s)), Some (now + 1000 * max 1 t)))"])
      (simp_all add: rs_touch_def exec at_upd v(4) red_view_def red_held_def)
qed

lemma delete_step:
  assumes r: "rok now r"
  shows "\<exists>H. store_step rok rview rheld now (rs_delete K now i) r () ((rview now r)(i := None)) H \<and> (plain_upload i \<longrightarrow> H = rheld now r)"
proof -
  let ?V = "view now r"
  have k: "ok now r" "keys_ok ?V" using r by (simp_all add: red_ok_def)
  obtain r1 where x: "k_del K now (keyOf i) r = (Inr (), r1)" "ok now r1" "view now r1 = ?V(keyOf i := None)"
    using run [OF kv_del [of now "keyOf i"] k(1)] by (auto simp: c_del_def)
  have "keys_ok (?V(keyOf i := None))" using k(2) by (intro keys_ok_upd) simp_all
  with x have "store_step rok rview rheld now (rs_delete K now i) r () ((rview now r)(i := None)) (lock_at (?V(keyOf i := None)))"
    by (intro stepI) (auto simp: rs_delete_def at_upd red_view_def)
  then show ?thesis by (auto simp: at_upd red_held_def)
qed

lemma acquire_step:
  assumes r: "rok now r" and t: "0 < t" and h: "rheld now r i = None"
  shows "store_step rok rview rheld now (rs_acquire K tok now i t) r (tok now i) (rview now r) ((rheld now r)(i \<mapsto> tok now i))"
proof -
  let ?V = "view now r"
  have k: "ok now r" "keys_ok ?V" using r by (simp_all add: red_ok_def)
  have free: "?V (lockKeyOf i) = None" using lock_none [OF k(2)] h by (simp add: red_held_def)
  obtain r1 where x: "k_set_nx K now (lockKeyOf i) (tok now i) t r = (Inr True, r1)" "ok now r1"
    "view now r1 = ?V(lockKeyOf i \<mapsto> (RStr (tok now i), Some (now + t)))"
    using run [OF kv_set_nx [of now "lockKeyOf i" "tok now i" t] k(1)] t free by (auto simp: c_set_nx_def)
  have ko: "keys_ok (?V(lockKeyOf i \<mapsto> (RStr (tok now i), Some (now + t))))"
    unfolding lockKey(1) using k(2) tok lockKey(2) by (intro keys_ok_upd) (auto simp: key_value_ok_def)
  have "status_at (?V(lockKeyOf i \<mapsto> (RStr (tok now i), Some (now + t)))) = status_at ?V"
    unfolding lockKey(1) at_upd using free tok(2) by (simp add: fun_eq_iff status_at_def lockKey(1))
  moreover have "\<exists>r'. rs_acquire K tok now i t r = (Inr (tok now i), r') \<and> ok now r' \<and>
      view now r' = ?V(lockKeyOf i \<mapsto> (RStr (tok now i), Some (now + t)))"
    using x by (simp add: rs_acquire_def exec)
  ultimately show ?thesis
    using ko by (intro stepI [where V = "?V(lockKeyOf i \<mapsto> (RStr (tok now i), Some (now + t)))"]) (simp_all add: at_upd red_view_def red_held_def)
qed

lemma acquire_fails:
  assumes r: "rok now r" and t: "0 < t" and h: "rheld now r i \<noteq> None"
  shows "\<exists>e r'. rs_acquire K tok now i t r = (Inl e, r') \<and> rok now r' \<and> rview now r' = rview now r \<and> rheld now r' = rheld now r"
proof -
  let ?V = "view now r"
  have k: "ok now r" "keys_ok ?V" using r by (simp_all add: red_ok_def)
  have "?V (lockKeyOf i) \<noteq> None" using h at_some(2) by (simp add: red_held_def)
  then obtain r1 where x: "k_set_nx K now (lockKeyOf i) (tok now i) t r = (Inr False, r1)" "ok now r1" "view now r1 = ?V"
    using run [OF kv_set_nx [of now "lockKeyOf i" "tok now i" t] k(1)] t by (auto simp: c_set_nx_def)
  then show ?thesis using k(2) by (simp add: rs_acquire_def exec red_ok_def red_view_def red_held_def)
qed

lemma release_step:
  assumes r: "rok now r"
  shows "\<exists>H. store_step rok rview rheld now (rs_release K now i x) r () (rview now r) H \<and>
    (rheld now r i = Some x \<longrightarrow> H = (rheld now r)(i := None))"
proof -
  let ?V = "view now r"
  have k: "ok now r" "keys_ok ?V" using r by (simp_all add: red_ok_def)
  obtain r1 where g: "k_get K now (lockKeyOf i) r = (fst (c_get (lockKeyOf i) ?V), r1)" "ok now r1" "view now r1 = ?V"
    using run [OF kv_get [of now "lockKeyOf i"] k(1)] by (auto simp: c_get_def split: option.splits prod.splits rval.splits)
  obtain r2 where d: "k_del K now (lockKeyOf i) r1 = (Inr (), r2)" "ok now r2" "view now r2 = ?V(lockKeyOf i := None)"
    using run [OF kv_del [of now "lockKeyOf i"] g(2)] by (auto simp: c_del_def g(3))
  show ?thesis
  proof (cases "rheld now r i = Some x")
    case True
    then obtain e where l: "?V (lockKeyOf i) = Some (RStr x, e)" using at_some(3) unfolding red_held_def by metis
    then have "key_value_ok (''lock:'' @ i) (RStr x)" using k(2) by (simp add: keys_ok_def lockKey(1))
    then have un: "json_parse x = None" using lockKey(2) by (auto simp: key_value_ok_def)
    have "rs_release K now i x r = (Inr (), r2)" using g(1) d(1) l by (simp add: rs_release_def exec c_get_def)
    moreover have "keys_ok (?V(lockKeyOf i := None))" unfolding lockKey(1) using k(2) by (intro keys_ok_upd) simp_all
    moreover have "status_at (?V(lockKeyOf i := None)) = status_at ?V"
      unfolding lockKey(1) at_upd using l un by (simp add: fun_eq_iff status_at_def lockKey(1))
    ultimately have "store_step rok rview rheld now (rs_release K now i x) r () (rview now r) ((rheld now r)(i := None))"
      using d(2, 3) by (intro stepI [where V = "?V(lockKeyOf i := None)"]) (simp_all add: at_upd red_view_def red_held_def)
    then show ?thesis by blast
  next
    case False
    have "fst (c_get (lockKeyOf i) ?V) \<noteq> Inr (Some x)"
      using False by (auto simp: c_get_def red_held_def lock_at_def split: option.splits prod.splits rval.splits)
    then have "rs_release K now i x r = (Inr (), r1)"
      using g(1) by (cases "fst (c_get (lockKeyOf i) ?V)") (simp_all add: rs_release_def exec)
    then have "store_step rok rview rheld now (rs_release K now i x) r () (rview now r) (rheld now r)"
      using g(2, 3) k(2) by (intro stepI) (auto simp: red_view_def red_held_def)
    with False show ?thesis by blast
  qed
qed

lemma touch_law:
  assumes r: "rok now r" and t: "0 < t" and s: "rview now r i = Some s"
  shows "\<exists>e \<in> {us_expiresAt s, now + 1000 * t}.
    store_step rok rview rheld now (rs_touch K now i t) r () ((rview now r)(i \<mapsto> s\<lparr>us_expiresAt := e\<rparr>)) (rheld now r)"
  using touch_step [OF r t s] by (intro bexI [of _ "us_expiresAt s"]) simp_all

lemma status_known: "rok now r \<Longrightarrow> rview now r i = Some s \<Longrightarrow> storable s \<and> us_uploadId s = i"
  using status_key unfolding red_ok_def red_view_def by metis

lemma later: "rok now r \<Longrightarrow> now \<le> now' \<Longrightarrow> rok now' r \<and> rview now' r \<subseteq>\<^sub>m rview now r"
  using kv_advance [of now r now'] by (simp add: red_ok_def red_view_def live_part)

text \<open>
  The rounds of \<open>withLock\<close>. A round that gets the lock is one of \<open>rs_acquire\<close>; a round
  that does not changes nothing.
\<close>

lemma round_free:
  assumes "ok t r" and "0 < ms" and "view t r k = None"
  shows "\<exists>r'. lock_spin K k x ms d (Suc n) t r = (Inr (Some (x, t)), r') \<and> view t r' = (view t r)(k \<mapsto> (RStr x, Some (t + ms)))"
  using run [OF kv_set_nx [of t k x ms] assms(1)] assms(2, 3) by (auto simp: exec c_set_nx_def)

lemma round_busy:
  assumes "ok t r" and "0 < ms" and "view t r k \<noteq> None" and "t \<le> d"
  shows "\<exists>r'. lock_spin K k x ms d (Suc n) t r = lock_spin K k x ms d n (t + 50) r' \<and> ok (t + 50) r' \<and>
    view (t + 50) r' = live (t + 50) (view t r)"
proof -
  obtain r' where "k_set_nx K t k x ms r = (Inr False, r')" "ok t r'" "view t r' = view t r"
    using run [OF kv_set_nx [of t k x ms] assms(1)] assms(2, 3) by (auto simp: c_set_nx_def)
  then show ?thesis using kv_advance [of t r' "t + 50"] assms(4) by (intro exI [of _ r']) (simp add: exec)
qed

lemma spin_waits:
  assumes "ok t r" and "0 < ms" and "view t r k = Some (v, Some e)" and "e \<le> d" and "nat (e - t) div 50 + 2 \<le> n"
  shows "\<exists>t' r'. lock_spin K k x ms d n t r = (Inr (Some (x, t')), r') \<and> e \<le> t' \<and> t' < e + 50 \<and>
    view t' r' = (live t' (view t r))(k \<mapsto> (RStr x, Some (t' + ms)))"
  using assms
proof (induction n arbitrary: t r)
  case (Suc n)
  have t: "t < e" using kv_live [OF Suc.prems(1)] Suc.prems(3) by (rule all_live_key)
  obtain r' where r': "lock_spin K k x ms d (Suc n) t r = lock_spin K k x ms d n (t + 50) r'" "ok (t + 50) r'"
    "view (t + 50) r' = live (t + 50) (view t r)"
    using round_busy [OF Suc.prems(1, 2), of k d x n] Suc.prems(3, 4) t by auto
  show ?case
  proof (cases "e \<le> t + 50")
    case True
    then have f: "view (t + 50) r' k = None" using Suc.prems(3) by (simp add: r'(3) live_def)
    obtain m where m: "n = Suc m" using Suc.prems(5) by (cases n) auto
    from round_free [OF r'(2) Suc.prems(2) f, of x d m] obtain r2 where
      "lock_spin K k x ms d n (t + 50) r' = (Inr (Some (x, t + 50)), r2)"
      "view (t + 50) r2 = (view (t + 50) r')(k \<mapsto> (RStr x, Some (t + 50 + ms)))" unfolding m by blast
    with True t r'(1, 3) show ?thesis by (intro exI [of _ "t + 50"] exI [of _ r2]) simp
  next
    case False
    then have l: "view (t + 50) r' k = Some (v, Some e)" using Suc.prems(3) by (simp add: r'(3) live_def)
    have "nat (e - t) = nat (e - (t + 50)) + 50" using False by simp
    then have "nat (e - (t + 50)) div 50 + 2 \<le> n" using Suc.prems(5) by simp
    from Suc.IH [OF r'(2) Suc.prems(2) l Suc.prems(4) this] obtain t' r2 where h:
      "lock_spin K k x ms d n (t + 50) r' = (Inr (Some (x, t')), r2)" "e \<le> t'" "t' < e + 50"
      "view t' r2 = (live t' (view (t + 50) r'))(k \<mapsto> (RStr x, Some (t' + ms)))" by blast
    have "live t' (view (t + 50) r') = live t' (view t r)" unfolding r'(3) using False h(2) by (intro live_live) simp
    with h r'(1) show ?thesis by (intro exI [of _ t'] exI [of _ r2]) simp
  qed
qed simp

end

sublocale redis_upload \<subseteq> rs: upload_store "redis_store K defaultTtlSeconds tok" "red_ok ok view" "red_view view" "red_held view"
proof (unfold_locales, goal_cases)
  case 1 then show ?case by (rule later)
next
  case 2 then show ?case by (rule status_known)
next
  case 3 then show ?case unfolding redis_store_def store_ops.simps by (rule create_step)
next
  case 4 then show ?case unfolding redis_store_def store_ops.simps by (rule create_taken)
next
  case 5 then show ?case unfolding redis_store_def store_ops.simps by (rule get_step)
next
  case (6 now st pc p i v) then show ?case by (simp add: redis_store_def) (metis patch_step)
next
  case (7 now st tc ttl i s) 
  then have "tc = rs_touch K" by (simp add: redis_store_def)
  with 7 show ?case by (simp only: touch_law)
next
  case 8 then show ?case unfolding redis_store_def store_ops.simps by (rule delete_step)
next
  case (9 now st ac ttl i)
  then have "ac = rs_acquire K tok" by (simp add: redis_store_def)
  with 9 acquire_step show ?case by blast
next
  case (10 now st ac ttl i)
  then have "ac = rs_acquire K tok" by (simp add: redis_store_def)
  with 10 acquire_fails show ?case by blast
next
  case 11 then show ?case unfolding redis_store_def store_ops.simps by (rule release_step)
qed

context redis_upload
begin

lemma keeps_contract: "upload_store (redis_store K defaultTtlSeconds tok) (red_ok ok view) (red_view view) (red_held view)"
  by (rule rs.upload_store_axioms)

end

text \<open>The store over the server that keeps the map, with the token of a process.\<close>

definition lock_tok :: "int \<Rightarrow> string \<Rightarrow> string" where
  "lock_tok now i = ''4242-k3x9''"

lemma lock_tok: "lock_tok now i \<noteq> []" "json_parse (lock_tok now i) = None"
proof -
  have "json_parse ''4242-k3x9'' = None" by code_simp
  then show "lock_tok now i \<noteq> []" "json_parse (lock_tok now i) = None" by (simp_all add: lock_tok_def)
qed

interpretation ru: redis_upload kv_ref "\<lambda>now r. True" live 60 lock_tok
  by unfold_locales (simp_all add: lock_tok)

end
