(* ===== verification/UploadCas.thy ===== *)
theory UploadCas
  imports UploadRedis
begin

text \<open>
  \<open>RedisUploadStateStore.patchCAS\<close> when several calls run at the same time. A call is a
  sequence of commands (\<open>WATCH\<close>, \<open>GET\<close>, \<open>TTL\<close>, \<open>MULTI\<close>/\<open>SET\<close>/\<open>EXEC\<close>,
  \<open>UNWATCH\<close>), and the commands of different calls interleave in any order. The server follows
  the documentation of Redis transactions: the watched keys belong to a connection; a write to a
  key marks every connection that watches it; \<open>EXEC\<close> fails on a marked connection, and in any
  case leaves it watching nothing. The clock does not move while the calls run.
\<close>

section \<open>The server\<close>

record watch_server =
  sv_keys :: kv_map
  sv_watched :: "nat \<Rightarrow> string set"
  sv_dirty :: "nat \<Rightarrow> bool"

definition sv_new :: "kv_map \<Rightarrow> watch_server" where
  "sv_new V = \<lparr>sv_keys = V, sv_watched = (\<lambda>c. {}), sv_dirty = (\<lambda>c. False)\<rparr>"

definition sv_watch :: "nat \<Rightarrow> string \<Rightarrow> watch_server \<Rightarrow> watch_server" where
  "sv_watch c k s = s\<lparr>sv_watched := (sv_watched s)(c := insert k (sv_watched s c))\<rparr>"

definition sv_unwatch :: "nat \<Rightarrow> watch_server \<Rightarrow> watch_server" where
  "sv_unwatch c s = s\<lparr>sv_watched := (sv_watched s)(c := {}), sv_dirty := (sv_dirty s)(c := False)\<rparr>"

text \<open>A transaction of one \<open>SET\<close>; the answer is \<open>false\<close> when it was aborted.\<close>

definition sv_exec :: "int \<Rightarrow> nat \<Rightarrow> string \<Rightarrow> string \<Rightarrow> int \<Rightarrow> watch_server \<Rightarrow> bool \<times> watch_server" where
  "sv_exec now c k x ms s =
     (if sv_dirty s c then (False, sv_unwatch c s)
      else (let s' = sv_unwatch c s in
            case c_set now k x ms (sv_keys s') of
              (Inl e, V) \<Rightarrow> (True, s')
            | (Inr _, V) \<Rightarrow> (True, s'\<lparr>sv_keys := V, sv_dirty := (\<lambda>d. sv_dirty s' d \<or> k \<in> sv_watched s' d)\<rparr>)))"

section \<open>A call\<close>

record cas_call =
  cc_conn :: nat
  cc_id :: string
  cc_version :: int
  cc_patch :: UploadPatch

text \<open>The command a call sends next.\<close>

datatype cas_pc =
  AtWatch | AtGet | AtTtl UploadStatus | AtExec UploadStatus int | AtUnwatch "exn + bool" | AtFinally "exn + bool" | Done "exn + bool"

text \<open>The third component says that the update was written.\<close>

definition cas_step :: "int \<Rightarrow> int \<Rightarrow> cas_call \<Rightarrow> cas_pc \<Rightarrow> watch_server \<Rightarrow> cas_pc \<times> watch_server \<times> bool" where
  "cas_step now defaultTtlSeconds a pc s =
     (let c = cc_conn a; key = keyOf (cc_id a) in
      case pc of
        AtWatch \<Rightarrow> (AtGet, sv_watch c key s, False)
      | AtGet \<Rightarrow>
          (case fst (c_get key (sv_keys s)) of
             Inl e \<Rightarrow> (AtFinally (Inl e), s, False)
           | Inr raw \<Rightarrow>
               if \<not> truthy raw then (AtUnwatch (Inr False), s, False)
               else (case json_parse (the raw) of
                       None \<Rightarrow> (AtUnwatch (Inr False), s, False)
                     | Some obj \<Rightarrow>
                         (case status_of_json obj of
                            None \<Rightarrow> (AtFinally (Inl rs_ill_shaped), s, False)
                          | Some cur \<Rightarrow>
                              if us_version cur \<noteq> cc_version a then (AtUnwatch (Inr False), s, False)
                              else (AtTtl ((mergeStatus cur (cc_patch a))\<lparr>us_version := us_version cur + 1\<rparr>), s, False))))
      | AtTtl merged \<Rightarrow>
          (case fst (c_ttl now key (sv_keys s)) of
             Inl e \<Rightarrow> (AtFinally (Inl e), s, False)
           | Inr ttl \<Rightarrow> (AtExec merged (if ttl > 0 then ttl else defaultTtlSeconds), s, False))
      | AtExec merged ex \<Rightarrow>
          (case sv_exec now c key (json_print (status_json merged)) (1000 * ex) s of
             (res, s') \<Rightarrow> (AtFinally (Inr res), s', res))
      | AtUnwatch r \<Rightarrow> (AtFinally r, sv_unwatch c s, False)
      | AtFinally r \<Rightarrow> (Done r, sv_unwatch c s, False)
      | Done r \<Rightarrow> (Done r, s, False))"

section \<open>Interleavings\<close>

text \<open>\<open>cf_log\<close> lists the calls whose update was written, in the order of the writes.\<close>

record cas_config =
  cf_server :: watch_server
  cf_pc :: "nat \<Rightarrow> cas_pc"
  cf_log :: "nat list"

definition cas_start :: "kv_map \<Rightarrow> cas_config" where
  "cas_start V = \<lparr>cf_server = sv_new V, cf_pc = (\<lambda>i. AtWatch), cf_log = []\<rparr>"

definition cas_move :: "int \<Rightarrow> int \<Rightarrow> cas_call list \<Rightarrow> nat \<Rightarrow> cas_config \<Rightarrow> cas_config" where
  "cas_move now d calls i g =
     (case cas_step now d (calls ! i) (cf_pc g i) (cf_server g) of
        (pc, s, wrote) \<Rightarrow> \<lparr>cf_server = s, cf_pc = (cf_pc g)(i := pc), cf_log = (if wrote then cf_log g @ [i] else cf_log g)\<rparr>)"

inductive cas_reach :: "int \<Rightarrow> int \<Rightarrow> cas_call list \<Rightarrow> kv_map \<Rightarrow> cas_config \<Rightarrow> bool" for now d calls V where
  start: "cas_reach now d calls V (cas_start V)"
| move: "cas_reach now d calls V g \<Longrightarrow> i < length calls \<Longrightarrow> cas_reach now d calls V (cas_move now d calls i g)"

text \<open>The calls in \<open>log\<close>, run one after another and each successful, lead from \<open>V\<close> to \<open>W\<close>.\<close>

fun serial :: "cas_call list \<Rightarrow> (string \<Rightarrow> UploadStatus option) \<Rightarrow> nat list \<Rightarrow> (string \<Rightarrow> UploadStatus option) \<Rightarrow> bool" where
  "serial calls V [] W \<longleftrightarrow> W = V"
| "serial calls V (i # log) W \<longleftrightarrow>
     cas_result (cc_id (calls ! i)) (cc_version (calls ! i)) V \<and>
     serial calls (cas_view (cc_id (calls ! i)) (cc_version (calls ! i)) (cc_patch (calls ! i)) V) log W"

lemma serial_snoc: "serial calls V (log @ [i]) W \<longleftrightarrow>
   (\<exists>U. serial calls V log U \<and> cas_result (cc_id (calls ! i)) (cc_version (calls ! i)) U \<and>
      W = cas_view (cc_id (calls ! i)) (cc_version (calls ! i)) (cc_patch (calls ! i)) U)"
  by (induction log arbitrary: V) auto

section \<open>One connection per call\<close>

text \<open>What a call that has read the status knows of it, unless its connection is marked.\<close>

definition current :: "cas_call \<Rightarrow> UploadStatus \<Rightarrow> watch_server \<Rightarrow> bool" where
  "current a merged s \<longleftrightarrow> keyOf (cc_id a) \<in> sv_watched s (cc_conn a) \<and>
     (sv_dirty s (cc_conn a) \<or>
       (\<exists>cur. status_at (sv_keys s) (cc_id a) = Some cur \<and> us_version cur = cc_version a \<and> merged = merge cur (cc_patch a)))"

definition pending :: "cas_call \<Rightarrow> cas_pc \<Rightarrow> watch_server \<Rightarrow> bool" where
  "pending a pc s = (case pc of
     AtGet \<Rightarrow> keyOf (cc_id a) \<in> sv_watched s (cc_conn a)
   | AtTtl merged \<Rightarrow> current a merged s
   | AtExec merged ex \<Rightarrow> 0 < ex \<and> current a merged s
   | AtUnwatch r \<Rightarrow> r = Inr False
   | _ \<Rightarrow> True)"

definition wrote :: "cas_pc \<Rightarrow> bool" where
  "wrote pc \<longleftrightarrow> pc = AtFinally (Inr True) \<or> pc = Done (Inr True)"

definition cas_inv :: "cas_call list \<Rightarrow> kv_map \<Rightarrow> cas_config \<Rightarrow> bool" where
  "cas_inv calls V g \<longleftrightarrow> keys_ok (sv_keys (cf_server g)) \<and>
     serial calls (status_at V) (cf_log g) (status_at (sv_keys (cf_server g))) \<and> distinct (cf_log g) \<and>
     set (cf_log g) = {i. i < length calls \<and> wrote (cf_pc g i)} \<and>
     (\<forall>i < length calls. pending (calls ! i) (cf_pc g i) (cf_server g))"

lemma pending_other:
  assumes "c \<noteq> cc_conn a"
  shows "pending a pc (sv_watch c k s) = pending a pc s" "pending a pc (sv_unwatch c s) = pending a pc s"
  using assms by (simp_all add: pending_def current_def sv_watch_def sv_unwatch_def split: cas_pc.split)

lemma pending_exec:
  assumes "c \<noteq> cc_conn a" and "pending a pc s"
  shows "pending a pc (snd (sv_exec now c (keyOf i) x ms s))"
  using assms
  by (auto simp: pending_def current_def sv_exec_def sv_unwatch_def c_set_def at_upd Let_def split: cas_pc.splits if_splits)

lemma get_current:
  assumes "keys_ok V" and "fst (c_get (keyOf i) V) = Inr raw" and "truthy raw" and "json_parse (the raw) = Some obj"
    and "status_of_json obj = Some cur"
  shows "status_at V i = Some cur"
  using assms by (auto simp: c_get_def status_at_def truthy_def split: option.splits prod.splits rval.splits)

lemma get_merged:
  assumes "keys_ok (sv_keys s)" and "keyOf (cc_id a) \<in> sv_watched s (cc_conn a)" and "fst (c_get (keyOf (cc_id a)) (sv_keys s)) = Inr raw"
    and "truthy raw" and "json_parse (the raw) = Some obj" and "status_of_json obj = Some cur" and "us_version cur = cc_version a"
  shows "current a ((mergeStatus cur (cc_patch a))\<lparr>us_version := cc_version a + 1\<rparr>) s"
  using get_current [OF assms(1, 3-6)] mergeStatus_merge [of cur "cc_patch a"] assms(2, 7) by (simp add: current_def)

lemma exec_writes:
  assumes k: "keys_ok (sv_keys s)" and c: "current a merged s" and ex: "0 < ex" and u: "orElse (p_userId (cc_patch a)) ''u'' \<noteq> []"
  shows "case sv_exec now (cc_conn a) (keyOf (cc_id a)) (json_print (status_json merged)) (1000 * ex) s of
     (res, s') \<Rightarrow> keys_ok (sv_keys s') \<and>
       (if res then cas_result (cc_id a) (cc_version a) (status_at (sv_keys s)) \<and>
          status_at (sv_keys s') = cas_view (cc_id a) (cc_version a) (cc_patch a) (status_at (sv_keys s))
        else sv_keys s' = sv_keys s)"
proof (cases "sv_dirty s (cc_conn a)")
  case True
  with k show ?thesis by (simp add: sv_exec_def sv_unwatch_def)
next
  case False
  with c obtain cur where cur: "status_at (sv_keys s) (cc_id a) = Some cur" "us_version cur = cc_version a" "merged = merge cur (cc_patch a)"
    by (auto simp: current_def)
  obtain e where st: "storable cur" "us_uploadId cur = cc_id a" "plain_upload (cc_id a)"
    using status_key [OF k cur(1)] by metis
  have "keys_ok ((sv_keys s)(keyOf (cc_id a) \<mapsto> (RStr (json_print (status_json merged)), Some (now + 1000 * ex))))"
    using k st storable_merge [OF st(1) u] by (intro keys_ok_upd) (auto simp: key_value_ok_def cur(3))
  with False ex cur show ?thesis
    by (simp add: sv_exec_def sv_unwatch_def c_set_def Let_def at_upd cas_result_def cas_view_def)
qed

text \<open>One command of a call, seen from the call itself and from the others.\<close>

lemma step_self:
  assumes k: "keys_ok (sv_keys s)" and p: "pending a pc s" and d: "0 < d" and u: "orElse (p_userId (cc_patch a)) ''u'' \<noteq> []"
    and st: "cas_step now d a pc s = (pc', s', w)"
  shows "keys_ok (sv_keys s')" and "pending a pc' s'" and "w \<Longrightarrow> \<not> wrote pc" and "wrote pc' \<longleftrightarrow> w \<or> wrote pc"
    and "if w then cas_result (cc_id a) (cc_version a) (status_at (sv_keys s)) \<and>
          status_at (sv_keys s') = cas_view (cc_id a) (cc_version a) (cc_patch a) (status_at (sv_keys s))
        else sv_keys s' = sv_keys s"
proof -
  let ?P = "keys_ok (sv_keys s') \<and> pending a pc' s' \<and> (w \<longrightarrow> \<not> wrote pc) \<and> (wrote pc' \<longleftrightarrow> w \<or> wrote pc) \<and>
    (if w then cas_result (cc_id a) (cc_version a) (status_at (sv_keys s)) \<and>
          status_at (sv_keys s') = cas_view (cc_id a) (cc_version a) (cc_patch a) (status_at (sv_keys s))
        else sv_keys s' = sv_keys s)"
  have ?P
  proof (cases pc)
    case AtWatch
    with st k show ?thesis by (auto simp: cas_step_def Let_def sv_watch_def pending_def wrote_def)
  next
    case AtGet
    from p AtGet have watched: "keyOf (cc_id a) \<in> sv_watched s (cc_conn a)" by (simp add: pending_def)
    from st AtGet k watched show ?thesis
      by (auto simp: cas_step_def Let_def pending_def wrote_def intro: get_merged
          split: sum.splits if_splits option.splits)
  next
    case (AtTtl m)
    with st k p d show ?thesis by (auto simp: cas_step_def Let_def pending_def wrote_def current_def c_ttl_def split: sum.splits if_splits)
  next
    case (AtExec m ex)
    with p have m: "0 < ex" "current a m s" by (simp_all add: pending_def)
    obtain res s1 where e: "sv_exec now (cc_conn a) (keyOf (cc_id a)) (json_print (status_json m)) (1000 * ex) s = (res, s1)"
      by fastforce
    with exec_writes [OF k m(2, 1) u, of now] st AtExec show ?thesis
      by (auto simp: cas_step_def Let_def pending_def wrote_def)
  next
    case (AtUnwatch r)
    with st k p show ?thesis by (auto simp: cas_step_def Let_def sv_unwatch_def pending_def wrote_def)
  next
    case (AtFinally r)
    with st k p show ?thesis by (auto simp: cas_step_def Let_def sv_unwatch_def pending_def wrote_def)
  next
    case (Done r)
    with st k p show ?thesis by (auto simp: cas_step_def Let_def pending_def wrote_def)
  qed
  then show "keys_ok (sv_keys s')" "pending a pc' s'" "w \<Longrightarrow> \<not> wrote pc" "wrote pc' \<longleftrightarrow> w \<or> wrote pc"
    "if w then cas_result (cc_id a) (cc_version a) (status_at (sv_keys s)) \<and>
          status_at (sv_keys s') = cas_view (cc_id a) (cc_version a) (cc_patch a) (status_at (sv_keys s))
        else sv_keys s' = sv_keys s" by blast+
qed

lemma step_other:
  assumes c: "cc_conn a \<noteq> cc_conn b" and p: "pending b pc s" and st: "cas_step now d a q s = (q', s', w)"
  shows "pending b pc s'"
proof (cases q)
  case (AtExec m ex)
  with st have "s' = snd (sv_exec now (cc_conn a) (keyOf (cc_id a)) (json_print (status_json m)) (1000 * ex) s)"
    by (auto simp: cas_step_def Let_def split: prod.splits)
  with pending_exec [OF c p] show ?thesis by simp
qed (use st p pending_other [OF c] in \<open>auto simp: cas_step_def Let_def split: sum.splits option.splits if_splits\<close>)

lemma cas_inv_start: "keys_ok V \<Longrightarrow> cas_inv calls V (cas_start V)"
  by (simp add: cas_inv_def cas_start_def sv_new_def pending_def wrote_def)

lemma cas_inv_move:
  assumes inv: "cas_inv calls V g" and i: "i < length calls" and d: "0 < d"
    and u: "\<forall>a \<in> set calls. orElse (p_userId (cc_patch a)) ''u'' \<noteq> []" and c: "distinct (map cc_conn calls)"
  shows "cas_inv calls V (cas_move now d calls i g)"
proof -
  let ?a = "calls ! i" and ?s = "cf_server g"
  obtain pc s w where st: "cas_step now d ?a (cf_pc g i) ?s = (pc, s, w)" by (metis prod_cases3)
  have k: "keys_ok (sv_keys ?s)" and p: "pending ?a (cf_pc g i) ?s" and ui: "orElse (p_userId (cc_patch ?a)) ''u'' \<noteq> []"
    using inv i u by (simp_all add: cas_inv_def)
  note self = step_self [OF k p d ui st]
  have others: "pending (calls ! j) (cf_pc g j) s" if "j < length calls" "j \<noteq> i" for j
  proof (rule step_other [OF _ _ st])
    show "cc_conn ?a \<noteq> cc_conn (calls ! j)" using c i that by (auto simp: distinct_conv_nth)
    show "pending (calls ! j) (cf_pc g j) ?s" using inv that by (simp add: cas_inv_def)
  qed
  have log: "set (if w then cf_log g @ [i] else cf_log g) = {j. j < length calls \<and> wrote (((cf_pc g)(i := pc)) j)}"
    using inv i self(4) by (auto simp: cas_inv_def)
  have dist: "distinct (if w then cf_log g @ [i] else cf_log g)"
    using inv self(3) by (auto simp: cas_inv_def)
  have "serial calls (status_at V) (if w then cf_log g @ [i] else cf_log g) (status_at (sv_keys s))"
    using inv self(5) by (auto simp: cas_inv_def serial_snoc split: if_splits)
  with self(1, 2) others log dist show ?thesis by (simp add: cas_move_def st cas_inv_def)
qed

lemma cas_reach_inv:
  assumes "cas_reach now d calls V g" and "keys_ok V" and "0 < d"
    and "\<forall>a \<in> set calls. orElse (p_userId (cc_patch a)) ''u'' \<noteq> []" and "distinct (map cc_conn calls)"
  shows "cas_inv calls V g"
  using assms
proof (induction rule: cas_reach.induct)
  case start
  then show ?case by (simp add: cas_inv_start)
next
  case (move g i)
  then show ?case by (intro cas_inv_move)
qed

end
