(* ===== verification/RedisProps.thy ===== *)
theory RedisProps
  imports UploadCas
begin

text \<open>
  The properties of the Redis state store of the upload service: the contract it keeps, its lock,
  and its compare-and-set update when calls interleave.
\<close>

section \<open>The contract\<close>

text \<open>
  C27: over every client that implements the Redis commands the store keeps the contract on which the
  upload service rests: \<open>create\<close> never overwrites, \<open>get\<close> returns what was stored,
  \<open>patchCAS\<close> updates exactly when the version is the expected one, the lock excludes, and an
  entry is only ever lost by expiry. The default time to live must be positive, and the lock token
  must not be a JSON text, as \<open><pid>-<random>\<close> is not.
\<close>

theorem redis_store_refines:
  assumes "kv_redis K ok view" and "0 < defaultTtlSeconds" and "\<And>now i. tok now i \<noteq> [] \<and> json_parse (tok now i) = None"
  shows "upload_store (redis_store K defaultTtlSeconds tok) (red_ok ok view) (red_view view) (red_held view)"
  using assms by (intro redis_upload.keeps_contract redis_upload.intro redis_upload_axioms.intro) simp_all

theorem redis_store_refines_witness:
  "upload_store (redis_store kv_ref 60 lock_tok) (red_ok (\<lambda>now r. True) live) (red_view live) (red_held live)"
  by (rule redis_store_refines) (simp_all add: rf.kv_redis_axioms lock_tok)

section \<open>The lock\<close>

text \<open>
  C31: \<open>withLock\<close> on a lock that another call holds returns with the lock, less than one polling
  interval after the other lock expires, provided it expires before the deadline and the other call
  does not come back; no other key is written. With the same time to live for every caller that is
  always the case, so a waiter never gives up: it takes the lock from a holder that is still at work.
\<close>

theorem withLock_waits:
  assumes "kv_redis K ok view" and "ok now r" and "0 < ttlMs"
    and "view now r (lockKeyOf i) = Some (v, Some e)" and "e \<le> now + max ttlMs 1000" and "nat (e - now) div 50 + 2 \<le> tries"
  shows "\<exists>t r'. rs_lock K tok tries now i ttlMs r = (Inr (Some (tok now i, t)), r') \<and> e \<le> t \<and> t < e + 50 \<and>
    view t r' = (live t (view now r))(lockKeyOf i \<mapsto> (RStr (tok now i), Some (t + ttlMs)))"
proof -
  have x: "redis_upload K ok view 1 lock_tok"
    using assms(1) lock_tok by (intro redis_upload.intro redis_upload_axioms.intro) simp_all
  show ?thesis unfolding rs_lock_def by (rule redis_upload.spin_waits [OF x assms(2-6)])
qed

theorem withLock_waits_witness:
  "\<exists>t r'. rs_lock kv_ref lock_tok 400 1000 ''a'' 15000 [''upload:lock:a'' \<mapsto> (RStr ''4241-zz'', Some 16000)] =
     (Inr (Some (''4242-k3x9'', t)), r') \<and> 16000 \<le> t \<and> t < 16050"
  using withLock_waits [OF rf.kv_redis_axioms, where now = 1000 and r = "[''upload:lock:a'' \<mapsto> (RStr ''4241-zz'', Some 16000)]"
    and ttlMs = 15000 and i = "''a''" and v = "RStr ''4241-zz''" and e = 16000 and tries = 400 and tok = lock_tok]
  by (auto simp: live_def lockKeyOf_def lock_tok_def)

section \<open>Compare-and-set\<close>

text \<open>
  C29: calls of \<open>patchCAS\<close> that each have a connection of their own are serializable: however
  their commands interleave, the stored statuses are those of running the calls that have written
  one after another, each successful on what the previous ones left, and a call that has answered
  \<open>true\<close> is one of them.
\<close>

theorem cas_serializable:
  assumes "cas_reach now d calls V g" and "keys_ok V" and "0 < d"
    and "\<forall>a \<in> set calls. orElse (p_userId (cc_patch a)) ''u'' \<noteq> []" and "distinct (map cc_conn calls)"
  shows "serial calls (status_at V) (cf_log g) (status_at (sv_keys (cf_server g))) \<and> distinct (cf_log g) \<and>
    {i. i < length calls \<and> cf_pc g i = Done (Inr True)} \<subseteq> set (cf_log g)"
  using cas_reach_inv [OF assms] by (auto simp: cas_inv_def wrote_def)

definition cas_moves :: "int \<Rightarrow> int \<Rightarrow> cas_call list \<Rightarrow> nat list \<Rightarrow> cas_config \<Rightarrow> cas_config" where
  "cas_moves now d calls = fold (cas_move now d calls)"

lemma cas_moves_reach: "list_all (\<lambda>i. i < length calls) ms \<Longrightarrow> cas_reach now d calls V g \<Longrightarrow> cas_reach now d calls V (cas_moves now d calls ms g)"
  by (induction ms arbitrary: g) (simp_all add: cas_moves_def cas_reach.move)

text \<open>Two calls for one status, alternating.\<close>

definition rival :: "nat \<Rightarrow> string \<Rightarrow> int \<Rightarrow> UploadPatch \<Rightarrow> cas_call" where
  "rival c i v p = \<lparr>cc_conn = c, cc_id = i, cc_version = v, cc_patch = p\<rparr>"

definition alternate :: "nat list" where
  "alternate = [0, 1, 0, 1, 0, 1, 0, 1, 0, 1, 0, 1]"

definition one_status :: "UploadStatus \<Rightarrow> kv_map" where
  "one_status s = [keyOf (us_uploadId s) \<mapsto> (RStr (json_print (status_json s)), None)]"

lemma step_watch: "cas_step now d a AtWatch s = (AtGet, sv_watch (cc_conn a) (keyOf (cc_id a)) s, False)"
  by (simp add: cas_step_def Let_def)

lemma step_get:
  assumes "sv_keys s (keyOf (cc_id a)) = Some (RStr (json_print (status_json st)), e)" and "us_version st = cc_version a"
  shows "cas_step now d a AtGet s = (AtTtl (merge st (cc_patch a)), s, False)"
  using assms mergeStatus_merge [of st "cc_patch a"] by (simp add: cas_step_def Let_def c_get_def truthy_def)

lemma step_ttl:
  assumes "sv_keys s (keyOf (cc_id a)) = Some (v, None)"
  shows "cas_step now d a (AtTtl m) s = (AtExec m d, s, False)"
  using assms by (simp add: cas_step_def Let_def c_ttl_def)

lemma step_end: "cas_step now d a (AtFinally r) s = (Done r, sv_unwatch (cc_conn a) s, False)" "cas_step now d a (Done r) s = (Done r, s, False)"
  by (simp_all add: cas_step_def Let_def)

lemma step_exec:
  assumes "0 < d" and "\<not> sv_dirty s (cc_conn a)"
  shows "cas_step now d a (AtExec m d) s = (AtFinally (Inr True),
    (sv_unwatch (cc_conn a) s)\<lparr>sv_keys := (sv_keys s)(keyOf (cc_id a) \<mapsto> (RStr (json_print (status_json m)), Some (now + 1000 * d))),
       sv_dirty := (\<lambda>e. sv_dirty (sv_unwatch (cc_conn a) s) e \<or> keyOf (cc_id a) \<in> sv_watched (sv_unwatch (cc_conn a) s) e)\<rparr>, True)"
  using assms by (simp add: cas_step_def Let_def sv_exec_def c_set_def sv_unwatch_def)

text \<open>An upload of three chunks that has received none, and an update that records one.\<close>

definition cas_status :: UploadStatus where
  "cas_status = \<lparr>us_uploadId = ''a1'', us_userId = ''u1'', us_filename = ''a.bin'', us_mime = ''image/png'', us_size = 12, us_chunkSize = 4,
     us_totalChunks = 3, us_receivedBytes = 0, us_receivedIndexes = [], us_state = Receiving, us_createdAt = 0, us_expiresAt = 60000,
     us_version = 2, us_tempPath = ''/tmp/a1.part'', us_remoteRelativePath = None\<rparr>"

definition got_chunk :: "int \<Rightarrow> UploadPatch" where
  "got_chunk k = no_patch\<lparr>p_receivedIndexes := Some [k], p_receivedBytes := Some 4\<rparr>"

definition rivals :: "cas_call list" where
  "rivals = [rival 0 ''a1'' 2 (got_chunk 0), rival 1 ''a1'' 2 (got_chunk 1)]"

lemma one_status_ok: "keys_ok (one_status cas_status)"
  by (auto simp: keys_ok_def one_status_def cas_status_def key_value_ok_def plain_upload_def storable_def)

theorem cas_serializable_witness:
  "serial rivals (status_at (one_status cas_status))
     (cf_log (cas_moves 0 60 rivals alternate (cas_start (one_status cas_status))))
     (status_at (sv_keys (cf_server (cas_moves 0 60 rivals alternate (cas_start (one_status cas_status))))))"
proof -
  have "cas_reach 0 60 rivals (one_status cas_status) (cas_moves 0 60 rivals alternate (cas_start (one_status cas_status)))"
    by (rule cas_moves_reach [OF _ cas_reach.start]) (simp add: alternate_def rivals_def)
  then show ?thesis
    using cas_serializable [OF _ one_status_ok, of 0 60 rivals]
    by (simp add: rivals_def rival_def got_chunk_def no_patch_def orElse_def)
qed

text \<open>Both calls have been answered, and only the update \<open>q\<close> is there.\<close>

definition lost_update :: "UploadStatus \<Rightarrow> UploadPatch \<Rightarrow> cas_config \<Rightarrow> bool" where
  "lost_update s q g \<longleftrightarrow> cf_pc g 0 = Done (Inr True) \<and> cf_pc g 1 = Done (Inr True) \<and>
     status_at (sv_keys (cf_server g)) (us_uploadId s) = Some (merge s q)"

lemma lost_Cons:
  assumes "lost_update s q (cas_moves now d calls ms
    (case cas_step now d (calls ! i) (cf_pc g i) (cf_server g) of
       (pc, srv, w) \<Rightarrow> \<lparr>cf_server = srv, cf_pc = (cf_pc g)(i := pc), cf_log = (if w then cf_log g @ [i] else cf_log g)\<rparr>))"
  shows "lost_update s q (cas_moves now d calls (i # ms) g)"
  using assms by (simp add: cas_moves_def cas_move_def)

lemma lost_Nil: "lost_update s q g \<Longrightarrow> lost_update s q (cas_moves now d calls [] g)"
  by (simp add: cas_moves_def)

lemmas cas_run = alternate_def cas_start_def sv_new_def rival_def one_status_def
  step_watch step_get step_ttl step_exec step_end sv_watch_def sv_unwatch_def

text \<open>
  C30: on one shared connection, as in the application, whose store has a single client, they are not:
  two updates that expect the same version and alternate are both answered \<open>true\<close>, and the
  first is lost. The \<open>EXEC\<close> of one call ends the \<open>WATCH\<close> of the other.
\<close>

theorem shared_connection_loses:
  assumes "0 < d"
  shows "\<exists>g. cas_reach now d [rival 0 (us_uploadId s) (us_version s) p, rival 0 (us_uploadId s) (us_version s) q] (one_status s) g \<and>
    cf_pc g 0 = Done (Inr True) \<and> cf_pc g 1 = Done (Inr True) \<and>
    status_at (sv_keys (cf_server g)) (us_uploadId s) = Some (merge s q)"
proof -
  let ?calls = "[rival 0 (us_uploadId s) (us_version s) p, rival 0 (us_uploadId s) (us_version s) q]"
  let ?g = "cas_moves now d ?calls alternate (cas_start (one_status s))"
  have "cas_reach now d ?calls (one_status s) ?g"
    by (rule cas_moves_reach [OF _ cas_reach.start]) (simp add: alternate_def)
  moreover have "lost_update s q ?g"
    unfolding alternate_def
    by (rule lost_Cons, simp add: cas_run assms)+ (rule lost_Nil, simp add: cas_run lost_update_def status_at_def)
  ultimately show ?thesis unfolding lost_update_def by blast
qed

theorem shared_connection_loses_witness:
  "\<exists>g. cas_reach 0 60 [rival 0 ''a1'' 2 (got_chunk 0), rival 0 ''a1'' 2 (got_chunk 1)] (one_status cas_status) g \<and>
    cf_pc g 0 = Done (Inr True) \<and> map_option us_receivedIndexes (status_at (sv_keys (cf_server g)) ''a1'') = Some [1]"
proof -
  have m: "us_receivedIndexes (merge cas_status (got_chunk 1)) = [1]"
    by (simp add: cas_status_def got_chunk_def no_patch_def merge_def spread_def orElse_def ensureSortedUnique_def)
  have c: "us_uploadId cas_status = ''a1''" "us_version cas_status = 2" by (simp_all add: cas_status_def)
  show ?thesis using shared_connection_loses [of 60 0 cas_status "got_chunk 0" "got_chunk 1"] m unfolding c by auto
qed

end
