(* ===== verification/CatalogDb.thy ===== *)
theory CatalogDb
  imports Prelude JsText "HOL-Library.List_Lexorder"
begin

text \<open>
  The tables of the catalogue (\<open>prisma/schema.prisma\<close>) and the Prisma client the catalogue's
  services use. Prisma is not part of the repository. What each of its calls does to the tables is
  written out as a pure function from its documentation and the constraints of the schema; the
  locale \<open>catalog_db\<close> says that a client's calls are these functions, and is interpreted on a
  database that keeps the tables itself. A handler over any client then does what it does over the
  tables (\<open>CatalogClient\<close>).
\<close>

section \<open>Rows\<close>

record product_row =
  pr_id :: int
  pr_slug :: string
  pr_title :: string
  pr_description :: "string option"
  pr_coverUrl :: "string option"
  pr_fileId :: "int option"
  pr_topic :: "string option"
  pr_graphicFormat :: string
  pr_shortLink :: "string option"
  pr_seoTitle :: "string option"
  pr_seoDescription :: "string option"
  pr_seoKeywords :: "string list"
  pr_pricingType :: string
  pr_price :: "int option"
  pr_status :: string
  pr_publishedAt :: "int option"
  pr_viewsCount :: int
  pr_downloadsCount :: int
  pr_likesCount :: int
  pr_createdAt :: int
  pr_updatedAt :: int

record asset_row =
  as_id :: int
  as_productId :: int
  as_url :: string
  as_alt :: "string option"
  as_sortOrder :: int

record category_row =
  cg_id :: int
  cg_name :: string
  cg_slug :: string
  cg_parentId :: "int option"

record tag_row =
  tg_id :: int
  tg_name :: string
  tg_slug :: string

text \<open>A like or a bookmark.\<close>

record mark =
  mk_userId :: string
  mk_productId :: int
  mk_createdAt :: int

record download_row =
  dl_id :: int
  dl_productId :: int
  dl_userId :: string
  dl_bytes :: "int option"
  dl_pricePaid :: "int option"
  dl_ip :: "string option"
  dl_createdAt :: int

record view_row =
  vw_productId :: int
  vw_userId :: "string option"
  vw_ip :: "string option"
  vw_ua :: "string option"

text \<open>\<open>ct_files\<close> holds the storage key of a file; \<open>ct_next\<close> is the next generated identifier.\<close>

record catalog =
  ct_products :: "product_row list"
  ct_assets :: "asset_row list"
  ct_files :: "(int \<times> string) list"
  ct_users :: "string list"
  ct_suppliers :: "(int \<times> string) list"
  ct_prodcats :: "(int \<times> int) list"
  ct_prodtags :: "(int \<times> int) list"
  ct_categories :: "category_row list"
  ct_tags :: "tag_row list"
  ct_likes :: "mark list"
  ct_bookmarks :: "mark list"
  ct_downloads :: "download_row list"
  ct_views :: "view_row list"
  ct_next :: int

definition find_row :: "('a \<Rightarrow> bool) \<Rightarrow> 'a list \<Rightarrow> 'a option" where
  "find_row P xs = List.find P xs"

definition product_ids :: "catalog \<Rightarrow> int list" where
  "product_ids t = map pr_id (ct_products t)"

definition category_ids :: "catalog \<Rightarrow> int list" where
  "category_ids t = map cg_id (ct_categories t)"

definition tag_ids :: "catalog \<Rightarrow> int list" where
  "tag_ids t = map tg_id (ct_tags t)"

text \<open>A product with the relations of \<open>productInclude\<close>.\<close>

record product_full =
  pf_row :: product_row
  pf_assets :: "asset_row list"
  pf_categories :: "category_row list"
  pf_tags :: "tag_row list"
  pf_authors :: "string list"

definition with_relations :: "catalog \<Rightarrow> product_row \<Rightarrow> product_full" where
  "with_relations t r = \<lparr>pf_row = r,
     pf_assets = filter (\<lambda>a. as_productId a = pr_id r) (ct_assets t),
     pf_categories = filter (\<lambda>c. (pr_id r, cg_id c) \<in> set (ct_prodcats t)) (ct_categories t),
     pf_tags = filter (\<lambda>c. (pr_id r, tg_id c) \<in> set (ct_prodtags t)) (ct_tags t),
     pf_authors = map snd (filter (\<lambda>l. fst l = pr_id r) (ct_suppliers t))\<rparr>"

section \<open>Conditions and orders\<close>

datatype counter = Views | Downloads | Likes

fun count_of :: "counter \<Rightarrow> product_row \<Rightarrow> int" where
  "count_of Views r = pr_viewsCount r"
| "count_of Downloads r = pr_downloadsCount r"
| "count_of Likes r = pr_likesCount r"

datatype text_field = FTitle | FDescription | FTopic | FSlug

fun text_of_field :: "text_field \<Rightarrow> product_row \<Rightarrow> string option" where
  "text_of_field FTitle r = Some (pr_title r)"
| "text_of_field FDescription r = pr_description r"
| "text_of_field FTopic r = pr_topic r"
| "text_of_field FSlug r = Some (pr_slug r)"

text \<open>\<open>contains\<close> in mode \<open>insensitive\<close>; it does not hold of \<open>NULL\<close>.\<close>

definition contains_ci :: "string \<Rightarrow> string option \<Rightarrow> bool" where
  "contains_ci term x = (case x of None \<Rightarrow> False | Some s \<Rightarrow> js_includes (js_lower s) (js_lower term))"

text \<open>\<open>Prisma.ProductWhereInput\<close>, as far as the program builds it.\<close>

datatype product_where =
    WAll
  | WAnd "product_where list"
  | WOr "product_where list"
  | WContains text_field string
  | WPricing string
  | WFormat string
  | WStatus string
  | WCategory int
  | WTag int
  | WAuthor string
  | WId int
  | WSlug string
  | WIdLt int
  | WCreated int
  | WCreatedLt int
  | WCount counter int
  | WCountLt counter int

fun matches :: "catalog \<Rightarrow> product_where \<Rightarrow> product_row \<Rightarrow> bool" where
  "matches t WAll r \<longleftrightarrow> True"
| "matches t (WAnd ws) r \<longleftrightarrow> (\<forall>w \<in> set ws. matches t w r)"
| "matches t (WOr ws) r \<longleftrightarrow> (\<exists>w \<in> set ws. matches t w r)"
| "matches t (WContains f s) r \<longleftrightarrow> contains_ci s (text_of_field f r)"
| "matches t (WPricing p) r \<longleftrightarrow> pr_pricingType r = p"
| "matches t (WFormat f) r \<longleftrightarrow> pr_graphicFormat r = f"
| "matches t (WStatus s) r \<longleftrightarrow> pr_status r = s"
| "matches t (WCategory c) r \<longleftrightarrow> (pr_id r, c) \<in> set (ct_prodcats t)"
| "matches t (WTag g) r \<longleftrightarrow> (pr_id r, g) \<in> set (ct_prodtags t)"
| "matches t (WAuthor u) r \<longleftrightarrow> (pr_id r, u) \<in> set (ct_suppliers t)"
| "matches t (WId i) r \<longleftrightarrow> pr_id r = i"
| "matches t (WSlug s) r \<longleftrightarrow> pr_slug r = s"
| "matches t (WIdLt i) r \<longleftrightarrow> pr_id r < i"
| "matches t (WCreated d) r \<longleftrightarrow> pr_createdAt r = d"
| "matches t (WCreatedLt d) r \<longleftrightarrow> pr_createdAt r < d"
| "matches t (WCount c n) r \<longleftrightarrow> count_of c r = n"
| "matches t (WCountLt c n) r \<longleftrightarrow> count_of c r < n"

text \<open>The columns of \<open>orderBy\<close>; every one is descending.\<close>

datatype order_col = OCreatedAt | OId | OCount counter

fun col_of :: "order_col \<Rightarrow> product_row \<Rightarrow> int" where
  "col_of OCreatedAt r = pr_createdAt r"
| "col_of OId r = pr_id r"
| "col_of (OCount c) r = count_of c r"

definition sort_desc :: "('a \<Rightarrow> int list) \<Rightarrow> 'a list \<Rightarrow> 'a list" where
  "sort_desc key xs = sort_key (\<lambda>x. map uminus (key x)) xs"

definition q_products :: "product_where \<Rightarrow> order_col list \<Rightarrow> nat \<Rightarrow> catalog \<Rightarrow> product_full list" where
  "q_products w cols n t =
     map (with_relations t) (take n (sort_desc (\<lambda>r. map (\<lambda>c. col_of c r) cols) (filter (matches t w) (ct_products t))))"

definition q_product :: "product_where \<Rightarrow> catalog \<Rightarrow> product_full option" where
  "q_product w t = map_option (with_relations t) (find_row (matches t w) (ct_products t))"

text \<open>
  The lists of a user: the rows of the user, and with a cursor only those after it in the order
  (\<open>createdAt\<close>, then the product or the download, both descending).
\<close>

type_synonym list_cursor = "(int \<times> int) option"

definition after_cursor :: "list_cursor \<Rightarrow> int \<Rightarrow> int \<Rightarrow> bool" where
  "after_cursor c created i = (case c of None \<Rightarrow> True | Some (d, j) \<Rightarrow> created < d \<or> (created = d \<and> i < j))"

definition q_marks :: "(catalog \<Rightarrow> mark list) \<Rightarrow> string \<Rightarrow> list_cursor \<Rightarrow> nat \<Rightarrow> catalog \<Rightarrow> (mark \<times> product_full option) list" where
  "q_marks tab u c n t =
     map (\<lambda>m. (m, q_product (WId (mk_productId m)) t))
       (take n (sort_desc (\<lambda>m. [mk_createdAt m, mk_productId m])
         (filter (\<lambda>m. mk_userId m = u \<and> after_cursor c (mk_createdAt m) (mk_productId m)) (tab t))))"

definition q_downloads :: "string \<Rightarrow> list_cursor \<Rightarrow> nat \<Rightarrow> catalog \<Rightarrow> (download_row \<times> product_full option) list" where
  "q_downloads u c n t =
     map (\<lambda>m. (m, q_product (WId (dl_productId m)) t))
       (take n (sort_desc (\<lambda>m. [dl_createdAt m, dl_id m])
         (filter (\<lambda>m. dl_userId m = u \<and> after_cursor c (dl_createdAt m) (dl_id m)) (ct_downloads t))))"

definition q_mark :: "(catalog \<Rightarrow> mark list) \<Rightarrow> string \<Rightarrow> int \<Rightarrow> catalog \<Rightarrow> mark option" where
  "q_mark tab u p t = find_row (\<lambda>m. mk_userId m = u \<and> mk_productId m = p) (tab t)"

text \<open>\<open>findUnique\<close> of a product with its file: the storage key, if the product has a file.\<close>

definition q_file_key :: "int \<Rightarrow> catalog \<Rightarrow> string option option" where
  "q_file_key p t = map_option (\<lambda>r. case pr_fileId r of None \<Rightarrow> None | Some f \<Rightarrow> map_of (ct_files t) f)
     (find_row (\<lambda>r. pr_id r = p) (ct_products t))"

datatype row_key = ById int | BySlug string

fun key_of_category :: "row_key \<Rightarrow> category_row \<Rightarrow> bool" where
  "key_of_category (ById i) c \<longleftrightarrow> cg_id c = i"
| "key_of_category (BySlug s) c \<longleftrightarrow> cg_slug c = s"

fun key_of_tag :: "row_key \<Rightarrow> tag_row \<Rightarrow> bool" where
  "key_of_tag (ById i) g \<longleftrightarrow> tg_id g = i"
| "key_of_tag (BySlug s) g \<longleftrightarrow> tg_slug g = s"

definition q_category :: "row_key \<Rightarrow> catalog \<Rightarrow> category_row option" where
  "q_category k t = find_row (key_of_category k) (ct_categories t)"

text \<open>\<open>orderBy: [parentId asc, name asc]\<close>: roots last, names by code unit.\<close>

definition category_order :: "category_row \<Rightarrow> int list" where
  "category_order c = (case cg_parentId c of None \<Rightarrow> [1, 0] | Some p \<Rightarrow> [0, p]) @ map of_char (cg_name c)"

datatype category_where = CgText string | CgParent "int option"

fun category_matches :: "category_where \<Rightarrow> category_row \<Rightarrow> bool" where
  "category_matches (CgText s) c \<longleftrightarrow> contains_ci s (Some (cg_name c)) \<or> contains_ci s (Some (cg_slug c))"
| "category_matches (CgParent p) c \<longleftrightarrow> cg_parentId c = p"

definition q_categories :: "category_where list \<Rightarrow> nat option \<Rightarrow> catalog \<Rightarrow> category_row list" where
  "q_categories ws n t =
     (let rows = sort_key category_order (filter (\<lambda>c. \<forall>w \<in> set ws. category_matches w c) (ct_categories t))
      in case n of None \<Rightarrow> rows | Some k \<Rightarrow> take k rows)"

text \<open>Tags with the number of their products.\<close>

definition tag_count :: "catalog \<Rightarrow> tag_row \<Rightarrow> int" where
  "tag_count t g = int (length (filter (\<lambda>l. snd l = tg_id g) (ct_prodtags t)))"

datatype tag_where = TgText string | TgUsed

fun tag_matches :: "catalog \<Rightarrow> tag_where \<Rightarrow> tag_row \<Rightarrow> bool" where
  "tag_matches t (TgText s) g \<longleftrightarrow> contains_ci s (Some (tg_name g)) \<or> contains_ci s (Some (tg_slug g))"
| "tag_matches t TgUsed g \<longleftrightarrow> tag_count t g > 0"

definition q_tags :: "tag_where list \<Rightarrow> bool \<Rightarrow> nat \<Rightarrow> catalog \<Rightarrow> (tag_row \<times> int) list" where
  "q_tags ws by_count n t =
     map (\<lambda>g. (g, tag_count t g))
       (take n (sort_key (\<lambda>g. (if by_count then [- tag_count t g] else []) @ map of_char (tg_name g))
         (filter (\<lambda>g. \<forall>w \<in> set ws. tag_matches t w g) (ct_tags t))))"

definition q_tag :: "row_key \<Rightarrow> catalog \<Rightarrow> (tag_row \<times> int) option" where
  "q_tag k t = map_option (\<lambda>g. (g, tag_count t g)) (find_row (key_of_tag k) (ct_tags t))"

section \<open>Writes\<close>

record product_data =
  pd_slug :: string
  pd_title :: string
  pd_description :: "string option"
  pd_coverUrl :: "string option"
  pd_file :: "int option"
  pd_topic :: "string option"
  pd_graphicFormat :: string
  pd_seoTitle :: "string option"
  pd_seoDescription :: "string option"
  pd_seoKeywords :: "string list"
  pd_pricingType :: string
  pd_price :: "int option"
  pd_status :: string
  pd_publishedAt :: "int option"
  pd_authors :: "string list"
  pd_categories :: "int list"
  pd_tags :: "int list"

text \<open>An update; \<open>None\<close> is \<open>undefined\<close>, which leaves the column as it is.\<close>

datatype file_change = FileConnect int | FileDisconnect

record product_patch =
  pp_slug :: "string option"
  pp_title :: "string option"
  pp_description :: "string option"
  pp_coverUrl :: "string option"
  pp_topic :: "string option"
  pp_seoTitle :: "string option"
  pp_seoDescription :: "string option"
  pp_seoKeywords :: "string list option"
  pp_pricingType :: "string option"
  pp_price :: "int option option"
  pp_status :: "string option"
  pp_publishedAt :: "int option"
  pp_graphicFormat :: "string option"
  pp_file :: "file_change option"

datatype parent_change = ParentConnect int | ParentDisconnect

text \<open>
  The write calls. The flag of a creation says that the relations are given by \<open>connect\<close>,
  whose error differs from that of a foreign key. A reference that may be \<open>NULL\<close> becomes so
  when its row is deleted, a required one forbids the deletion. The ones in the plural are \<open>deleteMany\<close>,
  \<open>createMany\<close> with \<open>skipDuplicates\<close>, and \<open>updateMany\<close>.
\<close>

datatype cat_write =
    ProductCreate product_data
  | ProductUpdate int product_patch
  | ProductIncrement "(counter \<times> int) list" int
  | LikeCreate bool string int
  | LikeDelete string int
  | BookmarkCreate string int
  | BookmarkDelete string int
  | BookmarkDeleteMany string int
  | DownloadCreate bool string int "int option" "int option" "string option"
  | ViewCreate int "string option" "string option" "string option"
  | SuppliersDeleteMany int
  | SuppliersCreateMany int "string list"
  | ProdCatsDeleteOthers int "int list"
  | ProdCatsCreateMany int "int list"
  | ProdCatsDeleteOf int
  | ProdTagsDeleteOthers int "int list"
  | ProdTagsCreateMany int "int list"
  | ProdTagsDeleteOf int
  | CategoryCreate string string "int option"
  | CategoryUpdate int "string option" "string option" "parent_change option"
  | CategoryMoveChildren int "int option"
  | CategoryDelete int
  | TagCreate string string
  | TagUpdate int "string option" "string option"
  | TagDelete int

definition prisma :: "string \<Rightarrow> exn" where
  "prisma code = JsError code"

abbreviation missing :: exn where
  "missing \<equiv> prisma ''P2025''"

abbreviation duplicate :: exn where
  "duplicate \<equiv> prisma ''P2002''"

abbreviation foreign_key :: exn where
  "foreign_key \<equiv> prisma ''P2003''"

text \<open>The range of an \<open>Int\<close> column.\<close>

definition int4 :: "int \<Rightarrow> bool" where
  "int4 n \<longleftrightarrow> - (2 ^ 31) \<le> n \<and> n < 2 ^ 31"

definition out_of_range :: exn where
  "out_of_range = JsError ''integer out of range''"

fun bump_count :: "counter \<times> int \<Rightarrow> product_row \<Rightarrow> product_row" where
  "bump_count (Views, n) r = r\<lparr>pr_viewsCount := pr_viewsCount r + n\<rparr>"
| "bump_count (Downloads, n) r = r\<lparr>pr_downloadsCount := pr_downloadsCount r + n\<rparr>"
| "bump_count (Likes, n) r = r\<lparr>pr_likesCount := pr_likesCount r + n\<rparr>"

definition bump_row :: "int \<Rightarrow> (counter \<times> int) list \<Rightarrow> product_row \<Rightarrow> product_row" where
  "bump_row now cs r = (fold bump_count cs r)\<lparr>pr_updatedAt := now\<rparr>"

definition counts_fit :: "product_row \<Rightarrow> bool" where
  "counts_fit r \<longleftrightarrow> int4 (pr_viewsCount r) \<and> int4 (pr_downloadsCount r) \<and> int4 (pr_likesCount r)"

definition change_row :: "int \<Rightarrow> (product_row \<Rightarrow> product_row) \<Rightarrow> catalog \<Rightarrow> catalog" where
  "change_row p f t = t\<lparr>ct_products := map (\<lambda>r. if pr_id r = p then f r else r) (ct_products t)\<rparr>"

definition patch_row :: "int \<Rightarrow> product_patch \<Rightarrow> product_row \<Rightarrow> product_row" where
  "patch_row now p r = r\<lparr>
     pr_slug := case_option (pr_slug r) id (pp_slug p),
     pr_title := case_option (pr_title r) id (pp_title p),
     pr_description := (case pp_description p of None \<Rightarrow> pr_description r | x \<Rightarrow> x),
     pr_coverUrl := (case pp_coverUrl p of None \<Rightarrow> pr_coverUrl r | x \<Rightarrow> x),
     pr_fileId := (case pp_file p of None \<Rightarrow> pr_fileId r | Some (FileConnect f) \<Rightarrow> Some f | Some FileDisconnect \<Rightarrow> None),
     pr_topic := (case pp_topic p of None \<Rightarrow> pr_topic r | x \<Rightarrow> x),
     pr_graphicFormat := case_option (pr_graphicFormat r) id (pp_graphicFormat p),
     pr_seoTitle := (case pp_seoTitle p of None \<Rightarrow> pr_seoTitle r | x \<Rightarrow> x),
     pr_seoDescription := (case pp_seoDescription p of None \<Rightarrow> pr_seoDescription r | x \<Rightarrow> x),
     pr_seoKeywords := case_option (pr_seoKeywords r) id (pp_seoKeywords p),
     pr_pricingType := case_option (pr_pricingType r) id (pp_pricingType p),
     pr_price := case_option (pr_price r) id (pp_price p),
     pr_status := case_option (pr_status r) id (pp_status p),
     pr_publishedAt := (case pp_publishedAt p of None \<Rightarrow> pr_publishedAt r | x \<Rightarrow> x),
     pr_updatedAt := now\<rparr>"

definition new_row :: "int \<Rightarrow> int \<Rightarrow> product_data \<Rightarrow> product_row" where
  "new_row now i d = \<lparr>pr_id = i, pr_slug = pd_slug d, pr_title = pd_title d, pr_description = pd_description d,
     pr_coverUrl = pd_coverUrl d, pr_fileId = pd_file d, pr_topic = pd_topic d, pr_graphicFormat = pd_graphicFormat d,
     pr_shortLink = None, pr_seoTitle = pd_seoTitle d, pr_seoDescription = pd_seoDescription d, pr_seoKeywords = pd_seoKeywords d,
     pr_pricingType = pd_pricingType d, pr_price = pd_price d, pr_status = pd_status d, pr_publishedAt = pd_publishedAt d,
     pr_viewsCount = 0, pr_downloadsCount = 0, pr_likesCount = 0, pr_createdAt = now, pr_updatedAt = now\<rparr>"

text \<open>The first constraint that fails decides the error, and then nothing is written.\<close>

definition checked :: "(bool \<times> exn) list \<Rightarrow> catalog \<Rightarrow> int \<Rightarrow> catalog \<Rightarrow> (exn + int) \<times> catalog" where
  "checked cs t v t' = (case find_row fst cs of Some c \<Rightarrow> (Inl (snd c), t) | None \<Rightarrow> (Inr v, t'))"

definition rel_error :: "bool \<Rightarrow> exn" where
  "rel_error connect = (if connect then missing else foreign_key)"

fun write_sem :: "int \<Rightarrow> cat_write \<Rightarrow> catalog \<Rightarrow> (exn + int) \<times> catalog" where
  "write_sem now (ProductCreate d) t =
     checked [(pd_slug d \<in> pr_slug ` set (ct_products t), duplicate),
       (\<exists>f \<in> set_option (pd_file d). f \<notin> fst ` set (ct_files t), missing),
       (\<exists>f \<in> set_option (pd_file d). Some f \<in> pr_fileId ` set (ct_products t), duplicate),
       (\<not> distinct (pd_authors d) \<or> \<not> distinct (pd_categories d) \<or> \<not> distinct (pd_tags d), duplicate),
       (\<not> (set (pd_authors d) \<subseteq> set (ct_users t)) \<or> \<not> (set (pd_categories d) \<subseteq> set (category_ids t)) \<or> \<not> (set (pd_tags d) \<subseteq> set (tag_ids t)), foreign_key)]
       t (ct_next t)
       (t\<lparr>ct_products := ct_products t @ [new_row now (ct_next t) d],
          ct_suppliers := ct_suppliers t @ map (\<lambda>u. (ct_next t, u)) (pd_authors d),
          ct_prodcats := ct_prodcats t @ map (\<lambda>c. (ct_next t, c)) (pd_categories d),
          ct_prodtags := ct_prodtags t @ map (\<lambda>g. (ct_next t, g)) (pd_tags d),
          ct_next := ct_next t + 1\<rparr>)"
| "write_sem now (ProductUpdate p d) t =
     checked [(p \<notin> set (product_ids t), missing),
       (\<exists>s \<in> set_option (pp_slug d). \<exists>r \<in> set (ct_products t). pr_id r \<noteq> p \<and> pr_slug r = s, duplicate),
       (\<exists>c \<in> set_option (pp_file d). \<exists>f \<in> fst ` set (ct_files t). c = FileConnect f \<and>
          (\<exists>r \<in> set (ct_products t). pr_id r \<noteq> p \<and> pr_fileId r = Some f), duplicate),
       (\<exists>c \<in> set_option (pp_file d). c \<noteq> FileDisconnect \<and> c \<notin> (\<lambda>f. FileConnect (fst f)) ` set (ct_files t), missing)]
       t p (change_row p (patch_row now d) t)"
| "write_sem now (ProductIncrement cs p) t =
     checked [(p \<notin> set (product_ids t), missing),
       (\<exists>r \<in> set (ct_products t). pr_id r = p \<and> \<not> counts_fit (bump_row now cs r), out_of_range)]
       t p (change_row p (bump_row now cs) t)"
| "write_sem now (LikeCreate connect u p) t =
     checked [(u \<notin> set (ct_users t) \<or> p \<notin> set (product_ids t), rel_error connect), (q_mark ct_likes u p t \<noteq> None, duplicate)]
       t p (t\<lparr>ct_likes := ct_likes t @ [\<lparr>mk_userId = u, mk_productId = p, mk_createdAt = now\<rparr>]\<rparr>)"
| "write_sem now (LikeDelete u p) t =
     checked [(q_mark ct_likes u p t = None, missing)]
       t p (t\<lparr>ct_likes := filter (\<lambda>m. \<not> (mk_userId m = u \<and> mk_productId m = p)) (ct_likes t)\<rparr>)"
| "write_sem now (BookmarkCreate u p) t =
     checked [(u \<notin> set (ct_users t) \<or> p \<notin> set (product_ids t), foreign_key), (q_mark ct_bookmarks u p t \<noteq> None, duplicate)]
       t p (t\<lparr>ct_bookmarks := ct_bookmarks t @ [\<lparr>mk_userId = u, mk_productId = p, mk_createdAt = now\<rparr>]\<rparr>)"
| "write_sem now (BookmarkDelete u p) t =
     checked [(q_mark ct_bookmarks u p t = None, missing)]
       t p (t\<lparr>ct_bookmarks := filter (\<lambda>m. \<not> (mk_userId m = u \<and> mk_productId m = p)) (ct_bookmarks t)\<rparr>)"
| "write_sem now (BookmarkDeleteMany u p) t =
     (Inr p, t\<lparr>ct_bookmarks := filter (\<lambda>m. \<not> (mk_userId m = u \<and> mk_productId m = p)) (ct_bookmarks t)\<rparr>)"
| "write_sem now (DownloadCreate connect u p b pr ip) t =
     checked [(u \<notin> set (ct_users t) \<or> p \<notin> set (product_ids t), rel_error connect)]
       t (ct_next t)
       (t\<lparr>ct_downloads := ct_downloads t @ [\<lparr>dl_id = ct_next t, dl_productId = p, dl_userId = u, dl_bytes = b,
            dl_pricePaid = pr, dl_ip = ip, dl_createdAt = now\<rparr>], ct_next := ct_next t + 1\<rparr>)"
| "write_sem now (ViewCreate p u ip ua) t =
     checked [(p \<notin> set (product_ids t) \<or> (\<exists>x \<in> set_option u. x \<notin> set (ct_users t)), foreign_key)]
       t p (t\<lparr>ct_views := ct_views t @ [\<lparr>vw_productId = p, vw_userId = u, vw_ip = ip, vw_ua = ua\<rparr>]\<rparr>)"
| "write_sem now (SuppliersDeleteMany p) t = (Inr p, t\<lparr>ct_suppliers := filter (\<lambda>l. fst l \<noteq> p) (ct_suppliers t)\<rparr>)"
| "write_sem now (SuppliersCreateMany p us) t =
     checked [(p \<notin> set (product_ids t) \<or> \<not> (set us \<subseteq> set (ct_users t)), foreign_key)]
       t p (t\<lparr>ct_suppliers := ct_suppliers t @ map (\<lambda>u. (p, u)) (filter (\<lambda>u. (p, u) \<notin> set (ct_suppliers t)) (js_unique us))\<rparr>)"
| "write_sem now (ProdCatsDeleteOthers p cs) t =
     (Inr p, t\<lparr>ct_prodcats := filter (\<lambda>l. \<not> (fst l = p \<and> snd l \<notin> set cs)) (ct_prodcats t)\<rparr>)"
| "write_sem now (ProdCatsCreateMany p cs) t =
     checked [(p \<notin> set (product_ids t) \<or> \<not> (set cs \<subseteq> set (category_ids t)), foreign_key)]
       t p (t\<lparr>ct_prodcats := ct_prodcats t @ map (\<lambda>c. (p, c)) (filter (\<lambda>c. (p, c) \<notin> set (ct_prodcats t)) (js_unique cs))\<rparr>)"
| "write_sem now (ProdCatsDeleteOf c) t = (Inr c, t\<lparr>ct_prodcats := filter (\<lambda>l. snd l \<noteq> c) (ct_prodcats t)\<rparr>)"
| "write_sem now (ProdTagsDeleteOthers p gs) t =
     (Inr p, t\<lparr>ct_prodtags := filter (\<lambda>l. \<not> (fst l = p \<and> snd l \<notin> set gs)) (ct_prodtags t)\<rparr>)"
| "write_sem now (ProdTagsCreateMany p gs) t =
     checked [(p \<notin> set (product_ids t) \<or> \<not> (set gs \<subseteq> set (tag_ids t)), foreign_key)]
       t p (t\<lparr>ct_prodtags := ct_prodtags t @ map (\<lambda>g. (p, g)) (filter (\<lambda>g. (p, g) \<notin> set (ct_prodtags t)) (js_unique gs))\<rparr>)"
| "write_sem now (ProdTagsDeleteOf g) t = (Inr g, t\<lparr>ct_prodtags := filter (\<lambda>l. snd l \<noteq> g) (ct_prodtags t)\<rparr>)"
| "write_sem now (CategoryCreate n s parent) t =
     checked [(s \<in> cg_slug ` set (ct_categories t), duplicate), (\<exists>q \<in> set_option parent. q \<notin> set (category_ids t), foreign_key)]
       t (ct_next t)
       (t\<lparr>ct_categories := ct_categories t @ [\<lparr>cg_id = ct_next t, cg_name = n, cg_slug = s, cg_parentId = parent\<rparr>], ct_next := ct_next t + 1\<rparr>)"
| "write_sem now (CategoryUpdate i n s parent) t =
     checked [(i \<notin> set (category_ids t), missing),
       (\<exists>x \<in> set_option s. \<exists>c \<in> set (ct_categories t). cg_id c \<noteq> i \<and> cg_slug c = x, duplicate),
       (\<exists>q \<in> set_option parent. q \<noteq> ParentDisconnect \<and> q \<notin> ParentConnect ` set (category_ids t), missing)]
       t i (t\<lparr>ct_categories := map (\<lambda>c. if cg_id c = i then c\<lparr>cg_name := case_option (cg_name c) id n, cg_slug := case_option (cg_slug c) id s,
            cg_parentId := (case parent of None \<Rightarrow> cg_parentId c | Some (ParentConnect q) \<Rightarrow> Some q | Some ParentDisconnect \<Rightarrow> None)\<rparr> else c)
          (ct_categories t)\<rparr>)"
| "write_sem now (CategoryMoveChildren i parent) t =
     checked [(\<exists>c \<in> set (ct_categories t). cg_parentId c = Some i \<and> (\<exists>q \<in> set_option parent. q \<notin> set (category_ids t)), foreign_key)]
       t i (t\<lparr>ct_categories := map (\<lambda>c. if cg_parentId c = Some i then c\<lparr>cg_parentId := parent\<rparr> else c) (ct_categories t)\<rparr>)"
| "write_sem now (CategoryDelete i) t =
     checked [(i \<notin> set (category_ids t), missing),
       (i \<in> snd ` set (ct_prodcats t), foreign_key)]
       t i (t\<lparr>ct_categories := map (\<lambda>c. if cg_parentId c = Some i then c\<lparr>cg_parentId := None\<rparr> else c)
          (filter (\<lambda>c. cg_id c \<noteq> i) (ct_categories t))\<rparr>)"
| "write_sem now (TagCreate n s) t =
     checked [(n \<in> tg_name ` set (ct_tags t) \<or> s \<in> tg_slug ` set (ct_tags t), duplicate)]
       t (ct_next t) (t\<lparr>ct_tags := ct_tags t @ [\<lparr>tg_id = ct_next t, tg_name = n, tg_slug = s\<rparr>], ct_next := ct_next t + 1\<rparr>)"
| "write_sem now (TagUpdate i n s) t =
     checked [(i \<notin> set (tag_ids t), missing),
       (\<exists>g \<in> set (ct_tags t). tg_id g \<noteq> i \<and> (Some (tg_name g) = n \<or> Some (tg_slug g) = s), duplicate)]
       t i (t\<lparr>ct_tags := map (\<lambda>g. if tg_id g = i then g\<lparr>tg_name := case_option (tg_name g) id n, tg_slug := case_option (tg_slug g) id s\<rparr> else g) (ct_tags t)\<rparr>)"
| "write_sem now (TagDelete i) t =
     checked [(i \<notin> set (tag_ids t), missing), (i \<in> snd ` set (ct_prodtags t), foreign_key)]
       t i (t\<lparr>ct_tags := filter (\<lambda>g. tg_id g \<noteq> i) (ct_tags t)\<rparr>)"

section \<open>Constraints of the schema\<close>

definition mark_key :: "mark \<Rightarrow> string \<times> int" where
  "mark_key m = (mk_userId m, mk_productId m)"

definition ids_ok :: "int \<Rightarrow> int list \<Rightarrow> bool" where
  "ids_ok n ids \<longleftrightarrow> distinct ids \<and> (\<forall>i \<in> set ids. i < n)"

definition links_ok :: "int \<Rightarrow> (int \<times> 'a) list \<Rightarrow> bool" where
  "links_ok n ls \<longleftrightarrow> distinct ls \<and> (\<forall>l \<in> set ls. fst l < n)"

definition marks_ok :: "mark list \<Rightarrow> bool" where
  "marks_ok ms \<longleftrightarrow> distinct (map mark_key ms)"

definition parents_ok :: "category_row list \<Rightarrow> bool" where
  "parents_ok cs \<longleftrightarrow> (\<forall>c \<in> set cs. \<forall>q. cg_parentId c = Some q \<longrightarrow> q \<in> cg_id ` set cs)"

text \<open>Generated identifiers are below the next one, keys are unique, references point to a row.\<close>

definition catalog_wf :: "catalog \<Rightarrow> bool" where
  "catalog_wf t \<longleftrightarrow> ids_ok (ct_next t) (product_ids t) \<and> ids_ok (ct_next t) (category_ids t) \<and>
     ids_ok (ct_next t) (map dl_id (ct_downloads t)) \<and> marks_ok (ct_likes t) \<and> marks_ok (ct_bookmarks t) \<and>
     links_ok (ct_next t) (ct_suppliers t) \<and> links_ok (ct_next t) (ct_prodcats t) \<and> links_ok (ct_next t) (ct_prodtags t) \<and>
     mk_productId ` set (ct_likes t) \<subseteq> set (product_ids t) \<and> mk_productId ` set (ct_bookmarks t) \<subseteq> set (product_ids t) \<and>
     dl_productId ` set (ct_downloads t) \<subseteq> set (product_ids t) \<and> parents_ok (ct_categories t)"

lemma find_row_Some: "find_row P xs = Some x \<Longrightarrow> x \<in> set xs \<and> P x"
  unfolding find_row_def by (auto simp: find_Some_iff)

lemma find_row_None [simp]: "find_row P xs = None \<longleftrightarrow> (\<forall>x \<in> set xs. \<not> P x)"
  unfolding find_row_def by (auto simp: find_None_iff)

lemma checked_cases:
  "checked cs t v t' = (if \<forall>c \<in> set cs. \<not> fst c then (Inr v, t') else (Inl (snd (the (find_row fst cs))), t))"
proof (cases "find_row fst cs")
  case None
  then have "\<forall>c \<in> set cs. \<not> fst c" by simp
  with None show ?thesis by (simp only: checked_def) simp
next
  case (Some c)
  then have "\<exists>c \<in> set cs. fst c" using find_row_Some by fast
  with Some show ?thesis by (auto simp: checked_def)
qed

lemma checked_snd: "snd (checked cs t v t') = (if \<forall>c \<in> set cs. \<not> fst c then t' else t)"
  by (simp add: checked_cases)

lemma q_mark_None: "q_mark tab u p t = None \<longleftrightarrow> (u, p) \<notin> mark_key ` set (tab t)"
  by (auto simp: q_mark_def mark_key_def)

lemma bump_count_id [simp]: "pr_id (bump_count c r) = pr_id r"
  by (cases c; cases "fst c") simp_all

lemma fold_bump_id [simp]: "pr_id (fold bump_count cs r) = pr_id r"
  by (induction cs arbitrary: r) simp_all

lemma row_ids [simp]: "pr_id (bump_row now cs r) = pr_id r" "pr_id (patch_row now d r) = pr_id r" "pr_id (new_row now i pd) = i"
  by (simp_all add: bump_row_def patch_row_def new_row_def)

lemma change_ids: "(\<And>r. pr_id (f r) = pr_id r) \<Longrightarrow> product_ids (change_row p f t) = product_ids t"
  by (simp add: product_ids_def change_row_def comp_def cong: map_cong)

lemma ids_ok_rules:
  "ids_ok n ids \<Longrightarrow> ids_ok (n + 1) (ids @ [n])" "ids_ok n ids \<Longrightarrow> ids_ok (n + 1) ids"
  "ids_ok n (map f xs) \<Longrightarrow> ids_ok n (map f (filter P xs))"
  by (auto simp: ids_ok_def distinct_map_filter)

lemma links_ok_new: "links_ok n ls \<Longrightarrow> distinct us \<Longrightarrow> links_ok (n + 1) (ls @ map (\<lambda>u. (n, u)) us)"
  by (auto simp: links_ok_def distinct_map inj_on_def)

lemma links_ok_later: "links_ok n ls \<Longrightarrow> links_ok (n + 1) ls"
  by (auto simp: links_ok_def)

lemma links_ok_filter: "links_ok n ls \<Longrightarrow> links_ok n (filter P ls)"
  by (auto simp: links_ok_def)

lemma links_ok_more:
  "links_ok n ls \<Longrightarrow> p < n \<Longrightarrow> distinct us \<Longrightarrow> links_ok n (ls @ map (\<lambda>u. (p, u)) (filter (\<lambda>u. (p, u) \<notin> set ls) us))"
  by (auto simp: links_ok_def distinct_map inj_on_def)

lemma marks_ok_new: "marks_ok ms \<Longrightarrow> (u, p) \<notin> mark_key ` set ms \<Longrightarrow> marks_ok (ms @ [\<lparr>mk_userId = u, mk_productId = p, mk_createdAt = d\<rparr>])"
  by (simp add: marks_ok_def mark_key_def)

lemma marks_ok_filter: "marks_ok ms \<Longrightarrow> marks_ok (filter P ms)"
  by (simp add: marks_ok_def distinct_map_filter)

lemma parents_ok_change:
  assumes "parents_ok cs" and "\<And>c. cg_id (f c) = cg_id c"
    and "\<And>c q. c \<in> set cs \<Longrightarrow> cg_parentId (f c) = Some q \<Longrightarrow> cg_parentId (f c) = cg_parentId c \<or> q \<in> cg_id ` set cs"
  shows "parents_ok (map f cs)"
  unfolding parents_ok_def
proof (intro ballI allI impI)
  fix c q
  assume "c \<in> set (map f cs)" and q: "cg_parentId c = Some q"
  then obtain c0 where c0: "c0 \<in> set cs" "c = f c0" by auto
  have "q \<in> cg_id ` set cs" using assms(1) assms(3) [of c0 q] c0 q unfolding parents_ok_def by auto
  then show "q \<in> cg_id ` set (map f cs)" using assms(2) by (simp add: image_image)
qed

lemma parents_ok_new: "parents_ok cs \<Longrightarrow> (\<And>q. cg_parentId c = Some q \<Longrightarrow> q \<in> cg_id ` set cs) \<Longrightarrow> parents_ok (cs @ [c])"
  by (auto simp: parents_ok_def)

lemma parents_ok_delete:
  "parents_ok cs \<Longrightarrow> parents_ok (map (\<lambda>c. if cg_parentId c = Some i then c\<lparr>cg_parentId := None\<rparr> else c) (filter (\<lambda>c. cg_id c \<noteq> i) cs))"
proof -
  let ?f = "\<lambda>c. if cg_parentId c = Some i then c\<lparr>cg_parentId := None\<rparr> else c" and ?cs = "filter (\<lambda>c. cg_id c \<noteq> i) cs"
  assume p: "parents_ok cs"
  have *: "q \<in> cg_id ` set (map ?f ?cs)" if "c \<in> set ?cs" "cg_parentId (?f c) = Some q" for c q
  proof -
    have q: "cg_parentId c = Some q" "q \<noteq> i" using that(2) by (auto split: if_splits)
    moreover from that(1) have "c \<in> set cs" by simp
    ultimately have "q \<in> cg_id ` set cs" using p unfolding parents_ok_def by blast
    then obtain c1 where c1: "c1 \<in> set cs" "cg_id c1 = q" by blast
    then have "c1 \<in> set ?cs" using q(2) by simp
    then have "cg_id (?f c1) \<in> cg_id ` ?f ` set ?cs" by (intro imageI)
    moreover have "cg_id (?f c1) = q" using c1(2) by simp
    ultimately show ?thesis unfolding set_map by (simp only:)
  qed
  show "parents_ok (map ?f ?cs)" unfolding parents_ok_def
  proof (intro ballI allI impI)
    fix c q
    assume "c \<in> set (map ?f ?cs)" "cg_parentId c = Some q"
    moreover from calculation(1) obtain c0 where "c0 \<in> set ?cs" "c = ?f c0" unfolding set_map by blast
    ultimately show "q \<in> cg_id ` set (map ?f ?cs)" using * by blast
  qed
qed

lemma wf_change: "(\<And>r. pr_id (f r) = pr_id r) \<Longrightarrow> catalog_wf t \<Longrightarrow> catalog_wf (change_row p f t)"
  using change_ids [of f p t] by (simp add: catalog_wf_def category_ids_def) (simp add: change_row_def)

lemmas wf_parts = catalog_wf_def product_ids_def category_ids_def

lemma wf_write:
  assumes "catalog_wf t"
  shows "catalog_wf (snd (write_sem now w t))"
proof (cases w)
  case (ProductCreate d)
  show ?thesis
  proof (cases "catalog_wf (snd (write_sem now w t)) \<or> snd (write_sem now w t) = t")
    case False
    then have "distinct (pd_authors d)" "distinct (pd_categories d)" "distinct (pd_tags d)"
      unfolding ProductCreate by (auto simp: checked_snd split: if_splits)
    then have "links_ok (ct_next t + 1) (ct_suppliers t @ map (\<lambda>u. (ct_next t, u)) (pd_authors d))"
      "links_ok (ct_next t + 1) (ct_prodcats t @ map (\<lambda>u. (ct_next t, u)) (pd_categories d))"
      "links_ok (ct_next t + 1) (ct_prodtags t @ map (\<lambda>u. (ct_next t, u)) (pd_tags d))"
      using assms by (simp_all add: catalog_wf_def links_ok_new)
    then show ?thesis using assms unfolding ProductCreate
      by (auto simp: checked_snd wf_parts ids_ok_rules)
  qed (use assms in auto)
next
  case (ProductUpdate p d)
  with assms show ?thesis by (simp add: checked_snd wf_change)
next
  case (ProductIncrement cs p)
  with assms show ?thesis by (simp add: checked_snd wf_change)
next
  case (LikeCreate c u p)
  with assms show ?thesis by (auto simp: checked_snd wf_parts q_mark_None marks_ok_new)
next
  case (LikeDelete u p)
  with assms show ?thesis by (auto simp: checked_snd wf_parts marks_ok_filter)
next
  case (BookmarkCreate u p)
  with assms show ?thesis by (auto simp: checked_snd wf_parts q_mark_None marks_ok_new)
next
  case (DownloadCreate c u p b pr ip)
  with assms show ?thesis by (auto simp: checked_snd wf_parts ids_ok_rules links_ok_later)
next
  case (SuppliersCreateMany p us)
  have "p \<in> set (product_ids t) \<Longrightarrow> p < ct_next t" using assms by (simp add: catalog_wf_def ids_ok_def)
  with SuppliersCreateMany assms show ?thesis by (simp add: checked_snd catalog_wf_def links_ok_more product_ids_def category_ids_def)
next
  case (ProdCatsCreateMany p cs)
  have "p \<in> set (product_ids t) \<Longrightarrow> p < ct_next t" using assms by (simp add: catalog_wf_def ids_ok_def)
  with ProdCatsCreateMany assms show ?thesis by (simp add: checked_snd catalog_wf_def links_ok_more product_ids_def category_ids_def)
next
  case (ProdTagsCreateMany p gs)
  have "p \<in> set (product_ids t) \<Longrightarrow> p < ct_next t" using assms by (simp add: catalog_wf_def ids_ok_def)
  with ProdTagsCreateMany assms show ?thesis by (simp add: checked_snd catalog_wf_def links_ok_more product_ids_def category_ids_def)
next
  case (CategoryCreate n s parent)
  with assms show ?thesis by (auto simp: checked_snd wf_parts ids_ok_rules links_ok_later intro!: parents_ok_new)
next
  case (CategoryUpdate i n s parent)
  let ?f = "\<lambda>c. if cg_id c = i then c\<lparr>cg_name := case_option (cg_name c) id n, cg_slug := case_option (cg_slug c) id s,
            cg_parentId := (case parent of None \<Rightarrow> cg_parentId c | Some (ParentConnect q) \<Rightarrow> Some q | Some ParentDisconnect \<Rightarrow> None)\<rparr> else c"
  have "parents_ok (map ?f (ct_categories t))" if "\<And>q. parent = Some (ParentConnect q) \<Longrightarrow> q \<in> set (category_ids t)"
    using assms that by (intro parents_ok_change) (auto simp: catalog_wf_def category_ids_def split: if_splits option.splits parent_change.splits)
  moreover have "map cg_id (map ?f (ct_categories t)) = map cg_id (ct_categories t)" by simp
  ultimately show ?thesis using assms unfolding CategoryUpdate
    by (auto simp: checked_snd wf_parts comp_def cong: map_cong if_cong)
next
  case (CategoryMoveChildren i parent)
  let ?f = "\<lambda>c. if cg_parentId c = Some i then c\<lparr>cg_parentId := parent\<rparr> else c"
  have "parents_ok (map ?f (ct_categories t))"
    if "\<And>c q. c \<in> set (ct_categories t) \<Longrightarrow> cg_parentId c = Some i \<Longrightarrow> parent = Some q \<Longrightarrow> q \<in> set (category_ids t)"
    using assms that by (intro parents_ok_change) (auto simp: catalog_wf_def category_ids_def split: if_splits)
  then show ?thesis using assms unfolding CategoryMoveChildren
    by (auto simp: checked_snd wf_parts comp_def if_distrib [of cg_id] cong: map_cong if_cong)
next
  case (CategoryDelete i)
  with assms show ?thesis by (auto simp: checked_snd wf_parts ids_ok_rules parents_ok_delete comp_def if_distrib [of cg_id] cong: if_cong)
qed (use assms in \<open>auto simp: checked_snd wf_parts links_ok_filter marks_ok_filter ids_ok_rules links_ok_later\<close>)

end
