(* ===== verification/Cursor.thy ===== *)
theory Cursor
  imports Token Paths
begin

text \<open>
  The opaque cursors of the catalogue's lists: \<open>encodeCursor\<close> and \<open>decodeCursor\<close>, of which
  \<open>product.service.ts\<close>, \<open>likes.service.ts\<close>, \<open>bookmarks.service.ts\<close> and
  \<open>downloads.service.ts\<close> each have a copy, over the library functions they use: base64url,
  UTF-8, \<open>toISOString\<close>, \<open>new Date\<close> and \<open>BigInt\<close>. What is encoded is ASCII.
\<close>

section \<open>Base64url\<close>

text \<open>Bytes to groups of six bits.\<close>

fun sextets :: "nat list \<Rightarrow> nat list" where
  "sextets [] = []"
| "sextets [a] = [a div 4, (a mod 4) * 16]"
| "sextets [a, b] = [a div 4, (a mod 4) * 16 + b div 16, (b mod 16) * 4]"
| "sextets (a # b # c # r) = [a div 4, (a mod 4) * 16 + b div 16, (b mod 16) * 4 + c div 64, c mod 64] @ sextets r"

fun octets :: "nat list \<Rightarrow> nat list" where
  "octets [] = []"
| "octets [x] = []"
| "octets [x, y] = [x * 4 + y div 16]"
| "octets [x, y, z] = [x * 4 + y div 16, (y mod 16) * 16 + z div 4]"
| "octets (x # y # z # w # r) = [x * 4 + y div 16, (y mod 16) * 16 + z div 4, (z mod 4) * 64 + w] @ octets r"

definition b64_char :: "nat \<Rightarrow> char" where
  "b64_char n = (if n < 26 then char_of (65 + n) else if n < 52 then char_of (71 + n) else if n < 62 then char_of (n - 4)
     else if n = 62 then CHR ''-'' else CHR ''_'')"

definition b64_val :: "char \<Rightarrow> nat option" where
  "b64_val c =
     (if is_upper c then Some (of_char c - 65) else if is_lower c then Some (of_char c - 71)
      else if is_digit c then Some (of_char c + 4)
      else if c = CHR ''-'' \<or> c = CHR ''+'' then Some 62 else if c = CHR ''_'' \<or> c = CHR ''/'' then Some 63 else None)"

text \<open>The decoder skips what is not of the alphabet and stops at the padding.\<close>

definition base64url :: "nat list \<Rightarrow> string" where
  "base64url bs = map b64_char (sextets bs)"

definition from_base64url :: "string \<Rightarrow> nat list" where
  "from_base64url s = octets (List.map_filter b64_val (takeWhile (\<lambda>c. c \<noteq> CHR ''='') s))"

lemma sextets_less: "\<forall>b \<in> set bs. b < 256 \<Longrightarrow> x \<in> set (sextets bs) \<Longrightarrow> x < 64"
  by (induction bs rule: sextets.induct) auto

lemma octets_sextets: "\<forall>b \<in> set bs. b < 256 \<Longrightarrow> octets (sextets bs) = bs"
  by (induction bs rule: sextets.induct) auto

lemma b64_round: "n < 64 \<Longrightarrow> b64_val (b64_char n) = Some n"
proof -
  assume n: "n < 64"
  consider "n < 26" | "26 \<le> n" "n < 52" | "52 \<le> n" "n < 62" | "n = 62" | "n = 63" using n by linarith
  then show ?thesis
  proof cases
    case 3
    then obtain m where "n = m + 52" "m < 10" using le_add_diff_inverse2 [of 52 n] by (intro that [of "n - 52"]) simp_all
    then show ?thesis by (simp add: b64_char_def b64_val_def is_upper_def is_lower_def is_digit_def)
  qed (simp_all add: b64_char_def b64_val_def is_upper_def is_lower_def is_digit_def)
qed

lemma b64_no_pad: "n < 64 \<Longrightarrow> b64_char n \<noteq> CHR ''=''"
proof -
  have "b64_val (CHR ''='') = None" by code_simp
  then show "n < 64 \<Longrightarrow> b64_char n \<noteq> CHR ''=''" using b64_round [of n] by auto
qed

lemma base64url_round: "\<forall>b \<in> set bs. b < 256 \<Longrightarrow> from_base64url (base64url bs) = bs"
proof -
  assume b: "\<forall>b \<in> set bs. b < 256"
  have "List.map_filter b64_val (takeWhile (\<lambda>c. c \<noteq> CHR ''='') (map b64_char xs)) = xs" if "\<forall>x \<in> set xs. x < 64" for xs
    using that by (induction xs) (simp_all add: b64_round b64_no_pad List.map_filter_simps)
  then show ?thesis using b sextets_less [OF b] octets_sextets [OF b] by (auto simp: base64url_def from_base64url_def)
qed

section \<open>Cursors\<close>

text \<open>Bytes of a text, and the text of bytes; a byte that is not ASCII reads as the replacement character.\<close>

definition bytes_of :: "string \<Rightarrow> nat list" where
  "bytes_of s = map of_char s"

definition text_of :: "nat list \<Rightarrow> string" where
  "text_of bs = map (\<lambda>b. if b < 128 then char_of b else CHR ''?'') bs"

definition ascii :: "string \<Rightarrow> bool" where
  "ascii s \<longleftrightarrow> (\<forall>c \<in> set s. (of_char c :: nat) < 128)"

definition encodeCursor :: "(string \<times> json) list \<Rightarrow> string" where
  "encodeCursor obj = base64url (bytes_of (json_print (JObj obj)))"

definition decodeCursor :: "string option \<Rightarrow> json option" where
  "decodeCursor cursor = (if \<not> truthy cursor then None else json_parse (text_of (from_base64url (the cursor))))"

lemma text_bytes: "ascii s \<Longrightarrow> text_of (bytes_of s) = s"
  by (simp add: ascii_def text_of_def bytes_of_def map_idI)

lemma bytes_less: "\<forall>b \<in> set (bytes_of s). b < 256"
  by (auto simp: bytes_of_def of_char_less)

lemma cursor_round:
  assumes "ascii (json_print (JObj obj))" and "json_plain (JObj obj)"
  shows "decodeCursor (Some (encodeCursor obj)) = Some (JObj obj)"
proof -
  have "bytes_of (json_print (JObj obj)) \<noteq> []" by (simp add: bytes_of_def)
  then have "sextets (bytes_of (json_print (JObj obj))) \<noteq> []"
    by (cases "bytes_of (json_print (JObj obj))" rule: sextets.cases) simp_all
  then have "truthy (Some (encodeCursor obj))" by (simp add: truthy_def encodeCursor_def base64url_def)
  then show ?thesis
    using assms by (simp add: decodeCursor_def encodeCursor_def base64url_round [OF bytes_less] text_bytes json_roundtrip del: json_print.simps json_plain.simps)
qed

end
