(* ===== verification/Dates.thy ===== *)
theory Dates
  imports Paths
begin

text \<open>
  \<open>Date.prototype.toISOString\<close> and \<open>new Date(text)\<close> on its own output, with their round
  trip. A time is a number of milliseconds since the epoch; the years are those of four digits.
\<close>

section \<open>Days\<close>

text \<open>The year of a day of a 400-year era, and the first day of a year, as in \<open>civil_from_days\<close>.\<close>

definition year_of_era :: "int \<Rightarrow> int" where
  "year_of_era doe = (doe - doe div 1460 + doe div 36524 - doe div 146096) div 365"

definition era_start :: "int \<Rightarrow> int" where
  "era_start y = 365 * y + y div 4 - y div 100"

definition days_from_civil :: "int \<times> int \<times> int \<Rightarrow> int" where
  "days_from_civil c =
     (case c of (y0, m, d) \<Rightarrow>
        let y = y0 - (if m \<le> 2 then 1 else 0);
            era = y div 400;
            yoe = y - era * 400;
            doy = (153 * (if m > 2 then m - 3 else m + 9) + 2) div 5 + d - 1
        in era * 146097 + (365 * yoe + yoe div 4 - yoe div 100 + doy) - 719468)"

lemma year_mono:
  assumes "x \<le> y"
  shows "year_of_era x \<le> year_of_era y"
proof -
  have step: "year_of_era z \<le> year_of_era (z + 1)" for z
  proof -
    have c: "z div 146096 = z div 36524 div 4" "(z + 1) div 146096 = (z + 1) div 36524 div 4"
      by (simp_all add: zdiv_zmult2_eq [symmetric])
    have "c - c div 4 \<le> d - d div 4" if "c \<le> d" "d \<le> c + 1" for c d :: int using that by presburger
    from this [of "z div 36524" "(z + 1) div 36524"]
    have "z div 36524 - z div 146096 \<le> (z + 1) div 36524 - (z + 1) div 146096" unfolding c by simp
    moreover have "(z + 1) div 1460 \<le> z div 1460 + 1" by simp
    ultimately have "z - z div 1460 + z div 36524 - z div 146096 \<le> z + 1 - (z + 1) div 1460 + (z + 1) div 36524 - (z + 1) div 146096"
      by linarith
    then show ?thesis unfolding year_of_era_def by (rule zdiv_mono1) simp
  qed
  show ?thesis using assms by (induction y rule: int_ge_induct) (use step order_trans in blast)+
qed

text \<open>The formula is right at both ends of each of the 400 years, and it is monotonic.\<close>

lemma era_ends: "\<forall>y \<in> set [0..399]. year_of_era (era_start y) = y \<and> year_of_era (era_start (y + 1) - 1) = y"
  by code_simp

lemma year_bounds:
  assumes "0 \<le> doe" and "doe < 146097"
  shows "0 \<le> year_of_era doe \<and> year_of_era doe \<le> 399 \<and>
    era_start (year_of_era doe) \<le> doe \<and> doe \<le> era_start (year_of_era doe) + 365"
proof -
  let ?y = "year_of_era doe"
  have e: "0 \<le> y \<Longrightarrow> y \<le> 399 \<Longrightarrow> year_of_era (era_start y) = y \<and> year_of_era (era_start (y + 1) - 1) = y" for y
    using era_ends by simp
  have ends: "era_start 0 = 0" "era_start 400 = 146096" by (simp_all add: era_start_def)
  have "year_of_era 0 = 0" "year_of_era 146096 = 399" by (simp_all add: year_of_era_def)
  then have r: "0 \<le> ?y" "?y \<le> 399"
    using year_mono [of 0 doe] year_mono [of doe 146096] assms by simp_all
  have lo: "era_start ?y \<le> doe"
  proof (rule ccontr)
    assume n: "\<not> era_start ?y \<le> doe"
    then have "1 \<le> ?y" using r assms ends(1) by (cases "?y = 0") auto
    then show False using year_mono [of doe "era_start ?y - 1"] e [of "?y - 1"] r n by simp
  qed
  have "doe \<le> era_start ?y + 365"
  proof (cases "?y = 399")
    case True
    then show ?thesis using assms by (simp add: era_start_def)
  next
    case False
    then have "\<not> era_start (?y + 1) \<le> doe"
      using year_mono [of "era_start (?y + 1)" doe] e [of "?y + 1"] r by auto
    moreover have "(?y + 1) div 4 \<le> ?y div 4 + 1" "?y div 100 \<le> (?y + 1) div 100" by simp_all
    ultimately show ?thesis by (simp add: era_start_def)
  qed
  with lo r show ?thesis by blast
qed

lemma civil_round: "days_from_civil (civil_from_days z) = z"
proof -
  define w where "w = z + 719468"
  define era where "era = w div 146097"
  define doe where "doe = w - era * 146097"
  define y where "y = year_of_era doe"
  define doy where "doy = doe - era_start y"
  define mp where "mp = (5 * doy + 2) div 153"
  have doe: "0 \<le> doe" "doe < 146097" by (simp_all add: doe_def era_def minus_mult_div_eq_mod mult.commute)
  note b = year_bounds [OF doe, folded y_def]
  have "0 \<le> doy" "doy \<le> 365" using b by (simp_all add: doy_def)
  then have mp: "0 \<le> mp" "mp \<le> 11" using zdiv_mono1 [of "5 * doy + 2" 1827 153] by (simp_all add: mp_def)
  have c: "civil_from_days z = (y + era * 400 + (if (if mp < 10 then mp + 3 else mp - 9) \<le> 2 then 1 else 0),
      if mp < 10 then mp + 3 else mp - 9, doy - (153 * mp + 2) div 5 + 1)"
    unfolding civil_from_days_def Let_def mp_def doy_def y_def doe_def era_def w_def year_of_era_def era_start_def by (rule refl)
  have "(y + era * 400) div 400 = era" using b by simp
  moreover have "era * 146097 + (era_start y + doy) - 719468 = z" by (simp add: doy_def doe_def w_def)
  ultimately show ?thesis using mp
    by (cases "mp < 10") (simp_all add: c days_from_civil_def Let_def era_start_def [symmetric])
qed

section \<open>Texts\<close>

definition toISOString :: "int \<Rightarrow> string" where
  "toISOString t =
     (let s = t mod 86400000 in
      iso_date t @ ''T'' @ pad 2 (int_str (s div 3600000)) @ '':'' @ pad 2 (int_str (s div 60000 mod 60)) @ '':'' @
      pad 2 (int_str (s div 1000 mod 60)) @ ''.'' @ pad 3 (int_str (s mod 1000)) @ ''Z'')"

text \<open>The digits at a place of a text.\<close>

definition digits_at :: "nat \<Rightarrow> nat \<Rightarrow> string \<Rightarrow> int option" where
  "digits_at i n s = (let x = take n (drop i s) in if length x = n \<and> list_all is_digit x then Some (int (digits_val x)) else None)"

definition parse_iso :: "string \<Rightarrow> int option" where
  "parse_iso s =
     (case (digits_at 0 4 s, digits_at 5 2 s, digits_at 8 2 s, digits_at 11 2 s, digits_at 14 2 s, digits_at 17 2 s, digits_at 20 3 s) of
        (Some y, Some m, Some d, Some h, Some mi, Some sec, Some ms) \<Rightarrow>
          if length s = 24 \<and> map (\<lambda>i. s ! i) [4, 7, 10, 13, 16, 19, 23] = ''--T::.Z'' \<and> 1 \<le> m \<and> m \<le> 12 \<and> 1 \<le> d \<and> d \<le> 31 \<and>
            h < 24 \<and> mi < 60 \<and> sec < 60
          then Some (days_from_civil (y, m, d) * 86400000 + h * 3600000 + mi * 60000 + sec * 1000 + ms) else None
      | _ \<Rightarrow> None)"

text \<open>Padded numbers.\<close>

lemma nat_str_length: "k < 10 ^ n \<Longrightarrow> 0 < n \<Longrightarrow> length (nat_str k) \<le> n"
proof (induction k arbitrary: n rule: nat_str.induct)
  case (1 k)
  show ?case
  proof (cases "k < 10")
    case False
    then obtain m where m: "n = Suc m" "0 < m" using 1(2, 3) by (cases n; cases "n - 1") auto
    then have "k div 10 < 10 ^ m" using 1(2) by (simp add: less_mult_imp_div_less mult.commute)
    then show ?thesis using 1(1) [OF False _ m(2)] False m by (simp add: nat_str.simps [of k])
  qed (use 1 in \<open>simp add: nat_str.simps [of k]\<close>)
qed

lemma digits_val_zeros: "digits_val (replicate j (CHR ''0'') @ s) = digits_val s"
proof (induction s rule: rev_induct)
  case Nil
  have "digits_val (replicate j (CHR ''0'')) = 0"
    by (induction j) (simp_all add: digits_val_def digit_val_def)
  then show ?case by simp
next
  case (snoc c s)
  have "digits_val ((replicate j (CHR ''0'') @ s) @ [c]) = digits_val (s @ [c])" using snoc by (simp del: append_assoc)
  then show ?case by simp
qed

lemma pad_digits:
  assumes "0 \<le> k" and "k < 10 ^ n" and "0 < n"
  shows "length (pad n (int_str k)) = n" and "list_all is_digit (pad n (int_str k))" and "digits_val (pad n (int_str k)) = nat k"
proof -
  have "nat k < 10 ^ n" using assms(1, 2) by (simp add: nat_less_iff)
  then show "length (pad n (int_str k)) = n" using nat_str_length [of "nat k" n] assms by (simp add: pad_def int_str_def)
  show "list_all is_digit (pad n (int_str k))" using nat_str_digits [of "nat k"] assms(1)
    by (auto simp: pad_def int_str_def list_all_iff is_digit_def)
  show "digits_val (pad n (int_str k)) = nat k" using assms(1) by (simp add: pad_def int_str_def digits_val_zeros)
qed

lemma digits_at_pad:
  assumes "0 \<le> k" and "k < 10 ^ n" and "0 < n" and "length a = i"
  shows "digits_at i n (a @ pad n (int_str k) @ s) = Some k"
  using pad_digits [OF assms(1-3)] assms by (simp add: digits_at_def)

lemma civil_bounds: "case civil_from_days z of (y, m, d) \<Rightarrow> 1 \<le> m \<and> m \<le> 12 \<and> 1 \<le> d \<and> d \<le> 31"
proof -
  define doe where "doe = z + 719468 - (z + 719468) div 146097 * 146097"
  define doy where "doy = doe - era_start (year_of_era doe)"
  have "0 \<le> doe" "doe < 146097" by (simp_all add: doe_def minus_mult_div_eq_mod mult.commute)
  from year_bounds [OF this] have doy: "0 \<le> doy" "doy \<le> 365" by (simp_all add: doy_def)
  define mp where "mp = (5 * doy + 2) div 153"
  have mp: "0 \<le> mp" "mp \<le> 11" "153 * mp \<le> 5 * doy + 2" "5 * doy + 2 \<le> 153 * mp + 152"
    using doy zdiv_mono1 [of "5 * doy + 2" 1827 153] by (simp_all add: mp_def)
  define q where "q = (153 * mp + 2) div 5"
  have "5 * q \<le> 153 * mp + 2" "153 * mp + 2 \<le> 5 * q + 4" by (simp_all add: q_def)
  then have "1 \<le> doy - (153 * mp + 2) div 5 + 1 \<and> doy - (153 * mp + 2) div 5 + 1 \<le> 31" using mp(3, 4) unfolding q_def [symmetric] by linarith
  moreover have "civil_from_days z = (year_of_era doe + (z + 719468) div 146097 * 400 + (if (if mp < 10 then mp + 3 else mp - 9) \<le> 2 then 1 else 0),
      if mp < 10 then mp + 3 else mp - 9, doy - (153 * mp + 2) div 5 + 1)"
    unfolding civil_from_days_def Let_def mp_def doy_def doe_def year_of_era_def era_start_def by (rule refl)
  ultimately show ?thesis using mp(1, 2) by auto
qed

text \<open>The times whose year has four digits.\<close>

definition iso_range :: "int \<Rightarrow> bool" where
  "iso_range t \<longleftrightarrow> (let y = fst (civil_from_days (t div 86400000)) in 0 \<le> y \<and> y < 10000)"

lemma iso_round:
  assumes "iso_range t"
  shows "parse_iso (toISOString t) = Some t" and "length (toISOString t) = 24"
proof -
  obtain y m d where c: "civil_from_days (t div 86400000) = (y, m, d)" by (cases "civil_from_days (t div 86400000)")
  define s where "s = t mod 86400000"
  define h mi sec ms where "h = s div 3600000" and "mi = s div 60000 mod 60" and "sec = s div 1000 mod 60" and "ms = s mod 1000"
  have s: "0 \<le> s" "s < 86400000" by (simp_all add: s_def)
  have b: "0 \<le> y" "y < 10 ^ 4" "0 \<le> m" "m < 10 ^ 2" "0 \<le> d" "d < 10 ^ 2" "0 \<le> h" "h < 10 ^ 2" "0 \<le> mi" "mi < 10 ^ 2"
    "0 \<le> sec" "sec < 10 ^ 2" "0 \<le> ms" "ms < 10 ^ 3" "1 \<le> m" "m \<le> 12" "1 \<le> d" "d \<le> 31" "h < 24" "mi < 60" "sec < 60"
    using assms civil_bounds [of "t div 86400000"] s
    by (simp_all add: iso_range_def c h_def mi_def sec_def ms_def pos_imp_zdiv_nonneg_iff div_less_iff_less_mult)
  have e: "toISOString t = pad 4 (int_str y) @ ''-'' @ pad 2 (int_str m) @ ''-'' @ pad 2 (int_str d) @ ''T'' @ pad 2 (int_str h) @ '':'' @
      pad 2 (int_str mi) @ '':'' @ pad 2 (int_str sec) @ ''.'' @ pad 3 (int_str ms) @ ''Z''"
    by (simp add: toISOString_def Let_def iso_date_def c h_def mi_def sec_def ms_def s_def)
  note l = pad_digits(1) [OF b(1, 2)] pad_digits(1) [OF b(3, 4)] pad_digits(1) [OF b(5, 6)] pad_digits(1) [OF b(7, 8)]
    pad_digits(1) [OF b(9, 10)] pad_digits(1) [OF b(11, 12)] pad_digits(1) [OF b(13, 14)]
  show "length (toISOString t) = 24" using l by (simp add: e)
  have "digits_at 0 4 (toISOString t) = Some y"
    unfolding e using digits_at_pad [OF b(1, 2), of "[]" 0] by simp
  moreover have "digits_at 5 2 (toISOString t) = Some m"
    unfolding e using digits_at_pad [OF b(3, 4), of "pad 4 (int_str y) @ ''-''" 5] l by simp
  moreover have "digits_at 8 2 (toISOString t) = Some d"
    unfolding e using digits_at_pad [OF b(5, 6), of "pad 4 (int_str y) @ ''-'' @ pad 2 (int_str m) @ ''-''" 8] l by simp
  moreover have "digits_at 11 2 (toISOString t) = Some h"
    unfolding e using digits_at_pad [OF b(7, 8), of "pad 4 (int_str y) @ ''-'' @ pad 2 (int_str m) @ ''-'' @ pad 2 (int_str d) @ ''T''" 11] l by simp
  moreover have "digits_at 14 2 (toISOString t) = Some mi"
    unfolding e using digits_at_pad [OF b(9, 10), of "pad 4 (int_str y) @ ''-'' @ pad 2 (int_str m) @ ''-'' @ pad 2 (int_str d) @ ''T'' @
      pad 2 (int_str h) @ '':''" 14] l by simp
  moreover have "digits_at 17 2 (toISOString t) = Some sec"
    unfolding e using digits_at_pad [OF b(11, 12), of "pad 4 (int_str y) @ ''-'' @ pad 2 (int_str m) @ ''-'' @ pad 2 (int_str d) @ ''T'' @
      pad 2 (int_str h) @ '':'' @ pad 2 (int_str mi) @ '':''" 17] l by simp
  moreover have "digits_at 20 3 (toISOString t) = Some ms"
    unfolding e using digits_at_pad [OF b(13, 14), of "pad 4 (int_str y) @ ''-'' @ pad 2 (int_str m) @ ''-'' @ pad 2 (int_str d) @ ''T'' @
      pad 2 (int_str h) @ '':'' @ pad 2 (int_str mi) @ '':'' @ pad 2 (int_str sec) @ ''.''" 20] l by simp
  moreover have "map (\<lambda>i. toISOString t ! i) [4, 7, 10, 13, 16, 19, 23] = ''--T::.Z''"
    unfolding e using l by (simp add: nth_append)
  moreover have "days_from_civil (y, m, d) = t div 86400000" using civil_round [of "t div 86400000"] by (simp add: c)
  moreover have "t div 86400000 * 86400000 + h * 3600000 + mi * 60000 + sec * 1000 + ms = t"
  proof -
    have d: "s div 60000 = s div 1000 div 60" "s div 3600000 = s div 60000 div 60" by (simp_all add: zdiv_zmult2_eq [symmetric])
    have "h * 3600000 + mi * 60000 + sec * 1000 + ms = s"
      using div_mult_mod_eq [of s 1000] div_mult_mod_eq [of "s div 1000" 60] div_mult_mod_eq [of "s div 60000" 60]
      unfolding h_def mi_def sec_def ms_def d by linarith
    then show ?thesis using div_mult_mod_eq [of t 86400000] unfolding s_def by linarith
  qed
  ultimately show "parse_iso (toISOString t) = Some t"
    using b \<open>length (toISOString t) = 24\<close> by (simp add: parse_iso_def)
qed

end
