(* ===== verification/CatalogClient.thy ===== *)
theory CatalogClient
  imports CatalogDb KvRedis Cursor Dates
begin

text \<open>
  The interface of the catalogue's services to the database: a Prisma client whose calls are the
  queries and writes of \<open>CatalogDb\<close> (the locale \<open>catalog_db\<close>), the database that keeps the
  tables itself, which interprets it, and the rules by which a handler over any client is run on the
  tables.
\<close>

section \<open>The client\<close>

text \<open>The calls of the client; the first argument of a write is the time.\<close>

record 'd cat_ops =
  d_write :: "int \<Rightarrow> cat_write \<Rightarrow> ('d, int) eff"
  d_products :: "product_where \<Rightarrow> order_col list \<Rightarrow> nat \<Rightarrow> ('d, product_full list) eff"
  d_product :: "product_where \<Rightarrow> ('d, product_full option) eff"
  d_fileKey :: "int \<Rightarrow> ('d, string option option) eff"
  d_like :: "string \<Rightarrow> int \<Rightarrow> ('d, mark option) eff"
  d_bookmark :: "string \<Rightarrow> int \<Rightarrow> ('d, mark option) eff"
  d_likes :: "string \<Rightarrow> list_cursor \<Rightarrow> nat \<Rightarrow> ('d, (mark \<times> product_full option) list) eff"
  d_bookmarks :: "string \<Rightarrow> list_cursor \<Rightarrow> nat \<Rightarrow> ('d, (mark \<times> product_full option) list) eff"
  d_downloads :: "string \<Rightarrow> list_cursor \<Rightarrow> nat \<Rightarrow> ('d, (download_row \<times> product_full option) list) eff"
  d_supplier :: "int \<Rightarrow> string \<Rightarrow> ('d, bool) eff"
  d_prodcats :: "int \<Rightarrow> ('d, int list) eff"
  d_prodtags :: "int \<Rightarrow> ('d, int list) eff"
  d_category :: "row_key \<Rightarrow> ('d, category_row option) eff"
  d_categories :: "category_where list \<Rightarrow> nat option \<Rightarrow> ('d, category_row list) eff"
  d_tag :: "row_key \<Rightarrow> ('d, (tag_row \<times> int) option) eff"
  d_tags :: "tag_where list \<Rightarrow> bool \<Rightarrow> nat \<Rightarrow> ('d, (tag_row \<times> int) list) eff"

text \<open>\<open>$transaction\<close>: when a step throws, the database is as it was.\<close>

definition transaction :: "('d, 'a) eff \<Rightarrow> ('d, 'a) eff" where
  "transaction m d = (case m d of (Inl e, _) \<Rightarrow> (Inl e, d) | (Inr x, d') \<Rightarrow> (Inr x, d'))"

definition reads :: "(catalog \<Rightarrow> 'a) \<Rightarrow> (catalog, 'a) eff" where
  "reads f t = (Inr (f t), t)"

definition q_supplier :: "int \<Rightarrow> string \<Rightarrow> catalog \<Rightarrow> bool" where
  "q_supplier p u t \<longleftrightarrow> (p, u) \<in> set (ct_suppliers t)"

definition q_links :: "(catalog \<Rightarrow> (int \<times> int) list) \<Rightarrow> int \<Rightarrow> catalog \<Rightarrow> int list" where
  "q_links tab p t = map snd (filter (\<lambda>l. fst l = p) (tab t))"

section \<open>The contract\<close>

definition answers :: "('d \<Rightarrow> bool) \<Rightarrow> ('d \<Rightarrow> catalog) \<Rightarrow> ('d, 'a) eff \<Rightarrow> (catalog, 'a) eff \<Rightarrow> bool" where
  "answers ok view c spec \<longleftrightarrow> (\<forall>d. ok d \<longrightarrow>
     (\<exists>d'. c d = (fst (spec (view d)), d') \<and> ok d' \<and> view d' = snd (spec (view d))))"

text \<open>The order of a list is promised only when its last column identifies the row.\<close>

locale catalog_db =
  fixes D :: "'d cat_ops" and ok :: "'d \<Rightarrow> bool" and view :: "'d \<Rightarrow> catalog"
  assumes wf: "ok d \<Longrightarrow> catalog_wf (view d)"
    and db_write: "answers ok view (d_write D now w) (write_sem now w)"
    and db_products: "OId \<in> set cols \<Longrightarrow> answers ok view (d_products D pw cols n) (reads (q_products pw cols n))"
    and db_product: "answers ok view (d_product D pw) (reads (q_product pw))"
    and db_fileKey: "answers ok view (d_fileKey D p) (reads (q_file_key p))"
    and db_like: "answers ok view (d_like D u p) (reads (q_mark ct_likes u p))"
    and db_bookmark: "answers ok view (d_bookmark D u p) (reads (q_mark ct_bookmarks u p))"
    and db_likes: "answers ok view (d_likes D u c n) (reads (q_marks ct_likes u c n))"
    and db_bookmarks: "answers ok view (d_bookmarks D u c n) (reads (q_marks ct_bookmarks u c n))"
    and db_downloads: "answers ok view (d_downloads D u c n) (reads (q_downloads u c n))"
    and db_supplier: "answers ok view (d_supplier D p u) (reads (q_supplier p u))"
    and db_prodcats: "answers ok view (d_prodcats D p) (reads (q_links ct_prodcats p))"
    and db_prodtags: "answers ok view (d_prodtags D p) (reads (q_links ct_prodtags p))"
    and db_category: "answers ok view (d_category D k) (reads (q_category k))"
    and db_categories: "answers ok view (d_categories D cws m) (reads (q_categories cws m))"
    and db_tag: "answers ok view (d_tag D k) (reads (q_tag k))"
    and db_tags: "answers ok view (d_tags D gws b n) (reads (q_tags gws b n))"

section \<open>The database that keeps the tables\<close>

definition cat_ref :: "catalog cat_ops" where
  "cat_ref = \<lparr>d_write = write_sem, d_products = (\<lambda>w cols n. reads (q_products w cols n)), d_product = (\<lambda>w. reads (q_product w)),
     d_fileKey = (\<lambda>p. reads (q_file_key p)), d_like = (\<lambda>u p. reads (q_mark ct_likes u p)),
     d_bookmark = (\<lambda>u p. reads (q_mark ct_bookmarks u p)), d_likes = (\<lambda>u c n. reads (q_marks ct_likes u c n)),
     d_bookmarks = (\<lambda>u c n. reads (q_marks ct_bookmarks u c n)), d_downloads = (\<lambda>u c n. reads (q_downloads u c n)),
     d_supplier = (\<lambda>p u. reads (q_supplier p u)), d_prodcats = (\<lambda>p. reads (q_links ct_prodcats p)),
     d_prodtags = (\<lambda>p. reads (q_links ct_prodtags p)), d_category = (\<lambda>k. reads (q_category k)),
     d_categories = (\<lambda>w n. reads (q_categories w n)), d_tag = (\<lambda>k. reads (q_tag k)), d_tags = (\<lambda>w b n. reads (q_tags w b n))\<rparr>"

lemma cat_ref_simps [simp]:
  "d_write cat_ref = write_sem" "d_products cat_ref w cols n = reads (q_products w cols n)" "d_product cat_ref w = reads (q_product w)"
  "d_fileKey cat_ref p = reads (q_file_key p)" "d_like cat_ref u p = reads (q_mark ct_likes u p)"
  "d_bookmark cat_ref u p = reads (q_mark ct_bookmarks u p)" "d_likes cat_ref u c k = reads (q_marks ct_likes u c k)"
  "d_bookmarks cat_ref u c k = reads (q_marks ct_bookmarks u c k)" "d_downloads cat_ref u c k = reads (q_downloads u c k)"
  "d_supplier cat_ref p u = reads (q_supplier p u)" "d_prodcats cat_ref p = reads (q_links ct_prodcats p)"
  "d_prodtags cat_ref p = reads (q_links ct_prodtags p)" "d_category cat_ref key = reads (q_category key)"
  "d_categories cat_ref cw m = reads (q_categories cw m)" "d_tag cat_ref key = reads (q_tag key)"
  "d_tags cat_ref gw b k = reads (q_tags gw b k)"
  by (simp_all add: cat_ref_def)

interpretation ct: catalog_db cat_ref catalog_wf "\<lambda>t. t"
  by unfold_locales (auto simp: answers_def reads_def wf_write)

section \<open>Handlers over a client and over the tables\<close>

definition on_tables :: "('d \<Rightarrow> bool) \<Rightarrow> ('d \<Rightarrow> catalog) \<Rightarrow> 'd \<Rightarrow> catalog \<Rightarrow> bool" where
  "on_tables ok view d t \<longleftrightarrow> ok d \<and> view d = t"

lemma answers_sims: "answers ok view c spec \<Longrightarrow> sims (on_tables ok view) c spec"
  unfolding answers_def sims_def on_tables_def by (metis fst_conv snd_conv)

lemma sims_transaction [sims_intro]: "sims R m n \<Longrightarrow> sims R (transaction m) (transaction n)"
  unfolding sims_def transaction_def by (fastforce split: prod.splits sum.splits)

lemma sims_each [sims_intro]: "(\<And>x. sims R (f x) (g x)) \<Longrightarrow> sims R (eachM f xs) (eachM g xs)"
  by (induction xs) (auto intro: sims_intro)

lemma sims_mapM [sims_intro]: "(\<And>x. sims R (f x) (g x)) \<Longrightarrow> sims R (mapM f xs) (mapM g xs)"
  by (induction xs) (auto intro!: sims_intro)

text \<open>What a handler does over the tables it does over the client.\<close>

lemma sims_run:
  assumes "sims (on_tables ok view) m n" and "ok d" and "n (view d) = (r, t')"
  obtains d' where "m d = (r, d')" and "ok d'" and "view d' = t'"
proof -
  have "fst (m d) = fst (n (view d)) \<and> on_tables ok view (snd (m d)) (snd (n (view d)))"
    using assms(1, 2) by (simp add: sims_def on_tables_def)
  then show thesis using assms(3) that [of "snd (m d)"] by (auto simp: on_tables_def prod_eq_iff)
qed

context catalog_db
begin

lemma sims_calls [sims_intro]:
  "sims (on_tables ok view) (d_write D now w) (d_write cat_ref now w)"
  "sims (on_tables ok view) (d_product D pw) (d_product cat_ref pw)"
  "sims (on_tables ok view) (d_fileKey D p) (d_fileKey cat_ref p)"
  "sims (on_tables ok view) (d_like D u p) (d_like cat_ref u p)"
  "sims (on_tables ok view) (d_bookmark D u p) (d_bookmark cat_ref u p)"
  "sims (on_tables ok view) (d_likes D u c n) (d_likes cat_ref u c n)"
  "sims (on_tables ok view) (d_bookmarks D u c n) (d_bookmarks cat_ref u c n)"
  "sims (on_tables ok view) (d_downloads D u c n) (d_downloads cat_ref u c n)"
  "sims (on_tables ok view) (d_supplier D p u) (d_supplier cat_ref p u)"
  "sims (on_tables ok view) (d_prodcats D p) (d_prodcats cat_ref p)"
  "sims (on_tables ok view) (d_prodtags D p) (d_prodtags cat_ref p)"
  "sims (on_tables ok view) (d_category D k) (d_category cat_ref k)"
  "sims (on_tables ok view) (d_categories D cws m) (d_categories cat_ref cws m)"
  "sims (on_tables ok view) (d_tag D k) (d_tag cat_ref k)"
  "sims (on_tables ok view) (d_tags D gws b n) (d_tags cat_ref gws b n)"
  unfolding cat_ref_simps
  by (rule answers_sims, rule db_write db_product db_fileKey db_like db_bookmark db_likes db_bookmarks db_downloads db_supplier
      db_prodcats db_prodtags db_category db_categories db_tag db_tags)+

lemma sims_products [sims_intro]:
  "OId \<in> set cols \<Longrightarrow> sims (on_tables ok view) (d_products D pw cols n) (d_products cat_ref pw cols n)"
  unfolding cat_ref_simps by (rule answers_sims, rule db_products)

end

end
