(* ===== verification/Keyset.thy ===== *)
theory Keyset
  imports CatalogClient
begin

text \<open>
  Lists served page by page, "Load more": a page is the first rows after the cursor in a descending
  order, and a full page comes with the cursor of its last row. The locale \<open>keyset\<close> says what a
  handler must answer for that; its theorem is that a client that follows the cursors sees every row
  exactly once, in order, and comes to an end. The lists of products, likes, bookmarks and downloads
  interpret it.
\<close>

section \<open>Following the cursors\<close>

text \<open>\<open>None\<close> when the bound on the number of requests is reached first.\<close>

fun follow :: "(string option \<Rightarrow> 'b list \<times> string option) \<Rightarrow> nat \<Rightarrow> string option \<Rightarrow> 'b list option" where
  "follow serve 0 c = None"
| "follow serve (Suc k) c =
     (case serve c of
        (p, None) \<Rightarrow> Some p
      | (p, Some c') \<Rightarrow> map_option (\<lambda>r. p @ r) (follow serve k (Some c')))"

text \<open>The same, with a handler that runs on the database.\<close>

fun load_all :: "(string option \<Rightarrow> ('d, 'b list \<times> string option) eff) \<Rightarrow> nat \<Rightarrow> string option \<Rightarrow> ('d, 'b list option) eff" where
  "load_all h 0 c = retM None"
| "load_all h (Suc k) c =
     bindM (h c) (\<lambda>a. case snd a of
        None \<Rightarrow> retM (Some (fst a))
      | Some c' \<Rightarrow> bindM (load_all h k (Some c')) (\<lambda>r. retM (map_option (\<lambda>r. fst a @ r) r)))"

lemma sims_load_all [sims_intro]: "(\<And>c. sims R (h c) (g c)) \<Longrightarrow> sims R (load_all h k c) (load_all g k c)"
  by (induction k arbitrary: c) (auto intro!: sims_intro split: option.split)

section \<open>Pages\<close>

definition page_of :: "('a \<Rightarrow> string) \<Rightarrow> ('a \<Rightarrow> 'b) \<Rightarrow> nat \<Rightarrow> 'a list \<Rightarrow> 'b list \<times> string option" where
  "page_of enc shown n xs = (map shown (take n xs), if length (take n xs) = n then Some (enc (last (take n xs))) else None)"

locale keyset =
  fixes good :: "'t \<Rightarrow> bool" and rows :: "'t \<Rightarrow> 'a list" and key :: "'t \<Rightarrow> 'a \<Rightarrow> int list"
    and enc :: "'t \<Rightarrow> 'a \<Rightarrow> string" and shown :: "'t \<Rightarrow> 'a \<Rightarrow> 'b" and size :: "'t \<Rightarrow> nat" and serve :: "'t \<Rightarrow> string option \<Rightarrow> 'b list \<times> string option"
  assumes size: "good t \<Longrightarrow> 0 < size t"
    and descending: "good t \<Longrightarrow> sorted_wrt (\<lambda>x y. key t y < key t x) (rows t)"
    and serve_first: "good t \<Longrightarrow> serve t None = page_of (enc t) (shown t) (size t) (rows t)"
    and serve_next: "good t \<Longrightarrow> x \<in> set (rows t) \<Longrightarrow>
      serve t (Some (enc t x)) = page_of (enc t) (shown t) (size t) (filter (\<lambda>y. key t y < key t x) (rows t))"
begin

lemma filter_after:
  assumes "sorted_wrt (\<lambda>x y. key t y < key t x) (xs @ ys)" and "xs \<noteq> []"
  shows "filter (\<lambda>y. key t y < key t (last xs)) (xs @ ys) = ys"
proof -
  have "\<not> key t x < key t (last xs)" if "x \<in> set xs" for x
  proof (cases "x = last xs")
    case False
    have b: "xs = butlast xs @ [last xs]" using assms(2) by simp
    then have "x \<in> set (butlast xs)" using that False by (metis UnE append_is_Nil_conv empty_iff in_set_conv_decomp set_ConsD set_append set_empty)
    moreover have "sorted_wrt (\<lambda>x y. key t y < key t x) (butlast xs @ [last xs])" using assms(1) b by (simp add: sorted_wrt_append)
    ultimately show ?thesis by (auto simp: sorted_wrt_append)
  qed simp
  moreover have "key t y < key t (last xs)" if "y \<in> set ys" for y
    using assms that by (auto simp: sorted_wrt_append)
  ultimately show ?thesis by (simp add: filter_empty_conv)
qed

lemma follow_rest:
  assumes "good t" and "rows t = xs @ ys" and "length ys < k"
    and "serve t c = page_of (enc t) (shown t) (size t) ys"
  shows "follow (serve t) k c = Some (map (shown t) ys)"
  using assms(2-)
proof (induction k arbitrary: xs ys c)
  case (Suc k)
  let ?n = "size t" and ?p = "take (size t) ys"
  show ?case
  proof (cases "length ?p = ?n")
    case True
    have n: "0 < ?n" using size [OF assms(1)] .
    have p: "?p \<noteq> []" using n True by auto
    have split: "rows t = (xs @ ?p) @ drop ?n ys" using Suc.prems(1) by simp
    have "last ?p \<in> set ?p" using p by (rule last_in_set)
    then have "last ?p \<in> set (rows t)" unfolding Suc.prems(1) by (auto dest: in_set_takeD)
    from serve_next [OF assms(1) this]
    have "serve t (Some (enc t (last ?p))) = page_of (enc t) (shown t) ?n (drop ?n ys)"
      using filter_after [of t "xs @ ?p" "drop ?n ys"] descending [OF assms(1)] p split by simp
    from Suc.IH [OF split _ this]
    have "follow (serve t) k (Some (enc t (last ?p))) = Some (map (shown t) (drop ?n ys))"
      using Suc.prems(2) n True by simp
    moreover have "map (shown t) ?p @ map (shown t) (drop ?n ys) = map (shown t) ys"
      by (metis append_take_drop_id map_append)
    ultimately show ?thesis using Suc.prems(3) True by (simp add: page_of_def)
  next
    case False
    then have "length ys \<le> ?n" by simp
    with False Suc.prems(3) show ?thesis by (simp add: page_of_def)
  qed
qed simp

text \<open>Every row exactly once, in order, after at most one request more than there are rows.\<close>

lemma follow_all: "good t \<Longrightarrow> length (rows t) < k \<Longrightarrow> follow (serve t) k None = Some (map (shown t) (rows t))"
  using follow_rest [of t "[]" "rows t" k None] serve_first by simp

text \<open>The cursors a client meets, and a handler that answers them.\<close>

lemma next_cursor:
  assumes "good t" and "c = None \<or> (\<exists>x \<in> set (rows t). c = Some (enc t x))" and "serve t c = (p, Some c')"
  shows "\<exists>x \<in> set (rows t). c' = enc t x"
proof -
  have "\<exists>P. serve t c = page_of (enc t) (shown t) (size t) (filter P (rows t))"
  proof (cases c)
    case None
    then have "serve t c = page_of (enc t) (shown t) (size t) (filter (\<lambda>x. True) (rows t))" using serve_first [OF assms(1)] by simp
    then show ?thesis by blast
  next
    case (Some x)
    then show ?thesis using serve_next [OF assms(1)] assms(2) by blast
  qed
  then obtain P where s: "serve t c = page_of (enc t) (shown t) (size t) (filter P (rows t))" ..
  let ?p = "take (size t) (filter P (rows t))"
  have l: "length ?p = size t" "c' = enc t (last ?p)" using assms(3) s by (auto simp: page_of_def split: if_splits)
  then have "?p \<noteq> []" using size [OF assms(1)] by auto
  then have "last ?p \<in> set ?p" by (rule last_in_set)
  then have "last ?p \<in> set (rows t)" using in_set_takeD by fastforce
  with l show ?thesis by blast
qed

lemma load_all_served:
  assumes "good t" and "\<And>c. c = None \<or> (\<exists>x \<in> set (rows t). c = Some (enc t x)) \<Longrightarrow> h c s = (Inr (serve t c), s)"
    and "length (rows t) < k"
  shows "load_all h k None s = (Inr (Some (map (shown t) (rows t))), s)"
proof -
  have "load_all h j c s = (Inr (follow (serve t) j c), s)" if "c = None \<or> (\<exists>x \<in> set (rows t). c = Some (enc t x))" for j c
    using that
  proof (induction j arbitrary: c)
    case (Suc j)
    obtain p n where n: "serve t c = (p, n)" by (cases "serve t c")
    show ?case
    proof (cases n)
      case None
      then show ?thesis using assms(2) [OF Suc.prems] n by (simp add: exec)
    next
      case (Some c')
      then have "\<exists>x \<in> set (rows t). c' = enc t x" using next_cursor [OF assms(1) Suc.prems] n by simp
      then show ?thesis using assms(2) [OF Suc.prems] n Some Suc.IH [of "Some c'"] by (simp add: exec)
    qed
  qed (simp add: exec)
  from this [of None k] follow_all [OF assms(1, 3)] show ?thesis by simp
qed

end

section \<open>Descending orders\<close>

lemma minus_keys: "map uminus [a, b] < map uminus [c, d] \<longleftrightarrow> [c, d] < [a, b :: int]"
  by auto

lemma keys2: "[a, b] < [c, d] \<longleftrightarrow> a < c \<or> (a = c \<and> b < (d :: int))"
  by auto

text \<open>Rows with distinct keys of two columns, sorted.\<close>

lemma sort_desc_sorted:
  assumes "\<And>x. \<exists>a b. key x = [a, b]" and "distinct (map key xs)"
  shows "sorted_wrt (\<lambda>x y. key y < key x) (sort_desc key xs)"
proof -
  let ?f = "\<lambda>x. map uminus (key x)"
  have le: "sorted_wrt (\<lambda>x y. ?f x \<le> ?f y) (sort_desc key xs)"
    using sorted_sort_key [of ?f xs] by (simp add: sort_desc_def sorted_wrt_map)
  have "distinct (map key (sort_desc key xs))"
    using assms(2) by (simp add: sort_desc_def distinct_map)
  then have "sorted_wrt (\<lambda>x y. key x \<noteq> key y) (sort_desc key xs)"
    by (auto simp: distinct_conv_nth sorted_wrt_iff_nth_less)
  with le have "sorted_wrt (\<lambda>x y. ?f x \<le> ?f y \<and> key x \<noteq> key y) (sort_desc key xs)"
    by (simp add: sorted_wrt_iff_nth_less)
  then show ?thesis
  proof (rule sorted_wrt_mono_rel [rotated])
    fix x y
    assume "?f x \<le> ?f y \<and> key x \<noteq> key y"
    moreover obtain a b c d where "key x = [a, b]" "key y = [c, d]" using assms(1) by metis
    ultimately show "key y < key x" by (auto simp: le_less)
  qed
qed

text \<open>A condition on the keys can be applied before or after sorting.\<close>

lemma sort_desc_filter: "sort_desc key (filter P xs) = filter P (sort_desc key xs)"
  unfolding sort_desc_def by (rule filter_sort [symmetric])

end
