(* ===== verification/Product.thy ===== *)
theory Product
  imports Keyset
begin

text \<open>
  The product catalogue: \<open>catalog/product/product.service.ts\<close> and
  \<open>catalog/product/product.mapper.ts\<close>, over the client of \<open>CatalogClient\<close>. The first
  argument of a handler that writes is the time. \<open>new Date\<close> of a text is the parameter
  \<open>newDate\<close>, \<open>None\<close> for an invalid date.
\<close>

section \<open>Conversions\<close>

definition syntax_error :: exn where
  "syntax_error = JsError ''SyntaxError''"

definition type_error :: exn where
  "type_error = JsError ''TypeError''"

definition validation_error :: exn where
  "validation_error = JsError ''PrismaClientValidationError''"

definition orThrow :: "exn \<Rightarrow> 'a option \<Rightarrow> ('s, 'a) eff" where
  "orThrow e x = (case x of None \<Rightarrow> throwM e | Some y \<Rightarrow> retM y)"

text \<open>\<open>/^\d+$/.test(s)\<close>.\<close>

definition all_digits :: "string \<Rightarrow> bool" where
  "all_digits s \<longleftrightarrow> s \<noteq> [] \<and> list_all is_digit s"

definition toBigIntNullable :: "string option \<Rightarrow> int option" where
  "toBigIntNullable i = (if \<not> truthy i then None else if \<not> all_digits (the i) then None else Some (int (digits_val (the i))))"

text \<open>\<open>BigInt(s)\<close>: white space around is ignored, the empty text is zero; a radix prefix is not modelled.\<close>

definition js_bigint :: "string \<Rightarrow> int option" where
  "js_bigint s = (let t = js_trim s in if t = [] then Some 0 else if hd t = CHR ''+'' then int_of_str (if all_digits (tl t) then tl t else []) else int_of_str t)"

definition bigint_of :: "json option \<Rightarrow> int option" where
  "bigint_of v = (case v of
     Some (JStr s) \<Rightarrow> js_bigint s
   | Some (JNum n) \<Rightarrow> Some n
   | Some (JBool b) \<Rightarrow> Some (if b then 1 else 0)
   | Some (JArr xs) \<Rightarrow> js_bigint (tmpl (JArr xs))
   | _ \<Rightarrow> None)"

text \<open>\<open>Number(v)\<close> where an integer is expected; \<open>None\<close> is \<open>NaN\<close> or a fraction, which Prisma refuses.\<close>

definition number_of :: "json option \<Rightarrow> int option" where
  "number_of v = (case v of
     Some (JStr s) \<Rightarrow> js_bigint s
   | Some (JNum n) \<Rightarrow> Some n
   | Some (JBool b) \<Rightarrow> Some (if b then 1 else 0)
   | Some JNull \<Rightarrow> Some 0
   | Some (JArr xs) \<Rightarrow> js_bigint (tmpl (JArr xs))
   | _ \<Rightarrow> None)"

definition date_of :: "(string \<Rightarrow> int option) \<Rightarrow> json option \<Rightarrow> int option" where
  "date_of newDate v = (case v of
     Some (JStr s) \<Rightarrow> newDate s
   | Some (JNum n) \<Rightarrow> Some n
   | Some (JBool b) \<Rightarrow> Some (if b then 1 else 0)
   | Some JNull \<Rightarrow> Some 0
   | Some (JArr xs) \<Rightarrow> newDate (tmpl (JArr xs))
   | _ \<Rightarrow> None)"

definition uniq :: "'a list option \<Rightarrow> 'a list" where
  "uniq arr = (case arr of None \<Rightarrow> [] | Some xs \<Rightarrow> js_unique xs)"

section \<open>Mapper\<close>

record product_brief =
  pb_id :: string
  pb_slug :: string
  pb_title :: string
  pb_coverUrl :: "string option"
  pb_graphicFormat :: string
  pb_pricingType :: string
  pb_price :: "int option"
  pb_status :: string
  pb_viewsCount :: int
  pb_downloadsCount :: int
  pb_likesCount :: int
  pb_shortLink :: "string option"
  pb_topic :: "string option"
  pb_seoKeywords :: "string list"
  pb_seoTitle :: "string option"
  pb_seoDescription :: "string option"
  pb_createdAt :: string
  pb_updatedAt :: string

record product_asset =
  pa_id :: string
  pa_url :: string
  pa_alt :: "string option"
  pa_order :: int

record product_category =
  pc_id :: string
  pc_name :: string
  pc_slug :: string
  pc_parentId :: "string option"

record product_tag =
  pt_id :: string
  pt_name :: string
  pt_slug :: string

record product_detail =
  pd_brief :: product_brief
  pd_detail_description :: "string option"
  pd_fileId :: "string option"
  pd_detail_assets :: "product_asset list"
  pd_detail_categories :: "product_category list"
  pd_detail_tags :: "product_tag list"
  pd_detail_authors :: "string list"

definition toBrief :: "product_full \<Rightarrow> product_brief" where
  "toBrief f = (let p = pf_row f in
     \<lparr>pb_id = int_str (pr_id p), pb_slug = pr_slug p, pb_title = pr_title p, pb_coverUrl = pr_coverUrl p,
      pb_graphicFormat = pr_graphicFormat p, pb_pricingType = pr_pricingType p, pb_price = pr_price p, pb_status = pr_status p,
      pb_viewsCount = pr_viewsCount p, pb_downloadsCount = pr_downloadsCount p, pb_likesCount = pr_likesCount p,
      pb_shortLink = pr_shortLink p, pb_topic = pr_topic p, pb_seoKeywords = pr_seoKeywords p, pb_seoTitle = pr_seoTitle p,
      pb_seoDescription = pr_seoDescription p, pb_createdAt = toISOString (pr_createdAt p), pb_updatedAt = toISOString (pr_updatedAt p)\<rparr>)"

text \<open>\<open>parentId ? String(parentId) : undefined\<close>: the identifier zero counts as none.\<close>

definition idOrUndefined :: "int option \<Rightarrow> string option" where
  "idOrUndefined i = (case i of None \<Rightarrow> None | Some n \<Rightarrow> if n = 0 then None else Some (int_str n))"

definition toDetail :: "product_full \<Rightarrow> product_detail" where
  "toDetail f =
     \<lparr>pd_brief = toBrief f, pd_detail_description = pr_description (pf_row f), pd_fileId = idOrUndefined (pr_fileId (pf_row f)),
      pd_detail_assets = map (\<lambda>a. \<lparr>pa_id = int_str (as_id a), pa_url = as_url a, pa_alt = as_alt a, pa_order = as_sortOrder a\<rparr>) (pf_assets f),
      pd_detail_categories = map (\<lambda>c. \<lparr>pc_id = int_str (cg_id c), pc_name = cg_name c, pc_slug = cg_slug c,
        pc_parentId = idOrUndefined (cg_parentId c)\<rparr>) (pf_categories f),
      pd_detail_tags = map (\<lambda>g. \<lparr>pt_id = int_str (tg_id g), pt_name = tg_name g, pt_slug = tg_slug g\<rparr>) (pf_tags f),
      pd_detail_authors = pf_authors f\<rparr>"

section \<open>Helpers of the service\<close>

record actor =
  ac_id :: string
  ac_isAdmin :: bool

definition makeTextWhere :: "string option \<Rightarrow> product_where option" where
  "makeTextWhere q =
     (if \<not> truthy q then None
      else (let term = js_trim (the q) in
            if term = [] then None
            else Some (WOr [WContains FTitle term, WContains FDescription term, WContains FTopic term, WContains FSlug term])))"

definition idOrSlugWhere :: "string \<Rightarrow> product_where" where
  "idOrSlugWhere idOrSlug = (if all_digits idOrSlug then WId (int (digits_val idOrSlug)) else WSlug idOrSlug)"

definition getByIdOrSlugStrict :: "'d cat_ops \<Rightarrow> string \<Rightarrow> ('d, product_full) eff" where
  "getByIdOrSlugStrict D idOrSlug =
     bindM (d_product D (idOrSlugWhere idOrSlug)) (orThrow (notFound ''Product not found''))"

definition canEdit :: "'d cat_ops \<Rightarrow> int \<Rightarrow> actor \<Rightarrow> ('d, bool) eff" where
  "canEdit D productId a = (if ac_isAdmin a then retM True else d_supplier D productId (ac_id a))"

text \<open>A write that answers the row with its relations.\<close>

definition writeIncluding :: "'d cat_ops \<Rightarrow> int \<Rightarrow> cat_write \<Rightarrow> ('d, product_full) eff" where
  "writeIncluding D now w =
     bindM (d_write D now w) (\<lambda>i. bindM (d_product D (WId i)) (orThrow missing))"

section \<open>Create\<close>

record CreateProductDto =
  cp_slug :: string
  cp_title :: string
  cp_description :: "string option"
  cp_coverUrl :: "string option"
  cp_fileId :: "string option"
  cp_topic :: "string option"
  cp_graphicFormat :: string
  cp_seoTitle :: "string option"
  cp_seoDescription :: "string option"
  cp_seoKeywords :: "string list option"
  cp_pricingType :: string
  cp_price :: "int option"
  cp_status :: "string option"
  cp_publishedAt :: "string option"
  cp_categoryIds :: "string list option"
  cp_tagIds :: "string list option"
  cp_authorIds :: "string list option"

text \<open>\<open>BigInt\<close> of each text.\<close>

definition bigInts :: "string list \<Rightarrow> ('d, int list) eff" where
  "bigInts = mapM (\<lambda>s. orThrow syntax_error (js_bigint s))"

text \<open>\<open>x ? BigInt(x) : undefined\<close> and \<open>x ? new Date(x) : null\<close>.\<close>

definition fileArg :: "string option \<Rightarrow> ('d, int option) eff" where
  "fileArg x = (if truthy x then bindM (orThrow syntax_error (js_bigint (the x))) (\<lambda>n. retM (Some n)) else retM None)"

definition dateArg :: "(string \<Rightarrow> int option) \<Rightarrow> string option \<Rightarrow> ('d, int option) eff" where
  "dateArg newDate x = (if truthy x then bindM (orThrow validation_error (newDate (the x))) (\<lambda>n. retM (Some n)) else retM None)"

definition product_create :: "'d cat_ops \<Rightarrow> (string \<Rightarrow> int option) \<Rightarrow> int \<Rightarrow> CreateProductDto \<Rightarrow> actor \<Rightarrow> ('d, product_detail) eff" where
  "product_create D newDate now dto a =
     (let ids = uniq (cp_authorIds dto);
          authorIds = (if ids = [] then [ac_id a] else ids)
      in thenM (throwIfM (length authorIds > 3) (badRequest ''A product can have at most 3 authors.''))
        (bindM (fileArg (cp_fileId dto)) (\<lambda>file.
         bindM (bigInts (uniq (cp_categoryIds dto))) (\<lambda>cats.
         bindM (bigInts (uniq (cp_tagIds dto))) (\<lambda>tags.
         bindM (dateArg newDate (cp_publishedAt dto)) (\<lambda>published.
         bindM (writeIncluding D now (ProductCreate
           \<lparr>pd_slug = cp_slug dto, pd_title = cp_title dto, pd_description = cp_description dto, pd_coverUrl = cp_coverUrl dto,
            pd_file = file, pd_topic = cp_topic dto, pd_graphicFormat = cp_graphicFormat dto, pd_seoTitle = cp_seoTitle dto,
            pd_seoDescription = cp_seoDescription dto, pd_seoKeywords = orElse (cp_seoKeywords dto) [],
            pd_pricingType = cp_pricingType dto, pd_price = cp_price dto, pd_status = orElse (cp_status dto) ''DRAFT'',
            pd_publishedAt = published, pd_authors = authorIds, pd_categories = cats, pd_tags = tags\<rparr>)) (\<lambda>created.
         retM (toDetail created))))))))"

section \<open>Update\<close>

text \<open>\<open>null\<close> and \<open>undefined\<close> are told apart for the price and the file only.\<close>

record UpdateProductDto =
  up_slug :: "string option"
  up_title :: "string option"
  up_description :: "string option"
  up_coverUrl :: "string option"
  up_topic :: "string option"
  up_seoTitle :: "string option"
  up_seoDescription :: "string option"
  up_seoKeywords :: "string list option"
  up_pricingType :: "string option"
  up_price :: "int option option"
  up_status :: "string option"
  up_publishedAt :: "string option"
  up_graphicFormat :: "string option"
  up_fileId :: "string option option"
  up_authorIds :: "string list option"
  up_categoryIds :: "string list option"
  up_tagIds :: "string list option"

definition filePatch :: "string option option \<Rightarrow> ('d, file_change option) eff" where
  "filePatch x = (case x of
     None \<Rightarrow> retM None
   | Some f \<Rightarrow> (if truthy f then bindM (orThrow syntax_error (js_bigint (the f))) (\<lambda>n. retM (Some (FileConnect n)))
       else retM (Some FileDisconnect)))"

definition setAuthors :: "'d cat_ops \<Rightarrow> int \<Rightarrow> int \<Rightarrow> string list \<Rightarrow> ('d, unit) eff" where
  "setAuthors D now p ids =
     (let authors = js_unique ids in
      bindM (d_write D now (SuppliersDeleteMany p)) (\<lambda>_.
      if authors \<noteq> [] then bindM (d_write D now (SuppliersCreateMany p authors)) (\<lambda>_. retM ()) else retM ()))"

definition setCategories :: "'d cat_ops \<Rightarrow> int \<Rightarrow> int \<Rightarrow> string list \<Rightarrow> ('d, unit) eff" where
  "setCategories D now p ids =
     bindM (bigInts (js_unique ids)) (\<lambda>categoryIds.
     bindM (d_write D now (ProdCatsDeleteOthers p categoryIds)) (\<lambda>_.
     bindM (d_prodcats D p) (\<lambda>existing.
     let toCreate = filter (\<lambda>i. i \<notin> set existing) categoryIds in
     if toCreate \<noteq> [] then bindM (d_write D now (ProdCatsCreateMany p toCreate)) (\<lambda>_. retM ()) else retM ())))"

definition setTags :: "'d cat_ops \<Rightarrow> int \<Rightarrow> int \<Rightarrow> string list \<Rightarrow> ('d, unit) eff" where
  "setTags D now p ids =
     bindM (bigInts (js_unique ids)) (\<lambda>tagIds.
     bindM (d_write D now (ProdTagsDeleteOthers p tagIds)) (\<lambda>_.
     bindM (d_prodtags D p) (\<lambda>existing.
     let toCreate = filter (\<lambda>i. i \<notin> set existing) tagIds in
     if toCreate \<noteq> [] then bindM (d_write D now (ProdTagsCreateMany p toCreate)) (\<lambda>_. retM ()) else retM ())))"

definition whenSome :: "'a option \<Rightarrow> ('a \<Rightarrow> ('d, unit) eff) \<Rightarrow> ('d, unit) eff" where
  "whenSome x f = (case x of None \<Rightarrow> retM () | Some y \<Rightarrow> f y)"

definition product_update ::
  "'d cat_ops \<Rightarrow> (string \<Rightarrow> int option) \<Rightarrow> int \<Rightarrow> string \<Rightarrow> UpdateProductDto \<Rightarrow> actor \<Rightarrow> ('d, product_detail) eff"
where
  "product_update D newDate now idOrSlug dto a =
     bindM (getByIdOrSlugStrict D idOrSlug) (\<lambda>product.
     let p = pr_id (pf_row product) in
     bindM (canEdit D p a) (\<lambda>ok.
     thenM (throwIfM (\<not> ok) (forbidden ''You are not allowed to edit this product.''))
     (thenM (throwIfM (up_authorIds dto \<noteq> None \<and> length (uniq (up_authorIds dto)) > 3) (badRequest ''A product can have at most 3 authors.''))
     (bindM (filePatch (up_fileId dto)) (\<lambda>file.
     bindM (transaction
       (thenM (whenSome (up_authorIds dto) (setAuthors D now p))
       (thenM (whenSome (up_categoryIds dto) (setCategories D now p))
       (thenM (whenSome (up_tagIds dto) (setTags D now p))
       (bindM (dateArg newDate (up_publishedAt dto)) (\<lambda>published.
        writeIncluding D now (ProductUpdate p
          \<lparr>pp_slug = up_slug dto, pp_title = up_title dto, pp_description = up_description dto, pp_coverUrl = up_coverUrl dto,
           pp_topic = up_topic dto, pp_seoTitle = up_seoTitle dto, pp_seoDescription = up_seoDescription dto,
           pp_seoKeywords = up_seoKeywords dto, pp_pricingType = up_pricingType dto, pp_price = up_price dto,
           pp_status = up_status dto, pp_publishedAt = published, pp_graphicFormat = up_graphicFormat dto, pp_file = file\<rparr>))))))) (\<lambda>updated.
     retM (toDetail updated)))))))"

section \<open>Reading\<close>

definition product_findOne :: "'d cat_ops \<Rightarrow> string \<Rightarrow> string option \<Rightarrow> ('d, product_detail) eff" where
  "product_findOne D idOrSlug viewerId =
     bindM (d_product D (idOrSlugWhere idOrSlug)) (\<lambda>prod.
     bindM (orThrow (notFound ''Product not found'') prod) (\<lambda>p. retM (toDetail p)))"

record ProductFindQueryDto =
  fq_q :: "string option"
  fq_categoryId :: "string option"
  fq_tagId :: "string option"
  fq_authorId :: "string option"
  fq_pricingType :: "string option"
  fq_graphicFormat :: "string option"
  fq_status :: "string option"
  fq_sort :: "string option"
  fq_limit :: "int option"
  fq_cursor :: "string option"

definition when_truthy :: "string option \<Rightarrow> (string \<Rightarrow> product_where) \<Rightarrow> product_where list" where
  "when_truthy x f = (if truthy x then [f (the x)] else [])"

text \<open>\<open>if (cid)\<close>: an identifier that is not a number, or is zero, adds no condition.\<close>

definition when_id :: "string option \<Rightarrow> (int \<Rightarrow> product_where) \<Rightarrow> product_where list" where
  "when_id x f = (case toBigIntNullable x of None \<Rightarrow> [] | Some i \<Rightarrow> if i \<noteq> 0 then [f i] else [])"

definition baseWhere :: "ProductFindQueryDto \<Rightarrow> product_where" where
  "baseWhere query =
     (let ands = (case makeTextWhere (fq_q query) of None \<Rightarrow> [] | Some w \<Rightarrow> [w]) @
        when_truthy (fq_pricingType query) WPricing @ when_truthy (fq_graphicFormat query) WFormat @
        when_truthy (fq_status query) WStatus @ when_id (fq_categoryId query) WCategory @ when_id (fq_tagId query) WTag @
        when_truthy (fq_authorId query) WAuthor
      in if ands \<noteq> [] then WAnd ands else WAll)"

datatype product_sort = Latest | Popular | Viewed | Liked | OtherSort

definition sort_of :: "string option \<Rightarrow> product_sort" where
  "sort_of s = (let x = orElse s ''latest'' in
     if x = ''latest'' then Latest else if x = ''popular'' then Popular else if x = ''viewed'' then Viewed
     else if x = ''liked'' then Liked else OtherSort)"

fun orderBy :: "product_sort \<Rightarrow> order_col list" where
  "orderBy Latest = [OCreatedAt, OId]"
| "orderBy Popular = [OCount Downloads, OCount Likes, OId]"
| "orderBy Viewed = [OCount Views, OId]"
| "orderBy Liked = [OCount Likes, OId]"
| "orderBy OtherSort = []"

text \<open>The condition of a cursor: \<open>None\<close> when there is none.\<close>

definition count_cursor :: "counter \<Rightarrow> json \<Rightarrow> ('d, product_where) eff" where
  "count_cursor k c =
     bindM (orThrow syntax_error (bigint_of (jfield ''id'' c))) (\<lambda>i.
     bindM (orThrow validation_error (number_of (jfield ''primary'' c))) (\<lambda>primary.
     retM (WOr [WCountLt k primary, WAnd [WCount k primary, WIdLt i]])))"

definition date_cursor :: "(string \<Rightarrow> int option) \<Rightarrow> json \<Rightarrow> ('d, product_where) eff" where
  "date_cursor newDate c =
     bindM (orThrow syntax_error (bigint_of (jfield ''id'' c))) (\<lambda>i.
     bindM (orThrow validation_error (date_of newDate (jfield ''createdAt'' c))) (\<lambda>createdAt.
     retM (WOr [WCreatedLt createdAt, WAnd [WCreated createdAt, WIdLt i]])))"

definition cursorWhere :: "(string \<Rightarrow> int option) \<Rightarrow> product_sort \<Rightarrow> string option \<Rightarrow> ('d, product_where option) eff" where
  "cursorWhere newDate s cursor =
     (let c = decodeCursor cursor in
      if \<not> js_truthy c \<or> s = OtherSort then retM None
      else bindM (case s of
          Popular \<Rightarrow> count_cursor Downloads (the c)
        | Viewed \<Rightarrow> count_cursor Views (the c)
        | Liked \<Rightarrow> count_cursor Likes (the c)
        | _ \<Rightarrow> date_cursor newDate (the c)) (\<lambda>w. retM (Some w)))"

definition finalWhere :: "product_where \<Rightarrow> product_where option \<Rightarrow> product_where" where
  "finalWhere base c = (case c of None \<Rightarrow> base | Some w \<Rightarrow> WAnd [base, w])"

definition count_cursor_of :: "counter \<Rightarrow> product_row \<Rightarrow> string" where
  "count_cursor_of k r = encodeCursor [(''primary'', JNum (count_of k r)), (''id'', JStr (int_str (pr_id r)))]"

definition date_cursor_of :: "product_row \<Rightarrow> string" where
  "date_cursor_of r = encodeCursor [(''createdAt'', JStr (toISOString (pr_createdAt r))), (''id'', JStr (int_str (pr_id r)))]"

fun cursor_of :: "product_sort \<Rightarrow> product_row \<Rightarrow> string option" where
  "cursor_of Latest r = Some (date_cursor_of r)"
| "cursor_of Popular r = Some (count_cursor_of Downloads r)"
| "cursor_of Viewed r = Some (count_cursor_of Views r)"
| "cursor_of Liked r = Some (count_cursor_of Likes r)"
| "cursor_of OtherSort r = None"

definition clampLimit :: "int option \<Rightarrow> nat" where
  "clampLimit limit = nat (min (max (orElse limit 24) 1) 60)"

definition product_findAll ::
  "'d cat_ops \<Rightarrow> (string \<Rightarrow> int option) \<Rightarrow> ProductFindQueryDto \<Rightarrow> ('d, product_brief list \<times> string option) eff"
where
  "product_findAll D newDate query =
     (let limit = clampLimit (fq_limit query); s = sort_of (fq_sort query) in
      bindM (cursorWhere newDate s (fq_cursor query)) (\<lambda>cursor.
      bindM (d_products D (finalWhere (baseWhere query) cursor) (orderBy s) limit) (\<lambda>rows.
      retM (map toBrief rows, if length rows = limit then cursor_of s (pf_row (last rows)) else None))))"

section \<open>The other operations\<close>

definition empty_patch :: product_patch where
  "empty_patch = \<lparr>pp_slug = None, pp_title = None, pp_description = None, pp_coverUrl = None, pp_topic = None, pp_seoTitle = None,
     pp_seoDescription = None, pp_seoKeywords = None, pp_pricingType = None, pp_price = None, pp_status = None,
     pp_publishedAt = None, pp_graphicFormat = None, pp_file = None\<rparr>"

definition product_remove :: "'d cat_ops \<Rightarrow> int \<Rightarrow> string \<Rightarrow> actor \<Rightarrow> ('d, product_detail) eff" where
  "product_remove D now idOrSlug a =
     bindM (getByIdOrSlugStrict D idOrSlug) (\<lambda>product.
     let p = pr_id (pf_row product) in
     bindM (canEdit D p a) (\<lambda>ok.
     thenM (throwIfM (\<not> ok) (forbidden ''You are not allowed to remove this product.''))
     (bindM (writeIncluding D now (ProductUpdate p (empty_patch\<lparr>pp_status := Some ''ARCHIVED''\<rparr>))) (\<lambda>updated.
      retM (toDetail updated)))))"

text \<open>\<open>$transaction([w1, w2])\<close>.\<close>

definition writeBoth :: "'d cat_ops \<Rightarrow> int \<Rightarrow> cat_write \<Rightarrow> cat_write \<Rightarrow> ('d, unit) eff" where
  "writeBoth D now w1 w2 = transaction (bindM (d_write D now w1) (\<lambda>_. bindM (d_write D now w2) (\<lambda>_. retM ())))"

definition invalid_product :: exn where
  "invalid_product = badRequest ''Invalid product id''"

text \<open>The transaction of a toggled like, of both services; the flag is that of \<open>LikeCreate\<close>.\<close>

definition like_write :: "'d cat_ops \<Rightarrow> int \<Rightarrow> bool \<Rightarrow> string \<Rightarrow> int \<Rightarrow> mark option \<Rightarrow> ('d, bool) eff" where
  "like_write D now connect userId productId existing =
     (if existing \<noteq> None
      then thenM (writeBoth D now (LikeDelete userId productId) (ProductIncrement [(Likes, -1)] productId)) (retM False)
      else thenM (writeBoth D now (LikeCreate connect userId productId) (ProductIncrement [(Likes, 1)] productId)) (retM True))"

definition product_toggleLike :: "'d cat_ops \<Rightarrow> int \<Rightarrow> string \<Rightarrow> string \<Rightarrow> ('d, bool) eff" where
  "product_toggleLike D now productIdStr userId =
     bindM (orThrow invalid_product (toBigIntNullable (Some productIdStr))) (\<lambda>productId.
     bindM (d_like D userId productId) (\<lambda>existed. like_write D now False userId productId existed))"

definition product_toggleBookmark :: "'d cat_ops \<Rightarrow> int \<Rightarrow> string \<Rightarrow> string \<Rightarrow> ('d, bool) eff" where
  "product_toggleBookmark D now productIdStr userId =
     bindM (orThrow invalid_product (toBigIntNullable (Some productIdStr))) (\<lambda>productId.
     bindM (d_bookmark D userId productId) (\<lambda>existed.
     if existed \<noteq> None then bindM (d_write D now (BookmarkDelete userId productId)) (\<lambda>_. retM False)
     else bindM (d_write D now (BookmarkCreate userId productId)) (\<lambda>_. retM True)))"

definition product_incrementView :: "'d cat_ops \<Rightarrow> int \<Rightarrow> int \<Rightarrow> string option \<Rightarrow> string option \<Rightarrow> string option \<Rightarrow> ('d, unit) eff" where
  "product_incrementView D now productId viewerId ip ua =
     writeBoth D now (ProductIncrement [(Views, 1)] productId) (ViewCreate productId viewerId ip ua)"

definition product_registerDownload ::
  "'d cat_ops \<Rightarrow> int \<Rightarrow> string \<Rightarrow> string \<Rightarrow> int option \<Rightarrow> int option \<Rightarrow> string option \<Rightarrow> ('d, unit) eff"
where
  "product_registerDownload D now productIdStr userId bytes pricePaid ip =
     bindM (orThrow invalid_product (toBigIntNullable (Some productIdStr))) (\<lambda>productId.
     writeBoth D now (ProductIncrement [(Downloads, 1)] productId) (DownloadCreate False userId productId bytes pricePaid ip))"

end
