(* ===== verification/Engagement.thy ===== *)
theory Engagement
  imports Product
begin

text \<open>
  Likes, bookmarks, downloads and the counters of a product: \<open>catalog/likes/likes.service.ts\<close>,
  \<open>catalog/bookmarks/bookmarks.service.ts\<close>, \<open>catalog/downloads/downloads.service.ts\<close>,
  \<open>catalog/counters/counters.service.ts\<close> and the download link of
  \<open>catalog/storage/local-storage.service.ts\<close>.
\<close>

section \<open>Lists of a user\<close>

definition toBigIntOrThrow :: "string \<Rightarrow> ('s, int) eff" where
  "toBigIntOrThrow i = (if all_digits i then retM (int (digits_val i)) else throwM invalid_product)"

text \<open>The cursor of a list: the time of a row and the identifier under the given name.\<close>

definition list_cursor :: "(string \<Rightarrow> int option) \<Rightarrow> string \<Rightarrow> string option \<Rightarrow> ('d, list_cursor) eff" where
  "list_cursor newDate name cursor =
     (let c = decodeCursor cursor in
      if \<not> js_truthy c then retM None
      else bindM (orThrow syntax_error (bigint_of (jfield name (the c)))) (\<lambda>i.
           bindM (orThrow validation_error (date_of newDate (jfield ''createdAt'' (the c)))) (\<lambda>createdAt.
           retM (Some (createdAt, i)))))"

definition list_cursor_of :: "string \<Rightarrow> int \<Rightarrow> int \<Rightarrow> string" where
  "list_cursor_of name createdAt i = encodeCursor [(''createdAt'', JStr (toISOString createdAt)), (name, JStr (int_str i))]"

text \<open>\<open>ProductMapper.toBrief(row.product)\<close>, and the time of the row.\<close>

definition mark_item :: "mark \<times> product_full option \<Rightarrow> ('d, product_brief \<times> string) eff" where
  "mark_item r = bindM (orThrow type_error (snd r)) (\<lambda>p. retM (toBrief p, toISOString (mk_createdAt (fst r))))"

definition next_mark :: "nat \<Rightarrow> (mark \<times> product_full option) list \<Rightarrow> string option" where
  "next_mark limit rows =
     (if length rows = limit then Some (list_cursor_of ''productId'' (mk_createdAt (fst (last rows))) (mk_productId (fst (last rows)))) else None)"

section \<open>Likes\<close>

definition likes_toggle :: "'d cat_ops \<Rightarrow> int \<Rightarrow> string \<Rightarrow> string \<Rightarrow> ('d, bool) eff" where
  "likes_toggle D now userId productIdStr =
     bindM (toBigIntOrThrow productIdStr) (\<lambda>productId.
     bindM (d_like D userId productId) (\<lambda>existing. like_write D now True userId productId existing))"

definition likes_listForUser ::
  "'d cat_ops \<Rightarrow> (string \<Rightarrow> int option) \<Rightarrow> string \<Rightarrow> int option \<Rightarrow> string option \<Rightarrow> ('d, (product_brief \<times> string) list \<times> string option) eff"
where
  "likes_listForUser D newDate userId limit cursor =
     (let take = clampLimit limit in
      bindM (list_cursor newDate ''productId'' cursor) (\<lambda>c.
      bindM (d_likes D userId c take) (\<lambda>rows.
      bindM (mapM mark_item rows) (\<lambda>items. retM (items, next_mark take rows)))))"

section \<open>Bookmarks\<close>

definition bookmark_id :: "string \<Rightarrow> ('d, int) eff" where
  "bookmark_id productIdStr = orThrow invalid_product (toBigIntNullable (Some productIdStr))"

definition bookmarks_toggle :: "'d cat_ops \<Rightarrow> int \<Rightarrow> string \<Rightarrow> string \<Rightarrow> ('d, bool) eff" where
  "bookmarks_toggle D now userId productIdStr =
     bindM (bookmark_id productIdStr) (\<lambda>productId.
     bindM (d_bookmark D userId productId) (\<lambda>existed.
     if existed \<noteq> None then bindM (d_write D now (BookmarkDelete userId productId)) (\<lambda>_. retM False)
     else bindM (d_write D now (BookmarkCreate userId productId)) (\<lambda>_. retM True)))"

definition bookmarks_remove :: "'d cat_ops \<Rightarrow> int \<Rightarrow> string \<Rightarrow> string \<Rightarrow> ('d, unit) eff" where
  "bookmarks_remove D now userId productIdStr =
     bindM (bookmark_id productIdStr) (\<lambda>productId.
     bindM (d_write D now (BookmarkDeleteMany userId productId)) (\<lambda>_. retM ()))"

definition isBookmarked :: "'d cat_ops \<Rightarrow> string \<Rightarrow> string \<Rightarrow> ('d, bool) eff" where
  "isBookmarked D userId productIdStr =
     bindM (bookmark_id productIdStr) (\<lambda>productId.
     bindM (d_bookmark D userId productId) (\<lambda>existed. retM (existed \<noteq> None)))"

definition bookmarks_listForUser ::
  "'d cat_ops \<Rightarrow> (string \<Rightarrow> int option) \<Rightarrow> string \<Rightarrow> int option \<Rightarrow> string option \<Rightarrow> ('d, (product_brief \<times> string) list \<times> string option) eff"
where
  "bookmarks_listForUser D newDate userId limit cursor =
     (let take = clampLimit limit in
      bindM (list_cursor newDate ''productId'' cursor) (\<lambda>c.
      bindM (d_bookmarks D userId c take) (\<lambda>rows.
      bindM (mapM mark_item rows) (\<lambda>items. retM (items, next_mark take rows)))))"

section \<open>Counters\<close>

text \<open>
  The Redis client of the counters. \<open>cn_scan\<close> is one \<open>SCAN\<close> of the keys
  \<open>cnt:product:*\<close>; \<open>cn_decrby\<close> is the \<open>MULTI\<close> of the \<open>DECRBY\<close>s.
\<close>

record 'r counter_redis =
  cn_incrby :: "string \<Rightarrow> int \<Rightarrow> ('r, unit) eff"
  cn_mget :: "string list \<Rightarrow> ('r, string option list) eff"
  cn_scan :: "string \<Rightarrow> ('r, string \<times> string list) eff"
  cn_decrby :: "(string \<times> int) list \<Rightarrow> ('r, unit) eff"

text \<open>The two stores a request works on.\<close>

record ('r, 'd) stores =
  so_redis :: 'r
  so_db :: 'd

definition onRedis :: "('r, 'a) eff \<Rightarrow> (('r, 'd) stores, 'a) eff" where
  "onRedis m s = (case m (so_redis s) of (x, r) \<Rightarrow> (x, s\<lparr>so_redis := r\<rparr>))"

definition onDb :: "('d, 'a) eff \<Rightarrow> (('r, 'd) stores, 'a) eff" where
  "onDb m s = (case m (so_db s) of (x, d) \<Rightarrow> (x, s\<lparr>so_db := d\<rparr>))"

fun kind_str :: "counter \<Rightarrow> string" where
  "kind_str Views = ''views''"
| "kind_str Downloads = ''downloads''"
| "kind_str Likes = ''likes''"

definition counter_key :: "int \<Rightarrow> string \<Rightarrow> string" where
  "counter_key productId kind = ''cnt:product:'' @ int_str productId @ '':'' @ kind"

text \<open>An update: product, kind and value. The kind is the text found in the key.\<close>

type_synonym counter_update = "int \<times> string \<times> int"

definition group_value :: "counter_update list \<Rightarrow> int \<Rightarrow> counter \<Rightarrow> int" where
  "group_value us p k = sum_list (map (\<lambda>(q, kind, v). if q = p \<and> kind = kind_str k then v else 0) us)"

definition group_data :: "counter_update list \<Rightarrow> int \<Rightarrow> (counter \<times> int) list" where
  "group_data us p = filter (\<lambda>(k, v). v \<noteq> 0) (map (\<lambda>k. (k, group_value us p k)) [Views, Downloads, Likes])"

definition applyDbIncrement :: "'d cat_ops \<Rightarrow> int \<Rightarrow> counter_update list \<Rightarrow> ('d, unit) eff" where
  "applyDbIncrement D now us =
     transaction (eachM (\<lambda>p. bindM (d_write D now (ProductIncrement (group_data us p) p)) (\<lambda>_. retM ())) (js_unique (map fst us)))"

text \<open>The client is \<open>None\<close> when Redis is not configured. The increment is a finite number.\<close>

definition counters_bump :: "'r counter_redis option \<Rightarrow> 'd cat_ops \<Rightarrow> int \<Rightarrow> int \<Rightarrow> counter \<Rightarrow> int \<Rightarrow> (('r, 'd) stores, unit) eff" where
  "counters_bump R D now productId kind delta =
     (case R of
        Some r \<Rightarrow> onRedis (cn_incrby r (counter_key productId (kind_str kind)) delta)
      | None \<Rightarrow> onDb (applyDbIncrement D now [(productId, kind_str kind, delta)]))"

definition bumpLikeDelta :: "'r counter_redis option \<Rightarrow> 'd cat_ops \<Rightarrow> int \<Rightarrow> int \<Rightarrow> int \<Rightarrow> (('r, 'd) stores, unit) eff" where
  "bumpLikeDelta R D now productId delta = counters_bump R D now productId Likes delta"

definition count_text :: "string option \<Rightarrow> int" where
  "count_text v = (case v of None \<Rightarrow> 0 | Some s \<Rightarrow> orElse (int_of_str s) 0)"

definition readCurrent :: "'r counter_redis option \<Rightarrow> int \<Rightarrow> (('r, 'd) stores, int \<times> int \<times> int) eff" where
  "readCurrent R productId =
     (case R of
        None \<Rightarrow> retM (0, 0, 0)
      | Some r \<Rightarrow> bindM (onRedis (cn_mget r (map (\<lambda>k. counter_key productId (kind_str k)) [Views, Downloads, Likes]))) (\<lambda>vs.
          retM (count_text (vs ! 0), count_text (vs ! 1), count_text (vs ! 2))))"

text \<open>\<open>k.split(':')\<close>, and the update of a key whose value is not zero.\<close>

definition update_of :: "string \<times> string option \<Rightarrow> ('s, counter_update option) eff" where
  "update_of kv =
     (let raw = count_text (snd kv); parts = split_on (CHR '':'') (fst kv) in
      if raw = 0 then retM None
      else if length parts < 3 then throwM type_error
      else bindM (orThrow syntax_error (js_bigint (parts ! 2))) (\<lambda>pid.
           retM (Some (pid, if length parts < 4 then [] else parts ! 3, raw))))"

definition somes :: "'a option list \<Rightarrow> 'a list" where
  "somes xs = List.map_filter id xs"

text \<open>The scan, with a bound on its rounds; \<open>None\<close> when the bound is reached first.\<close>

fun flush_scan :: "'r counter_redis \<Rightarrow> nat \<Rightarrow> string \<Rightarrow> ('r, counter_update list option) eff" where
  "flush_scan r 0 cursor = retM None"
| "flush_scan r (Suc n) cursor =
     bindM (cn_scan r cursor) (\<lambda>(nxt, keys).
     bindM (if keys = [] then retM [] else bindM (cn_mget r keys) (\<lambda>values.
       bindM (mapM update_of (zip keys values)) (\<lambda>us. retM (somes us)))) (\<lambda>us.
     if nxt = ''0'' then retM (Some us)
     else bindM (flush_scan r n nxt) (\<lambda>rest. retM (map_option (\<lambda>ws. us @ ws) rest))))"

definition flushBatch :: "'r counter_redis option \<Rightarrow> 'd cat_ops \<Rightarrow> nat \<Rightarrow> int \<Rightarrow> (('r, 'd) stores, bool) eff" where
  "flushBatch R D n now =
     (case R of
        None \<Rightarrow> retM True
      | Some r \<Rightarrow>
          bindM (onRedis (flush_scan r n ''0'')) (\<lambda>us. case us of
             None \<Rightarrow> retM False
           | Some us \<Rightarrow>
               if us = [] then retM True
               else thenM (onDb (applyDbIncrement D now us))
                    (thenM (onRedis (cn_decrby r (map (\<lambda>(p, kind, v). (counter_key p kind, v)) us))) (retM True))))"

section \<open>Downloads\<close>

text \<open>\<open>encodeURIComponent\<close>, of code units below 256.\<close>

definition uri_plain :: "char \<Rightarrow> bool" where
  "uri_plain c \<longleftrightarrow> is_lower c \<or> is_upper c \<or> is_digit c \<or> c \<in> set ''-_.!~*()'' \<or> c = CHR 0x27"

definition hex_upper :: "nat \<Rightarrow> char" where
  "hex_upper n = (if n < 10 then char_of (48 + n) else char_of (55 + n))"

definition percent :: "nat \<Rightarrow> string" where
  "percent b = [CHR ''%'', hex_upper (b div 16), hex_upper (b mod 16)]"

definition encodeURIComponent :: "string \<Rightarrow> string" where
  "encodeURIComponent s = concat (map (\<lambda>c. let n = of_char c in
     if uri_plain c then [c] else if n < 128 then percent n else percent (192 + n div 64) @ percent (128 + n mod 64)) s)"

definition getDownloadUrl :: "string \<Rightarrow> string" where
  "getDownloadUrl storageKey = ''/catalog/storage/local/'' @ encodeURIComponent storageKey"

definition downloads_start ::
  "'r counter_redis option \<Rightarrow> 'd cat_ops \<Rightarrow> int \<Rightarrow> string \<Rightarrow> string \<Rightarrow> int option \<Rightarrow> int option \<Rightarrow> (('r, 'd) stores, string option) eff"
where
  "downloads_start R D now userId productIdStr bytes pricePaid =
     bindM (toBigIntOrThrow productIdStr) (\<lambda>productId.
     bindM (onDb (d_fileKey D productId)) (\<lambda>product.
     bindM (orThrow (notFound ''Product not found'') product) (\<lambda>key.
     thenM (counters_bump R D now productId Downloads 1)
     (bindM (onDb (d_write D now (DownloadCreate True userId productId bytes pricePaid None))) (\<lambda>_.
      retM (if truthy key then Some (getDownloadUrl (the key)) else None))))))"

definition download_item :: "download_row \<times> product_full option \<Rightarrow> ('d, product_brief \<times> string \<times> int option \<times> int option) eff" where
  "download_item r =
     bindM (orThrow type_error (snd r)) (\<lambda>p.
     retM (toBrief p, toISOString (dl_createdAt (fst r)), dl_bytes (fst r), dl_pricePaid (fst r)))"

definition next_download :: "nat \<Rightarrow> (download_row \<times> product_full option) list \<Rightarrow> string option" where
  "next_download limit rows =
     (if length rows = limit then Some (list_cursor_of ''id'' (dl_createdAt (fst (last rows))) (dl_id (fst (last rows)))) else None)"

definition downloads_listForUser ::
  "'d cat_ops \<Rightarrow> (string \<Rightarrow> int option) \<Rightarrow> string \<Rightarrow> int option \<Rightarrow> string option
    \<Rightarrow> ('d, (product_brief \<times> string \<times> int option \<times> int option) list \<times> string option) eff"
where
  "downloads_listForUser D newDate userId limit cursor =
     (let take = clampLimit limit in
      bindM (list_cursor newDate ''id'' cursor) (\<lambda>c.
      bindM (d_downloads D userId c take) (\<lambda>rows.
      bindM (mapM download_item rows) (\<lambda>items. retM (items, next_download take rows)))))"

end
