(* ===== verification/CatalogPages.thy ===== *)
theory CatalogPages
  imports Engagement
begin

text \<open>
  The paged lists of the catalogue as instances of \<open>keyset\<close>: the cursor of a row reads back as
  the condition "after this row" of the list's order. The list of products sorted by popularity is
  not an instance; \<open>CatalogProps\<close> shows why.
\<close>

section \<open>Cursors read back\<close>

lemma ascii_simps [simp]:
  "ascii []" "ascii (c # s) \<longleftrightarrow> (of_char c :: nat) < 128 \<and> ascii s" "ascii (s @ s') \<longleftrightarrow> ascii s \<and> ascii s'"
  by (auto simp: ascii_def)

lemma ascii_digits: "list_all is_digit s \<Longrightarrow> ascii s"
  by (auto simp: ascii_def list_all_iff is_digit_def)

lemma ascii_int_str [simp]: "ascii (int_str i)"
  using ascii_digits [OF nat_str_digits] by (simp add: int_str_def)

lemma ascii_pad [simp]: "ascii s \<Longrightarrow> ascii (pad n s)"
  by (auto simp: pad_def ascii_def)

lemma ascii_iso [simp]: "ascii (toISOString t)"
  by (simp add: toISOString_def iso_date_def Let_def split: prod.split)

lemma ascii_hex: "n < 16 \<Longrightarrow> (of_char (hex_char n) :: nat) < 128"
  by (simp add: hex_char_def)

lemma ascii_esc: "(of_char c :: nat) < 128 \<Longrightarrow> ascii (esc_char c)"
  using ascii_hex [of "of_char c div 16"] ascii_hex [of "of_char c mod 16"]
  by (auto simp: esc_char_def Let_def)

lemma ascii_str_print [simp]: "ascii s \<Longrightarrow> ascii (str_print s)"
proof -
  assume "ascii s"
  then have "ascii (concat (map esc_char s))" by (induction s) (auto simp: ascii_esc)
  then show ?thesis by (simp add: str_print_def)
qed

lemma int_str_trim: "js_trim (int_str i) = int_str i"
proof (rule js_trim_trimmed)
  have "\<not> is_space c" if "c \<in> set (int_str i)" for c
    using int_str_chars [OF that] by (auto simp: is_digit_def is_space_def)
  then show "int_str i \<noteq> [] \<Longrightarrow> \<not> is_space (hd (int_str i)) \<and> \<not> is_space (last (int_str i))" by simp
qed

lemma int_str_not_nil [simp]: "int_str i \<noteq> []"
  by (simp add: int_str_def)

lemma bigint_back [simp]: "js_bigint (int_str i) = Some i"
proof -
  have "hd (int_str i) \<noteq> CHR ''+''"
    using int_str_chars [of "hd (int_str i)" i] by (auto simp: is_digit_def)
  then show ?thesis by (simp add: js_bigint_def int_str_trim Let_def)
qed

lemma cursor_back:
  "ascii k \<Longrightarrow> ascii k' \<Longrightarrow> ascii x \<Longrightarrow> decodeCursor (Some (encodeCursor [(k, JStr x), (k', JStr (int_str i))])) =
      Some (JObj [(k, JStr x), (k', JStr (int_str i))])"
  by (intro cursor_round) simp_all

lemma count_cursor_back:
  "ascii k \<Longrightarrow> ascii k' \<Longrightarrow> decodeCursor (Some (encodeCursor [(k, JNum n), (k', JStr (int_str i))])) =
      Some (JObj [(k, JNum n), (k', JStr (int_str i))])"
  by (intro cursor_round) simp_all

section \<open>Products\<close>

text \<open>What is asked of \<open>new Date\<close>: it reads what \<open>toISOString\<close> has written.\<close>

definition dates_ok :: "(string \<Rightarrow> int option) \<Rightarrow> bool" where
  "dates_ok newDate \<longleftrightarrow> (\<forall>t. iso_range t \<longrightarrow> newDate (toISOString t) = Some t)"

lemma parse_iso_ok: "dates_ok parse_iso"
  by (simp add: dates_ok_def iso_round)

definition keyset_sort :: "product_sort \<Rightarrow> bool" where
  "keyset_sort s \<longleftrightarrow> s \<in> {Latest, Viewed, Liked}"

type_synonym product_env = "(string \<Rightarrow> int option) \<times> catalog \<times> ProductFindQueryDto"

fun product_good :: "product_env \<Rightarrow> bool" where
  "product_good (newDate, t, q) \<longleftrightarrow> catalog_wf t \<and> dates_ok newDate \<and> keyset_sort (sort_of (fq_sort q)) \<and>
     (\<forall>r \<in> set (ct_products t). iso_range (pr_createdAt r))"

fun product_key :: "product_env \<Rightarrow> product_row \<Rightarrow> int list" where
  "product_key (newDate, t, q) r = map (\<lambda>c. col_of c r) (orderBy (sort_of (fq_sort q)))"

fun product_rows :: "product_env \<Rightarrow> product_row list" where
  "product_rows (newDate, t, q) = sort_desc (product_key (newDate, t, q)) (filter (matches t (baseWhere q)) (ct_products t))"

fun product_enc :: "product_env \<Rightarrow> product_row \<Rightarrow> string" where
  "product_enc (newDate, t, q) r = the (cursor_of (sort_of (fq_sort q)) r)"

fun product_shown :: "product_env \<Rightarrow> product_row \<Rightarrow> product_brief" where
  "product_shown (newDate, t, q) r = toBrief (with_relations t r)"

fun product_size :: "product_env \<Rightarrow> nat" where
  "product_size (newDate, t, q) = clampLimit (fq_limit q)"

fun product_serve :: "product_env \<Rightarrow> string option \<Rightarrow> product_brief list \<times> string option" where
  "product_serve (newDate, t, q) c =
     (case fst (product_findAll cat_ref newDate (q\<lparr>fq_cursor := c\<rparr>) t) of Inr x \<Rightarrow> x | Inl e \<Rightarrow> ([], None))"

lemma keys_of_two:
  assumes "keyset_sort s"
  shows "\<exists>c. orderBy s = [c, OId]"
  using assms by (auto simp: keyset_sort_def)

lemma clamp_pos: "0 < clampLimit l"
  by (simp add: clampLimit_def)

lemma cursor_where:
  assumes "keyset_sort s" and "dates_ok newDate" and "iso_range (pr_createdAt r)"
  obtains w where "\<And>d. cursorWhere newDate s (Some (the (cursor_of s r))) d = (Inr (Some w), d)"
    and "\<And>t y. matches t w y \<longleftrightarrow> map (\<lambda>c. col_of c y) (orderBy s) < map (\<lambda>c. col_of c r) (orderBy s)"
proof (cases s)
  case Latest
  let ?w = "WOr [WCreatedLt (pr_createdAt r), WAnd [WCreated (pr_createdAt r), WIdLt (pr_id r)]]"
  have "cursorWhere newDate s (Some (the (cursor_of s r))) d = (Inr (Some ?w), d)" for d :: 'a
    using assms(2, 3) Latest
    by (simp add: cursorWhere_def date_cursor_of_def cursor_back Let_def date_cursor_def orThrow_def exec bigint_of_def date_of_def dates_ok_def)
  then show ?thesis by (rule that) (auto simp: Latest)
next
  case Viewed
  let ?w = "WOr [WCountLt Views (count_of Views r), WAnd [WCount Views (count_of Views r), WIdLt (pr_id r)]]"
  have "cursorWhere newDate s (Some (the (cursor_of s r))) d = (Inr (Some ?w), d)" for d :: 'a
    using Viewed
    by (simp add: cursorWhere_def count_cursor_of_def count_cursor_back Let_def count_cursor_def orThrow_def exec bigint_of_def number_of_def)
  then show ?thesis by (rule that) (auto simp: Viewed)
next
  case Liked
  let ?w = "WOr [WCountLt Likes (count_of Likes r), WAnd [WCount Likes (count_of Likes r), WIdLt (pr_id r)]]"
  have "cursorWhere newDate s (Some (the (cursor_of s r))) d = (Inr (Some ?w), d)" for d :: 'a
    using Liked
    by (simp add: cursorWhere_def count_cursor_of_def count_cursor_back Let_def count_cursor_def orThrow_def exec bigint_of_def number_of_def)
  then show ?thesis by (rule that) (auto simp: Liked)
qed (use assms(1) in \<open>simp_all add: keyset_sort_def\<close>)

lemma base_cursor [simp]: "baseWhere (q\<lparr>fq_cursor := c\<rparr>) = baseWhere q"
  by (simp add: baseWhere_def)

text \<open>A page of products, once the cursor has been read.\<close>

lemma findAll_page:
  assumes k: "keyset_sort (sort_of (fq_sort q))"
    and c: "cursorWhere newDate (sort_of (fq_sort q)) c t = (Inr w, t)"
  shows "product_findAll cat_ref newDate (q\<lparr>fq_cursor := c\<rparr>) t =
    (Inr (page_of (product_enc (newDate, t, q)) (product_shown (newDate, t, q)) (clampLimit (fq_limit q))
      (sort_desc (product_key (newDate, t, q)) (filter (matches t (finalWhere (baseWhere q) w)) (ct_products t)))), t)"
proof -
  let ?n = "clampLimit (fq_limit q)" and ?s = "sort_of (fq_sort q)"
  let ?rows = "sort_desc (product_key (newDate, t, q)) (filter (matches t (finalWhere (baseWhere q) w)) (ct_products t))"
  have "product_key (newDate, t, q) = (\<lambda>r. map (\<lambda>c. col_of c r) (orderBy ?s))" by (rule ext) simp
  moreover define p where "p = take ?n ?rows"
  ultimately have e: "q_products (finalWhere (baseWhere q) w) (orderBy ?s) ?n t = map (with_relations t) p"
    by (simp only: q_products_def)
  have nx: "(if length p = ?n then cursor_of ?s (pf_row (last (map (with_relations t) p))) else None) =
      (if length p = ?n then Some (product_enc (newDate, t, q) (last p)) else None)"
  proof (cases "length p = ?n")
    case True
    then have "p \<noteq> []" using clamp_pos [of "fq_limit q"] by auto
    then show ?thesis using k by (auto simp: last_map with_relations_def keyset_sort_def)
  qed simp
  have "product_findAll cat_ref newDate (q\<lparr>fq_cursor := c\<rparr>) t =
      (Inr (map toBrief (map (with_relations t) p), if length p = ?n then cursor_of ?s (pf_row (last (map (with_relations t) p))) else None), t)"
    using c by (simp add: product_findAll_def Let_def exec reads_def e)
  then show ?thesis unfolding nx by (simp add: page_of_def p_def comp_def)
qed

lemma products_served:
  assumes g: "product_good (newDate, t, q)"
  shows "\<exists>p. product_findAll cat_ref newDate (q\<lparr>fq_cursor := None\<rparr>) t = (Inr p, t) \<and>
      p = page_of (product_enc (newDate, t, q)) (product_shown (newDate, t, q)) (clampLimit (fq_limit q)) (product_rows (newDate, t, q))"
    and "x \<in> set (product_rows (newDate, t, q)) \<Longrightarrow>
      \<exists>p. product_findAll cat_ref newDate (q\<lparr>fq_cursor := Some (product_enc (newDate, t, q) x)\<rparr>) t = (Inr p, t) \<and>
      p = page_of (product_enc (newDate, t, q)) (product_shown (newDate, t, q)) (clampLimit (fq_limit q))
        (filter (\<lambda>y. product_key (newDate, t, q) y < product_key (newDate, t, q) x) (product_rows (newDate, t, q)))"
proof -
  let ?s = "sort_of (fq_sort q)"
  have k: "keyset_sort ?s" and nd: "dates_ok newDate" using g by simp_all
  have "cursorWhere newDate ?s None t = (Inr None, t)" by (simp add: cursorWhere_def decodeCursor_def truthy_def exec)
  from findAll_page [OF k this] show "\<exists>p. product_findAll cat_ref newDate (q\<lparr>fq_cursor := None\<rparr>) t = (Inr p, t) \<and>
      p = page_of (product_enc (newDate, t, q)) (product_shown (newDate, t, q)) (clampLimit (fq_limit q)) (product_rows (newDate, t, q))"
    by (simp add: finalWhere_def)
  assume x: "x \<in> set (product_rows (newDate, t, q))"
  then have "iso_range (pr_createdAt x)" using g by (auto simp: sort_desc_def)
  from cursor_where [OF k nd this] obtain w where w: "\<And>d :: catalog. cursorWhere newDate ?s (Some (the (cursor_of ?s x))) d = (Inr (Some w), d)"
    "\<And>t y. matches t w y \<longleftrightarrow> map (\<lambda>c. col_of c y) (orderBy ?s) < map (\<lambda>c. col_of c x) (orderBy ?s)" by blast
  have f: "filter (matches t (finalWhere (baseWhere q) (Some w))) (ct_products t) =
      filter (\<lambda>y. product_key (newDate, t, q) y < product_key (newDate, t, q) x) (filter (matches t (baseWhere q)) (ct_products t))"
    unfolding filter_filter by (rule filter_cong) (simp_all add: finalWhere_def w(2))
  from findAll_page [OF k w(1) [of t]]
  show "\<exists>p. product_findAll cat_ref newDate (q\<lparr>fq_cursor := Some (product_enc (newDate, t, q) x)\<rparr>) t = (Inr p, t) \<and>
      p = page_of (product_enc (newDate, t, q)) (product_shown (newDate, t, q)) (clampLimit (fq_limit q))
        (filter (\<lambda>y. product_key (newDate, t, q) y < product_key (newDate, t, q) x) (product_rows (newDate, t, q)))"
    unfolding f by (simp add: sort_desc_filter)
qed

lemma product_keys_distinct:
  assumes "product_good (newDate, t, q)"
  shows "distinct (map (product_key (newDate, t, q)) (filter P (ct_products t)))"
proof -
  have "distinct (map pr_id (filter P (ct_products t)))"
    using assms by (simp add: wf_parts ids_ok_def distinct_map_filter)
  moreover obtain c where "orderBy (sort_of (fq_sort q)) = [c, OId]" using keys_of_two assms by fastforce
  ultimately show ?thesis by (auto simp: distinct_map inj_on_def)
qed

interpretation prods: keyset product_good product_rows product_key product_enc product_shown product_size product_serve
proof (unfold_locales, goal_cases)
  case (1 e)
  then show ?case by (cases e) (simp add: clamp_pos)
next
  case (2 e)
  obtain newDate t q where e: "e = (newDate, t, q)" by (cases e)
  obtain c where "orderBy (sort_of (fq_sort q)) = [c, OId]" using keys_of_two 2 e by fastforce
  then have "\<exists>a b. product_key e x = [a, b]" for x by (simp add: e)
  moreover have "distinct (map (product_key e) (filter (matches t (baseWhere q)) (ct_products t)))"
    using product_keys_distinct 2 by (simp only: e)
  ultimately show ?case using sort_desc_sorted [of "product_key e"] unfolding e product_rows.simps by blast
next
  case (3 e)
  then obtain newDate t q where e: "e = (newDate, t, q)" "product_good (newDate, t, q)" by (cases e) simp
  from products_served(1) [OF e(2)] show ?case unfolding e(1) product_serve.simps product_size.simps by auto
next
  case (4 e x)
  then obtain newDate t q where e: "e = (newDate, t, q)" "product_good (newDate, t, q)" "x \<in> set (product_rows (newDate, t, q))"
    by (cases e) simp
  from products_served(2) [OF e(2, 3)] show ?case unfolding e(1) product_serve.simps product_size.simps by auto
qed

text \<open>The list of products, followed to its end over any client.\<close>

definition products_load_all ::
  "'d cat_ops \<Rightarrow> (string \<Rightarrow> int option) \<Rightarrow> ProductFindQueryDto \<Rightarrow> nat \<Rightarrow> ('d, product_brief list option) eff"
where
  "products_load_all D newDate q k = load_all (\<lambda>c. product_findAll D newDate (q\<lparr>fq_cursor := c\<rparr>)) k None"

lemma products_answer:
  assumes "product_good (newDate, t, q)"
    and "c = None \<or> (\<exists>x \<in> set (product_rows (newDate, t, q)). c = Some (product_enc (newDate, t, q) x))"
  shows "product_findAll cat_ref newDate (q\<lparr>fq_cursor := c\<rparr>) t = (Inr (product_serve (newDate, t, q) c), t)"
proof -
  have "\<exists>p. product_findAll cat_ref newDate (q\<lparr>fq_cursor := c\<rparr>) t = (Inr p, t)"
    using assms(2) products_served [OF assms(1)] by blast
  then show ?thesis by auto
qed

lemma product_rows_facts:
  assumes "product_good (newDate, t, q)"
  shows "set (product_rows (newDate, t, q)) = {r \<in> set (ct_products t). matches t (baseWhere q) r}"
    and "distinct (product_rows (newDate, t, q))"
proof -
  have "distinct (ct_products t)" using assms by (auto simp: wf_parts ids_ok_def distinct_map)
  then show "set (product_rows (newDate, t, q)) = {r \<in> set (ct_products t). matches t (baseWhere q) r}"
    "distinct (product_rows (newDate, t, q))" by (auto simp: sort_desc_def)
qed

lemma product_rows_length: "length (product_rows (newDate, t, q)) \<le> length (ct_products t)"
  by (simp add: sort_desc_def)

context catalog_db
begin

lemma sims_orThrow [sims_intro]: "sims (on_tables ok view) (orThrow e x) (orThrow e x)"
  by (simp add: orThrow_def sims_intro split: option.split)

lemma sims_cursorWhere [sims_intro]: "sims (on_tables ok view) (cursorWhere newDate s c) (cursorWhere newDate s c)"
  unfolding cursorWhere_def Let_def count_cursor_def date_cursor_def
  by (intro sims_intro) (cases s; simp add: sims_intro)

lemma sims_findAll [sims_intro]:
  "keyset_sort (sort_of (fq_sort q)) \<Longrightarrow> sims (on_tables ok view) (product_findAll D newDate q) (product_findAll cat_ref newDate q)"
  unfolding product_findAll_def Let_def by (intro sims_intro) (auto simp: keyset_sort_def)

end

lemma products_load_sims:
  assumes "catalog_db D ok view" and "keyset_sort (sort_of (fq_sort q))"
  shows "sims (on_tables ok view) (products_load_all D newDate q k) (products_load_all cat_ref newDate q k)"
  unfolding products_load_all_def using assms(2) by (intro sims_load_all catalog_db.sims_findAll [OF assms(1)]) simp

section \<open>Likes and bookmarks\<close>

type_synonym user_env = "(string \<Rightarrow> int option) \<times> catalog \<times> string \<times> int option"

text \<open>Both lists, over the tables.\<close>

definition marks_list ::
  "(catalog \<Rightarrow> mark list) \<Rightarrow> (string \<Rightarrow> int option) \<Rightarrow> string \<Rightarrow> int option \<Rightarrow> string option \<Rightarrow> (catalog, (product_brief \<times> string) list \<times> string option) eff"
where
  "marks_list tab newDate userId limit cursor =
     (let take = clampLimit limit in
      bindM (list_cursor newDate ''productId'' cursor) (\<lambda>c.
      bindM (reads (q_marks tab userId c take)) (\<lambda>rows.
      bindM (mapM mark_item rows) (\<lambda>items. retM (items, next_mark take rows)))))"

lemma lists_of_marks:
  "likes_listForUser cat_ref newDate u l c = marks_list ct_likes newDate u l c"
  "bookmarks_listForUser cat_ref newDate u l c = marks_list ct_bookmarks newDate u l c"
  by (simp_all add: likes_listForUser_def bookmarks_listForUser_def marks_list_def)

fun marks_good :: "(catalog \<Rightarrow> mark list) \<Rightarrow> user_env \<Rightarrow> bool" where
  "marks_good tab (newDate, t, u, l) \<longleftrightarrow> marks_ok (tab t) \<and> dates_ok newDate \<and>
     (\<forall>m \<in> set (tab t). mk_productId m \<in> set (product_ids t) \<and> iso_range (mk_createdAt m))"

definition mark_pos :: "mark \<Rightarrow> int list" where
  "mark_pos m = [mk_createdAt m, mk_productId m]"

fun marks_rows :: "(catalog \<Rightarrow> mark list) \<Rightarrow> user_env \<Rightarrow> mark list" where
  "marks_rows tab (newDate, t, u, l) = sort_desc mark_pos (filter (\<lambda>m. mk_userId m = u) (tab t))"

definition mark_enc :: "mark \<Rightarrow> string" where
  "mark_enc m = list_cursor_of ''productId'' (mk_createdAt m) (mk_productId m)"

fun mark_shown :: "user_env \<Rightarrow> mark \<Rightarrow> product_brief \<times> string" where
  "mark_shown (newDate, t, u, l) m = (toBrief (the (q_product (WId (mk_productId m)) t)), toISOString (mk_createdAt m))"

fun user_size :: "user_env \<Rightarrow> nat" where
  "user_size (newDate, t, u, l) = clampLimit l"

fun marks_serve :: "(catalog \<Rightarrow> mark list) \<Rightarrow> user_env \<Rightarrow> string option \<Rightarrow> (product_brief \<times> string) list \<times> string option" where
  "marks_serve tab (newDate, t, u, l) c = (case fst (marks_list tab newDate u l c t) of Inr x \<Rightarrow> x | Inl e \<Rightarrow> ([], None))"

lemma list_cursor_back:
  assumes "dates_ok newDate" and "iso_range d" and "ascii name" and "name \<noteq> ''createdAt''"
  shows "list_cursor newDate name (Some (list_cursor_of name d i)) s = (Inr (Some (d, i)), s)"
  using assms
  by (simp add: list_cursor_def list_cursor_of_def cursor_back Let_def orThrow_def exec bigint_of_def date_of_def dates_ok_def)

lemma q_product_known: "p \<in> set (product_ids t) \<Longrightarrow> \<exists>f. q_product (WId p) t = Some f"
proof -
  assume "p \<in> set (product_ids t)"
  then have "find_row (matches t (WId p)) (ct_products t) \<noteq> None" unfolding find_row_None by (auto simp: product_ids_def)
  then obtain r where "find_row (matches t (WId p)) (ct_products t) = Some r" by blast
  then show ?thesis by (simp add: q_product_def)
qed

lemma mapM_pure: "(\<And>x. x \<in> set xs \<Longrightarrow> f x s = (Inr (g x), s)) \<Longrightarrow> mapM f xs s = (Inr (map g xs), s)"
  by (induction xs) (simp_all add: exec)

text \<open>A page of marks, once the cursor has been read.\<close>

lemma marks_page:
  assumes g: "marks_good tab (newDate, t, u, l)" and c: "list_cursor newDate ''productId'' cur t = (Inr c, t)"
  shows "marks_list tab newDate u l cur t =
    (Inr (page_of mark_enc (mark_shown (newDate, t, u, l)) (clampLimit l)
      (sort_desc mark_pos (filter (\<lambda>m. mk_userId m = u \<and> after_cursor c (mk_createdAt m) (mk_productId m)) (tab t)))), t)"
proof -
  let ?n = "clampLimit l"
  let ?sorted = "sort_desc mark_pos (filter (\<lambda>m. mk_userId m = u \<and> after_cursor c (mk_createdAt m) (mk_productId m)) (tab t))"
  define p where "p = take ?n ?sorted"
  have "mark_pos = (\<lambda>m. [mk_createdAt m, mk_productId m])" by (rule ext) (simp add: mark_pos_def)
  then have rows: "q_marks tab u c ?n t = map (\<lambda>m. (m, q_product (WId (mk_productId m)) t)) p"
    by (simp only: q_marks_def p_def)
  have known: "m \<in> set p \<Longrightarrow> \<exists>f. q_product (WId (mk_productId m)) t = Some f" for m
    using g q_product_known by (auto simp: p_def sort_desc_def dest!: in_set_takeD)
  have items: "mapM mark_item (map (\<lambda>m. (m, q_product (WId (mk_productId m)) t)) p) t = (Inr (map (mark_shown (newDate, t, u, l)) p), t)"
    by (subst mapM_pure [where g = "\<lambda>r. mark_shown (newDate, t, u, l) (fst r)"])
       (use known in \<open>auto simp: mark_item_def orThrow_def exec comp_def split: option.split\<close>)
  have nx: "next_mark ?n (map (\<lambda>m. (m, q_product (WId (mk_productId m)) t)) p) = (if length p = ?n then Some (mark_enc (last p)) else None)"
  proof (cases "length p = ?n")
    case True
    then have "p \<noteq> []" using clamp_pos [of l] by auto
    then show ?thesis by (simp add: next_mark_def last_map mark_enc_def)
  qed (simp add: next_mark_def)
  have "marks_list tab newDate u l cur t =
      (Inr (map (mark_shown (newDate, t, u, l)) p, if length p = ?n then Some (mark_enc (last p)) else None), t)"
    using c by (simp add: marks_list_def Let_def exec reads_def rows items nx del: mark_shown.simps)
  then show ?thesis by (simp add: page_of_def p_def)
qed

lemma marks_served:
  assumes g: "marks_good tab (newDate, t, u, l)"
  shows "marks_list tab newDate u l None t =
      (Inr (page_of mark_enc (mark_shown (newDate, t, u, l)) (clampLimit l) (marks_rows tab (newDate, t, u, l))), t)"
    and "x \<in> set (marks_rows tab (newDate, t, u, l)) \<Longrightarrow> marks_list tab newDate u l (Some (mark_enc x)) t =
      (Inr (page_of mark_enc (mark_shown (newDate, t, u, l)) (clampLimit l)
        (filter (\<lambda>y. mark_pos y < mark_pos x) (marks_rows tab (newDate, t, u, l)))), t)"
proof -
  have "list_cursor newDate ''productId'' None t = (Inr None, t)" by (simp add: list_cursor_def decodeCursor_def truthy_def exec)
  from marks_page [OF g this] show "marks_list tab newDate u l None t =
      (Inr (page_of mark_enc (mark_shown (newDate, t, u, l)) (clampLimit l) (marks_rows tab (newDate, t, u, l))), t)"
    by (simp add: after_cursor_def)
  assume "x \<in> set (marks_rows tab (newDate, t, u, l))"
  then have "iso_range (mk_createdAt x)" using g by (auto simp: sort_desc_def)
  then have c: "list_cursor newDate ''productId'' (Some (mark_enc x)) t = (Inr (Some (mk_createdAt x, mk_productId x)), t)"
    unfolding mark_enc_def using g by (intro list_cursor_back) simp_all
  have f: "filter (\<lambda>m. mk_userId m = u \<and> after_cursor (Some (mk_createdAt x, mk_productId x)) (mk_createdAt m) (mk_productId m)) (tab t) =
      filter (\<lambda>y. mark_pos y < mark_pos x) (filter (\<lambda>m. mk_userId m = u) (tab t))"
    unfolding filter_filter by (rule filter_cong) (auto simp: after_cursor_def mark_pos_def)
  from marks_page [OF g c] show "marks_list tab newDate u l (Some (mark_enc x)) t =
      (Inr (page_of mark_enc (mark_shown (newDate, t, u, l)) (clampLimit l)
        (filter (\<lambda>y. mark_pos y < mark_pos x) (marks_rows tab (newDate, t, u, l)))), t)"
    unfolding f by (simp only: marks_rows.simps sort_desc_filter)
qed

lemma marks_keyset:
  "keyset (marks_good tab) (marks_rows tab) (\<lambda>e. mark_pos) (\<lambda>e. mark_enc) mark_shown user_size (marks_serve tab)"
proof (unfold_locales, goal_cases)
  case (1 e)
  then show ?case by (cases e) (simp add: clamp_pos)
next
  case (2 e)
  obtain newDate t u l where e: "e = (newDate, t, u, l)" by (cases e)
  have "distinct (map mark_pos (filter (\<lambda>m. mk_userId m = u) (tab t)))"
    using 2 unfolding e by (auto simp: marks_ok_def distinct_map inj_on_def mark_key_def mark_pos_def)
  then show ?case unfolding e marks_rows.simps by (rule sort_desc_sorted [rotated]) (simp add: mark_pos_def)
next
  case (3 e)
  then show ?case by (cases e) (simp add: marks_served(1) del: marks_good.simps marks_rows.simps mark_shown.simps)
next
  case (4 e x)
  then show ?case by (cases e) (simp add: marks_served(2) del: marks_good.simps marks_rows.simps mark_shown.simps)
qed

interpretation lk: keyset "marks_good ct_likes" "marks_rows ct_likes" "\<lambda>e. mark_pos" "\<lambda>e. mark_enc" mark_shown user_size "marks_serve ct_likes"
  by (rule marks_keyset)

interpretation bk: keyset "marks_good ct_bookmarks" "marks_rows ct_bookmarks" "\<lambda>e. mark_pos" "\<lambda>e. mark_enc" mark_shown user_size "marks_serve ct_bookmarks"
  by (rule marks_keyset)

section \<open>Downloads\<close>

fun downloads_good :: "user_env \<Rightarrow> bool" where
  "downloads_good (newDate, t, u, l) \<longleftrightarrow> distinct (map dl_id (ct_downloads t)) \<and> dates_ok newDate \<and>
     (\<forall>m \<in> set (ct_downloads t). dl_productId m \<in> set (product_ids t) \<and> iso_range (dl_createdAt m))"

definition download_pos :: "download_row \<Rightarrow> int list" where
  "download_pos m = [dl_createdAt m, dl_id m]"

fun downloads_rows :: "user_env \<Rightarrow> download_row list" where
  "downloads_rows (newDate, t, u, l) = sort_desc download_pos (filter (\<lambda>m. dl_userId m = u) (ct_downloads t))"

definition download_enc :: "download_row \<Rightarrow> string" where
  "download_enc m = list_cursor_of ''id'' (dl_createdAt m) (dl_id m)"

fun download_shown :: "user_env \<Rightarrow> download_row \<Rightarrow> product_brief \<times> string \<times> int option \<times> int option" where
  "download_shown (newDate, t, u, l) m = (toBrief (the (q_product (WId (dl_productId m)) t)), toISOString (dl_createdAt m), dl_bytes m, dl_pricePaid m)"

fun downloads_serve :: "user_env \<Rightarrow> string option \<Rightarrow> (product_brief \<times> string \<times> int option \<times> int option) list \<times> string option" where
  "downloads_serve (newDate, t, u, l) c = (case fst (downloads_listForUser cat_ref newDate u l c t) of Inr x \<Rightarrow> x | Inl e \<Rightarrow> ([], None))"

text \<open>A page of downloads, once the cursor has been read.\<close>

lemma downloads_page:
  assumes g: "downloads_good (newDate, t, u, l)" and c: "list_cursor newDate ''id'' cur t = (Inr c, t)"
  shows "downloads_listForUser cat_ref newDate u l cur t =
    (Inr (page_of download_enc (download_shown (newDate, t, u, l)) (clampLimit l)
      (sort_desc download_pos (filter (\<lambda>m. dl_userId m = u \<and> after_cursor c (dl_createdAt m) (dl_id m)) (ct_downloads t)))), t)"
proof -
  let ?n = "clampLimit l"
  let ?sorted = "sort_desc download_pos (filter (\<lambda>m. dl_userId m = u \<and> after_cursor c (dl_createdAt m) (dl_id m)) (ct_downloads t))"
  define p where "p = take ?n ?sorted"
  have "download_pos = (\<lambda>m. [dl_createdAt m, dl_id m])" by (rule ext) (simp add: download_pos_def)
  then have rows: "q_downloads u c ?n t = map (\<lambda>m. (m, q_product (WId (dl_productId m)) t)) p"
    by (simp only: q_downloads_def p_def)
  have known: "m \<in> set p \<Longrightarrow> \<exists>f. q_product (WId (dl_productId m)) t = Some f" for m
    using g q_product_known by (auto simp: p_def sort_desc_def dest!: in_set_takeD)
  have items: "mapM download_item (map (\<lambda>m. (m, q_product (WId (dl_productId m)) t)) p) t = (Inr (map (download_shown (newDate, t, u, l)) p), t)"
    by (subst mapM_pure [where g = "\<lambda>r. download_shown (newDate, t, u, l) (fst r)"])
       (use known in \<open>auto simp: download_item_def orThrow_def exec comp_def split: option.split\<close>)
  have nx: "next_download ?n (map (\<lambda>m. (m, q_product (WId (dl_productId m)) t)) p) = (if length p = ?n then Some (download_enc (last p)) else None)"
  proof (cases "length p = ?n")
    case True
    then have "p \<noteq> []" using clamp_pos [of l] by auto
    then show ?thesis by (simp add: next_download_def last_map download_enc_def)
  qed (simp add: next_download_def)
  have "downloads_listForUser cat_ref newDate u l cur t =
      (Inr (map (download_shown (newDate, t, u, l)) p, if length p = ?n then Some (download_enc (last p)) else None), t)"
    using c by (simp add: downloads_listForUser_def Let_def exec reads_def rows items nx del: download_shown.simps)
  then show ?thesis by (simp add: page_of_def p_def)
qed

lemma downloads_served:
  assumes g: "downloads_good (newDate, t, u, l)"
  shows "downloads_listForUser cat_ref newDate u l None t =
      (Inr (page_of download_enc (download_shown (newDate, t, u, l)) (clampLimit l) (downloads_rows (newDate, t, u, l))), t)"
    and "x \<in> set (downloads_rows (newDate, t, u, l)) \<Longrightarrow> downloads_listForUser cat_ref newDate u l (Some (download_enc x)) t =
      (Inr (page_of download_enc (download_shown (newDate, t, u, l)) (clampLimit l)
        (filter (\<lambda>y. download_pos y < download_pos x) (downloads_rows (newDate, t, u, l)))), t)"
proof -
  have "list_cursor newDate ''id'' None t = (Inr None, t)" by (simp add: list_cursor_def decodeCursor_def truthy_def exec)
  from downloads_page [OF g this] show "downloads_listForUser cat_ref newDate u l None t =
      (Inr (page_of download_enc (download_shown (newDate, t, u, l)) (clampLimit l) (downloads_rows (newDate, t, u, l))), t)"
    by (simp add: after_cursor_def)
  assume "x \<in> set (downloads_rows (newDate, t, u, l))"
  then have "iso_range (dl_createdAt x)" using g by (auto simp: sort_desc_def)
  then have c: "list_cursor newDate ''id'' (Some (download_enc x)) t = (Inr (Some (dl_createdAt x, dl_id x)), t)"
    unfolding download_enc_def using g by (intro list_cursor_back) simp_all
  have f: "filter (\<lambda>m. dl_userId m = u \<and> after_cursor (Some (dl_createdAt x, dl_id x)) (dl_createdAt m) (dl_id m)) (ct_downloads t) =
      filter (\<lambda>y. download_pos y < download_pos x) (filter (\<lambda>m. dl_userId m = u) (ct_downloads t))"
    unfolding filter_filter by (rule filter_cong) (auto simp: after_cursor_def download_pos_def)
  from downloads_page [OF g c] show "downloads_listForUser cat_ref newDate u l (Some (download_enc x)) t =
      (Inr (page_of download_enc (download_shown (newDate, t, u, l)) (clampLimit l)
        (filter (\<lambda>y. download_pos y < download_pos x) (downloads_rows (newDate, t, u, l)))), t)"
    unfolding f by (simp only: downloads_rows.simps sort_desc_filter)
qed

lemma downloads_keyset:
  "keyset (downloads_good) (downloads_rows) (\<lambda>e. download_pos) (\<lambda>e. download_enc) download_shown user_size (downloads_serve)"
proof (unfold_locales, goal_cases)
  case (1 e)
  then show ?case by (cases e) (simp add: clamp_pos)
next
  case (2 e)
  obtain newDate t u l where e: "e = (newDate, t, u, l)" by (cases e)
  have "distinct (map download_pos (filter (\<lambda>m. dl_userId m = u) (ct_downloads t)))"
    using 2 unfolding e by (auto simp: distinct_map inj_on_def download_pos_def)
  then show ?case unfolding e downloads_rows.simps by (rule sort_desc_sorted [rotated]) (simp add: download_pos_def)
next
  case (3 e)
  then show ?case by (cases e) (simp add: downloads_served(1) del: downloads_good.simps downloads_rows.simps download_shown.simps)
next
  case (4 e x)
  then show ?case by (cases e) (simp add: downloads_served(2) del: downloads_good.simps downloads_rows.simps download_shown.simps)
qed

interpretation dl: keyset downloads_good downloads_rows "\<lambda>e. download_pos" "\<lambda>e. download_enc" download_shown user_size downloads_serve
  by (rule downloads_keyset)

section \<open>The lists of a user, followed to their end over any client\<close>

definition likes_load_all :: "'d cat_ops \<Rightarrow> (string \<Rightarrow> int option) \<Rightarrow> string \<Rightarrow> int option \<Rightarrow> nat \<Rightarrow> ('d, (product_brief \<times> string) list option) eff" where
  "likes_load_all D newDate u l k = load_all (likes_listForUser D newDate u l) k None"

definition bookmarks_load_all :: "'d cat_ops \<Rightarrow> (string \<Rightarrow> int option) \<Rightarrow> string \<Rightarrow> int option \<Rightarrow> nat \<Rightarrow> ('d, (product_brief \<times> string) list option) eff" where
  "bookmarks_load_all D newDate u l k = load_all (bookmarks_listForUser D newDate u l) k None"

definition downloads_load_all ::
  "'d cat_ops \<Rightarrow> (string \<Rightarrow> int option) \<Rightarrow> string \<Rightarrow> int option \<Rightarrow> nat \<Rightarrow> ('d, (product_brief \<times> string \<times> int option \<times> int option) list option) eff"
where
  "downloads_load_all D newDate u l k = load_all (downloads_listForUser D newDate u l) k None"

context catalog_db
begin

lemma sims_list_cursor [sims_intro]: "sims (on_tables ok view) (list_cursor newDate name c) (list_cursor newDate name c)"
  unfolding list_cursor_def Let_def by (intro sims_intro)

lemma sims_mark_item [sims_intro]: "sims (on_tables ok view) (mark_item r) (mark_item r)"
  unfolding mark_item_def by (intro sims_intro)

lemma sims_download_item [sims_intro]: "sims (on_tables ok view) (download_item r) (download_item r)"
  unfolding download_item_def by (intro sims_intro)

lemma sims_user_lists:
  "sims (on_tables ok view) (likes_load_all D newDate u l k) (likes_load_all cat_ref newDate u l k)"
  "sims (on_tables ok view) (bookmarks_load_all D newDate u l k) (bookmarks_load_all cat_ref newDate u l k)"
  "sims (on_tables ok view) (downloads_load_all D newDate u l k) (downloads_load_all cat_ref newDate u l k)"
  unfolding likes_load_all_def bookmarks_load_all_def downloads_load_all_def likes_listForUser_def bookmarks_listForUser_def
    downloads_listForUser_def Let_def
  by (intro sims_intro)+

end

lemma marks_answer:
  assumes "marks_good tab (newDate, t, u, l)"
    and "c = None \<or> (\<exists>x \<in> set (marks_rows tab (newDate, t, u, l)). c = Some (mark_enc x))"
  shows "marks_list tab newDate u l c t = (Inr (marks_serve tab (newDate, t, u, l) c), t)"
  using assms(2) marks_served [OF assms(1)] by (auto simp del: marks_good.simps marks_rows.simps mark_shown.simps)

lemma downloads_answer:
  assumes "downloads_good (newDate, t, u, l)"
    and "c = None \<or> (\<exists>x \<in> set (downloads_rows (newDate, t, u, l)). c = Some (download_enc x))"
  shows "downloads_listForUser cat_ref newDate u l c t = (Inr (downloads_serve (newDate, t, u, l) c), t)"
  using assms(2) downloads_served [OF assms(1)] by (auto simp del: downloads_good.simps downloads_rows.simps download_shown.simps)

text \<open>
  \<open>m\<close> answers every row of \<open>S\<close> exactly once, in descending order of \<open>pos\<close>, and
  leaves the tables as they are.
\<close>

definition serves_all :: "('d \<Rightarrow> catalog) \<Rightarrow> ('d, 'b list option) eff \<Rightarrow> 'd \<Rightarrow> ('a \<Rightarrow> 'b) \<Rightarrow> ('a \<Rightarrow> int list) \<Rightarrow> 'a set \<Rightarrow> bool" where
  "serves_all view m d shown pos S \<longleftrightarrow> (\<exists>rows d'. m d = (Inr (Some (map shown rows)), d') \<and> view d' = view d \<and>
     distinct rows \<and> set rows = S \<and> sorted_wrt (\<lambda>x y. pos y < pos x) rows)"

lemma serves_allI:
  assumes "sims (on_tables ok view) m n" and "ok d" and "n (view d) = (Inr (Some (map shown rows)), view d)"
    and "sorted_wrt (\<lambda>x y. pos y < pos x) rows" and "set rows = S"
  shows "serves_all view m d shown pos S"
proof -
  have "distinct rows" using assms(4) by (induction rows) auto
  moreover obtain d' where "m d = (Inr (Some (map shown rows)), d')" "view d' = view d"
    using sims_run [OF assms(1-3)] by blast
  ultimately show ?thesis using assms(4, 5) unfolding serves_all_def by blast
qed

text \<open>The times a text can hold.\<close>

definition times_ok :: "catalog \<Rightarrow> bool" where
  "times_ok t \<longleftrightarrow> (\<forall>m \<in> set (ct_likes t) \<union> set (ct_bookmarks t). iso_range (mk_createdAt m)) \<and>
     (\<forall>m \<in> set (ct_downloads t). iso_range (dl_createdAt m)) \<and> (\<forall>r \<in> set (ct_products t). iso_range (pr_createdAt r))"

lemma lists_good:
  assumes "catalog_wf t" and "dates_ok newDate" and "times_ok t"
  shows "marks_good ct_likes (newDate, t, u, l)" "marks_good ct_bookmarks (newDate, t, u, l)" "downloads_good (newDate, t, u, l)"
  using assms by (auto simp: catalog_wf_def times_ok_def ids_ok_def)

lemma user_rows:
  "set (marks_rows tab (newDate, t, u, l)) = {m \<in> set (tab t). mk_userId m = u}" "length (marks_rows tab (newDate, t, u, l)) \<le> length (tab t)"
  "set (downloads_rows (newDate, t, u, l)) = {m \<in> set (ct_downloads t). dl_userId m = u}"
  "length (downloads_rows (newDate, t, u, l)) \<le> length (ct_downloads t)"
  by (auto simp: sort_desc_def)

lemma likes_all:
  assumes "catalog_wf t" and "dates_ok newDate" and "times_ok t" and "length (ct_likes t) < k"
  shows "likes_load_all cat_ref newDate u l k t =
    (Inr (Some (map (mark_shown (newDate, t, u, l)) (marks_rows ct_likes (newDate, t, u, l)))), t)"
  unfolding likes_load_all_def
proof (rule lk.load_all_served)
  show "marks_good ct_likes (newDate, t, u, l)" using assms(1-3) by (rule lists_good)
  then show "likes_listForUser cat_ref newDate u l c t = (Inr (marks_serve ct_likes (newDate, t, u, l) c), t)"
    if "c = None \<or> (\<exists>x \<in> set (marks_rows ct_likes (newDate, t, u, l)). c = Some (mark_enc x))" for c
    unfolding lists_of_marks using that by (rule marks_answer)
  show "length (marks_rows ct_likes (newDate, t, u, l)) < k" using user_rows(2) assms(4) by (rule order.strict_trans1)
qed

lemma bookmarks_all:
  assumes "catalog_wf t" and "dates_ok newDate" and "times_ok t" and "length (ct_bookmarks t) < k"
  shows "bookmarks_load_all cat_ref newDate u l k t =
    (Inr (Some (map (mark_shown (newDate, t, u, l)) (marks_rows ct_bookmarks (newDate, t, u, l)))), t)"
  unfolding bookmarks_load_all_def
proof (rule bk.load_all_served)
  show "marks_good ct_bookmarks (newDate, t, u, l)" using assms(1-3) by (rule lists_good)
  then show "bookmarks_listForUser cat_ref newDate u l c t = (Inr (marks_serve ct_bookmarks (newDate, t, u, l) c), t)"
    if "c = None \<or> (\<exists>x \<in> set (marks_rows ct_bookmarks (newDate, t, u, l)). c = Some (mark_enc x))" for c
    unfolding lists_of_marks using that by (rule marks_answer)
  show "length (marks_rows ct_bookmarks (newDate, t, u, l)) < k" using user_rows(2) assms(4) by (rule order.strict_trans1)
qed

lemma downloads_all:
  assumes "catalog_wf t" and "dates_ok newDate" and "times_ok t" and "length (ct_downloads t) < k"
  shows "downloads_load_all cat_ref newDate u l k t =
    (Inr (Some (map (download_shown (newDate, t, u, l)) (downloads_rows (newDate, t, u, l)))), t)"
  unfolding downloads_load_all_def
proof (rule dl.load_all_served)
  show "downloads_good (newDate, t, u, l)" using assms(1-3) by (rule lists_good)
  then show "downloads_listForUser cat_ref newDate u l c t = (Inr (downloads_serve (newDate, t, u, l) c), t)"
    if "c = None \<or> (\<exists>x \<in> set (downloads_rows (newDate, t, u, l)). c = Some (download_enc x))" for c
    using that by (rule downloads_answer)
  show "length (downloads_rows (newDate, t, u, l)) < k" using user_rows(4) assms(4) by (rule order.strict_trans1)
qed

end
