(* ===== verification/Categories.thy ===== *)
theory Categories
  imports CatalogPages
begin

text \<open>
  Categories and tags: \<open>catalog/categories/categories.service.ts\<close>,
  \<open>catalog/categories/category.mapper.ts\<close>, \<open>catalog/tags/tags.service.ts\<close> and
  \<open>catalog/tags/tag.mapper.ts\<close>. The walk from a category to its root follows the parents
  without a bound and may not end; it is a partial function whose value \<open>None\<close> is "does not
  return".
\<close>

section \<open>Categories\<close>

record category_dto =
  cd_id :: string
  cd_name :: string
  cd_slug :: string
  cd_parentId :: "string option"

definition category_toDto :: "category_row \<Rightarrow> category_dto" where
  "category_toDto c = \<lparr>cd_id = int_str (cg_id c), cd_name = cg_name c, cd_slug = cg_slug c, cd_parentId = idOrUndefined (cg_parentId c)\<rparr>"

definition invalid_category :: exn where
  "invalid_category = badRequest ''Invalid category id''"

text \<open>\<open>if (!id) throw\<close>: zero is refused as well.\<close>

definition category_id :: "string \<Rightarrow> ('d, int) eff" where
  "category_id idStr = (case toBigIntNullable (Some idStr) of
     None \<Rightarrow> throwM invalid_category | Some i \<Rightarrow> if i = 0 then throwM invalid_category else retM i)"

text \<open>A write that answers the row.\<close>

definition writeCategory :: "'d cat_ops \<Rightarrow> int \<Rightarrow> cat_write \<Rightarrow> ('d, category_row) eff" where
  "writeCategory D now w = bindM (d_write D now w) (\<lambda>i. bindM (d_category D (ById i)) (orThrow missing))"

definition category_create :: "'d cat_ops \<Rightarrow> int \<Rightarrow> string \<Rightarrow> string \<Rightarrow> string option \<Rightarrow> ('d, category_dto) eff" where
  "category_create D now name slug parentId =
     bindM (writeCategory D now (CategoryCreate name slug (toBigIntNullable parentId))) (\<lambda>created. retM (category_toDto created))"

record UpdateCategoryDto =
  uc_name :: "string option"
  uc_slug :: "string option"
  uc_parentId :: "string option option"

definition category_update :: "'d cat_ops \<Rightarrow> int \<Rightarrow> string \<Rightarrow> UpdateCategoryDto \<Rightarrow> ('d, category_dto) eff" where
  "category_update D now idStr dto =
     bindM (category_id idStr) (\<lambda>i.
     let parent = (case uc_parentId dto of
           None \<Rightarrow> None
         | Some p \<Rightarrow> Some (case toBigIntNullable p of Some q \<Rightarrow> ParentConnect q | None \<Rightarrow> ParentDisconnect)) in
     bindM (writeCategory D now (CategoryUpdate i (uc_name dto) (uc_slug dto) parent)) (\<lambda>updated. retM (category_toDto updated)))"

definition category_key :: "string \<Rightarrow> row_key" where
  "category_key idOrSlug = (if all_digits idOrSlug then ById (int (digits_val idOrSlug)) else BySlug idOrSlug)"

definition category_findOne :: "'d cat_ops \<Rightarrow> string \<Rightarrow> ('d, category_dto) eff" where
  "category_findOne D idOrSlug =
     bindM (d_category D (category_key idOrSlug)) (\<lambda>c.
     bindM (orThrow (notFound ''Category not found'') c) (\<lambda>c. retM (category_toDto c)))"

text \<open>A text given and not blank, trimmed.\<close>

definition trimmed_term :: "string option \<Rightarrow> string option" where
  "trimmed_term q = (case q of None \<Rightarrow> None | Some s \<Rightarrow> if js_trim s = [] then None else Some (js_trim s))"

definition list_limit :: "int \<Rightarrow> int \<Rightarrow> int option \<Rightarrow> nat" where
  "list_limit d m l = nat (min (max (orElse l d) 1) m)"

definition category_findAll :: "'d cat_ops \<Rightarrow> string option \<Rightarrow> string option \<Rightarrow> int option \<Rightarrow> ('d, category_dto list) eff" where
  "category_findAll D q parentId limit =
     (let ands = (case trimmed_term q of None \<Rightarrow> [] | Some s \<Rightarrow> [CgText s]) @
        (case parentId of None \<Rightarrow> [] | Some p \<Rightarrow> [CgParent (toBigIntNullable (Some p))])
      in bindM (d_categories D ands (Some (list_limit 100 200 limit))) (\<lambda>rows. retM (map category_toDto rows)))"

section \<open>The tree\<close>

datatype tree_node = TreeNode (tn_dto: category_dto) (tn_children: "tree_node list")

text \<open>\<open>parentId ? .. : null\<close>.\<close>

definition parent_id :: "category_row \<Rightarrow> int option" where
  "parent_id c = (case cg_parentId c of None \<Rightarrow> None | Some p \<Rightarrow> if p = 0 then None else Some p)"

definition children_of :: "category_row list \<Rightarrow> int \<Rightarrow> category_row list" where
  "children_of rows i = filter (\<lambda>c. parent_id c = Some i) rows"

definition all_some :: "'a option list \<Rightarrow> 'a list option" where
  "all_some xs = (if None \<in> set xs then None else Some (map the xs))"

text \<open>
  The node of a row with its children, down to a depth. The program links the nodes by reference, so
  a node below itself becomes a cyclic structure, which has no JSON text; it has no depth either.
\<close>

fun tree_from :: "category_row list \<Rightarrow> nat \<Rightarrow> category_row \<Rightarrow> tree_node option" where
  "tree_from rows 0 c = None"
| "tree_from rows (Suc n) c = map_option (TreeNode (category_toDto c)) (all_some (map (tree_from rows n) (children_of rows (cg_id c))))"

text \<open>One level more than there are rows is enough for every tree that is finite.\<close>

definition category_tree :: "'d cat_ops \<Rightarrow> string option \<Rightarrow> ('d, tree_node list option) eff" where
  "category_tree D rootIdStr =
     bindM (d_categories D [] None) (\<lambda>rows.
     let roots = filter (\<lambda>c. parent_id c = None) rows; node = tree_from rows (Suc (length rows)) in
     retM (if truthy rootIdStr \<and> all_digits (the rootIdStr)
           then (case find_row (\<lambda>c. int_str (cg_id c) = the rootIdStr) rows of None \<Rightarrow> Some [] | Some c \<Rightarrow> map_option (\<lambda>x. [x]) (node c))
           else all_some (map node roots)))"

section \<open>Breadcrumbs\<close>

text \<open>The loop; \<open>path\<close> grows from the category to the root.\<close>

partial_function (option) climb ::
  "'d cat_ops \<Rightarrow> category_row option \<Rightarrow> category_row list \<Rightarrow> 'd \<Rightarrow> ((exn + category_row list) \<times> 'd) option"
where
  "climb D current path d =
     (case current of
        None \<Rightarrow> Some (Inr path, d)
      | Some c \<Rightarrow>
          (case parent_id c of
             None \<Rightarrow> Some (Inr (path @ [c]), d)
           | Some p \<Rightarrow>
               (case d_category D (ById p) d of
                  (Inl e, d') \<Rightarrow> Some (Inl e, d')
                | (Inr nxt, d') \<Rightarrow> climb D nxt (path @ [c]) d')))"

definition breadcrumbs :: "'d cat_ops \<Rightarrow> string \<Rightarrow> 'd \<Rightarrow> ((exn + category_dto list) \<times> 'd) option" where
  "breadcrumbs D idStr d =
     (case category_id idStr d of
        (Inl e, d) \<Rightarrow> Some (Inl e, d)
      | (Inr i, d) \<Rightarrow>
          (case d_category D (ById i) d of
             (Inl e, d) \<Rightarrow> Some (Inl e, d)
           | (Inr current, d) \<Rightarrow>
               map_option (\<lambda>(r, d). (case r of Inl e \<Rightarrow> Inl e | Inr path \<Rightarrow> Inr (map category_toDto (rev path)), d))
                 (climb D current [] d)))"

section \<open>Removal\<close>

definition category_remove :: "'d cat_ops \<Rightarrow> int \<Rightarrow> string \<Rightarrow> ('d, unit) eff" where
  "category_remove D now idStr =
     bindM (category_id idStr) (\<lambda>i.
     bindM (d_category D (ById i)) (\<lambda>node.
     bindM (orThrow (notFound ''Category not found'') node) (\<lambda>node.
     transaction
       (bindM (d_write D now (CategoryMoveChildren i (cg_parentId node))) (\<lambda>_.
        bindM (d_write D now (ProdCatsDeleteOf i)) (\<lambda>_.
        bindM (d_write D now (CategoryDelete i)) (\<lambda>_. retM ())))))))"

section \<open>Tags\<close>

record tag_dto =
  td_id :: string
  td_name :: string
  td_slug :: string
  td_usageCount :: int

definition tag_toDto :: "tag_row \<times> int \<Rightarrow> tag_dto" where
  "tag_toDto r = \<lparr>td_id = int_str (tg_id (fst r)), td_name = tg_name (fst r), td_slug = tg_slug (fst r), td_usageCount = snd r\<rparr>"

text \<open>\<open>\W\<close>, which includes white space; each run of it becomes a dash, and dashes at the ends go.\<close>

definition word_char :: "char \<Rightarrow> bool" where
  "word_char c \<longleftrightarrow> is_lower c \<or> is_upper c \<or> is_digit c \<or> c = CHR ''_''"

fun dash_runs :: "bool \<Rightarrow> string \<Rightarrow> string" where
  "dash_runs b [] = []"
| "dash_runs b (c # s) = (if word_char c then c # dash_runs False s else if b then dash_runs True s else CHR ''-'' # dash_runs True s)"

definition strip_dashes :: "string \<Rightarrow> string" where
  "strip_dashes s = rev (dropWhile (\<lambda>c. c = CHR ''-'') (rev (dropWhile (\<lambda>c. c = CHR ''-'') s)))"

definition tag_slugify :: "string \<Rightarrow> string" where
  "tag_slugify s = strip_dashes (dash_runs False (js_lower (js_trim s)))"

definition isBigIntStr :: "string \<Rightarrow> bool" where
  "isBigIntStr v \<longleftrightarrow> all_digits v"

definition invalid_tag :: exn where
  "invalid_tag = badRequest ''Invalid tag id''"

definition writeTag :: "'d cat_ops \<Rightarrow> int \<Rightarrow> cat_write \<Rightarrow> ('d, tag_dto) eff" where
  "writeTag D now w =
     bindM (d_write D now w) (\<lambda>i. bindM (d_tag D (ById i)) (\<lambda>r. bindM (orThrow missing r) (\<lambda>r. retM (tag_toDto r))))"

definition tag_create :: "'d cat_ops \<Rightarrow> int \<Rightarrow> string \<Rightarrow> string option \<Rightarrow> ('d, tag_dto) eff" where
  "tag_create D now name slug =
     (let s = (case slug of None \<Rightarrow> [] | Some x \<Rightarrow> js_trim x)
      in writeTag D now (TagCreate (js_trim name) (if s = [] then tag_slugify name else s)))"

definition tag_update :: "'d cat_ops \<Rightarrow> int \<Rightarrow> string \<Rightarrow> string option \<Rightarrow> string option \<Rightarrow> ('d, tag_dto) eff" where
  "tag_update D now idStr name slug =
     thenM (throwIfM (\<not> isBigIntStr idStr) invalid_tag)
       (writeTag D now (TagUpdate (int (digits_val idStr)) (map_option js_trim name) (map_option js_trim slug)))"

definition tag_findOne :: "'d cat_ops \<Rightarrow> string \<Rightarrow> ('d, tag_dto) eff" where
  "tag_findOne D idOrSlug =
     bindM (d_tag D (if isBigIntStr idOrSlug then ById (int (digits_val idOrSlug)) else BySlug idOrSlug)) (\<lambda>row.
     bindM (orThrow (notFound ''Tag not found'') row) (\<lambda>r. retM (tag_toDto r)))"

definition tag_findAll :: "'d cat_ops \<Rightarrow> string option \<Rightarrow> string option \<Rightarrow> int option \<Rightarrow> ('d, tag_dto list) eff" where
  "tag_findAll D q usedOnly limit =
     (let ands = (case trimmed_term q of None \<Rightarrow> [] | Some s \<Rightarrow> [TgText s]) @ (if usedOnly = Some ''true'' then [TgUsed] else [])
      in bindM (d_tags D ands False (list_limit 100 200 limit)) (\<lambda>rows. retM (map tag_toDto rows)))"

definition tag_popular :: "'d cat_ops \<Rightarrow> int option \<Rightarrow> ('d, tag_dto list) eff" where
  "tag_popular D limit = bindM (d_tags D [] True (list_limit 20 100 limit)) (\<lambda>rows. retM (map tag_toDto rows))"

definition tag_remove :: "'d cat_ops \<Rightarrow> int \<Rightarrow> string \<Rightarrow> ('d, unit) eff" where
  "tag_remove D now idStr =
     thenM (throwIfM (\<not> isBigIntStr idStr) invalid_tag)
       (transaction
         (bindM (d_write D now (ProdTagsDeleteOf (int (digits_val idStr)))) (\<lambda>_.
          bindM (d_write D now (TagDelete (int (digits_val idStr)))) (\<lambda>_. retM ()))))"

end
