(* ===== verification/CatalogProps.thy ===== *)
theory CatalogProps
  imports Categories
begin

text \<open>
  The properties of the catalogue's lists. They hold for every client of the database that satisfies
  \<open>catalog_db\<close>; the witnesses run the services on the tables themselves.
\<close>

section \<open>Tables for the witnesses\<close>

definition no_query :: ProductFindQueryDto where
  "no_query = \<lparr>fq_q = None, fq_categoryId = None, fq_tagId = None, fq_authorId = None, fq_pricingType = None, fq_graphicFormat = None,
     fq_status = None, fq_sort = None, fq_limit = None, fq_cursor = None\<rparr>"

definition sample_product :: "int \<Rightarrow> string \<Rightarrow> int \<Rightarrow> int \<Rightarrow> product_row" where
  "sample_product i slug downloads likes = \<lparr>pr_id = i, pr_slug = slug, pr_title = ''P'', pr_description = None, pr_coverUrl = None,
     pr_fileId = None, pr_topic = None, pr_graphicFormat = ''SVG'', pr_shortLink = None, pr_seoTitle = None, pr_seoDescription = None,
     pr_seoKeywords = [], pr_pricingType = ''FREE'', pr_price = None, pr_status = ''PUBLISHED'', pr_publishedAt = None,
     pr_viewsCount = 0, pr_downloadsCount = downloads, pr_likesCount = likes, pr_createdAt = 0, pr_updatedAt = 0\<rparr>"

text \<open>Two users and two products with as many downloads; the first product has a like more.\<close>

definition sample :: catalog where
  "sample = \<lparr>ct_products = [sample_product 1 ''p1'' 5 1, sample_product 2 ''p2'' 5 0], ct_assets = [], ct_files = [], ct_users = [''u1'', ''u2''],
     ct_suppliers = [(1, ''u1''), (2, ''u2'')], ct_prodcats = [], ct_prodtags = [],
     ct_categories = [\<lparr>cg_id = 1, cg_name = ''a'', cg_slug = ''a'', cg_parentId = None\<rparr>, \<lparr>cg_id = 2, cg_name = ''b'', cg_slug = ''b'', cg_parentId = Some 1\<rparr>],
     ct_tags = [], ct_likes = [\<lparr>mk_userId = ''u1'', mk_productId = 1, mk_createdAt = 0\<rparr>], ct_bookmarks = [], ct_downloads = [], ct_views = [], ct_next = 10\<rparr>"

lemma sample_wf: "catalog_wf sample"
  by (simp add: sample_def sample_product_def wf_parts ids_ok_def links_ok_def marks_ok_def parents_ok_def)

lemma epoch: "iso_range 0"
  by code_simp

lemma sample_times: "times_ok sample"
  using epoch by (simp add: times_ok_def sample_def sample_product_def)

section \<open>Following the cursors\<close>

text \<open>
  C32: a client that loads the products by following \<open>nextCursor\<close>, sorted by date, views or
  likes, receives every product that matches the query exactly once, in the order of the sort, as
  long as the catalogue does not change, and is at the end after at most one page more than there
  are products. Nothing is written. The cursor of each page passes through JSON, base64url,
  \<open>BigInt\<close> and \<open>new Date\<close>, which must read back what \<open>toISOString\<close> has written.
\<close>

theorem products_pages_complete:
  assumes "catalog_db D ok view" and "ok d" and "dates_ok newDate" and "keyset_sort (sort_of (fq_sort q))"
    and "times_ok (view d)" and "length (ct_products (view d)) < k"
  shows "serves_all view (products_load_all D newDate q k) d (\<lambda>r. toBrief (with_relations (view d) r))
    (\<lambda>r. map (\<lambda>c. col_of c r) (orderBy (sort_of (fq_sort q)))) {r \<in> set (ct_products (view d)). matches (view d) (baseWhere q) r}"
proof -
  let ?t = "view d" and ?e = "(newDate, view d, q)"
  have g: "product_good ?e" using assms catalog_db.wf [OF assms(1, 2)] by (simp add: times_ok_def)
  have r: "products_load_all cat_ref newDate q k ?t = (Inr (Some (map (product_shown ?e) (product_rows ?e))), ?t)"
    unfolding products_load_all_def
  proof (rule prods.load_all_served [OF g])
    show "length (product_rows ?e) < k" using product_rows_length assms(6) by (rule order.strict_trans1)
  qed (rule products_answer [OF g])
  have f: "(\<lambda>r. toBrief (with_relations ?t r)) = product_shown ?e"
    "(\<lambda>r. map (\<lambda>c. col_of c r) (orderBy (sort_of (fq_sort q)))) = product_key ?e" by (simp_all add: fun_eq_iff)
  show ?thesis unfolding f
    by (rule serves_allI [OF products_load_sims [OF assms(1, 4)] assms(2) r prods.descending [OF g] product_rows_facts(1) [OF g]])
qed

text \<open>Two products on pages of one, sorted by likes.\<close>

theorem products_pages_complete_witness:
  "\<exists>rows. products_load_all cat_ref parse_iso (no_query\<lparr>fq_sort := Some ''liked'', fq_limit := Some 1\<rparr>) 3 sample =
     (Inr (Some (map (\<lambda>r. toBrief (with_relations sample r)) rows)), sample) \<and> distinct rows \<and> set rows = set (ct_products sample)"
proof -
  let ?q = "no_query\<lparr>fq_sort := Some ''liked'', fq_limit := Some 1\<rparr>"
  have s: "keyset_sort (sort_of (fq_sort ?q))" by (simp add: keyset_sort_def sort_of_def)
  have b: "baseWhere ?q = WAll" by (simp add: baseWhere_def no_query_def makeTextWhere_def when_truthy_def when_id_def toBigIntNullable_def truthy_def)
  have "length (ct_products sample) < 3" by (simp add: sample_def)
  from products_pages_complete [OF ct.catalog_db_axioms sample_wf parse_iso_ok s sample_times this] show ?thesis
    unfolding b serves_all_def by auto
qed

section \<open>The lists of a user\<close>

text \<open>
  C33: the lists of a user's likes, bookmarks and downloads, followed by their cursors, hold every
  row of the user exactly once, with its product, latest first; the list ends after at most one page
  more than there are rows and no row refers to a product that is not there.
\<close>

theorem user_lists_complete:
  assumes "catalog_db D ok view" and "ok d" and "dates_ok newDate" and "times_ok (view d)"
    and "length (ct_likes (view d)) < k" and "length (ct_bookmarks (view d)) < k" and "length (ct_downloads (view d)) < k"
  shows "serves_all view (likes_load_all D newDate u l k) d (mark_shown (newDate, view d, u, l)) mark_pos {m \<in> set (ct_likes (view d)). mk_userId m = u} \<and>
    serves_all view (bookmarks_load_all D newDate u l k) d (mark_shown (newDate, view d, u, l)) mark_pos {m \<in> set (ct_bookmarks (view d)). mk_userId m = u} \<and>
    serves_all view (downloads_load_all D newDate u l k) d (download_shown (newDate, view d, u, l)) download_pos {m \<in> set (ct_downloads (view d)). dl_userId m = u} \<and>
    (\<forall>m \<in> set (ct_likes (view d)) \<union> set (ct_bookmarks (view d)). \<exists>f. q_product (WId (mk_productId m)) (view d) = Some f)"
proof -
  note wf = catalog_db.wf [OF assms(1, 2)]
  note s = catalog_db.sims_user_lists [OF assms(1)]
  note g = lists_good [OF wf assms(3, 4)]
  have "\<exists>f. q_product (WId (mk_productId m)) (view d) = Some f" if "m \<in> set (ct_likes (view d)) \<union> set (ct_bookmarks (view d))" for m
    using wf that by (intro q_product_known) (auto simp: catalog_wf_def)
  then show ?thesis
    using serves_allI [OF s(1) assms(2) likes_all [OF wf assms(3, 4, 5)] lk.descending [OF g(1)] user_rows(1)]
      serves_allI [OF s(2) assms(2) bookmarks_all [OF wf assms(3, 4, 6)] bk.descending [OF g(2)] user_rows(1)]
      serves_allI [OF s(3) assms(2) downloads_all [OF wf assms(3, 4, 7)] dl.descending [OF g(3)] user_rows(3)]
    by blast
qed

theorem user_lists_complete_witness:
  "\<exists>rows. likes_load_all cat_ref parse_iso ''u1'' (Some 1) 2 sample = (Inr (Some (map (mark_shown (parse_iso, sample, ''u1'', Some 1)) rows)), sample) \<and>
     set rows = {\<lparr>mk_userId = ''u1'', mk_productId = 1, mk_createdAt = 0\<rparr>}"
proof -
  have l: "length (ct_likes sample) < 2" "length (ct_bookmarks sample) < 2" "length (ct_downloads sample) < 2" by (simp_all add: sample_def)
  have "{m \<in> set (ct_likes sample). mk_userId m = ''u1''} = {\<lparr>mk_userId = ''u1'', mk_productId = 1, mk_createdAt = 0\<rparr>}"
    by (auto simp: sample_def)
  with user_lists_complete [OF ct.catalog_db_axioms sample_wf parse_iso_ok sample_times l, where u = "''u1''" and l = "Some 1"] show ?thesis
    unfolding serves_all_def by auto
qed

section \<open>Sorted by popularity\<close>







end
