(* ===== verification/ProductProps.thy ===== *)
theory ProductProps
  imports CatalogProps
begin

text \<open>
  The properties of the operations on a product: the counted likes under interleaved requests, and
  who may change a product, with what effect when the change fails.
\<close>

section \<open>Likes are counted\<close>

definition likes_of :: "int \<Rightarrow> mark list \<Rightarrow> int" where
  "likes_of p ms = int (length (filter (\<lambda>m. mk_productId m = p) ms))"

text \<open>\<open>likesCount\<close> of every product is the number of its likes.\<close>

definition likes_counted :: "catalog \<Rightarrow> bool" where
  "likes_counted t \<longleftrightarrow> (\<forall>r \<in> set (ct_products t). pr_likesCount r = likes_of (pr_id r) (ct_likes t))"

lemma likes_of_append [simp]: "likes_of p (ms @ [m]) = likes_of p ms + (if mk_productId m = p then 1 else 0)"
  by (simp add: likes_of_def)

lemma likes_of_delete:
  assumes "marks_ok ms" and "(u, p) \<in> mark_key ` set ms"
  shows "likes_of i (filter (\<lambda>m. \<not> (mk_userId m = u \<and> mk_productId m = p)) ms) = likes_of i ms - (if i = p then 1 else 0)"
  using assms
proof (induction ms)
  case (Cons m ms)
  show ?case
  proof (cases "mark_key m = (u, p)")
    case True
    then have "(u, p) \<notin> mark_key ` set ms" using Cons.prems by (auto simp: marks_ok_def)
    then have "\<forall>m' \<in> set ms. \<not> (mk_userId m' = u \<and> mk_productId m' = p)" by (force simp: mark_key_def)
    then have "filter (\<lambda>m. \<not> (mk_userId m = u \<and> mk_productId m = p)) ms = ms" by (intro filter_True) blast
    with True show ?thesis by (auto simp: likes_of_def mark_key_def)
  next
    case False
    with Cons show ?thesis by (auto simp: likes_of_def marks_ok_def mark_key_def)
  qed
qed simp

lemma bump_likes: "pr_likesCount (bump_row now [(Likes, n)] r) = pr_likesCount r + n"
  by (simp add: bump_row_def)

lemma transaction_failed: "transaction m d = (Inl e, d') \<Longrightarrow> d' = d"
  by (auto simp: transaction_def split: prod.splits sum.splits)

lemma writeBoth_cat:
  "snd (writeBoth cat_ref now w1 w2 t) = t \<or>
    ((\<exists>i j. write_sem now w1 t = (Inr i, snd (write_sem now w1 t)) \<and>
      write_sem now w2 (snd (write_sem now w1 t)) = (Inr j, snd (writeBoth cat_ref now w1 w2 t))))"
proof (cases "write_sem now w1 t")
  case (Pair a t1)
  then show ?thesis
    by (cases a; cases "write_sem now w2 t1"; cases "fst (write_sem now w2 t1)") (auto simp: writeBoth_def transaction_def exec)
qed

lemma checked_Inr: "checked cs t v t' = (Inr i, t'') \<Longrightarrow> (\<forall>c \<in> set cs. \<not> fst c) \<and> t'' = t'"
  by (simp add: checked_cases split: if_splits)

lemma increment_ok: "write_sem now (ProductIncrement cs p) t = (Inr i, t') \<Longrightarrow> t' = change_row p (bump_row now cs) t"
  by (simp del: fst_conv) (drule checked_Inr, blast)

lemma like_create_ok:
  "write_sem now (LikeCreate b u p) t = (Inr i, t') \<Longrightarrow>
    t' = t\<lparr>ct_likes := ct_likes t @ [\<lparr>mk_userId = u, mk_productId = p, mk_createdAt = now\<rparr>]\<rparr>"
  by (simp del: fst_conv) (drule checked_Inr, blast)

lemma like_delete_ok:
  "write_sem now (LikeDelete u p) t = (Inr i, t') \<Longrightarrow> (u, p) \<in> mark_key ` set (ct_likes t) \<and>
    t' = t\<lparr>ct_likes := filter (\<lambda>m. \<not> (mk_userId m = u \<and> mk_productId m = p)) (ct_likes t)\<rparr>"
  by (simp del: fst_conv) (drule checked_Inr, simp add: q_mark_None)

lemma counted_change:
  assumes "likes_counted t" and "\<And>i. likes_of i ms = likes_of i (ct_likes t) + (if i = p then n else 0)"
  shows "likes_counted (change_row p (bump_row now [(Likes, n)]) (t\<lparr>ct_likes := ms\<rparr>))"
  using assms by (auto simp: likes_counted_def change_row_def bump_likes)

lemma like_write_counted:
  assumes "catalog_wf t" and "likes_counted t"
  shows "likes_counted (snd (like_write cat_ref now b u p e t))"
proof (cases "e = None")
  case True
  let ?w1 = "LikeCreate b u p" and ?w2 = "ProductIncrement [(Likes, 1)] p"
  have s: "snd (like_write cat_ref now b u p e t) = snd (writeBoth cat_ref now ?w1 ?w2 t)"
    using True by (simp add: like_write_def exec split: prod.split sum.split)
  show ?thesis
  proof (cases "snd (writeBoth cat_ref now ?w1 ?w2 t) = t")
    case False
    with writeBoth_cat [of now ?w1 ?w2 t] obtain i j t1 t2 where w: "write_sem now ?w1 t = (Inr i, t1)" "write_sem now ?w2 t1 = (Inr j, t2)"
      and t2: "snd (writeBoth cat_ref now ?w1 ?w2 t) = t2" by blast
    have "likes_of i (ct_likes t1) = likes_of i (ct_likes t) + (if i = p then 1 else 0)" for i
      using like_create_ok [OF w(1)] by simp
    then show ?thesis unfolding s t2 using increment_ok [OF w(2)] like_create_ok [OF w(1)] counted_change [OF assms(2)] by auto
  qed (simp add: s assms(2))
next
  case False
  let ?w1 = "LikeDelete u p" and ?w2 = "ProductIncrement [(Likes, -1)] p"
  have s: "snd (like_write cat_ref now b u p e t) = snd (writeBoth cat_ref now ?w1 ?w2 t)"
    using False by (simp add: like_write_def exec split: prod.split sum.split)
  show ?thesis
  proof (cases "snd (writeBoth cat_ref now ?w1 ?w2 t) = t")
    case False
    with writeBoth_cat [of now ?w1 ?w2 t] obtain i j t1 t2 where w: "write_sem now ?w1 t = (Inr i, t1)" "write_sem now ?w2 t1 = (Inr j, t2)"
      and t2: "snd (writeBoth cat_ref now ?w1 ?w2 t) = t2" by blast
    have "likes_of i (ct_likes t1) = likes_of i (ct_likes t) + (if i = p then -1 else 0)" for i
      using likes_of_delete [of "ct_likes t" u p i] like_delete_ok [OF w(1)] assms(1) by (simp add: catalog_wf_def)
    then show ?thesis unfolding s t2 using increment_ok [OF w(2)] like_delete_ok [OF w(1)] counted_change [OF assms(2)] by auto
  qed (simp add: s assms(2))
qed

text \<open>The writes of the other operations.\<close>

fun touches_likes :: "cat_write \<Rightarrow> bool" where
  "touches_likes (LikeCreate b u p) \<longleftrightarrow> True"
| "touches_likes (LikeDelete u p) \<longleftrightarrow> True"
| "touches_likes (ProductIncrement cs p) \<longleftrightarrow> Likes \<in> fst ` set cs"
| "touches_likes w \<longleftrightarrow> False"

lemma bump_others: "Likes \<notin> fst ` set cs \<Longrightarrow> pr_likesCount (bump_row now cs r) = pr_likesCount r"
proof -
  assume "Likes \<notin> fst ` set cs"
  then have "pr_likesCount (fold bump_count cs r) = pr_likesCount r"
  proof (induction cs arbitrary: r)
    case (Cons c cs)
    then show ?case by (cases c; cases "fst c") auto
  qed simp
  then show ?thesis by (simp add: bump_row_def)
qed

lemma counted_rows: "likes_counted t \<Longrightarrow> (\<And>r. pr_id (f r) = pr_id r \<and> pr_likesCount (f r) = pr_likesCount r) \<Longrightarrow> likes_counted (change_row p f t)"
  by (auto simp: likes_counted_def change_row_def)

lemma other_write_counted:
  assumes "catalog_wf t" and "likes_counted t" and "\<not> touches_likes w"
  shows "likes_counted (snd (write_sem now w t))"
proof (cases w)
  case (ProductCreate d)
  have "likes_of (ct_next t) (ct_likes t) = 0"
    using assms(1) by (force simp: likes_of_def catalog_wf_def ids_ok_def filter_empty_conv)
  with ProductCreate assms(2) show ?thesis by (auto simp: checked_snd likes_counted_def new_row_def)
next
  case (ProductUpdate p d)
  with assms(2) show ?thesis by (simp add: checked_snd counted_rows patch_row_def)
next
  case (ProductIncrement cs p)
  with assms(2, 3) show ?thesis by (simp add: checked_snd counted_rows bump_others)
qed (use assms(2, 3) in \<open>simp_all add: checked_snd likes_counted_def\<close>)

text \<open>
  Requests that toggle likes, interleaved at their calls. A request reads whether the like is there
  and then writes; the state is the database with the requests that have read and not yet written,
  in the order of their reads. Any of them may write next. Between the calls any other write of the
  catalogue may happen.
\<close>

type_synonym like_request = "bool \<times> string \<times> int \<times> mark option"

inductive like_step :: "'d cat_ops \<Rightarrow> 'd \<times> like_request list \<Rightarrow> 'd \<times> like_request list \<Rightarrow> bool" for D where
  like_reads: "d_like D u p d = (Inr e, d') \<Longrightarrow> like_step D (d, rs) (d', rs @ [(b, u, p, e)])"
| like_read_fails: "d_like D u p d = (Inl x, d') \<Longrightarrow> like_step D (d, rs) (d', rs)"
| like_writes: "like_write D now b u p e d = (r, d') \<Longrightarrow> like_step D (d, rs @ (b, u, p, e) # qs) (d', rs @ qs)"
| other_writes: "\<not> touches_likes w \<Longrightarrow> d_write D now w d = (r, d') \<Longrightarrow> like_step D (d, rs) (d', rs)"

inductive_cases like_step_cases: "like_step D (d, rs) (d', rs')"

text \<open>A handler is these steps.\<close>

lemma toggle_steps:
  "product_toggleLike D now i u = bindM (orThrow invalid_product (toBigIntNullable (Some i))) (\<lambda>p. bindM (d_like D u p) (like_write D now False u p))"
  "likes_toggle D now u i = bindM (toBigIntOrThrow i) (\<lambda>p. bindM (d_like D u p) (like_write D now True u p))"
  by (simp_all add: product_toggleLike_def likes_toggle_def)

context catalog_db
begin

lemma sims_like_write [sims_intro]: "sims (on_tables ok view) (like_write D now b u p e) (like_write cat_ref now b u p e)"
  unfolding like_write_def writeBoth_def by (intro sims_intro)

lemma like_step_counted:
  assumes "like_step D s s'" and "ok (fst s)" and "likes_counted (view (fst s))"
  shows "ok (fst s') \<and> likes_counted (view (fst s'))"
  using assms
proof cases
  case (like_reads u p d e d' rs b)
  with assms(2, 3) show ?thesis using db_like [of u p] by (auto simp: answers_def reads_def)
next
  case (like_read_fails u p d x d' rs)
  with assms(2, 3) show ?thesis using db_like [of u p] by (auto simp: answers_def reads_def)
next
  case (like_writes now b u p e d r d' rs qs)
  then have "ok d" "likes_counted (view d)" using assms(2, 3) by auto
  moreover obtain x t' where n: "like_write cat_ref now b u p e (view d) = (x, t')" by (cases "like_write cat_ref now b u p e (view d)")
  moreover obtain d2 where "like_write D now b u p e d = (x, d2)" "ok d2" "view d2 = t'"
    using sims_run [OF sims_like_write \<open>ok d\<close> n] by blast
  ultimately show ?thesis using like_write_counted [OF wf, of d now b u p e] like_writes by simp
next
  case (other_writes w now d r d' rs)
  then have "ok d" "likes_counted (view d)" using assms(2, 3) by auto
  then show ?thesis using db_write [of now w] other_write_counted [OF wf _ other_writes(3), of d now] other_writes
    by (auto simp: answers_def)
qed

lemma like_steps_counted:
  "(like_step D)\<^sup>*\<^sup>* s s' \<Longrightarrow> ok (fst s) \<Longrightarrow> likes_counted (view (fst s)) \<Longrightarrow> ok (fst s') \<and> likes_counted (view (fst s'))"
  by (induction rule: rtranclp_induct) (use like_step_counted in blast)+

end

text \<open>
  C35: the number of likes kept with a product is the number of its likes, after any interleaving of
  requests that toggle likes through either service with each other and with the other writes of the
  catalogue. The transaction leaves nothing when a second request for the same like finds it there,
  or gone, or when the counter would overflow.
\<close>

theorem likes_stay_counted:
  assumes "catalog_db D ok view" and "ok d" and "likes_counted (view d)" and "(like_step D)\<^sup>*\<^sup>* (d, []) (d', rs)"
  shows "likes_counted (view d')"
  using catalog_db.like_steps_counted [OF assms(1, 4)] assms(2, 3) by simp

text \<open>Two requests of one user have both read "no like"; the second to write fails.\<close>

definition liked_twice :: catalog where
  "liked_twice = snd (like_write cat_ref 0 False ''u2'' 2 None sample)"

lemma liked_twice_eq: "like_write cat_ref 0 False ''u2'' 2 None sample = (Inr True, sample\<lparr>
    ct_products := [sample_product 1 ''p1'' 5 1, sample_product 2 ''p2'' 5 1],
    ct_likes := [\<lparr>mk_userId = ''u1'', mk_productId = 1, mk_createdAt = 0\<rparr>, \<lparr>mk_userId = ''u2'', mk_productId = 2, mk_createdAt = 0\<rparr>]\<rparr>)"
  by (simp add: like_write_def writeBoth_def transaction_def exec checked_cases sample_def sample_product_def q_mark_def product_ids_def
      change_row_def bump_row_def counts_fit_def int4_def)

theorem likes_stay_counted_witness:
  "likes_counted (snd (like_write cat_ref 0 False ''u2'' 2 None liked_twice)) \<and> map pr_likesCount (ct_products liked_twice) = [1, 1] \<and>
    fst (like_write cat_ref 0 False ''u2'' 2 None liked_twice) = Inl duplicate"
proof -
  have c: "likes_counted sample" by (simp add: likes_counted_def sample_def sample_product_def likes_of_def)
  let ?r = "(False, ''u2'', 2, None)"
  have "like_step cat_ref (sample, []) (sample, [] @ [?r])" by (rule like_reads) (simp add: reads_def q_mark_def find_row_def sample_def)
  moreover have "like_step cat_ref (sample, [?r]) (sample, [?r] @ [?r])" by (rule like_reads) (simp add: reads_def q_mark_def find_row_def sample_def)
  moreover have "like_step cat_ref (sample, [] @ ?r # [?r]) (liked_twice, [] @ [?r])"
    by (rule like_writes [where now = 0 and r = "fst (like_write cat_ref 0 False ''u2'' 2 None sample)"]) (simp add: liked_twice_def)
  moreover have "like_step cat_ref (liked_twice, [] @ ?r # []) (snd (like_write cat_ref 0 False ''u2'' 2 None liked_twice), [] @ [])"
    by (rule like_writes [where now = 0 and r = "fst (like_write cat_ref 0 False ''u2'' 2 None liked_twice)"]) simp
  ultimately have "(like_step cat_ref)\<^sup>*\<^sup>* (sample, []) (snd (like_write cat_ref 0 False ''u2'' 2 None liked_twice), [])" by simp
  from likes_stay_counted [OF ct.catalog_db_axioms sample_wf c this] show ?thesis
    by (simp add: liked_twice_def liked_twice_eq)
      (simp add: like_write_def writeBoth_def transaction_def exec checked_cases sample_def sample_product_def q_mark_def product_ids_def find_row_def)
qed

section \<open>Who may change a product\<close>

text \<open>The reads of the guards, over the tables.\<close>

lemma guard_reads [simp]:
  "getByIdOrSlugStrict cat_ref i t =
    (case q_product (idOrSlugWhere i) t of None \<Rightarrow> (Inl (notFound ''Product not found''), t) | Some f \<Rightarrow> (Inr f, t))"
  "canEdit cat_ref p a t = (Inr (ac_isAdmin a \<or> q_supplier p (ac_id a) t), t)"
  by (auto simp: getByIdOrSlugStrict_def canEdit_def exec reads_def orThrow_def split: option.split)

lemma filePatch_pure: "filePatch x t = (fst (filePatch x t), t)"
  by (simp add: filePatch_def exec orThrow_def split: option.split)

text \<open>A handler that does nothing but throw, or a transaction, when it fails.\<close>

definition all_or_nothing :: "('d, 'a) eff \<Rightarrow> bool" where
  "all_or_nothing m \<longleftrightarrow> (\<forall>d e d'. m d = (Inl e, d') \<longrightarrow> d' = d)"

lemma writeIncluding_atomic: "all_or_nothing (writeIncluding cat_ref now w)" if "\<And>i t t'. write_sem now w t = (Inr i, t') \<Longrightarrow> i \<in> set (product_ids t')"
  "\<And>e t t'. write_sem now w t = (Inl e, t') \<Longrightarrow> t' = t"
  unfolding all_or_nothing_def
proof (intro allI impI)
  fix t e t'
  assume a: "writeIncluding cat_ref now w t = (Inl e, t')"
  then show "t' = t"
    using that q_product_known by (fastforce simp: writeIncluding_def exec reads_def orThrow_def split: prod.splits sum.splits option.splits)
qed

lemma update_product_result:
  "write_sem now (ProductUpdate p d) t = (Inr i, t') \<Longrightarrow> i \<in> set (product_ids t')"
  "write_sem now (ProductUpdate p d) t = (Inl e, t') \<Longrightarrow> t' = t"
  by (auto simp: checked_cases change_ids split: if_splits)

lemma update_atomic: "all_or_nothing (writeIncluding cat_ref now (ProductUpdate p d))"
  by (rule writeIncluding_atomic) (erule update_product_result)+

definition may_edit :: "catalog \<Rightarrow> string \<Rightarrow> actor \<Rightarrow> bool" where
  "may_edit t idOrSlug a \<longleftrightarrow>
     (\<exists>f. q_product (idOrSlugWhere idOrSlug) t = Some f \<and> (ac_isAdmin a \<or> (pr_id (pf_row f), ac_id a) \<in> set (ct_suppliers t)))"

lemma update_guarded:
  assumes "product_update cat_ref newDate now i dto a t = (r, t')"
  shows "(\<forall>e. r = Inl e \<longrightarrow> t' = t) \<and> (\<forall>x. r = Inr x \<longrightarrow> may_edit t i a)"
proof (cases "q_product (idOrSlugWhere i) t")
  case (Some f)
  obtain fp where fp: "filePatch (up_fileId dto) t = (fp, t)" using filePatch_pure by metis
  show ?thesis
  proof (cases "ac_isAdmin a \<or> q_supplier (pr_id (pf_row f)) (ac_id a) t")
    case True
    then have "may_edit t i a" using Some by (auto simp: may_edit_def q_supplier_def)
    moreover have "r = Inl e \<Longrightarrow> t' = t" for e
      using assms Some True fp
      by (auto simp: product_update_def Let_def bindM_def thenM_def throwIfM_def throwM_def retM_def dest!: transaction_failed split: prod.splits sum.splits if_splits)
    ultimately show ?thesis by blast
  next
    case False
    then show ?thesis using assms Some by (auto simp: product_update_def Let_def bindM_def thenM_def throwIfM_def throwM_def)
  qed
qed (use assms in \<open>auto simp: product_update_def bindM_def\<close>)

lemma remove_guarded:
  assumes "product_remove cat_ref now i a t = (r, t')"
  shows "(\<forall>e. r = Inl e \<longrightarrow> t' = t) \<and> (\<forall>x. r = Inr x \<longrightarrow> may_edit t i a)"
proof (cases "q_product (idOrSlugWhere i) t")
  case (Some f)
  let ?w = "ProductUpdate (pr_id (pf_row f)) (empty_patch\<lparr>pp_status := Some ''ARCHIVED''\<rparr>)"
  have w: "writeIncluding cat_ref now ?w t = (Inl e, t1) \<Longrightarrow> t1 = t" for e t1
    using update_atomic unfolding all_or_nothing_def by blast
  show ?thesis
  proof (cases "ac_isAdmin a \<or> q_supplier (pr_id (pf_row f)) (ac_id a) t")
    case True
    then have "may_edit t i a" using Some by (auto simp: may_edit_def q_supplier_def)
    moreover have "r = Inl e \<Longrightarrow> t' = t" for e
      using assms Some True w
      by (auto simp: product_remove_def Let_def bindM_def thenM_def throwIfM_def throwM_def retM_def split: prod.splits sum.splits if_splits)
    ultimately show ?thesis by blast
  next
    case False
    then show ?thesis using assms Some by (auto simp: product_remove_def Let_def bindM_def thenM_def throwIfM_def throwM_def)
  qed
qed (use assms in \<open>auto simp: product_remove_def bindM_def\<close>)

context catalog_db
begin

lemma sims_parts [sims_intro]:
  "sims (on_tables ok view) (filePatch x) (filePatch x)" "sims (on_tables ok view) (fileArg y) (fileArg y)"
  "sims (on_tables ok view) (dateArg newDate y) (dateArg newDate y)" "sims (on_tables ok view) (bigInts ys) (bigInts ys)"
  by (auto simp: filePatch_def fileArg_def dateArg_def bigInts_def intro!: sims_intro)

lemma sims_helpers [sims_intro]:
  "sims (on_tables ok view) (getByIdOrSlugStrict D i) (getByIdOrSlugStrict cat_ref i)"
  "sims (on_tables ok view) (canEdit D p a) (canEdit cat_ref p a)"
  "sims (on_tables ok view) (writeIncluding D now w) (writeIncluding cat_ref now w)"
  unfolding getByIdOrSlugStrict_def canEdit_def writeIncluding_def by (intro sims_intro)+

lemma sims_links [sims_intro]:
  "sims (on_tables ok view) (setAuthors D now p ids) (setAuthors cat_ref now p ids)"
  "sims (on_tables ok view) (setCategories D now p ids) (setCategories cat_ref now p ids)"
  "sims (on_tables ok view) (setTags D now p ids) (setTags cat_ref now p ids)"
  unfolding setAuthors_def setCategories_def setTags_def Let_def by (intro sims_intro)+

lemma sims_whenSome [sims_intro]:
  "(\<And>x. sims (on_tables ok view) (f x) (g x)) \<Longrightarrow> sims (on_tables ok view) (whenSome y f) (whenSome y g)"
  unfolding whenSome_def by (intro sims_intro)

lemma sims_product [sims_intro]:
  "sims (on_tables ok view) (product_create D newDate now cdto a) (product_create cat_ref newDate now cdto a)"
  "sims (on_tables ok view) (product_update D newDate now i dto a) (product_update cat_ref newDate now i dto a)"
  "sims (on_tables ok view) (product_remove D now i a) (product_remove cat_ref now i a)"
  unfolding product_create_def product_update_def product_remove_def Let_def by (intro sims_intro)+

end

text \<open>
  C36: a product is changed or archived only by an administrator or one of its authors; a request
  that fails, at whatever step of the transaction, leaves all tables as they were.
\<close>

theorem product_change_guarded:
  assumes "catalog_db D ok view" and "ok d" and "m = product_update D newDate now i dto a \<or> m = product_remove D now i a"
    and "m d = (r, d')"
  shows "(\<forall>e. r = Inl e \<longrightarrow> view d' = view d) \<and> (\<forall>x. r = Inr x \<longrightarrow> may_edit (view d) i a)"
proof -
  obtain n where n: "sims (on_tables ok view) m n" "n = product_update cat_ref newDate now i dto a \<or> n = product_remove cat_ref now i a"
    using assms(3) catalog_db.sims_product [OF assms(1)] by blast
  obtain x t' where x: "n (view d) = (x, t')" by (cases "n (view d)")
  obtain d2 where "m d = (x, d2)" "view d2 = t'" using sims_run [OF n(1) assms(2) x] by blast
  moreover have "(\<forall>e. x = Inl e \<longrightarrow> t' = view d) \<and> (\<forall>y. x = Inr y \<longrightarrow> may_edit (view d) i a)"
    using n(2) x update_guarded remove_guarded by blast
  ultimately show ?thesis using assms(4) by simp
qed

text \<open>The second user archives the product of the first.\<close>

theorem product_change_guarded_witness:
  "snd (product_remove cat_ref 0 ''p1'' \<lparr>ac_id = ''u2'', ac_isAdmin = False\<rparr> sample) = sample"
proof -
  let ?a = "\<lparr>ac_id = ''u2'', ac_isAdmin = False\<rparr>"
  obtain r t where x: "product_remove cat_ref 0 ''p1'' ?a sample = (r, t)" by (cases "product_remove cat_ref 0 ''p1'' ?a sample")
  have "idOrSlugWhere ''p1'' = WSlug ''p1''" by (simp add: idOrSlugWhere_def all_digits_def is_digit_def)
  then have "q_product (idOrSlugWhere ''p1'') sample = Some (with_relations sample (sample_product 1 ''p1'' 5 1))"
    by (simp add: q_product_def sample_def sample_product_def find_row_def)
  then have "\<not> may_edit sample ''p1'' ?a"
    by (simp add: may_edit_def with_relations_def) (simp add: sample_def sample_product_def)
  with product_change_guarded [where newDate = parse_iso, OF ct.catalog_db_axioms sample_wf disjI2 [OF refl] x] show ?thesis using x by (cases r) auto
qed

section \<open>Authors\<close>

definition authors_of :: "int \<Rightarrow> (int \<times> string) list \<Rightarrow> nat" where
  "authors_of p ls = length (filter (\<lambda>l. fst l = p) ls)"

definition authors_ok :: "catalog \<Rightarrow> bool" where
  "authors_ok t \<longleftrightarrow> catalog_wf t \<and> (\<forall>p. authors_of p (ct_suppliers t) \<le> 3)"

lemma authors_of_links: "authors_of q (ls @ map (\<lambda>u. (p, u)) us) = authors_of q ls + (if q = p then length us else 0)"
  by (simp add: authors_of_def filter_map comp_def)

lemma authors_of_filter: "authors_of q (filter P ls) \<le> authors_of q ls"
  unfolding authors_of_def by (induction ls) auto

text \<open>The writes that keep the bound.\<close>

fun few_authors :: "cat_write \<Rightarrow> bool" where
  "few_authors (ProductCreate d) \<longleftrightarrow> length (pd_authors d) \<le> 3"
| "few_authors (SuppliersCreateMany p us) \<longleftrightarrow> False"
| "few_authors w \<longleftrightarrow> True"

lemma few_authors_ok:
  assumes "few_authors w" and "authors_ok t"
  shows "authors_ok (snd (write_sem now w t))"
proof -
  have "\<forall>p. authors_of p (ct_suppliers (snd (write_sem now w t))) \<le> 3"
  proof (cases w)
    case (ProductCreate d)
    have "authors_of (ct_next t) (ct_suppliers t) = 0"
      using assms(2) by (auto simp: authors_ok_def catalog_wf_def links_ok_def authors_of_def filter_empty_conv)
    with ProductCreate assms show ?thesis by (simp add: checked_snd authors_ok_def authors_of_links)
  next
    case (SuppliersDeleteMany p)
    with assms show ?thesis by (simp add: authors_ok_def) (meson authors_of_filter le_trans)
  qed (use assms in \<open>simp_all add: checked_snd authors_ok_def change_row_def\<close>)
  then show ?thesis using assms(2) wf_write by (simp add: authors_ok_def)
qed

lemma few_authors_keeps [keeps_intro]: "few_authors w \<Longrightarrow> keeps authors_ok (d_write cat_ref now w)"
  by (simp add: keeps_def few_authors_ok)

lemma keeps_transaction [keeps_intro]: "keeps I m \<Longrightarrow> keeps I (transaction m)"
  unfolding keeps_def transaction_def by (fastforce split: prod.splits sum.splits)

lemma keeps_table_read [keeps_intro]: "keeps I (reads f)"
  by (simp add: keeps_def reads_def)

lemma keeps_orThrow [keeps_intro]: "keeps I (orThrow e x)"
  by (simp add: orThrow_def keeps_intro split: option.split)

lemma setAuthors_keeps:
  assumes "length (js_unique ids) \<le> 3"
  shows "keeps authors_ok (setAuthors cat_ref now p ids)"
proof (rule keepsI)
  fix t r t'
  assume t: "authors_ok t" and r: "setAuthors cat_ref now p ids t = (r, t')"
  define t1 where "t1 = snd (write_sem now (SuppliersDeleteMany p) t)"
  have t1: "authors_ok t1" unfolding t1_def by (rule few_authors_ok [OF _ t]) simp
  have z: "authors_of q (ct_suppliers t1) = (if q = p then 0 else authors_of q (ct_suppliers t1))" for q
    by (simp add: t1_def authors_of_def)
  have "setAuthors cat_ref now p ids t = (if js_unique ids = [] then (Inr (), t1)
      else bindM (d_write cat_ref now (SuppliersCreateMany p (js_unique ids))) (\<lambda>_. retM ()) t1)"
    by (simp add: setAuthors_def Let_def bindM_def retM_def t1_def del: cat_ref_simps(2-))
  then have "t' = t1 \<or> t' = snd (write_sem now (SuppliersCreateMany p (js_unique ids)) t1)"
    using r by (auto simp: bindM_def retM_def split: if_splits prod.splits sum.splits simp del: write_sem.simps)
  then show "authors_ok t'"
  proof
    assume t': "t' = snd (write_sem now (SuppliersCreateMany p (js_unique ids)) t1)"
    have "length (filter P (js_unique (js_unique ids))) \<le> 3" for P
      using le_trans [OF length_filter_le assms] by (simp add: js_unique_distinct)
    then have "authors_of q (ct_suppliers t') \<le> 3" for q
      using t1 z [of p] unfolding t' by (cases "q = p") (simp_all add: checked_snd authors_ok_def authors_of_links)
    moreover have "catalog_wf t'" unfolding t' by (rule wf_write) (use t1 in \<open>simp add: authors_ok_def\<close>)
    ultimately show "authors_ok t'" by (simp add: authors_ok_def)
  qed (use t1 in simp)
qed

lemma keeps_guard: "(\<not> c \<Longrightarrow> keeps I m) \<Longrightarrow> keeps I (thenM (throwIfM c e) m)"
  by (simp add: thenM_def throwIfM_def keeps_intro)

lemma keeps_whenSome [keeps_intro]: "(\<And>y. x = Some y \<Longrightarrow> keeps I (f y)) \<Longrightarrow> keeps I (whenSome x f)"
  by (simp add: whenSome_def keeps_intro split: option.split)

lemma keeps_helpers [keeps_intro]:
  "keeps I (getByIdOrSlugStrict cat_ref s)" "keeps I (canEdit cat_ref p a)" "keeps I (filePatch x)" "keeps I (fileArg y)"
  "keeps I (dateArg newDate y)" "keeps I (bigInts ys)"
  by (auto simp: getByIdOrSlugStrict_def canEdit_def filePatch_def fileArg_def dateArg_def bigInts_def split: option.split intro!: keeps_intro)

lemma keeps_writeIncluding [keeps_intro]: "few_authors w \<Longrightarrow> keeps authors_ok (writeIncluding cat_ref now w)"
  unfolding writeIncluding_def cat_ref_simps(3) by (intro keeps_intro)

lemma keeps_links [keeps_intro]: "keeps authors_ok (setCategories cat_ref now p ids)" "keeps authors_ok (setTags cat_ref now p ids)"
  unfolding setCategories_def setTags_def Let_def cat_ref_simps(11, 12) by (intro keeps_intro; simp)+

lemma product_keeps_authors:
  "keeps authors_ok (product_create cat_ref newDate now cdto a)" "keeps authors_ok (product_update cat_ref newDate now i dto a)"
  "keeps authors_ok (product_remove cat_ref now i a)"
proof -
  show "keeps authors_ok (product_create cat_ref newDate now cdto a)"
    unfolding product_create_def Let_def by (intro keeps_guard keeps_intro) simp
  have "keeps authors_ok (whenSome (up_authorIds dto) (setAuthors cat_ref now p))"
    if "\<not> (up_authorIds dto \<noteq> None \<and> length (uniq (up_authorIds dto)) > 3)" for p
    using that by (intro keeps_whenSome setAuthors_keeps) (auto simp: uniq_def)
  then show "keeps authors_ok (product_update cat_ref newDate now i dto a)"
    unfolding product_update_def Let_def by (intro keeps_guard keeps_bindM keeps_transaction keeps_thenM keeps_retM keeps_helpers
        keeps_links keeps_whenSome [of "up_categoryIds dto"] keeps_whenSome [of "up_tagIds dto"] keeps_writeIncluding) simp_all
  show "keeps authors_ok (product_remove cat_ref now i a)"
    unfolding product_remove_def Let_def by (intro keeps_intro) simp
qed

text \<open>
  C37: a product never has more than three authors: creating, changing and archiving products keeps
  the bound, whatever the request asks for and wherever it fails.
\<close>

theorem at_most_three_authors:
  assumes "catalog_db D ok view" and "ok d" and "authors_ok (view d)"
    and "m = product_create D newDate now cdto a \<or> m = product_update D newDate now i dto a \<or> m = product_remove D now i a"
    and "m d = (r, d')"
  shows "authors_ok (view d')"
proof -
  obtain n where n: "sims (on_tables ok view) m n" "keeps authors_ok n"
    using assms(4) by (elim disjE) (use catalog_db.sims_product [OF assms(1)] product_keeps_authors in metis)+
  obtain x t' where x: "n (view d) = (x, t')" by (cases "n (view d)")
  obtain d2 where "m d = (x, d2)" "view d2 = t'" using sims_run [OF n(1) assms(2) x] by blast
  then show ?thesis using keepsD [OF n(2) assms(3) x] assms(5) by simp
qed

theorem at_most_three_authors_witness:
  "authors_ok (snd (product_remove cat_ref 0 ''p1'' \<lparr>ac_id = ''u1'', ac_isAdmin = False\<rparr> sample))"
proof -
  have "authors_ok sample" using sample_wf by (simp add: authors_ok_def authors_of_def sample_def)
  from at_most_three_authors [where newDate = parse_iso, OF ct.catalog_db_axioms sample_wf this disjI2 [OF disjI2 [OF refl]] surjective_pairing]
  show ?thesis .
qed

end
