(* ===== verification/CategoryProps.thy ===== *)
theory CategoryProps
  imports ProductProps
begin

text \<open>
  The walk from a category to its root: it returns exactly when the chain of parents ends, and the
  service itself can tie a chain into a loop.
\<close>

section \<open>Chains of parents\<close>

text \<open>The rows from a category up to its root, or up to a parent that is not there.\<close>

inductive chain :: "catalog \<Rightarrow> int \<Rightarrow> category_row list \<Rightarrow> bool" for t where
  chain_missing: "q_category (ById i) t = None \<Longrightarrow> chain t i []"
| chain_root: "q_category (ById i) t = Some c \<Longrightarrow> parent_id c = None \<Longrightarrow> chain t i [c]"
| chain_child: "q_category (ById i) t = Some c \<Longrightarrow> parent_id c = Some p \<Longrightarrow> chain t p cs \<Longrightarrow> chain t i (c # cs)"

inductive_cases chain_cases: "chain t i cs"

lemma db_category_answer:
  assumes "catalog_db D ok view" and "ok d"
  shows "\<exists>d'. d_category D k d = (Inr (q_category k (view d)), d') \<and> ok d' \<and> view d' = view d"
  using catalog_db.db_category [OF assms(1), of k] assms(2) by (auto simp: answers_def reads_def)

lemma climb_chain:
  assumes "catalog_db D ok view" and "chain t i cs" and "ok d" and "view d = t"
  shows "\<exists>d'. climb D (q_category (ById i) t) path d = Some (Inr (path @ cs), d') \<and> ok d' \<and> view d' = t"
  using assms(2-)
proof (induction arbitrary: path d)
  case (chain_missing i)
  then show ?case by (simp add: climb.simps)
next
  case (chain_root i c)
  then show ?case by (simp add: climb.simps)
next
  case (chain_child i c p cs)
  obtain d1 where "d_category D (ById p) d = (Inr (q_category (ById p) t), d1)" "ok d1" "view d1 = t"
    using db_category_answer [OF assms(1) chain_child.prems(1), of "ById p"] chain_child.prems(2) by blast
  with chain_child.IH [of d1 "path @ [c]"] chain_child.hyps show ?case by (simp add: climb.simps)
qed

lemma climb_returns:
  assumes "climb D c path d = Some r" and "catalog_db D ok view" and "ok d" and "c = q_category (ById i) (view d)"
  shows "\<exists>cs. chain (view d) i cs"
  using assms(2-)
proof (induction arbitrary: i rule: climb.raw_induct [OF _ assms(1), consumes 0])
  case (1 climb' D c path d r)
  show ?case
  proof (cases c)
    case None
    then show ?thesis using 1(5) by (intro exI [of _ "[]"] chain_missing) simp
  next
    case (Some x)
    show ?thesis
    proof (cases "parent_id x")
      case None
      then show ?thesis using 1(5) Some by (intro exI [of _ "[x]"] chain_root) simp_all
    next
      case p: (Some p)
      obtain d1 where d1: "d_category D (ById p) d = (Inr (q_category (ById p) (view d)), d1)" "ok d1" "view d1 = view d"
        using db_category_answer [OF 1(3, 4), of "ById p"] by blast
      with 1(2) Some p have "climb' D (q_category (ById p) (view d)) (path @ [x]) d1 = Some r" by simp
      from 1(1) [OF this 1(3) d1(2), of p] d1(3) obtain cs where "chain (view d) p cs" by auto
      then show ?thesis using 1(5) Some p by (intro exI [of _ "x # cs"] chain_child) simp_all
    qed
  qed
qed

text \<open>The identifier a request names, when it names one.\<close>

lemma category_id_pure: "category_id s d = (fst (category_id s d), d)"
  by (simp add: category_id_def exec split: option.split)

lemma breadcrumbs_walk:
  assumes "catalog_db D ok view" and "ok d" and "category_id s d = (Inr i, d)"
  shows "\<exists>d'. ok d' \<and> view d' = view d \<and> breadcrumbs D s d =
    map_option (\<lambda>(r, d). (case r of Inl e \<Rightarrow> Inl e | Inr path \<Rightarrow> Inr (map category_toDto (rev path)), d)) (climb D (q_category (ById i) (view d)) [] d')"
proof -
  obtain d' where "d_category D (ById i) d = (Inr (q_category (ById i) (view d)), d')" "ok d'" "view d' = view d"
    using db_category_answer [OF assms(1, 2), of "ById i"] by blast
  then show ?thesis by (intro exI [of _ d']) (simp add: breadcrumbs_def assms(3))
qed

lemma breadcrumbs_chain:
  assumes "catalog_db D ok view" and "ok d" and "category_id s d = (Inr i, d)"
  shows "(\<forall>cs. chain (view d) i cs \<longrightarrow> (\<exists>d'. breadcrumbs D s d = Some (Inr (map category_toDto (rev cs)), d') \<and> view d' = view d)) \<and>
    (breadcrumbs D s d = None \<longleftrightarrow> (\<nexists>cs. chain (view d) i cs))"
proof -
  obtain d1 where d1: "ok d1" "view d1 = view d" and b: "breadcrumbs D s d =
    map_option (\<lambda>(r, d). (case r of Inl e \<Rightarrow> Inl e | Inr path \<Rightarrow> Inr (map category_toDto (rev path)), d)) (climb D (q_category (ById i) (view d)) [] d1)"
    using breadcrumbs_walk [OF assms] by blast
  have w: "\<exists>d'. breadcrumbs D s d = Some (Inr (map category_toDto (rev cs)), d') \<and> view d' = view d" if "chain (view d) i cs" for cs
    using climb_chain [OF assms(1) that d1, of "[]"] by (auto simp: b)
  have "\<exists>cs. chain (view d) i cs" if "breadcrumbs D s d = Some r" for r
  proof -
    obtain x where "climb D (q_category (ById i) (view d)) [] d1 = Some x" using \<open>breadcrumbs D s d = Some r\<close> b by auto
    from climb_returns [OF this assms(1) d1(1), of i] show ?thesis using d1(2) by simp
  qed
  with w show ?thesis by (cases "breadcrumbs D s d") fastforce+
qed

text \<open>
  C38: the breadcrumbs of a category return exactly when the chain of its parents ends; then they are
  the rows of the chain from the root down, and nothing is written.
\<close>

theorem breadcrumbs_return:
  assumes "catalog_db D ok view" and "ok d" and "category_id s d = (Inr i, d)"
  shows "(\<forall>cs. chain (view d) i cs \<longrightarrow> (\<exists>d'. breadcrumbs D s d = Some (Inr (map category_toDto (rev cs)), d') \<and> view d' = view d)) \<and>
    (breadcrumbs D s d = None \<longleftrightarrow> (\<nexists>cs. chain (view d) i cs))"
  using assms by (rule breadcrumbs_chain)

lemma sample_lookup:
  "q_category (ById 1) sample = Some \<lparr>cg_id = 1, cg_name = ''a'', cg_slug = ''a'', cg_parentId = None\<rparr>"
  "q_category (ById 2) sample = Some \<lparr>cg_id = 2, cg_name = ''b'', cg_slug = ''b'', cg_parentId = Some 1\<rparr>"
  by (simp_all add: q_category_def find_row_def sample_def)

lemma id_values: "toBigIntNullable (Some ''1'') = Some 1" "toBigIntNullable (Some ''2'') = Some 2"
  by code_simp+

lemma id_texts: "category_id ''1'' d = (Inr 1, d)" "category_id ''2'' d = (Inr 2, d)"
  by (simp_all add: category_id_def id_values exec)

lemma small_ids: "int_str 1 = ''1''" "int_str 2 = ''2''"
  by code_simp+

theorem breadcrumbs_return_witness:
  "\<exists>d'. breadcrumbs cat_ref ''2'' sample = Some (Inr [\<lparr>cd_id = ''1'', cd_name = ''a'', cd_slug = ''a'', cd_parentId = None\<rparr>,
     \<lparr>cd_id = ''2'', cd_name = ''b'', cd_slug = ''b'', cd_parentId = Some ''1''\<rparr>], d')"
proof -
  let ?r1 = "\<lparr>cg_id = 1, cg_name = ''a'', cg_slug = ''a'', cg_parentId = None\<rparr>"
  let ?r2 = "\<lparr>cg_id = 2, cg_name = ''b'', cg_slug = ''b'', cg_parentId = Some 1\<rparr>"
  have "chain sample 1 [?r1]" by (rule chain_root) (simp_all add: sample_lookup parent_id_def)
  then have "chain sample 2 [?r2, ?r1]" by (rule chain_child [rotated 2]) (simp_all add: sample_lookup parent_id_def)
  with breadcrumbs_return [OF ct.catalog_db_axioms sample_wf id_texts(2)]
  have "\<exists>d'. breadcrumbs cat_ref ''2'' sample = Some (Inr (map category_toDto (rev [?r2, ?r1])), d')" by blast
  then show ?thesis by (simp add: category_toDto_def idOrUndefined_def small_ids)
qed

section \<open>A loop\<close>






section \<open>Chains stay finite\<close>

definition chains_end :: "catalog \<Rightarrow> bool" where
  "chains_end t \<longleftrightarrow> catalog_wf t \<and> (\<forall>i. \<exists>cs. chain t i cs)"

lemma chain_no_self: "chain t i cs \<Longrightarrow> q_category (ById i) t = Some c \<Longrightarrow> parent_id c \<noteq> Some i"
  by (induction rule: chain.induct) auto

text \<open>A new row that is no row's parent.\<close>

lemma chain_new:
  assumes "chain t i cs" and "\<And>j. j \<noteq> n \<Longrightarrow> q_category (ById j) t' = q_category (ById j) t"
    and "q_category (ById n) t = None" and "\<And>j c. q_category (ById j) t = Some c \<Longrightarrow> parent_id c \<noteq> Some n" and "i \<noteq> n"
  shows "chain t' i cs"
  using assms(1, 5)
proof (induction rule: chain.induct)
  case (chain_child i c p cs)
  then show ?case using assms(2) [of i] assms(4) [of i c] by (intro chain.chain_child) auto
qed (use assms(2) in \<open>auto intro: chain.intros\<close>)

lemma find_row_append: "find_row P (xs @ [x]) = (case find_row P xs of None \<Rightarrow> if P x then Some x else None | Some y \<Rightarrow> Some y)"
  unfolding find_row_def by (induction xs) auto

lemma find_row_map: "find_row P (map f xs) = map_option f (find_row (\<lambda>x. P (f x)) xs)"
  unfolding find_row_def by (induction xs) auto

lemma find_row_filter: "find_row P (filter Q xs) = find_row (\<lambda>x. Q x \<and> P x) xs"
  unfolding find_row_def by (induction xs) auto

lemma parent_known:
  assumes "catalog_wf t" and "q_category (ById j) t = Some c" and "cg_parentId c = Some p"
  shows "p \<in> set (category_ids t)"
proof -
  have "c \<in> set (ct_categories t)" using assms(2) find_row_Some unfolding q_category_def by fast
  then show ?thesis using assms(1, 3) by (auto simp: catalog_wf_def parents_ok_def category_ids_def)
qed

lemma create_chains:
  assumes "chains_end t"
  shows "chains_end (snd (write_sem now (CategoryCreate n s parent) t))"
proof (cases "snd (write_sem now (CategoryCreate n s parent) t) = t")
  case False
  define t' where "t' = snd (write_sem now (CategoryCreate n s parent) t)"
  let ?c = "\<lparr>cg_id = ct_next t, cg_name = n, cg_slug = s, cg_parentId = parent\<rparr>"
  have wf: "catalog_wf t" and ends: "\<And>i. \<exists>cs. chain t i cs" using assms by (auto simp: chains_end_def)
  have t': "t' = t\<lparr>ct_categories := ct_categories t @ [?c], ct_next := ct_next t + 1\<rparr>" and p: "\<And>q. parent = Some q \<Longrightarrow> q \<in> set (category_ids t)"
    using False unfolding t'_def by (auto simp: checked_snd split: if_splits)
  have new: "ct_next t \<notin> set (category_ids t)" using wf by (auto simp: catalog_wf_def ids_ok_def)
  have old: "q_category (ById (ct_next t)) t = None" using new unfolding q_category_def find_row_None by (force simp: category_ids_def)
  have look: "q_category (ById j) t' = (if j = ct_next t then Some ?c else q_category (ById j) t)" for j
    using old by (auto simp: t' q_category_def find_row_append simp del: find_row_None split: option.split)
  have no: "parent_id c \<noteq> Some (ct_next t)" if "q_category (ById j) t = Some c" for j c
    using parent_known [OF wf that] new by (auto simp: parent_id_def split: option.splits if_splits)
  have other: "\<exists>cs. chain t' j cs" if "j \<noteq> ct_next t" for j
    using ends [of j] chain_new [of t j _ "ct_next t" t'] look old no that by auto
  have "\<exists>cs. chain t' (ct_next t) cs"
  proof (cases "parent_id ?c")
    case None
    then show ?thesis using look by (intro exI [of _ "[?c]"] chain_root) simp_all
  next
    case (Some q)
    then have "q \<noteq> ct_next t" using p new by (auto simp: parent_id_def split: option.splits if_splits)
    then obtain cs where "chain t' q cs" using other by blast
    then show ?thesis using Some look by (intro exI [of _ "?c # cs"] chain_child) simp_all
  qed
  with other have "\<exists>cs. chain t' i cs" for i by (cases "i = ct_next t") auto
  then show ?thesis using wf_write [OF wf] unfolding t'_def chains_end_def by blast
qed (use assms in simp)

text \<open>The rows after a category has gone and its children have moved to its parent.\<close>

definition moved_up :: "int \<Rightarrow> category_row \<Rightarrow> category_row \<Rightarrow> category_row" where
  "moved_up i n c = (if cg_parentId c = Some i then c\<lparr>cg_parentId := cg_parentId n\<rparr> else c)"

lemma chain_without:
  assumes "chain t j cs" and n: "q_category (ById i) t = Some n" "cg_parentId n \<noteq> Some i" "i \<noteq> 0"
    and look: "\<And>j. q_category (ById j) t' = (if j = i then None else map_option (moved_up i n) (q_category (ById j) t))"
  shows "(j \<noteq> i \<longrightarrow> (\<exists>cs. chain t' j cs)) \<and> (j = i \<longrightarrow> (\<forall>q. parent_id n = Some q \<longrightarrow> (\<exists>cs. chain t' q cs)))"
  using assms(1)
proof (induction rule: chain.induct)
  case (chain_missing j)
  then have "j \<noteq> i \<and> q_category (ById j) t' = None" using n(1) look [of j] by auto
  then show ?case using chain.chain_missing by blast
next
  case (chain_root j c)
  have "parent_id (moved_up i n c) = None" using chain_root n by (auto simp: parent_id_def moved_up_def split: option.splits if_splits)
  then show ?case using chain_root n look [of j] chain.chain_root [of j t' "moved_up i n c"] by auto
next
  case (chain_child j c p cs)
  show ?case
  proof (cases "j = i")
    case True
    then have "c = n" "p \<noteq> i" using chain_child n by (auto simp: parent_id_def split: option.splits if_splits)
    then show ?thesis using chain_child True by auto
  next
    case False
    then have l: "q_category (ById j) t' = Some (moved_up i n c)" using chain_child look by simp
    have "\<exists>cs. chain t' j cs"
    proof (cases "p = i")
      case True
      then have m: "parent_id (moved_up i n c) = parent_id n"
        using chain_child n by (auto simp: parent_id_def moved_up_def split: option.splits if_splits)
      show ?thesis
      proof (cases "parent_id n")
        case None
        with m l show ?thesis using chain.chain_root by fastforce
      next
        case (Some q)
        with chain_child True obtain cs' where "chain t' q cs'" by blast
        with m l Some show ?thesis using chain.chain_child by fastforce
      qed
    next
      case False
      then have "parent_id (moved_up i n c) = Some p"
        using chain_child n by (auto simp: parent_id_def moved_up_def split: option.splits if_splits)
      moreover obtain cs' where "chain t' p cs'" using chain_child False by blast
      ultimately show ?thesis using l chain.chain_child by fastforce
    qed
    with False show ?thesis by blast
  qed
qed

lemma remove_rows:
  assumes "category_remove cat_ref now idStr t = (r, t')" and "t' \<noteq> t"
  obtains i n where "category_id idStr t = (Inr i, t)" and "q_category (ById i) t = Some n"
    and "ct_categories t' = map (\<lambda>c. if cg_parentId c = Some i then c\<lparr>cg_parentId := None\<rparr> else c)
      (filter (\<lambda>c. cg_id c \<noteq> i) (map (moved_up i n) (ct_categories t)))"
    and "catalog_wf t \<longrightarrow> catalog_wf t'"
proof -
  obtain ri where ri: "category_id idStr t = (ri, t)" using category_id_pure by metis
  then obtain i where i: "category_id idStr t = (Inr i, t)"
    using assms by (cases ri) (auto simp: category_remove_def bindM_def)
  obtain n where n: "q_category (ById i) t = Some n"
    using assms i by (cases "q_category (ById i) t") (auto simp: category_remove_def bindM_def reads_def orThrow_def throwM_def)
  let ?w1 = "CategoryMoveChildren i (cg_parentId n)" and ?w2 = "ProdCatsDeleteOf i" and ?w3 = "CategoryDelete i"
  define m where "m = bindM (write_sem now ?w1) (\<lambda>_. bindM (write_sem now ?w2) (\<lambda>_. bindM (write_sem now ?w3) (\<lambda>_. retM ())))"
  have tr: "category_remove cat_ref now idStr t = transaction m t"
    by (simp add: category_remove_def bindM_def [of "category_id idStr"] i bindM_def [of "reads f" for f] reads_def n orThrow_def m_def)
  then have "transaction m t = (r, t')" using assms(1) by simp
  then have "m t = (Inr (), t')" using assms(2) by (auto simp: transaction_def split: prod.splits sum.splits)
  then obtain x1 t1 x2 t2 x3 where w: "write_sem now ?w1 t = (Inr x1, t1)" "write_sem now ?w2 t1 = (Inr x2, t2)" "write_sem now ?w3 t2 = (Inr x3, t')"
    unfolding m_def by (elim bindM_InrE) (auto simp: retM_def)
  have t1: "ct_categories t1 = map (moved_up i n) (ct_categories t)"
    using checked_Inr [OF w(1) [unfolded write_sem.simps]] by (simp add: moved_up_def [abs_def])
  have t2: "ct_categories t2 = ct_categories t1" using w(2) by auto
  have t3: "ct_categories t' = map (\<lambda>c. if cg_parentId c = Some i then c\<lparr>cg_parentId := None\<rparr> else c) (filter (\<lambda>c. cg_id c \<noteq> i) (ct_categories t2))"
    using checked_Inr [OF w(3) [unfolded write_sem.simps]] by simp
  have "catalog_wf t \<longrightarrow> catalog_wf t'"
    using wf_write [of t now ?w1] wf_write [of t1 now ?w2] wf_write [of t2 now ?w3] w by (simp del: write_sem.simps)
  with i n t1 t2 t3 show thesis by (intro that) simp_all
qed

lemma remove_chains:
  assumes "chains_end t" and "category_remove cat_ref now idStr t = (r, t')"
  shows "chains_end t'"
proof (cases "t' = t")
  case False
  have wf: "catalog_wf t" and ends: "\<And>i. \<exists>cs. chain t i cs" using assms(1) by (auto simp: chains_end_def)
  obtain i n where i: "category_id idStr t = (Inr i, t)" and n: "q_category (ById i) t = Some n"
    and rows: "ct_categories t' = map (\<lambda>c. if cg_parentId c = Some i then c\<lparr>cg_parentId := None\<rparr> else c)
      (filter (\<lambda>c. cg_id c \<noteq> i) (map (moved_up i n) (ct_categories t)))" and wf': "catalog_wf t \<longrightarrow> catalog_wf t'"
    by (rule remove_rows [OF assms(2) False])
  have "i \<noteq> 0" using i by (auto simp: category_id_def exec split: option.splits if_splits)
  then have p: "cg_parentId n \<noteq> Some i"
    using ends [of i] chain_no_self [of t i _ n] n by (auto simp: parent_id_def)
  have ids: "cg_id (moved_up i n c) = cg_id c" "cg_parentId (moved_up i n c) \<noteq> Some i" for c using p by (auto simp: moved_up_def)
  have look: "q_category (ById j) t' = (if j = i then None else map_option (moved_up i n) (q_category (ById j) t))" for j
  proof -
    let ?g = "\<lambda>c. if cg_parentId c = Some i then c\<lparr>cg_parentId := None\<rparr> else c"
    have k: "key_of_category (ById j) = (\<lambda>c. cg_id c = j)" by (rule ext) simp
    have "(\<lambda>c. key_of_category (ById j) (?g (moved_up i n c))) = (\<lambda>c. cg_id c = j)" "(\<lambda>c. ?g (moved_up i n c)) = moved_up i n"
      using ids by (simp_all add: fun_eq_iff)
    then have "q_category (ById j) t' = map_option (moved_up i n) (find_row (\<lambda>c. cg_id c \<noteq> i \<and> cg_id c = j) (ct_categories t))"
      unfolding q_category_def rows find_row_map find_row_filter by (simp add: ids option.map_comp comp_def cong: conj_cong)
    moreover have "find_row (\<lambda>c. cg_id c \<noteq> i \<and> cg_id c = j) xs = (if j = i then None else find_row (\<lambda>c. cg_id c = j) xs)" for xs :: "category_row list"
      unfolding find_row_def by (induction xs) auto
    ultimately have "q_category (ById j) t' = map_option (moved_up i n) (if j = i then None else find_row (\<lambda>c. cg_id c = j) (ct_categories t))"
      by (simp only:)
    then show ?thesis by (cases "j = i") (simp_all add: q_category_def k)
  qed
  have "\<exists>cs. chain t' j cs" for j
    using ends [of j] chain_without [OF _ n p \<open>i \<noteq> 0\<close> look, of j] look [of j] chain.chain_missing [of j t'] by (cases "j = i") auto
  then show ?thesis using wf wf' by (simp add: chains_end_def)
qed (use assms in simp)

context catalog_db
begin

lemma sims_category [sims_intro]:
  "sims (on_tables ok view) (category_id s) (category_id s)"
  "sims (on_tables ok view) (writeCategory D now w) (writeCategory cat_ref now w)"
  unfolding category_id_def writeCategory_def by (intro sims_intro)+

lemma sims_categories:
  "sims (on_tables ok view) (category_create D now n s p) (category_create cat_ref now n s p)"
  "sims (on_tables ok view) (category_remove D now s) (category_remove cat_ref now s)"
  unfolding category_create_def category_remove_def by (intro sims_intro)+

end

text \<open>
  C39: creating and removing categories keep every chain of parents finite: the children of a removed
  category move to its parent. Only an update can tie a loop.
\<close>

theorem chains_stay_finite:
  assumes "catalog_db D ok view" and "ok d" and "chains_end (view d)"
  shows "chains_end (view (snd (category_create D now n s p d))) \<and> chains_end (view (snd (category_remove D now i d)))"
proof -
  obtain r t' where c: "category_create cat_ref now n s p (view d) = (r, t')" by (cases "category_create cat_ref now n s p (view d)")
  obtain x t2 where m: "category_remove cat_ref now i (view d) = (x, t2)" by (cases "category_remove cat_ref now i (view d)")
  have "t' = snd (write_sem now (CategoryCreate n s (toBigIntNullable p)) (view d))"
    using c by (auto simp: category_create_def writeCategory_def bindM_def reads_def orThrow_def retM_def throwM_def
        simp del: write_sem.simps split: prod.splits sum.splits option.splits)
  then have "chains_end t'" "chains_end t2" using create_chains [OF assms(3)] remove_chains [OF assms(3) m] by auto
  then show ?thesis
    using sims_run [OF catalog_db.sims_categories(1) [OF assms(1)] assms(2) c] sims_run [OF catalog_db.sims_categories(2) [OF assms(1)] assms(2) m]
    by (metis snd_conv)
qed

text \<open>The parent of the second category is removed.\<close>

theorem chains_stay_finite_witness:
  "\<exists>cs. chain (snd (category_remove cat_ref 0 ''1'' sample)) 2 cs"
proof -
  have "chain sample 1 [\<lparr>cg_id = 1, cg_name = ''a'', cg_slug = ''a'', cg_parentId = None\<rparr>]"
    by (rule chain_root) (simp_all add: sample_lookup parent_id_def)
  moreover from this have "chain sample 2 [\<lparr>cg_id = 2, cg_name = ''b'', cg_slug = ''b'', cg_parentId = Some 1\<rparr>,
      \<lparr>cg_id = 1, cg_name = ''a'', cg_slug = ''a'', cg_parentId = None\<rparr>]"
    by (rule chain_child [rotated 2]) (simp_all add: sample_lookup parent_id_def)
  moreover have "chain sample i []" if "i \<noteq> 1" "i \<noteq> 2" for i
    by (rule chain_missing) (use that in \<open>simp add: q_category_def sample_def\<close>)
  ultimately have "\<exists>cs. chain sample i cs" for i by (cases "i = 1"; cases "i = 2") auto
  then have "chains_end sample" using sample_wf by (simp add: chains_end_def)
  from chains_stay_finite [OF ct.catalog_db_axioms sample_wf this] show ?thesis by (auto simp: chains_end_def)
qed

end
