(* ===== verification/Ftp.thy ===== *)
theory Ftp
  imports UploadWorld Paths
begin

text \<open>
  The FTP storage driver, \<open>core/upload/storage.ftp.ts\<close>, over the client of the package
  \<open>basic-ftp\<close>, which is not part of the repository. A call opens a connection of its own, and its
  state is that of the connection and the server. The locale \<open>ftp_client\<close> says what the client's
  methods do to the working directory, the directories and the files of the server, from the
  documentation of the package; the last section is a server that keeps them itself and interprets
  it. Other clients of the server do not move while a call runs.
\<close>

section \<open>The client\<close>

record FtpOptions =
  fo_host :: string
  fo_port :: int
  fo_user :: string
  fo_pass :: string
  fo_secure :: bool
  fo_publicRoot :: "string option"
  fo_timeoutMs :: "int option"
  fo_retries :: "int option"
  fo_disableEPSV :: "bool option"

text \<open>How a client is made and what it gives to \<open>access\<close>.\<close>

record ftp_access =
  fa_timeout :: int
  fa_noEPSV :: bool
  fa_host :: string
  fa_port :: int
  fa_user :: string
  fa_password :: string
  fa_secure :: bool
  fa_acceptAnyCertificate :: bool

text \<open>
  \<open>ft_uploadFrom\<close> reads the local file itself and gives back the bytes it reported while the
  progress was tracked, with the times. \<open>ft_wait\<close> is the passing of time.
\<close>

record 'c ftp_ops =
  ft_hasEPSV :: bool
  ft_access :: "ftp_access \<Rightarrow> ('c, unit) eff"
  ft_close :: "('c, unit) eff"
  ft_pwd :: "('c, string) eff"
  ft_cd :: "string \<Rightarrow> ('c, unit) eff"
  ft_ensureDir :: "string \<Rightarrow> ('c, unit) eff"
  ft_uploadFrom :: "temp_fs \<Rightarrow> string \<Rightarrow> string \<Rightarrow> 'c \<Rightarrow> (exn + unit) \<times> 'c \<times> (int \<times> int) list"
  ft_size :: "string \<Rightarrow> ('c, int) eff"
  ft_remove :: "string \<Rightarrow> ('c, unit) eff"
  ft_rename :: "string \<Rightarrow> string \<Rightarrow> ('c, unit) eff"
  ft_wait :: "int \<Rightarrow> ('c, unit) eff"

section \<open>The driver\<close>

definition makeClient :: "'c ftp_ops \<Rightarrow> FtpOptions \<Rightarrow> ftp_access" where
  "makeClient F opts = \<lparr>fa_timeout = orElse (fo_timeoutMs opts) 120000, fa_noEPSV = (fo_disableEPSV opts = Some True \<and> ft_hasEPSV F),
     fa_host = fo_host opts, fa_port = fo_port opts, fa_user = fo_user opts, fa_password = fo_pass opts, fa_secure = fo_secure opts,
     fa_acceptAnyCertificate = fo_secure opts\<rparr>"

definition withClient :: "'c ftp_ops \<Rightarrow> FtpOptions \<Rightarrow> ('c, 'a) eff \<Rightarrow> ('c, 'a) eff" where
  "withClient F opts work = finallyM (thenM (ft_access F (makeClient F opts)) work) (ft_close F)"

text \<open>The attempts from the \<open>i\<close>th, counted from zero, with \<open>left\<close> more after it.\<close>

fun ftp_attempts :: "'c ftp_ops \<Rightarrow> ('c, 'a) eff \<Rightarrow> nat \<Rightarrow> nat \<Rightarrow> ('c, 'a) eff" where
  "ftp_attempts F fn i 0 = fn"
| "ftp_attempts F fn i (Suc left) = catchM fn (\<lambda>e. thenM (ft_wait F (200 * (int i + 1))) (ftp_attempts F fn (Suc i) left))"

definition ftp_retry :: "'c ftp_ops \<Rightarrow> FtpOptions \<Rightarrow> ('c, 'a) eff \<Rightarrow> ('c, 'a) eff" where
  "ftp_retry F opts fn = ftp_attempts F fn 0 (nat (max 0 (orElse (fo_retries opts) 0)))"

definition fullRemotePath :: "FtpOptions \<Rightarrow> string \<Rightarrow> string" where
  "fullRemotePath opts relative =
     (let root = (case fo_publicRoot opts of None \<Rightarrow> [] | Some r \<Rightarrow> strip_trailing slash (strip_leading slash r));
          rel = strip_leading slash relative
      in if root \<noteq> [] then posix_join [root, rel] else rel)"

definition ftp_ensureDir :: "'c ftp_ops \<Rightarrow> FtpOptions \<Rightarrow> string \<Rightarrow> ('c, unit) eff" where
  "ftp_ensureDir F opts relativeDir = ftp_retry F opts (withClient F opts (ft_ensureDir F (fullRemotePath opts relativeDir)))"

text \<open>\<open>split('/').filter(Boolean)\<close>.\<close>

definition path_segments :: "string \<Rightarrow> string list" where
  "path_segments p = filter (\<lambda>s. s \<noteq> []) (split_on slash p)"

text \<open>The segments to walk: the first one is skipped when the connection begins in a directory of its name.\<close>

definition segments_to_walk :: "string \<Rightarrow> string \<Rightarrow> string list" where
  "segments_to_walk cwd parent =
     (let segments = path_segments parent; here = path_segments cwd
      in if segments \<noteq> [] \<and> here \<noteq> [] \<and> last here = hd segments then tl segments else segments)"

fun cd_steps :: "'c ftp_ops \<Rightarrow> string list \<Rightarrow> ('c, unit) eff" where
  "cd_steps F [] = retM ()"
| "cd_steps F (seg # segs) =
     thenM (catchM (ft_cd F seg) (\<lambda>e. thenM (ft_ensureDir F seg) (ft_cd F seg))) (cd_steps F segs)"

definition ftp_percent :: "int \<Rightarrow> int \<Rightarrow> int" where
  "ftp_percent tot sent = (if tot > 0 then min 100 (max 0 (js_round (of_int sent / of_int tot * 100))) else 0)"

text \<open>The work of an upload. The reports made so far are beside the state; the service reads their bytes.\<close>

definition put_file ::
  "'c ftp_ops \<Rightarrow> temp_fs \<Rightarrow> string \<Rightarrow> string \<Rightarrow> int \<Rightarrow> 'c \<times> storage_progress list \<Rightarrow> (exn + unit) \<times> 'c \<times> storage_progress list"
where
  "put_file F fs localPath base tot s =
     (case ft_uploadFrom F fs localPath base (fst s) of
        (x, c, rs) \<Rightarrow> (x, c, snd s @ map (\<lambda>(tm, bytes). \<lparr>sp_sentBytes = bytes, sp_totalBytes = Some tot, sp_at = tm\<rparr>) rs))"

definition onClient :: "('c, 'a) eff \<Rightarrow> ('c \<times> 'p, 'a) eff" where
  "onClient m s = (case m (fst s) of (x, c) \<Rightarrow> (x, c, snd s))"

text \<open>The driver's client with the reports beside the state.\<close>

definition reporting :: "'c ftp_ops \<Rightarrow> ('c \<times> 'p) ftp_ops" where
  "reporting F = \<lparr>ft_hasEPSV = ft_hasEPSV F, ft_access = (\<lambda>a. onClient (ft_access F a)), ft_close = onClient (ft_close F),
     ft_pwd = onClient (ft_pwd F), ft_cd = (\<lambda>p. onClient (ft_cd F p)), ft_ensureDir = (\<lambda>p. onClient (ft_ensureDir F p)),
     ft_uploadFrom = (\<lambda>fs lp b s. case ft_uploadFrom F fs lp b (fst s) of (x, c, rs) \<Rightarrow> (x, (c, snd s), rs)),
     ft_size = (\<lambda>p. onClient (ft_size F p)), ft_remove = (\<lambda>p. onClient (ft_remove F p)), ft_rename = (\<lambda>p q. onClient (ft_rename F p q)),
     ft_wait = (\<lambda>n. onClient (ft_wait F n))\<rparr>"

definition ftp_uploadFile ::
  "'c ftp_ops \<Rightarrow> FtpOptions \<Rightarrow> temp_fs \<Rightarrow> string \<Rightarrow> string \<Rightarrow> 'c \<Rightarrow> (exn + unit) \<times> 'c \<times> storage_progress list"
where
  "ftp_uploadFile F opts fs localPath remoteRelativePath c =
     (let remote = fullRemotePath opts remoteRelativePath;
          parent = posix_dirname remote;
          base = posix_basename remote;
          tot = (case fs_files fs localPath of None \<Rightarrow> 0 | Some content \<Rightarrow> int (length content));
          R = reporting F
      in ftp_retry R opts (withClient R opts
           (bindM (ft_pwd R) (\<lambda>cwd. thenM (cd_steps R (segments_to_walk cwd parent)) (put_file F fs localPath base tot)))) (c, []))"

definition ftp_exists :: "'c ftp_ops \<Rightarrow> FtpOptions \<Rightarrow> string \<Rightarrow> ('c, bool) eff" where
  "ftp_exists F opts p = ftp_retry F opts (withClient F opts
     (catchM (bindM (ft_size F (fullRemotePath opts p)) (\<lambda>_. retM True)) (\<lambda>_. retM False)))"

definition ftp_rename :: "'c ftp_ops \<Rightarrow> FtpOptions \<Rightarrow> string \<Rightarrow> string \<Rightarrow> ('c, unit) eff" where
  "ftp_rename F opts old new =
     (let src = fullRemotePath opts old; dst = fullRemotePath opts new; parent = posix_dirname dst
      in ftp_retry F opts (withClient F opts (thenM (ft_ensureDir F parent) (ft_rename F src dst))))"

text \<open>\<open>/no such file|not found|ENOENT|550/i\<close> on the message.\<close>

definition says_missing :: "exn \<Rightarrow> bool" where
  "says_missing e = (let m = js_lower (exn_message e) in
     js_includes m ''no such file'' \<or> js_includes m ''not found'' \<or> js_includes m ''enoent'' \<or> js_includes m ''550'')"

definition ftp_delete :: "'c ftp_ops \<Rightarrow> FtpOptions \<Rightarrow> string \<Rightarrow> ('c, unit) eff" where
  "ftp_delete F opts p = ftp_retry F opts (withClient F opts
     (catchM (ft_remove F (fullRemotePath opts p)) (\<lambda>e. if says_missing e then retM () else throwM e)))"

text \<open>The driver as the service sees it.\<close>

definition ftp_storage :: "'c ftp_ops \<Rightarrow> FtpOptions \<Rightarrow> 'c storage_ops" where
  "ftp_storage F opts = \<lparr>sd_ensureDir = Some (ftp_ensureDir F opts), sd_uploadFile = (\<lambda>now. ftp_uploadFile F opts), sd_delete = Some (ftp_delete F opts)\<rparr>"

section \<open>The contract of the client\<close>

text \<open>A path seen from a directory, as segments.\<close>

definition resolve :: "string list \<Rightarrow> string \<Rightarrow> string list" where
  "resolve d p = norm_segments True (if is_absolute p then split_on slash p else d @ split_on slash p)"

fun path_prefixes :: "'a list \<Rightarrow> 'a list list" where
  "path_prefixes [] = [[]]"
| "path_prefixes (x # xs) = [] # map ((#) x) (path_prefixes xs)"

lemma path_prefixes_iff: "d \<in> set (path_prefixes x) \<longleftrightarrow> (\<exists>e. x = d @ e)"
proof (induction x arbitrary: d)
  case (Cons a x)
  show ?case by (cases d) (auto simp: Cons.IH image_iff)
qed simp

text \<open>
  \<open>home\<close> is the directory of a new connection. \<open>ensureDir\<close> makes what is missing on the way
  and, as the package documents, leaves the connection in the directory it was given. A method that
  throws may have done a part of its work, but not elsewhere.
\<close>

locale ftp_client =
  fixes F :: "'c ftp_ops" and home :: "string list"
    and cwd :: "'c \<Rightarrow> string list" and dirs :: "'c \<Rightarrow> string list \<Rightarrow> bool" and files :: "'c \<Rightarrow> string list \<Rightarrow> byte list option"
  assumes access_ok: "ft_access F a c = (Inr u, c') \<Longrightarrow> cwd c' = home \<and> dirs c' = dirs c \<and> files c' = files c"
    and access_fails: "ft_access F a c = (Inl e, c') \<Longrightarrow> dirs c' = dirs c \<and> files c' = files c"
    and close_ok: "ft_close F c = (x, c') \<Longrightarrow> x = Inr () \<and> dirs c' = dirs c \<and> files c' = files c"
    and pwd_same: "ft_pwd F c = (rp, c') \<Longrightarrow> cwd c' = cwd c \<and> dirs c' = dirs c \<and> files c' = files c"
    and pwd_says: "ft_pwd F c = (Inr p, c') \<Longrightarrow> p = slash # join_with [slash] (cwd c)"
    and parents: "dirs c (d @ [s]) \<Longrightarrow> dirs c d"
    and cd_same: "ft_cd F p c = (x, c') \<Longrightarrow> dirs c' = dirs c \<and> files c' = files c"
    and cd_ok: "ft_cd F p c = (Inr u, c') \<Longrightarrow> dirs c (resolve (cwd c) p) \<and> cwd c' = resolve (cwd c) p"
    and cd_fails: "ft_cd F p c = (Inl e, c') \<Longrightarrow> cwd c' = cwd c \<and> \<not> dirs c (resolve (cwd c) p)"
    and ensure_ok: "ft_ensureDir F p c = (Inr u, c') \<Longrightarrow> cwd c' = resolve (cwd c) p \<and>
      (\<forall>d. dirs c' d \<longleftrightarrow> dirs c d \<or> d \<in> set (path_prefixes (resolve (cwd c) p)))"
    and ensure_same: "ft_ensureDir F p c = (x, c') \<Longrightarrow> files c' = files c"
    and upload_ok: "ft_uploadFrom F fs lp b c = (Inr u, c', reps) \<Longrightarrow>
      \<exists>content. fs_files fs lp = Some content \<and> files c' = (files c)(resolve (cwd c) b \<mapsto> content)"
    and upload_elsewhere: "ft_uploadFrom F fs lp b c = (x, c', reps) \<Longrightarrow> q \<noteq> resolve (cwd c) b \<Longrightarrow> files c' q = files c q"
    and size_same: "ft_size F p c = (rs, c') \<Longrightarrow> files c' = files c"
    and size_ok: "ft_size F p c = (Inr n, c') \<Longrightarrow> files c (resolve (cwd c) p) \<noteq> None"
    and remove_ok: "ft_remove F p c = (Inr u, c') \<Longrightarrow> files c' = (files c)(resolve (cwd c) p := None)"
    and remove_fails: "ft_remove F p c = (Inl e, c') \<Longrightarrow> files c' = files c"

section \<open>A server\<close>

record ftp_server =
  sv_cwd :: "string list"
  sv_dirs :: "string list list"
  sv_files :: "string list \<Rightarrow> byte list option"

definition ftp_550 :: exn where
  "ftp_550 = JsError ''550 No such file or directory.''"

definition ftp_ref :: "string list \<Rightarrow> ftp_server ftp_ops" where
  "ftp_ref home = \<lparr>ft_hasEPSV = True,
     ft_access = (\<lambda>a c. (Inr (), c\<lparr>sv_cwd := home\<rparr>)),
     ft_close = (\<lambda>c. (Inr (), c)),
     ft_pwd = (\<lambda>c. (Inr (slash # join_with [slash] (sv_cwd c)), c)),
     ft_cd = (\<lambda>p c. let d = resolve (sv_cwd c) p in
       if \<exists>x \<in> set (sv_dirs c). d \<in> set (path_prefixes x) then (Inr (), c\<lparr>sv_cwd := d\<rparr>) else (Inl ftp_550, c)),
     ft_ensureDir = (\<lambda>p c. let d = resolve (sv_cwd c) p in (Inr (), c\<lparr>sv_cwd := d, sv_dirs := d # sv_dirs c\<rparr>)),
     ft_uploadFrom = (\<lambda>fs lp b c. case fs_files fs lp of
         None \<Rightarrow> (Inl (JsError ''ENOENT''), c, [])
       | Some content \<Rightarrow> (Inr (), c\<lparr>sv_files := (sv_files c)(resolve (sv_cwd c) b \<mapsto> content)\<rparr>, [(0, int (length content))])),
     ft_size = (\<lambda>p c. case sv_files c (resolve (sv_cwd c) p) of None \<Rightarrow> (Inl ftp_550, c) | Some b \<Rightarrow> (Inr (int (length b)), c)),
     ft_remove = (\<lambda>p c. case sv_files c (resolve (sv_cwd c) p) of
         None \<Rightarrow> (Inl ftp_550, c) | Some b \<Rightarrow> (Inr (), c\<lparr>sv_files := (sv_files c)(resolve (sv_cwd c) p := None)\<rparr>)),
     ft_rename = (\<lambda>p q c. case sv_files c (resolve (sv_cwd c) p) of
         None \<Rightarrow> (Inl ftp_550, c)
       | Some b \<Rightarrow> (Inr (), c\<lparr>sv_files := ((sv_files c)(resolve (sv_cwd c) p := None))(resolve (sv_cwd c) q \<mapsto> b)\<rparr>)),
     ft_wait = (\<lambda>n c. (Inr (), c))\<rparr>"

definition ref_dirs :: "ftp_server \<Rightarrow> string list \<Rightarrow> bool" where
  "ref_dirs c d \<longleftrightarrow> (\<exists>x \<in> set (sv_dirs c). d \<in> set (path_prefixes x))"

interpretation fs: ftp_client "ftp_ref home" home sv_cwd ref_dirs sv_files
  by unfold_locales
    (auto simp: ftp_ref_def ref_dirs_def Let_def path_prefixes_iff split: if_splits option.splits)

end
