(* ===== verification/FtpProps.thy ===== *)
theory FtpProps
  imports Ftp UploadSafety
begin

text \<open>
  Where the FTP driver puts a file, and where it looks for one. The two places are the same unless
  a connection begins in a directory with the name of the first directory of the public root.
\<close>

section \<open>Paths of safe segments\<close>

lemma norm_safe: "list_all safe_segment xs \<Longrightarrow> norm_segments ab xs = xs"
proof -
  assume "list_all safe_segment xs"
  then have "fold (norm_step ab) xs acc = rev xs @ acc" for acc
    by (induction xs arbitrary: acc) (auto simp: norm_step_def safe_segment_def)
  then show ?thesis by (simp add: norm_segments_def)
qed

lemma safe_join:
  assumes "list_all safe_segment xs" and "xs \<noteq> []"
  shows "join_with [slash] xs \<noteq> []" "hd (join_with [slash] xs) \<noteq> slash" "last (join_with [slash] xs) \<noteq> slash"
    "split_on slash (join_with [slash] xs) = xs"
proof -
  have s: "x \<noteq> [] \<and> slash \<notin> set x" if "x \<in> set xs" for x using assms(1) that by (auto simp: list_all_iff safe_segment_def)
  show n: "join_with [slash] xs \<noteq> []" using join_nonempty [of "hd xs" xs] s assms(2) by simp
  show "split_on slash (join_with [slash] xs) = xs" using split_join [OF assms(2), of slash] s by blast
  obtain x ys where x: "xs = x # ys" using assms(2) by (cases xs) auto
  have "hd (join_with [slash] xs) = hd x" using s [of x] x by (cases ys) (auto simp: hd_append)
  moreover have "hd x \<noteq> slash" using s [of x] x by (cases x) auto
  ultimately show "hd (join_with [slash] xs) \<noteq> slash" by simp
  obtain z zs where z: "xs = zs @ [z]" using assms(2) by (cases xs rule: rev_cases) auto
  have "last (join_with [slash] xs) = last z"
    using s [of z] z join_append [of zs "[z]" "[slash]"] by (cases "zs = []") auto
  moreover have "last z \<noteq> slash" using s [of z] z by (cases z rule: rev_cases) auto
  ultimately show "last (join_with [slash] xs) \<noteq> slash" by simp
qed

lemma strip_safe:
  assumes "s \<noteq> []" and "hd s \<noteq> slash" and "last s \<noteq> slash"
  shows "strip_leading slash s = s" "strip_trailing slash s = s"
proof -
  show "strip_leading slash s = s" using assms by (cases s) (auto simp: strip_leading_def)
  show "strip_trailing slash s = s" using assms by (cases s rule: rev_cases) (auto simp: strip_trailing_def)
qed

lemma strip_join:
  assumes "list_all safe_segment xs" and "xs \<noteq> []"
  shows "strip_leading slash (join_with [slash] xs) = join_with [slash] xs" "strip_trailing slash (join_with [slash] xs) = join_with [slash] xs"
  using strip_safe [OF safe_join(1-3) [OF assms]] by simp_all

lemma join_two:
  assumes "list_all safe_segment xs" "xs \<noteq> []" "list_all safe_segment ys" "ys \<noteq> []"
  shows "posix_join [join_with [slash] xs, join_with [slash] ys] = join_with [slash] (xs @ ys)"
proof -
  have "join_with [slash] [join_with [slash] xs, join_with [slash] ys] = join_with [slash] (xs @ ys)"
    using join_append [OF assms(2, 4), of "[slash]"] by simp
  moreover have j: "list_all safe_segment (xs @ ys)" "xs @ ys \<noteq> []" using assms by auto
  ultimately show ?thesis using assms safe_join [OF j] safe_join(1) [OF assms(1, 2)] safe_join(1) [OF assms(3, 4)]
    by (auto simp: posix_join_def Let_def posix_normalize_def is_absolute_def norm_safe)
qed

lemma resolve_safe:
  assumes "list_all safe_segment d" "list_all safe_segment xs" "xs \<noteq> []"
  shows "resolve d (join_with [slash] xs) = d @ xs"
  using assms safe_join [OF assms(2, 3)] by (simp add: resolve_def is_absolute_def norm_safe)

lemma resolve_segment: "list_all safe_segment d \<Longrightarrow> safe_segment s \<Longrightarrow> resolve d s = d @ [s]"
  using resolve_safe [of d "[s]"] by simp

lemma base_and_parent:
  assumes "list_all safe_segment (xs @ [x])"
  shows "posix_basename (join_with [slash] (xs @ [x])) = x" "xs \<noteq> [] \<Longrightarrow> posix_dirname (join_with [slash] (xs @ [x])) = join_with [slash] xs"
proof -
  let ?p = "join_with [slash] (xs @ [x])"
  have st: "strip_trailing slash ?p = ?p" using strip_join(2) [OF assms] by simp
  have x: "slash \<notin> set x" using assms by (simp add: safe_segment_def)
  have ls: "last_slash ?p = (if xs = [] then None else Some (join_with [slash] xs, x))"
  proof (cases "xs = []")
    case False
    then have "rev ?p = rev x @ slash # rev (join_with [slash] xs)" using join_append [of xs "[x]" "[slash]"] by simp
    then show ?thesis using x False join_append [of xs "[x]" "[slash]"] by (auto simp: last_slash_def dropWhile_append takeWhile_append)
  qed (use x in \<open>simp add: last_slash_def\<close>)
  show "posix_basename ?p = x" using st ls by (auto simp: posix_basename_def Let_def)
  assume "xs \<noteq> []"
  moreover from this have "join_with [slash] xs \<noteq> []" "strip_trailing slash (join_with [slash] xs) = join_with [slash] xs"
    using assms safe_join(1) [of xs] strip_join(2) [of xs] by auto
  ultimately show "posix_dirname ?p = join_with [slash] xs"
    using st ls safe_join(1) [OF assms] by (simp add: posix_dirname_def Let_def)
qed

lemma segments_safe:
  assumes "list_all safe_segment xs"
  shows "xs \<noteq> [] \<Longrightarrow> path_segments (join_with [slash] xs) = xs" "path_segments (slash # join_with [slash] xs) = xs"
proof -
  have f: "filter (\<lambda>s. s \<noteq> []) xs = xs" using assms by (intro filter_True) (auto simp: list_all_iff safe_segment_def)
  then show "xs \<noteq> [] \<Longrightarrow> path_segments (join_with [slash] xs) = xs" using safe_join(4) [OF assms] by (simp add: path_segments_def)
  have "xs \<noteq> [] \<Longrightarrow> split_on slash (slash # join_with [slash] xs) = [] # xs" using safe_join(4) [OF assms] by simp
  then show "path_segments (slash # join_with [slash] xs) = xs" using f by (cases "xs = []") (simp_all add: path_segments_def)
qed

text \<open>The options of a deployment: a public root of safe segments, and no retries configured.\<close>

definition ftp_root :: "FtpOptions \<Rightarrow> string list \<Rightarrow> bool" where
  "ftp_root opts pub \<longleftrightarrow> fo_publicRoot opts = Some (join_with [slash] pub) \<and> list_all safe_segment pub \<and> pub \<noteq> [] \<and> fo_retries opts = None"

lemma full_path:
  assumes "ftp_root opts pub" and "list_all safe_segment segs" and "segs \<noteq> []"
  shows "fullRemotePath opts (join_with [slash] segs) = join_with [slash] (pub @ segs)"
  using assms strip_join [of pub] strip_join(1) [OF assms(2, 3)] safe_join(1) [of pub] join_two [of pub segs]
  by (simp add: fullRemotePath_def Let_def ftp_root_def)

section \<open>A call of the driver\<close>

lemma no_retry: "ftp_root opts pub \<Longrightarrow> ftp_retry F opts fn = fn"
  by (simp add: ftp_retry_def ftp_root_def)

context ftp_client
begin

lemma with_client:
  assumes "withClient F opts work c = (r, c')"
  shows "(files c' = files c \<and> dirs c' = dirs c \<and> (\<exists>e. r = Inl e)) \<or>
    (\<exists>c1 c2. cwd c1 = home \<and> dirs c1 = dirs c \<and> files c1 = files c \<and> work c1 = (r, c2) \<and> files c' = files c2 \<and> dirs c' = dirs c2)"
proof -
  obtain x c1 where a: "ft_access F (makeClient F opts) c = (x, c1)" by (cases "ft_access F (makeClient F opts) c")
  show ?thesis
  proof (cases x)
    case (Inl e)
    obtain y c2 where "ft_close F c1 = (y, c2)" by (cases "ft_close F c1")
    then show ?thesis using assms a Inl access_fails [of _ c e c1] close_ok [of c1 y c2]
      by (auto simp: withClient_def finallyM_def thenM_def bindM_def)
  next
    case (Inr u)
    obtain s c2 where w: "work c1 = (s, c2)" by (cases "work c1")
    obtain y c3 where "ft_close F c2 = (y, c3)" by (cases "ft_close F c2")
    then have "r = s" "files c' = files c2" "dirs c' = dirs c2"
      using assms a Inr w close_ok [of c2 y c3] by (auto simp: withClient_def finallyM_def thenM_def bindM_def)
    then show ?thesis using access_ok [of _ c u c1] a Inr w by blast
  qed
qed

text \<open>The walk succeeds only along directories that are there: making one on the way ends in an error.\<close>

lemma cd_steps_ok:
  assumes "cd_steps F segs c = (Inr u, c')" and "list_all safe_segment (cwd c @ segs)"
  shows "cwd c' = cwd c @ segs \<and> files c' = files c \<and> dirs c' = dirs c \<and> (\<forall>ys zs. segs = ys @ zs \<longrightarrow> ys \<noteq> [] \<longrightarrow> dirs c (cwd c @ ys))"
  using assms
proof (induction segs arbitrary: c)
  case (Cons s segs)
  have r: "resolve (cwd c) s = cwd c @ [s]" using Cons.prems(2) by (simp add: resolve_segment)
  obtain x c1 where x: "ft_cd F s c = (x, c1)" by (cases "ft_cd F s c")
  obtain v c2 where v: "catchM (ft_cd F s) (\<lambda>e. thenM (ft_ensureDir F s) (ft_cd F s)) c = (Inr v, c2)" "cd_steps F segs c2 = (Inr u, c')"
    using Cons.prems(1) by (auto simp: thenM_def bindM_def split: prod.splits sum.splits)
  have step: "cwd c2 = cwd c @ [s] \<and> files c2 = files c \<and> dirs c2 = dirs c \<and> dirs c (cwd c @ [s])"
  proof (cases x)
    case (Inr w)
    then show ?thesis using v(1) x cd_ok [of s c w c1] cd_same [of s c x c1] r by (simp add: catchM_def)
  next
    case (Inl e)
    then have n: "\<not> dirs c (cwd c @ [s])" "cwd c1 = cwd c" "dirs c1 = dirs c"
      using x cd_fails [of s c e c1] cd_same [of s c x c1] r by simp_all
    obtain w c3 where e: "ft_ensureDir F s c1 = (Inr w, c3)" and cd: "ft_cd F s c3 = (Inr v, c2)"
      using v(1) x Inl by (auto simp: catchM_def thenM_def bindM_def split: prod.splits sum.splits)
    have "cwd c3 = cwd c @ [s]" using ensure_ok [OF e] n(2) r by simp
    moreover have "resolve (cwd c @ [s]) s = (cwd c @ [s]) @ [s]" using Cons.prems(2) by (intro resolve_segment) simp_all
    ultimately have "dirs c3 ((cwd c @ [s]) @ [s])" using cd_ok [OF cd] by simp
    then have "dirs c ((cwd c @ [s]) @ [s])" using ensure_ok [OF e] n r by (auto simp: path_prefixes_iff)
    then have False using parents n(1) by blast
    then show ?thesis ..
  qed
  then have "list_all safe_segment (cwd c2 @ segs)" using Cons.prems(2) by simp
  from Cons.IH [OF v(2) this] step have ih: "cwd c' = cwd c @ s # segs" "files c' = files c" "dirs c' = dirs c"
    "\<And>ys zs. segs = ys @ zs \<Longrightarrow> ys \<noteq> [] \<Longrightarrow> dirs c ((cwd c @ [s]) @ ys)" by auto
  have "dirs c (cwd c @ ys)" if y: "s # segs = ys @ zs" "ys \<noteq> []" for ys zs
  proof -
    obtain ys' where "ys = s # ys'" "segs = ys' @ zs" using y by (cases ys) auto
    then show ?thesis using ih(4) [of ys' zs] step by (cases "ys' = []") auto
  qed
  with ih show ?case by blast
qed (simp add: retM_def)

lemma cd_steps_files: "cd_steps F segs c = (x, c') \<Longrightarrow> files c' = files c"
proof (induction segs arbitrary: c)
  case (Cons s segs)
  obtain v c2 where v: "catchM (ft_cd F s) (\<lambda>e. thenM (ft_ensureDir F s) (ft_cd F s)) c = (v, c2)"
    by (cases "catchM (ft_cd F s) (\<lambda>e. thenM (ft_ensureDir F s) (ft_cd F s)) c")
  then have "files c2 = files c"
    by (auto simp: catchM_def thenM_def bindM_def split: prod.splits sum.splits dest!: cd_same ensure_same)
  then show ?case using Cons v by (cases v) (auto simp: thenM_def bindM_def)
qed (simp add: retM_def)

text \<open>The client with the reports beside it keeps the contract.\<close>

lemma reporting_contract:
  "ftp_client (reporting F) home (\<lambda>s. cwd (fst s)) (\<lambda>s. dirs (fst s)) (\<lambda>s. files (fst s))"
proof (unfold_locales, goal_cases)
  case 1 then show ?case by (auto simp: reporting_def onClient_def split: prod.splits dest: access_ok)
next
  case 2 then show ?case by (auto simp: reporting_def onClient_def split: prod.splits dest: access_fails)
next
  case 3 then show ?case by (auto simp: reporting_def onClient_def split: prod.splits dest: close_ok)
next
  case 4 then show ?case by (auto simp: reporting_def onClient_def split: prod.splits dest: pwd_same)
next
  case 5 then show ?case by (auto simp: reporting_def onClient_def split: prod.splits dest: pwd_says)
next
  case 6 then show ?case by (auto dest: parents)
next
  case 7 then show ?case by (auto simp: reporting_def onClient_def split: prod.splits dest: cd_same)
next
  case 8 then show ?case by (auto simp: reporting_def onClient_def split: prod.splits dest: cd_ok)
next
  case 9 then show ?case by (auto simp: reporting_def onClient_def split: prod.splits dest: cd_fails)
next
  case 10 then show ?case by (auto simp: reporting_def onClient_def split: prod.splits dest: ensure_ok)
next
  case 11 then show ?case by (auto simp: reporting_def onClient_def split: prod.splits dest: ensure_same)
next
  case 12 then show ?case by (auto simp: reporting_def split: prod.splits dest: upload_ok)
next
  case 13 then show ?case by (auto simp: reporting_def split: prod.splits dest: upload_elsewhere)
next
  case 14 then show ?case by (auto simp: reporting_def onClient_def split: prod.splits dest: size_same)
next
  case 15 then show ?case by (auto simp: reporting_def onClient_def split: prod.splits dest: size_ok)
next
  case 16 then show ?case by (auto simp: reporting_def onClient_def split: prod.splits dest: remove_ok)
next
  case 17 then show ?case by (auto simp: reporting_def onClient_def split: prod.splits dest: remove_fails)
qed

end

text \<open>The directory a file is put into.\<close>

definition put_dir :: "string list \<Rightarrow> string list \<Rightarrow> string list" where
  "put_dir home parent = home @ (if home \<noteq> [] \<and> last home = hd parent then tl parent else parent)"

lemma walk_dir:
  assumes "list_all safe_segment (home @ parent)" and "parent \<noteq> []"
  shows "home @ segments_to_walk (slash # join_with [slash] home) (join_with [slash] parent) = put_dir home parent"
  using assms segments_safe(2) [of home] segments_safe(1) [of parent]
  by (simp add: segments_to_walk_def put_dir_def Let_def)

lemma put_dir_safe: "list_all safe_segment (home @ parent) \<Longrightarrow> list_all safe_segment (put_dir home parent)"
  by (cases parent) (auto simp: put_dir_def)

text \<open>The places of a path, in the driver's own terms.\<close>

lemma remote_parts:
  assumes "ftp_root opts pub" and "list_all safe_segment (segs @ [name])"
  shows "fullRemotePath opts (join_with [slash] (segs @ [name])) = join_with [slash] (pub @ segs @ [name])"
    "posix_dirname (join_with [slash] (pub @ segs @ [name])) = join_with [slash] (pub @ segs)"
    "posix_basename (join_with [slash] (pub @ segs @ [name])) = name"
proof -
  have r: "pub \<noteq> []" "list_all safe_segment ((pub @ segs) @ [name])" using assms by (auto simp: ftp_root_def)
  show "fullRemotePath opts (join_with [slash] (segs @ [name])) = join_with [slash] (pub @ segs @ [name])"
    using full_path [OF assms] by simp
  show "posix_dirname (join_with [slash] (pub @ segs @ [name])) = join_with [slash] (pub @ segs)"
    "posix_basename (join_with [slash] (pub @ segs @ [name])) = name"
    using base_and_parent [OF r(2)] r(1) by simp_all
qed

lemma upload_result:
  assumes C: "ftp_client F home cwd dirs files" and root: "ftp_root opts pub"
    and safe: "list_all safe_segment (home @ segs @ [name])"
    and up: "ftp_uploadFile F opts fs lp (join_with [slash] (segs @ [name])) c = (Inr u, c', ps)"
  shows "(\<exists>content. fs_files fs lp = Some content \<and> files c' = (files c)(put_dir home (pub @ segs) @ [name] \<mapsto> content)) \<and>
    (\<forall>ys zs. put_dir home (pub @ segs) = home @ ys @ zs \<longrightarrow> ys \<noteq> [] \<longrightarrow> dirs c (home @ ys))"
proof -
  let ?R = "reporting F" and ?parent = "join_with [slash] (pub @ segs)"
  note RC = ftp_client.reporting_contract [OF C]
  have r: "pub @ segs \<noteq> []" "list_all safe_segment (home @ pub @ segs)" using root safe by (auto simp: ftp_root_def)
  obtain tot where "withClient ?R opts (bindM (ft_pwd ?R) (\<lambda>d. thenM (cd_steps ?R (segments_to_walk d ?parent)) (put_file F fs lp name tot))) (c, []) =
      (Inr u, c', ps)"
    using up remote_parts [OF root, of segs name] safe by (auto simp: ftp_uploadFile_def Let_def no_retry [OF root])
  from ftp_client.with_client [OF RC this] obtain c1 c2 where c1: "cwd (fst c1) = home" "dirs (fst c1) = dirs c" "files (fst c1) = files c"
    and w: "bindM (ft_pwd ?R) (\<lambda>d. thenM (cd_steps ?R (segments_to_walk d ?parent)) (put_file F fs lp name tot)) c1 = (Inr u, c2)"
    and c2: "files c' = files (fst c2)" by auto
  obtain p c3 where p: "ft_pwd ?R c1 = (Inr p, c3)" "thenM (cd_steps ?R (segments_to_walk p ?parent)) (put_file F fs lp name tot) c3 = (Inr u, c2)"
    using w by (rule bindM_InrE)
  have c3: "cwd (fst c3) = home" "dirs (fst c3) = dirs c" "files (fst c3) = files c" "p = slash # join_with [slash] home"
    using ftp_client.pwd_same [OF RC p(1)] ftp_client.pwd_says [OF RC p(1)] c1 by simp_all
  obtain v c4 where c4: "cd_steps ?R (segments_to_walk p ?parent) c3 = (Inr v, c4)" "put_file F fs lp name tot c4 = (Inr u, c2)"
    using p(2) unfolding thenM_def by (rule bindM_InrE)
  have d: "home @ segments_to_walk p ?parent = put_dir home (pub @ segs)" using walk_dir [OF r(2, 1)] c3(4) by simp
  then have "list_all safe_segment (cwd (fst c3) @ segments_to_walk p ?parent)" using put_dir_safe [OF r(2)] c3(1) by simp
  from ftp_client.cd_steps_ok [OF RC c4(1) this] c3 d
  have c4': "cwd (fst c4) = put_dir home (pub @ segs)" "files (fst c4) = files c"
    "\<And>ys zs. segments_to_walk p ?parent = ys @ zs \<Longrightarrow> ys \<noteq> [] \<Longrightarrow> dirs c (home @ ys)" by auto
  obtain rs where "ft_uploadFrom F fs lp name (fst c4) = (Inr u, fst c2, rs)"
    using c4(2) by (auto simp: put_file_def split: prod.splits)
  from ftp_client.upload_ok [OF C this] obtain content where "fs_files fs lp = Some content"
    "files (fst c2) = (files (fst c4))(resolve (cwd (fst c4)) name \<mapsto> content)" by blast
  moreover have "resolve (put_dir home (pub @ segs)) name = put_dir home (pub @ segs) @ [name]"
    using put_dir_safe [OF r(2)] safe by (intro resolve_segment) simp_all
  ultimately show ?thesis using c2 c4' d by auto
qed

text \<open>The two questions the driver asks of a path, and where it asks them.\<close>

lemma exists_result:
  assumes C: "ftp_client F home cwd dirs files" and root: "ftp_root opts pub"
    and safe: "list_all safe_segment (home @ segs @ [name])"
    and ex: "ftp_exists F opts (join_with [slash] (segs @ [name])) c = (Inr b, c')"
  shows "files c' = files c \<and> (b \<longrightarrow> files c (home @ pub @ segs @ [name]) \<noteq> None)"
proof -
  have r: "resolve home (join_with [slash] (pub @ segs @ [name])) = home @ pub @ segs @ [name]"
    using root safe by (intro resolve_safe) (auto simp: ftp_root_def)
  have "withClient F opts (catchM (bindM (ft_size F (join_with [slash] (pub @ segs @ [name]))) (\<lambda>_. retM True)) (\<lambda>_. retM False)) c = (Inr b, c')"
    using ex remote_parts(1) [OF root, of segs name] safe by (simp add: ftp_exists_def no_retry [OF root])
  from ftp_client.with_client [OF C this] obtain c1 c2 where c1: "cwd c1 = home" "files c1 = files c" "files c' = files c2"
    and w: "catchM (bindM (ft_size F (join_with [slash] (pub @ segs @ [name]))) (\<lambda>_. retM True)) (\<lambda>_. retM False) c1 = (Inr b, c2)" by auto
  obtain x c3 where x: "ft_size F (join_with [slash] (pub @ segs @ [name])) c1 = (x, c3)"
    by (cases "ft_size F (join_with [slash] (pub @ segs @ [name])) c1")
  show ?thesis using w x c1 r ftp_client.size_same [OF C x] ftp_client.size_ok [OF C, of "join_with [slash] (pub @ segs @ [name])" c1]
    by (cases x) (auto simp: catchM_def bindM_def retM_def)
qed

text \<open>The server says 550 for a file that is not there only. It may be said of one that must not be deleted as well.\<close>

definition honest_errors :: "'c ftp_ops \<Rightarrow> ('c \<Rightarrow> string list) \<Rightarrow> ('c \<Rightarrow> string list \<Rightarrow> byte list option) \<Rightarrow> bool" where
  "honest_errors F cwd files \<longleftrightarrow>
     (\<forall>p c e c'. ft_remove F p c = (Inl e, c') \<longrightarrow> says_missing e \<longrightarrow> files c (resolve (cwd c) p) = None)"

lemma honest_errorsD:
  "honest_errors F cwd files \<Longrightarrow> ft_remove F p c = (Inl e, c') \<Longrightarrow> says_missing e \<Longrightarrow> files c (resolve (cwd c) p) = None"
  by (auto simp: honest_errors_def)

lemma delete_result:
  assumes C: "ftp_client F home cwd dirs files" and root: "ftp_root opts pub"
    and safe: "list_all safe_segment (home @ segs @ [name])"
    and del: "ftp_delete F opts (join_with [slash] (segs @ [name])) c = (x, c')"
  shows "(x = Inr () \<and> files c' = (files c)(home @ pub @ segs @ [name] := None)) \<or>
    (files c' = files c \<and> (x = Inr () \<longrightarrow> honest_errors F cwd files \<longrightarrow> files c (home @ pub @ segs @ [name]) = None))"
proof -
  let ?p = "join_with [slash] (pub @ segs @ [name])"
  have r: "resolve home ?p = home @ pub @ segs @ [name]" using root safe by (intro resolve_safe) (auto simp: ftp_root_def)
  let ?m = "catchM (ft_remove F ?p) (\<lambda>e. if says_missing e then retM () else throwM e)"
  have "withClient F opts ?m c = (x, c')"
    using del remote_parts(1) [OF root, of segs name] safe by (simp add: ftp_delete_def no_retry [OF root])
  from ftp_client.with_client [OF C this] show ?thesis
  proof
    assume "\<exists>c1 c2. cwd c1 = home \<and> dirs c1 = dirs c \<and> files c1 = files c \<and> ?m c1 = (x, c2) \<and> files c' = files c2 \<and> dirs c' = dirs c2"
    then obtain c1 c2 where c1: "cwd c1 = home" "files c1 = files c" "files c' = files c2" and w: "?m c1 = (x, c2)" by blast
    obtain y c3 where y: "ft_remove F ?p c1 = (y, c3)" by (cases "ft_remove F ?p c1")
    show ?thesis using w y c1 r ftp_client.remove_ok [OF C, of ?p c1] ftp_client.remove_fails [OF C, of ?p c1]
      honest_errorsD [of F cwd files ?p c1]
      by (cases y) (auto simp: catchM_def retM_def throwM_def split: if_splits)
  qed auto
qed

section \<open>Properties\<close>

definition host :: FtpOptions where
  "host = \<lparr>fo_host = ''h'', fo_port = 21, fo_user = ''u'', fo_pass = ''p'', fo_secure = False, fo_publicRoot = Some ''w'',
     fo_timeoutMs = None, fo_retries = None, fo_disableEPSV = None\<rparr>"

definition one_file :: temp_fs where
  "one_file = \<lparr>fs_files = [''t'' \<mapsto> [7]], fs_denied = (\<lambda>p. False)\<rparr>"

definition server :: "string list list \<Rightarrow> ftp_server" where
  "server ds = \<lparr>sv_cwd = [], sv_dirs = ds, sv_files = Map.empty\<rparr>"

lemma host_root: "ftp_root host [''w'']"
  by (simp add: ftp_root_def host_def safe_segment_def slash_def)


lemma ref_delete: "fst (ftp_delete (ftp_ref home) host p c) = Inr ()"
proof -
  have "says_missing ftp_550" by code_simp
  then show ?thesis
    by (simp add: ftp_delete_def ftp_retry_def host_def withClient_def ftp_ref_def exec split: option.split)
qed

lemma put_at_home: "fst (ftp_uploadFile (ftp_ref [''w'']) host one_file ''t'' ''d/a'' (server [[''w'', ''d'']])) = Inr ()"
  by code_simp



text \<open>
  When a connection begins in the first directory of the public root, as accounts of shared
  hosting do, uploads go below that directory, but deletions and the question whether a file exists
  look one directory further down: the uploaded file survives a successful deletion, and where the
  driver looks for it nothing has changed.
\<close>

theorem ftp_home_confused:
  assumes "ftp_client F home cwd dirs files" and "ftp_root opts pub" and "list_all safe_segment (home @ segs @ [name])"
    and "home \<noteq> []" and "last home = hd pub"
    and "ftp_uploadFile F opts fs lp (join_with [slash] (segs @ [name])) c = (Inr u, c', ps)"
    and "ftp_delete F opts (join_with [slash] (segs @ [name])) c' = (Inr (), c'')"
  shows "\<exists>content. fs_files fs lp = Some content \<and> files c'' (home @ tl pub @ segs @ [name]) = Some content \<and>
    files c' (home @ pub @ segs @ [name]) = files c (home @ pub @ segs @ [name])"
proof -
  obtain p ps where pub: "pub = p # ps" using assms(2) by (cases pub) (auto simp: ftp_root_def)
  then have "put_dir home (pub @ segs) = home @ tl pub @ segs" using assms(4, 5) by (simp add: put_dir_def)
  then obtain content where c: "fs_files fs lp = Some content" "files c' = (files c)(home @ tl pub @ segs @ [name] \<mapsto> content)"
    using upload_result [OF assms(1-3, 6)] by auto
  have n: "length (home @ tl pub @ segs @ [name]) \<noteq> length (home @ pub @ segs @ [name])" by (simp add: pub)
  then have "home @ tl pub @ segs @ [name] \<noteq> home @ pub @ segs @ [name]" by metis
  then show ?thesis using c delete_result [OF assms(1-3, 7)] by fastforce
qed

theorem ftp_home_confused_witness:
  "\<exists>c' ps c''. ftp_uploadFile (ftp_ref [''w'']) host one_file ''t'' (join_with [slash] ([''d''] @ [''a''])) (server [[''w'', ''d'']]) = (Inr (), c', ps) \<and>
     ftp_delete (ftp_ref [''w'']) host (join_with [slash] ([''d''] @ [''a''])) c' = (Inr (), c'') \<and> sv_files c'' [''w'', ''d'', ''a''] = Some [7]"
proof -
  obtain c' ps where u: "ftp_uploadFile (ftp_ref [''w'']) host one_file ''t'' (join_with [slash] ([''d''] @ [''a''])) (server [[''w'', ''d'']]) = (Inr (), c', ps)"
    using put_at_home by (cases "ftp_uploadFile (ftp_ref [''w'']) host one_file ''t'' ''d/a'' (server [[''w'', ''d'']])") (auto simp: slash_def)
  have s: "list_all safe_segment ([''w''] @ [''d''] @ [''a''])" by (simp add: safe_segment_def slash_def)
  have "fst (ftp_delete (ftp_ref [''w'']) host (join_with [slash] ([''d''] @ [''a''])) c') = Inr ()" by (rule ref_delete)
  then obtain c'' where d: "ftp_delete (ftp_ref [''w'']) host (join_with [slash] ([''d''] @ [''a''])) c' = (Inr (), c'')"
    by (cases "ftp_delete (ftp_ref [''w'']) host (join_with [slash] ([''d''] @ [''a''])) c'") auto
  from ftp_home_confused [OF fs.ftp_client_axioms host_root s _ _ u d] u d show ?thesis by (auto simp: one_file_def)
qed

end
