(* ===== verification/Spec2Isabelle.thy ===== *)
theory Spec2Isabelle
  imports RefreshProps UploadSafety HttpProps AccessProps RedisProps CategoryProps FtpProps
begin

text \<open>
  A verification library of the negare API (\<open>src/apps/api\<close>), a NestJS service over PostgreSQL
  (through Prisma), Redis and a file store. A handler of the program is a definition of the same
  name; its effects are those of the monad \<open>eff\<close> of \<open>Prelude\<close>, which passes the state of the
  world along and ends with a value or an exception, and every \<open>throw\<close>, early return and
  \<open>catch\<close> of the source is a branch of it.

  The parts of the program and the theories that model them:

  \<^item> Authentication (\<open>core/auth\<close>). A login (\<open>password.service.ts\<close>) or a verified one-time
    password (\<open>otp.service.ts\<close>) identifies a user; the session store (\<open>session.service.ts\<close>)
    keeps a session per device; the token service signs access and refresh tokens; the refresh
    service rotates refresh tokens against an allow list in Redis; the controllers carry the tokens
    in the response and in an HttpOnly cookie; the guards admit a request by its access token.
    \<open>Session\<close>, \<open>Token\<close>, \<open>Refresh\<close>, \<open>Users\<close>, \<open>OtpLimit\<close>, \<open>Otp\<close>, \<open>Password\<close>, \<open>AuthConfig\<close>,
    \<open>AuthHttp\<close> and \<open>Guards\<close> hold the services of these names, over the world of \<open>AuthWorld\<close>
    (Redis, database, clock, supply of random values).
  \<^item> Uploads (\<open>core/upload\<close>). A file comes in chunks, in any order and more than once, into a
    temporary file; its progress is a record in a state store, changed by compare-and-set under a
    lock; the finished file goes to the remote storage and is recorded as media. \<open>UploadTypes\<close>,
    \<open>UploadService\<close> (\<open>upload.service.ts\<close>), \<open>UploadStore\<close> and \<open>UploadWorld\<close> (the interfaces it
    works on and the doubles of the tests), \<open>UploadRedis\<close> and \<open>UploadCas\<close>
    (\<open>upload.state.redis.ts\<close>), \<open>Ftp\<close> (\<open>storage.ftp.ts\<close>).
  \<^item> The catalogue (\<open>catalog\<close>). Products with authors, categories, tags, likes, bookmarks,
    downloads and counters in the database. \<open>Product\<close> (\<open>product.service.ts\<close>,
    \<open>product.mapper.ts\<close>), \<open>Engagement\<close> (likes, bookmarks, downloads, counters), \<open>Categories\<close>
    (categories and tags), over the tables of \<open>CatalogDb\<close>; \<open>Cursor\<close> and \<open>Dates\<close> are the texts
    of its cursors.

  Interfaces. What is not part of the repository is an argument of the definitions, and what is
  relied upon is a locale or a named hypothesis that states its documented behaviour:
  \<open>redis_api\<close> (\<open>RedisApi\<close>, interpreted on the in-memory client of the repository's tests,
  \<open>FakeRedis\<close>), \<open>kv_redis\<close> (\<open>KvRedis\<close>, interpreted on a server that keeps a map with expiry),
  \<open>one_client\<close> (\<open>HttpFacts\<close>, both views of one client), \<open>upload_store\<close> and
  \<open>storage_driver\<close> (\<open>UploadStore\<close>, \<open>UploadWorld\<close>, interpreted on the doubles of the tests and,
  for the store, on \<open>RedisUploadStateStore\<close> itself), \<open>ftp_client\<close> (\<open>Ftp\<close>, interpreted on
  a server that keeps directories and files), \<open>catalog_db\<close> (\<open>CatalogClient\<close>, interpreted
  on the database that keeps the tables), \<open>keyset\<close> (\<open>Keyset\<close>, interpreted on the four lists of
  the catalogue in \<open>CatalogPages\<close>). \<open>jwt_lib_ok\<close> states what \<open>jsonwebtoken\<close> promises,
  \<open>dates_ok\<close> that \<open>new Date\<close> reads what \<open>toISOString\<close> wrote. bcrypt, SMS, mail, MIME
  detection and the Prisma queries of the user tables are functions of the environment records.

  The lemmas. \<open>SessionFacts\<close> and \<open>RefreshFacts\<close>: the effect of each operation on what can be
  observed of Redis; \<open>SessionProps\<close> and \<open>RefreshProps\<close>: a session can be read back, listed,
  closed; a refresh token is used once, closed sessions and forged tokens are refused.
  \<open>OtpFacts\<close>, \<open>PasswordFacts\<close>, \<open>AuthFlow\<close>, \<open>AuthProps\<close>, \<open>LoginProps\<close>: the invariant of the
  keys of one-time passwords through runs of requests, by which a password is set only with a
  ticket of a code that was sent; the decision table of \<open>verifyOtp\<close>. \<open>HttpFacts\<close>, \<open>HttpProps\<close>,
  \<open>AccessProps\<close>: the same through the controllers and guards. \<open>UploadFacts\<close> to \<open>UploadRun\<close>,
  \<open>UploadProps\<close>, \<open>UploadSafety\<close>: the invariant of the upload service on every branch, in a
  program logic (\<open>Hoare\<close>), and the integrity of the stored file. \<open>RedisProps\<close>: the Redis store
  refines the interface; its updates are serializable on separate connections and are not on one.
  \<open>FtpProps\<close>: where the FTP driver puts a file and where it looks for it.
  \<open>Keyset\<close>, \<open>CatalogPages\<close>, \<open>CatalogProps\<close>, \<open>ProductProps\<close>, \<open>CategoryProps\<close>: lists followed
  by their cursors are complete (and the one by popularity is not), likes are counted under
  interleaving, changes of products are guarded and atomic, and which operations on categories
  keep the chains of parents finite.

  Bounds. Recursion that may not end is bounded or partial: \<open>breadcrumbs\<close> is a
  \<open>partial_function\<close> whose value \<open>None\<close> is "does not return". \<open>lock_spin\<close> takes the number of
  rounds that fit between the first try and the deadline, one more than can be needed;
  \<open>retry_from\<close> the configured attempts; \<open>flush_scan\<close> a number of scans, \<open>None\<close> beyond it;
  \<open>tree_from\<close> one level more than there are rows, more than any tree has; \<open>load_all\<close> one request
  more than there are rows, which the theorems show to be enough.

  Deviations. Characters are code units below 256, so names outside Latin-1 are not covered, and
  the Persian texts of exceptions are left out. Numbers of the configuration, prices and increments
  are whole; \<open>BigInt\<close> does not read \<open>0x\<close>, \<open>0o\<close> and \<open>0b\<close>. Times are milliseconds, as the
  program reads them, where the columns of the database hold microseconds. The fields of a request
  object are those that have passed validation. A list ordered by columns that do not identify
  its rows is not specified by \<open>catalog_db\<close>. Log lines are left out.

  Not modelled: the composition of the application (modules, \<open>main.ts\<close>, the Joi schema of the
  environment), the adapters that only call a provider or the file system (mail, SMS, S3, the
  local product store), the validation and documentation decorators of request objects, logging,
  tracing and the response envelope, and the controllers of the catalogue, of users and of roles,
  which pass their arguments to the services. \<open>PROJECT.json\<close> lists each with its reason.
\<close>

end
